(* ===== verification/Prelude.thy ===== *)
theory Prelude
  imports Main "HOL-Library.Sublist" "HOL-Library.AList" "HOL-Library.Char_ord"
    "HOL-Library.List_Lexorder"
begin

text \<open>
  Shared vocabulary of the development: the Go integers, times and durations the
  sources use, Go maps as association lists with distinct keys, the functions of
  package \<open>strings\<close> the sources call, and the list lemmas the
  components share.

  Times are nanoseconds since the zero time of Go, so that \<open>IsZero\<close> is
  equality with 0; durations are signed nanosecond counts.  Both are \<open>int\<close>,
  and the two places where the machine width shows (the saturating
  \<open>Time.Sub\<close> and the product of a duration with a constant) have the
  saturation and the wrap-around written out.  Strings are byte strings, one
  \<open>char\<close> per byte.
\<close>

named_theorems go_defs \<open>definitions of the small Go library functions\<close>
named_theorems amap \<open>lookup, keys and length of Go maps\<close>

section \<open>Integers, times and durations\<close>

type_synonym gotime = int
type_synonym duration = int

definition wrap64 :: "int \<Rightarrow> int" where
  "wrap64 x = (x + 2 ^ 63) mod 2 ^ 64 - 2 ^ 63"

definition time_sub :: "gotime \<Rightarrow> gotime \<Rightarrow> duration" where
  "time_sub t u = max (- (2 ^ 63)) (min (2 ^ 63 - 1) (t - u))"

definition is_zero_time :: "gotime \<Rightarrow> bool" where
  "is_zero_time t \<longleftrightarrow> t = 0"

text \<open>Division truncates towards zero; the divisors of the sources are positive constants.\<close>

definition go_div :: "int \<Rightarrow> int \<Rightarrow> int" where
  "go_div a b = (if a < 0 then - ((- a) div b) else a div b)"

definition go_rem :: "int \<Rightarrow> int \<Rightarrow> int" where
  "go_rem a b = a - b * go_div a b"

lemma go_div_nonneg [simp]: "0 \<le> a \<Longrightarrow> go_div a b = a div b"
  by (simp add: go_div_def)

lemma go_rem_nonneg [simp]: "0 \<le> a \<Longrightarrow> go_rem a b = a mod b"
  by (simp add: go_rem_def minus_mult_div_eq_mod)

definition second :: duration where
  "second = 1000000000"

lemma wrap64_id [simp]:
  assumes "- (2 ^ 63) \<le> x" "x < 2 ^ 63"
  shows "wrap64 x = x"
  using assms by (simp add: wrap64_def)

lemma wrap64_range: "- (2 ^ 63) \<le> wrap64 x \<and> wrap64 x < 2 ^ 63"
proof -
  have "0 \<le> (x + 2 ^ 63) mod 2 ^ 64" "(x + 2 ^ 63) mod 2 ^ 64 < (2 ^ 64 :: int)"
    by simp_all
  then show ?thesis by (simp add: wrap64_def)
qed

lemma time_sub_mono: "t \<le> t' \<Longrightarrow> time_sub t u \<le> time_sub t' u"
  by (auto simp: time_sub_def)

lemma time_sub_nonneg: "u \<le> t \<Longrightarrow> 0 \<le> time_sub t u"
  by (simp add: time_sub_def)

lemma time_sub_self [simp]: "time_sub t t = 0"
  by (simp add: time_sub_def)

lemma time_sub_exact:
  "- (2 ^ 63) \<le> t - u \<Longrightarrow> t - u < 2 ^ 63 \<Longrightarrow> time_sub t u = t - u"
  by (simp add: time_sub_def)

lemma time_sub_le: "u \<le> t \<Longrightarrow> time_sub t u \<le> t - u"
  by (simp add: time_sub_def)

lemma time_sub_less_iff:
  "- (2 ^ 63) < w \<Longrightarrow> w < 2 ^ 63 \<Longrightarrow> time_sub t u < w \<longleftrightarrow> t - u < w"
  by (auto simp: time_sub_def)

section \<open>Go maps\<close>

text \<open>
  A Go map is an association list with distinct keys; \<open>map_of\<close> is the
  lookup, \<open>AList.update\<close> the assignment and \<open>AList.delete\<close>
  the built-in \<open>delete\<close>.  No statement of the development depends on the
  order of the list.
\<close>

type_synonym ('k, 'v) gomap = "('k \<times> 'v) list"

abbreviation gm_dom :: "('k, 'v) gomap \<Rightarrow> 'k set" where
  "gm_dom m \<equiv> fst ` set m"

abbreviation gm_ok :: "('k, 'v) gomap \<Rightarrow> bool" where
  "gm_ok m \<equiv> distinct (map fst m)"

lemma gm_get_update [amap]:
  "map_of (AList.update k v m) k' = (if k' = k then Some v else map_of m k')"
  by (simp add: update_conv')

lemma gm_get_delete [amap]:
  "map_of (AList.delete k m) k' = (if k' = k then None else map_of m k')"
  by (simp add: delete_conv')

lemma gm_dom_update [amap]: "gm_dom (AList.update k v m) = insert k (gm_dom m)"
  by (simp add: dom_update)

lemma gm_dom_delete [amap]: "gm_dom (AList.delete k m) = gm_dom m - {k}"
  by (induction m) auto

lemma gm_ok_update [amap]: "gm_ok m \<Longrightarrow> gm_ok (AList.update k v m)"
  by (rule distinct_update)

lemma gm_ok_delete [amap]: "gm_ok m \<Longrightarrow> gm_ok (AList.delete k m)"
  by (rule distinct_delete)

lemma gm_ok_filter [amap]: "gm_ok m \<Longrightarrow> gm_ok (filter P m)"
  by (rule distinct_map_filter)

lemma gm_none_iff [amap]: "map_of m k = None \<longleftrightarrow> k \<notin> gm_dom m"
  by (simp add: map_of_eq_None_iff)

lemma gm_someD: "map_of m k = Some v \<Longrightarrow> k \<in> gm_dom m"
  by (metis map_of_SomeD fst_conv image_eqI)

lemma gm_some_ex: "k \<in> gm_dom m \<Longrightarrow> \<exists>v. map_of m k = Some v"
  using gm_none_iff [of m k] by (cases "map_of m k") auto

lemma gm_length: "gm_ok m \<Longrightarrow> length m = card (gm_dom m)"
  using distinct_card [of "map fst m"] by simp

lemma gm_length_update:
  "length (AList.update k v m) = (if k \<in> gm_dom m then length m else Suc (length m))"
  by (induction m) auto

lemma gm_length_delete:
  "gm_ok m \<Longrightarrow> k \<in> gm_dom m \<Longrightarrow> Suc (length (AList.delete k m)) = length m"
  by (induction m) (auto simp: delete_idem)

lemma gm_get_filter:
  assumes "gm_ok m"
  shows "map_of (filter P m) k =
    (case map_of m k of None \<Rightarrow> None | Some v \<Rightarrow> if P (k, v) then Some v else None)"
  using assms
proof (induction m)
  case (Cons kv m)
  then show ?case
  proof (cases "fst kv = k")
    case True
    with Cons.prems have "map_of m k = None" "map_of (filter P m) k = None"
      by (auto simp: map_of_eq_None_iff image_iff)
    with True show ?thesis by (cases kv) auto
  qed (cases kv, auto)
qed simp

lemma gm_dom_eq: "gm_dom m = dom (map_of m)"
  by (simp add: dom_map_of_conv_image_fst)

section \<open>Lists\<close>

definition last_n :: "nat \<Rightarrow> 'a list \<Rightarrow> 'a list" where
  "last_n n xs = drop (length xs - n) xs"

lemma last_n_short: "length xs \<le> n \<Longrightarrow> last_n n xs = xs"
  by (simp add: last_n_def)

lemma length_last_n [simp]: "length (last_n n xs) = min n (length xs)"
  by (simp add: last_n_def)

lemma last_n_snoc_full:
  "0 < n \<Longrightarrow> n \<le> length xs \<Longrightarrow> last_n n (xs @ [x]) = tl (last_n n xs) @ [x]"
  by (simp add: last_n_def tl_drop drop_Suc [symmetric] Suc_diff_le flip: drop_Suc)

lemma last_n_snoc_short:
  "length xs < n \<Longrightarrow> last_n n (xs @ [x]) = xs @ [x]"
  by (simp add: last_n_def)

lemma last_n_append_long: "n \<le> length ys \<Longrightarrow> last_n n (xs @ ys) = last_n n ys"
  by (simp add: last_n_def)

lemma last_n_append_last_n: "last_n n (last_n n xs @ ys) = last_n n (xs @ ys)"
proof (cases "length xs \<le> n")
  case True
  then show ?thesis by (simp add: last_n_short)
next
  case False
  have "xs @ ys = take (length xs - n) xs @ (last_n n xs @ ys)"
    by (simp add: last_n_def)
  then have "last_n n (xs @ ys) = last_n n (take (length xs - n) xs @ (last_n n xs @ ys))"
    by (rule arg_cong)
  then show ?thesis
    using False by (subst (asm) last_n_append_long) simp_all
qed

lemma set_last_n: "set (last_n n xs) \<subseteq> set xs"
  by (simp add: last_n_def set_drop_subset)

lemma filter_neq_idle: "x \<notin> set xs \<Longrightarrow> filter (\<lambda>y. y \<noteq> x) xs = xs"
  by (induction xs) auto

lemma length_filter_neq:
  "distinct xs \<Longrightarrow> x \<in> set xs \<Longrightarrow> length (filter (\<lambda>y. y \<noteq> x) xs) + 1 = length xs"
  by (induction xs) (auto simp: filter_neq_idle)

lemma filter_full: "length (filter P xs) = length xs \<Longrightarrow> filter P xs = xs"
  by (metis filter_True length_filter_less less_irrefl_nat)

lemma distinct_remove1_filter: "distinct xs \<Longrightarrow> remove1 x xs = filter (\<lambda>y. y \<noteq> x) xs"
  by (induction xs) (auto simp: filter_neq_idle)

lemma replicate_numeral_unfold: "replicate (numeral k) x = x # replicate (pred_numeral k) x"
  by (simp add: numeral_eq_Suc)

section \<open>Strings\<close>

text \<open>
  The functions of package \<open>strings\<close>.  \<open>prefix\<close>,
  \<open>suffix\<close> and \<open>sublist\<close> of the library are
  \<open>HasPrefix\<close>, \<open>HasSuffix\<close> and \<open>Contains\<close>;
  \<open>ToLower\<close> and \<open>ToUpper\<close> are the ASCII case maps.
\<close>

abbreviation has_prefix :: "string \<Rightarrow> string \<Rightarrow> bool" where
  "has_prefix s p \<equiv> prefix p s"

abbreviation has_suffix :: "string \<Rightarrow> string \<Rightarrow> bool" where
  "has_suffix s p \<equiv> suffix p s"

abbreviation str_contains :: "string \<Rightarrow> string \<Rightarrow> bool" where
  "str_contains s p \<equiv> sublist p s"

definition char_lower :: "char \<Rightarrow> char" where
  "char_lower c = (let n = of_char c :: nat in if 65 \<le> n \<and> n \<le> 90 then char_of (n + 32) else c)"

definition to_lower :: "string \<Rightarrow> string" where
  "to_lower = map char_lower"

definition is_space :: "char \<Rightarrow> bool" where
  "is_space c \<longleftrightarrow> (let n = of_char c :: nat in n = 32 \<or> (9 \<le> n \<and> n \<le> 13))"

definition trim_left :: "(char \<Rightarrow> bool) \<Rightarrow> string \<Rightarrow> string" where
  "trim_left P = dropWhile P"

definition trim_right :: "(char \<Rightarrow> bool) \<Rightarrow> string \<Rightarrow> string" where
  "trim_right P s = rev (dropWhile P (rev s))"

definition trim_space :: "string \<Rightarrow> string" where
  "trim_space s = trim_right is_space (trim_left is_space s)"

definition trim_prefix :: "string \<Rightarrow> string \<Rightarrow> string" where
  "trim_prefix s p = (if prefix p s then drop (length p) s else s)"

definition trim_suffix :: "string \<Rightarrow> string \<Rightarrow> string" where
  "trim_suffix s p = (if suffix p s then take (length s - length p) s else s)"

fun str_join :: "string list \<Rightarrow> string \<Rightarrow> string" where
  "str_join [] sep = []"
| "str_join [x] sep = x"
| "str_join (x # y # xs) sep = x @ sep @ str_join (y # xs) sep"

text \<open>\<open>strings.Split\<close> at a character, \<open>strings.Fields\<close>, and the lines of
  \<open>bufio.Scanner\<close>: each without its end mark, up to the first line that does not fit
  the 64 KB buffer, with the flag that there was one.\<close>

fun split_by :: "(char \<Rightarrow> bool) \<Rightarrow> string \<Rightarrow> string list" where
  "split_by P [] = [[]]"
| "split_by P (x # xs) =
    (if P x then [] # split_by P xs
     else case split_by P xs of [] \<Rightarrow> [[x]] | f # fs \<Rightarrow> (x # f) # fs)"

abbreviation split_on :: "char \<Rightarrow> string \<Rightarrow> string list" where
  "split_on c \<equiv> split_by (\<lambda>x. x = c)"

definition str_fields :: "string \<Rightarrow> string list" where
  "str_fields s = filter (\<lambda>f. f \<noteq> []) (split_by is_space s)"

definition drop_cr :: "string \<Rightarrow> string" where
  "drop_cr l = (if l \<noteq> [] \<and> last l = CHR 0x0D then butlast l else l)"

definition raw_lines :: "string \<Rightarrow> string list" where
  "raw_lines s = (let ls = split_on (CHR 0x0A) s in if last ls = [] then butlast ls else ls)"

definition scan_lines :: "string \<Rightarrow> string list \<times> bool" where
  "scan_lines s =
    (let short = (\<lambda>l. length l < 64 * 1024)
     in (map drop_cr (takeWhile short (raw_lines s)), \<not> list_all short (raw_lines s)))"

lemma split_by_nonempty [simp]: "split_by P s \<noteq> []"
  by (cases s) (auto split: list.split)

lemma split_by_none: "\<forall>c \<in> set s. \<not> P c \<Longrightarrow> split_by P s = [s]"
  by (induction s) auto

lemma split_by_append:
  assumes "\<forall>c \<in> set s. \<not> P c" "P d"
  shows "split_by P (s @ d # t) = s # split_by P t"
  using assms by (induction s) auto

lemma raw_lines_cons:
  assumes "CHR 0x0A \<notin> set l"
  shows "raw_lines (l @ CHR 0x0A # rest) = l # raw_lines rest"
proof -
  have "split_on (CHR 0x0A) (l @ CHR 0x0A # rest) = l # split_on (CHR 0x0A) rest"
    using assms by (intro split_by_append) auto
  then show ?thesis by (simp add: raw_lines_def Let_def)
qed

lemma raw_lines_Nil [simp]: "raw_lines [] = []"
  by (simp add: raw_lines_def)

lemma char_lower_code:
  "(of_char (char_lower c) :: nat) =
    (let n = of_char c in if 65 \<le> n \<and> n \<le> 90 then n + 32 else n)"
  by (simp add: char_lower_def Let_def take_bit_eq_mod)

lemma char_lower_fixed:
  "char_lower c = d \<Longrightarrow> of_char d < (97 :: nat) \<Longrightarrow> c = d"
proof (cases "65 \<le> (of_char c :: nat) \<and> (of_char c :: nat) \<le> 90")
  case True
  assume a: "char_lower c = d" "of_char d < (97 :: nat)"
  have "(of_char d :: nat) = of_char c + 32"
    using char_lower_code [of c] unfolding a(1) Let_def if_P [OF True] .
  then show ?thesis using True a(2) by linarith
next
  case False
  assume "char_lower c = d"
  then show ?thesis using False by (simp only: char_lower_def Let_def if_False)
qed

lemma char_lower_idem [simp]: "char_lower (char_lower c) = char_lower c"
  by (auto simp: char_lower_def Let_def)

lemma to_lower_idem [simp]: "to_lower (to_lower s) = to_lower s"
  by (simp add: to_lower_def comp_def)

lemma length_to_lower [simp]: "length (to_lower s) = length s"
  by (simp add: to_lower_def)

lemma to_lower_append [simp]: "to_lower (s @ t) = to_lower s @ to_lower t"
  by (simp add: to_lower_def)

lemma to_lower_Nil [simp]: "to_lower [] = []" "to_lower s = [] \<longleftrightarrow> s = []"
  by (simp_all add: to_lower_def)

lemma to_lower_prefix: "prefix p s \<Longrightarrow> prefix (to_lower p) (to_lower s)"
  by (auto simp: prefix_def)

lemma to_lower_suffix: "suffix p s \<Longrightarrow> suffix (to_lower p) (to_lower s)"
  by (auto simp: suffix_def)

lemma to_lower_sublist: "sublist p s \<Longrightarrow> sublist (to_lower p) (to_lower s)"
  by (auto simp: sublist_def) metis

lemma str_join_Nil_iff: "str_join xs sep = [] \<longleftrightarrow> xs = [] \<or> xs = [[]] \<or> (sep = [] \<and> set xs = {[]})"
  by (induction xs sep rule: str_join.induct) auto

section \<open>Decimal numbers\<close>

text \<open>\<open>%d\<close> and \<open>strconv.Atoi\<close> on strings of digits.\<close>

definition digit_char :: "nat \<Rightarrow> char" where
  "digit_char d = char_of (48 + d)"

definition is_digit :: "char \<Rightarrow> bool" where
  "is_digit c \<longleftrightarrow> (let n = of_char c :: nat in 48 \<le> n \<and> n \<le> 57)"

definition digit_val :: "char \<Rightarrow> int" where
  "digit_val c = of_char c - 48"

fun show_nat :: "nat \<Rightarrow> string" where
  "show_nat n = (if n < 10 then [digit_char n] else show_nat (n div 10) @ [digit_char (n mod 10)])"

declare show_nat.simps [simp del]

definition show_int :: "int \<Rightarrow> string" where
  "show_int i = (if i < 0 then ''-'' @ show_nat (nat (- i)) else show_nat (nat i))"

definition parse_digits :: "string \<Rightarrow> int" where
  "parse_digits = foldl (\<lambda>a c. a * 10 + digit_val c) 0"

definition atoi_digits :: "string \<Rightarrow> int option" where
  "atoi_digits s = (if s = [] \<or> \<not> list_all is_digit s \<or> 2 ^ 63 \<le> parse_digits s then None
     else Some (parse_digits s))"

lemma digit_char_props [simp]:
  assumes "d < 10"
  shows "is_digit (digit_char d)" "digit_val (digit_char d) = int d"
  using assms of_nat_of_char [of "digit_char d", where ?'a = int, symmetric]
  by (simp_all add: digit_char_def is_digit_def digit_val_def)

lemma show_nat_digits: "list_all is_digit (show_nat n)"
  by (induction n rule: show_nat.induct) (subst show_nat.simps, simp)

lemma show_nat_nonempty [simp]: "show_nat n \<noteq> []"
  by (subst show_nat.simps) simp

lemma parse_show_nat [simp]: "parse_digits (show_nat n) = int n"
  by (induction n rule: show_nat.induct) (subst show_nat.simps, simp add: parse_digits_def zdiv_int zmod_int)

lemma show_nat_inj: "show_nat m = show_nat n \<Longrightarrow> m = n"
  by (metis parse_show_nat of_nat_eq_iff)

lemma atoi_show_nat: "n < 2 ^ 63 \<Longrightarrow> atoi_digits (show_nat n) = Some (int n)"
  by (simp add: atoi_digits_def show_nat_digits)

section \<open>The parsed log line\<close>

text \<open>
  \<open>parser.LogEntry\<close> is a data type of the external parser package; the
  record has the fields the sources read or write.
\<close>

record LogEntry =
  RemoteAddr :: string
  RealIP :: string
  RemoteUser :: string
  Time :: gotime
  Method :: string
  Path :: string
  Query :: string
  RawURI :: string
  Protocol :: string
  Status :: int
  BytesSent :: int
  Referer :: string
  UserAgent :: string
  ChainIssue :: string

definition blank_entry :: LogEntry where
  "blank_entry = \<lparr>RemoteAddr = [], RealIP = [], RemoteUser = [], Time = 0, Method = [], Path = [],
     Query = [], RawURI = [], Protocol = [], Status = 0, BytesSent = 0, Referer = [],
     UserAgent = [], ChainIssue = []\<rparr>"

end
