(* ===== verification/Float64.thy ===== *)
theory Float64
  imports Prelude "HOL-Library.Log_Nat" Complex_Main
begin

text \<open>
  The \<open>float64\<close> arithmetic of Go on the values the program computes with.
  A finite float is a rational; every operation is the exact rational operation
  followed by \<open>fl64\<close>, the rounding to 53 significant bits with ties to
  even.  The exponent is unbounded: the program only forms quotients and products
  of 64-bit integers, whose magnitudes stay between \<open>2 ^ -200\<close> and
  \<open>2 ^ 200\<close>, far inside the normal range.

  The locale \<open>rounding\<close> is the contract the client code relies on:
  rounding is monotone and exact on the integers up to \<open>2 ^ 53\<close>, with a
  relative error of at most one unit in \<open>2 ^ 53\<close>.  The bounds
  on decay and on rates are proved once from these laws; the interpretation at the
  end discharges them for \<open>fl64\<close>.
\<close>

section \<open>Rounding to 53 bits\<close>

definition round_even :: "rat \<Rightarrow> int" where
  "round_even r =
    (let f = \<lfloor>r\<rfloor>; d = r - of_int f
     in if d < 1 / 2 then f else if d > 1 / 2 then f + 1
        else if even f then f else f + 1)"

definition exponent2 :: "rat \<Rightarrow> int" where
  "exponent2 r =
    (let pq = quotient_of r; e = bitlen (fst pq) - bitlen (snd pq)
     in if 2 powi e \<le> r then e else e - 1)"

definition flpos :: "rat \<Rightarrow> rat" where
  "flpos r = (let u = 2 powi (exponent2 r - 52) in of_int (round_even (r / u)) * u)"

definition fl64 :: "rat \<Rightarrow> rat" where
  "fl64 r = (if r = 0 then 0 else if 0 < r then flpos r else - flpos (- r))"

text \<open>Conversion from an integer, the four operations, and the conversion
  \<open>int(x)\<close> that truncates towards zero.\<close>

definition f_int :: "int \<Rightarrow> rat" where
  "f_int i = fl64 (of_int i)"

definition f_add :: "rat \<Rightarrow> rat \<Rightarrow> rat" where
  "f_add x y = fl64 (x + y)"

definition f_sub :: "rat \<Rightarrow> rat \<Rightarrow> rat" where
  "f_sub x y = fl64 (x - y)"

definition f_mul :: "rat \<Rightarrow> rat \<Rightarrow> rat" where
  "f_mul x y = fl64 (x * y)"

definition f_div :: "rat \<Rightarrow> rat \<Rightarrow> rat" where
  "f_div x y = fl64 (x / y)"

definition f_trunc :: "rat \<Rightarrow> int" where
  "f_trunc x = (if x < 0 then \<lceil>x\<rceil> else \<lfloor>x\<rfloor>)"

lemmas f_ops = f_int_def f_add_def f_sub_def f_mul_def f_div_def

section \<open>The contract of a rounding\<close>

locale rounding =
  fixes fl :: "rat \<Rightarrow> rat"
  assumes mono: "x \<le> y \<Longrightarrow> fl x \<le> fl y"
    and exact: "\<bar>n\<bar> \<le> 2 ^ 53 \<Longrightarrow> fl (of_int n) = of_int n"
    and rel_err: "\<bar>fl x - x\<bar> \<le> \<bar>x\<bar> / 2 ^ 53"
begin

lemma zero: "fl 0 = 0"
  using exact [of 0] by simp

lemma one: "fl 1 = 1"
  using exact [of 1] by simp

lemma nonneg: "0 \<le> x \<Longrightarrow> 0 \<le> fl x"
  using mono [of 0 x] by (simp add: zero)

lemma le_one: "x \<le> 1 \<Longrightarrow> fl x \<le> 1"
  using mono [of x 1] by (simp add: one)

lemma pos: "0 < x \<Longrightarrow> 0 < fl x"
proof -
  assume x: "0 < x"
  have "fl x \<ge> x - x / 2 ^ 53"
    using rel_err [of x] x by linarith
  moreover have "x / 2 ^ 53 < x"
    using x by (simp add: field_simps)
  ultimately show ?thesis by linarith
qed

text \<open>The quotient of two ordered lengths lies in the unit interval.\<close>

lemma ratio_unit:
  assumes "0 \<le> a" "a \<le> b" "0 < b"
  shows "0 \<le> fl (fl a / fl b)" "fl (fl a / fl b) \<le> 1"
proof -
  have b: "0 < fl b" using assms(3) by (rule pos)
  show "0 \<le> fl (fl a / fl b)"
    using b nonneg [OF assms(1)] by (intro nonneg) simp
  show "fl (fl a / fl b) \<le> 1"
    using b mono [OF assms(2)] by (intro le_one) simp
qed

lemma ratio_mono:
  assumes "a \<le> a'" "0 < b"
  shows "fl (fl a / fl b) \<le> fl (fl a' / fl b)"
  using mono [OF assms(1)] pos [OF assms(2)]
  by (intro mono) (simp add: divide_right_mono)

lemma remaining_unit:
  assumes "0 \<le> a" "a \<le> b" "0 < b"
  shows "0 \<le> fl (1 - fl (fl a / fl b))" "fl (1 - fl (fl a / fl b)) \<le> 1"
  using ratio_unit [OF assms] by (auto intro: nonneg le_one)

lemma remaining_antimono:
  assumes "a \<le> a'" "0 < b"
  shows "fl (1 - fl (fl a' / fl b)) \<le> fl (1 - fl (fl a / fl b))"
  using ratio_mono [OF assms] by (intro mono) simp

text \<open>Scaling an exactly represented count by a factor of the unit interval.\<close>

lemma scaled_bounds:
  assumes "0 \<le> c" "c \<le> 2 ^ 53" "0 \<le> u" "u \<le> 1"
  shows "0 \<le> fl (fl (of_int c) * u)" "fl (fl (of_int c) * u) \<le> of_int c"
proof -
  have c: "fl (of_int c) = of_int c"
    using assms(1,2) by (intro exact) simp
  show "0 \<le> fl (fl (of_int c) * u)"
    using assms c by (intro nonneg) simp
  have "of_int c * u \<le> of_int c"
    using assms by (simp add: mult_left_le)
  then show "fl (fl (of_int c) * u) \<le> of_int c"
    using mono [of "of_int c * u" "of_int c"] c by simp
qed

lemma scaled_mono:
  assumes "0 \<le> c" "u \<le> u'"
  shows "fl (fl (of_int c) * u) \<le> fl (fl (of_int c) * u')"
  using assms nonneg [of "of_int c"] by (intro mono mult_left_mono) simp_all

text \<open>How far the rounded product is from the exact value: three roundings, each of at
  most \<open>2 ^ -53\<close> relative to a value of the unit interval.\<close>

lemma unit_err: "0 \<le> x \<Longrightarrow> x \<le> 1 \<Longrightarrow> \<bar>fl x - x\<bar> \<le> 1 / 2 ^ 53"
  using rel_err [of x] divide_right_mono [of x 1 "2 ^ 53"] by (simp add: abs_of_nonneg)

lemma remaining_err:
  assumes a: "0 \<le> a" "a \<le> b" "0 < b" "b \<le> 2 ^ 53"
  shows "\<bar>fl (1 - fl (fl (of_int a) / fl (of_int b))) - (1 - of_int a / of_int b)\<bar> \<le> 2 / 2 ^ 53"
proof -
  have ex: "fl (of_int a) = of_int a" "fl (of_int b) = of_int b"
    using a by (auto intro!: exact)
  define q where "q = fl (of_int a / of_int b)"
  have "\<bar>q - of_int a / of_int b\<bar> \<le> 1 / 2 ^ 53"
    unfolding q_def using a by (intro unit_err) simp_all
  moreover have "\<bar>fl (1 - q) - (1 - q)\<bar> \<le> 1 / 2 ^ 53"
    unfolding q_def using ratio_unit [of "of_int a" "of_int b"] a ex by (intro unit_err) simp_all
  ultimately show ?thesis unfolding ex q_def [symmetric] by linarith
qed

lemma scaled_remaining_err:
  assumes a: "0 \<le> a" "a \<le> b" "0 < b" "b \<le> 2 ^ 53" and c: "0 \<le> c" "c \<le> 2 ^ 53"
  shows "\<bar>fl (fl (of_int c) * fl (1 - fl (fl (of_int a) / fl (of_int b))))
      - of_int c * (1 - of_int a / of_int b)\<bar> \<le> 3 * of_int c / 2 ^ 53"
proof -
  define u where "u = fl (1 - fl (fl (of_int a) / fl (of_int b)))"
  have u: "0 \<le> u" "u \<le> 1" using remaining_unit [of "of_int a" "of_int b"] a by (simp_all add: u_def)
  have ex: "fl (of_int c) = of_int c" using c by (intro exact) simp
  have "\<bar>fl (of_int c * u) - of_int c * u\<bar> \<le> \<bar>of_int c * u\<bar> / 2 ^ 53" by (rule rel_err)
  also have "\<dots> \<le> of_int c / 2 ^ 53"
    using c u by (intro divide_right_mono) (simp_all add: mult_left_le abs_mult)
  finally have r: "\<bar>fl (of_int c * u) - of_int c * u\<bar> \<le> of_int c / 2 ^ 53" .
  have "\<bar>of_int c * u - of_int c * (1 - of_int a / of_int b)\<bar> = of_int c * \<bar>u - (1 - of_int a / of_int b)\<bar>"
    using c by (simp add: abs_mult flip: right_diff_distrib)
  also have "\<dots> \<le> of_int c * (2 / 2 ^ 53)"
    unfolding u_def using c remaining_err [OF a] by (intro mult_left_mono) simp_all
  finally have t: "\<bar>of_int c * u - of_int c * (1 - of_int a / of_int b)\<bar> \<le> of_int c * (2 / 2 ^ 53)" .
  have "\<bar>fl (of_int c * u) - of_int c * (1 - of_int a / of_int b)\<bar>
      \<le> of_int c / 2 ^ 53 + of_int c * (2 / 2 ^ 53)"
    using abs_triangle_ineq [of "fl (of_int c * u) - of_int c * u"
        "of_int c * u - of_int c * (1 - of_int a / of_int b)"] r t by simp
  then show ?thesis unfolding ex u_def [symmetric] by simp
qed

end

section \<open>The rounding of IEEE double precision\<close>

lemma round_even_mono: "r \<le> s \<Longrightarrow> round_even r \<le> round_even s"
proof -
  assume le: "r \<le> s"
  have bounds: "\<lfloor>x\<rfloor> \<le> round_even x \<and> round_even x \<le> \<lfloor>x\<rfloor> + 1" for x
    by (simp add: round_even_def Let_def)
  show ?thesis
  proof (cases "\<lfloor>r\<rfloor> = \<lfloor>s\<rfloor>")
    case True
    then show ?thesis using le by (auto simp: round_even_def Let_def)
  next
    case False
    then have "\<lfloor>r\<rfloor> + 1 \<le> \<lfloor>s\<rfloor>" using floor_mono [OF le] by linarith
    then show ?thesis using bounds [of r] bounds [of s] by linarith
  qed
qed

lemma round_even_of_int [simp]: "round_even (of_int n) = n"
  by (simp add: round_even_def)

lemma round_even_err: "\<bar>of_int (round_even r) - r\<bar> \<le> 1 / 2"
proof -
  have "of_int \<lfloor>r\<rfloor> \<le> r" "r < of_int \<lfloor>r\<rfloor> + 1"
    by linarith+
  then show ?thesis
    by (auto simp: round_even_def Let_def abs_le_iff not_less)
qed

lemma exponent2_bounds:
  assumes "0 < r"
  shows "2 powi exponent2 r \<le> r" "r < 2 powi (exponent2 r + 1)"
proof -
  obtain p q where pq: "quotient_of r = (p, q)" by (cases "quotient_of r")
  have q: "0 < q" using pq by (rule quotient_of_denom_pos)
  have r: "r = of_int p / of_int q" using pq by (rule quotient_of_div)
  have p: "0 < p" using assms r q by (simp add: zero_less_divide_iff)
  define e where "e = bitlen p - bitlen q"
  have bp: "2 ^ nat (bitlen p - 1) \<le> p" "p < 2 ^ nat (bitlen p)"
    using bitlen_bounds [OF p] by auto
  have bq: "2 ^ nat (bitlen q - 1) \<le> q" "q < 2 ^ nat (bitlen q)"
    using bitlen_bounds [OF q] by auto
  have lp: "bitlen p \<ge> 1" and lq: "bitlen q \<ge> 1"
    using p q bitlen_ge_iff_power by (auto simp: bitlen_ge_iff_power)
  have P: "2 powi (bitlen p - 1) \<le> (of_int p :: rat)" "(of_int p :: rat) < 2 powi (bitlen p)"
    using bp lp of_int_le_iff [of "2 ^ nat (bitlen p - 1)" p, where ?'a = rat]
      of_int_less_iff [of p "2 ^ nat (bitlen p)", where ?'a = rat]
    by (simp_all add: power_int_def)
  have Q: "2 powi (bitlen q - 1) \<le> (of_int q :: rat)" "(of_int q :: rat) < 2 powi (bitlen q)"
    using bq lq of_int_le_iff [of "2 ^ nat (bitlen q - 1)" q, where ?'a = rat]
      of_int_less_iff [of q "2 ^ nat (bitlen q)", where ?'a = rat]
    by (simp_all add: power_int_def)
  have up: "r < 2 powi (e + 1)"
  proof -
    have "r < 2 powi (bitlen p) / of_int q"
      using P(2) q r by (simp add: divide_strict_right_mono)
    also have "\<dots> \<le> 2 powi (bitlen p) / 2 powi (bitlen q - 1)"
      using Q(1) q by (intro divide_left_mono) (auto intro: mult_pos_pos)
    also have "\<dots> = 2 powi (e + 1)"
      by (simp add: e_def power_int_diff power_int_add)
    finally show ?thesis .
  qed
  have low: "2 powi (e - 1) \<le> r"
  proof -
    have "2 powi (e - 1) = 2 powi (bitlen p - 1) / (2 powi (bitlen q) :: rat)"
      by (simp add: e_def power_int_diff)
    also have "\<dots> \<le> of_int p / 2 powi (bitlen q)"
      using P(1) by (simp add: divide_right_mono)
    also have "\<dots> \<le> of_int p / of_int q"
      using Q(2) q p by (intro divide_left_mono) (auto intro: mult_pos_pos)
    finally show ?thesis using r by simp
  qed
  have e2: "exponent2 r = (if 2 powi e \<le> r then e else e - 1)"
    by (simp add: exponent2_def pq e_def)
  show "2 powi exponent2 r \<le> r" using e2 low by simp
  show "r < 2 powi (exponent2 r + 1)" using e2 up by auto
qed

lemma exponent2_mono: "0 < r \<Longrightarrow> r \<le> s \<Longrightarrow> exponent2 r \<le> exponent2 s"
proof (rule ccontr)
  assume r: "0 < r" "r \<le> s" and "\<not> exponent2 r \<le> exponent2 s"
  then have "exponent2 s + 1 \<le> exponent2 r" by simp
  then have "(2 :: rat) powi (exponent2 s + 1) \<le> 2 powi exponent2 r"
    by (intro power_int_increasing) simp_all
  also have "\<dots> \<le> s" using exponent2_bounds(1) [OF r(1)] r(2) by simp
  also have "\<dots> < 2 powi (exponent2 s + 1)" using exponent2_bounds(2) [of s] r by simp
  finally show False by simp
qed

lemma flpos_range:
  assumes "0 < r"
  shows "2 powi exponent2 r \<le> flpos r" "flpos r \<le> 2 powi (exponent2 r + 1)"
proof -
  define u :: rat where "u = 2 powi (exponent2 r - 52)"
  have u: "0 < u" by (simp add: u_def)
  have lo: "of_int (2 ^ 52) * u = 2 powi exponent2 r"
    by (simp add: u_def power_int_diff)
  have hi: "of_int (2 ^ 53) * u = 2 powi (exponent2 r + 1)"
    by (simp add: u_def power_int_diff power_int_add)
  have "of_int (2 ^ 52) \<le> r / u" "r / u \<le> of_int (2 ^ 53)"
    using exponent2_bounds [OF assms] lo hi u
    by (simp_all add: pos_le_divide_eq pos_divide_le_eq)
  then have "2 ^ 52 \<le> round_even (r / u)" "round_even (r / u) \<le> 2 ^ 53"
    using round_even_mono round_even_of_int by metis+
  then have "of_int (2 ^ 52) * u \<le> of_int (round_even (r / u)) * u"
    "of_int (round_even (r / u)) * u \<le> of_int (2 ^ 53) * u"
    using u by (intro mult_right_mono; simp)+
  then show "2 powi exponent2 r \<le> flpos r" "flpos r \<le> 2 powi (exponent2 r + 1)"
    unfolding lo hi by (simp_all add: flpos_def u_def Let_def)
qed

lemma flpos_mono: "0 < r \<Longrightarrow> r \<le> s \<Longrightarrow> flpos r \<le> flpos s"
proof -
  assume r: "0 < r" "r \<le> s"
  consider "exponent2 r = exponent2 s" | "exponent2 r + 1 \<le> exponent2 s"
    using exponent2_mono [OF r] by linarith
  then show ?thesis
  proof cases
    case 1
    have "round_even (r / 2 powi (exponent2 s - 52)) \<le> round_even (s / 2 powi (exponent2 s - 52))"
      using r(2) by (intro round_even_mono divide_right_mono) simp_all
    then show ?thesis using 1 by (simp add: flpos_def Let_def)
  next
    case 2
    have "flpos r \<le> 2 powi (exponent2 r + 1)" using r(1) by (rule flpos_range)
    also have "\<dots> \<le> 2 powi exponent2 s" using 2 by (intro power_int_increasing) simp_all
    also have "\<dots> \<le> flpos s" using r by (intro flpos_range) simp
    finally show ?thesis .
  qed
qed

lemma flpos_err: "0 < r \<Longrightarrow> \<bar>flpos r - r\<bar> \<le> r / 2 ^ 53"
proof -
  assume r: "0 < r"
  define u :: rat where "u = 2 powi (exponent2 r - 52)"
  have u: "0 < u" by (simp add: u_def)
  have "flpos r - r = (of_int (round_even (r / u)) - r / u) * u"
    using u by (simp add: flpos_def u_def Let_def left_diff_distrib)
  then have "\<bar>flpos r - r\<bar> = \<bar>of_int (round_even (r / u)) - r / u\<bar> * u"
    using u by (simp add: abs_mult)
  also have "\<dots> \<le> 1 / 2 * u"
    using round_even_err u by (intro mult_right_mono) simp_all
  also have "\<dots> = 2 powi exponent2 r / 2 ^ 53"
    by (simp add: u_def power_int_diff)
  also have "\<dots> \<le> r / 2 ^ 53"
    using exponent2_bounds(1) [OF r] by (intro divide_right_mono) simp_all
  finally show ?thesis .
qed

lemma flpos_exact:
  assumes "0 < n" "n \<le> 2 ^ 53"
  shows "flpos (of_int n) = of_int n"
proof -
  define e where "e = exponent2 (of_int n)"
  have n: "0 < (of_int n :: rat)" using assms by simp
  show ?thesis
  proof (cases "e \<le> 52")
    case True
    then have "(2 :: rat) powi (52 - e) = 2 ^ nat (52 - e)"
      by (simp add: power_int_def)
    moreover have "(2 :: rat) powi (e - 52) = inverse (2 powi (52 - e))"
      by (metis minus_diff_eq power_int_minus)
    ultimately have "(of_int n :: rat) / 2 powi (e - 52) = of_int (n * 2 ^ nat (52 - e))"
      by (simp add: divide_inverse)
    then have "flpos (of_int n) = (of_int n / 2 powi (e - 52)) * 2 powi (e - 52)"
      unfolding flpos_def Let_def e_def [symmetric] by (simp only: round_even_of_int)
    then show ?thesis by simp
  next
    case False
    then have "(2 :: rat) powi 53 \<le> 2 powi e" by (intro power_int_increasing) simp_all
    also have "\<dots> \<le> of_int n" using exponent2_bounds(1) [OF n] by (simp add: e_def)
    finally have "2 ^ 53 \<le> (of_int n :: rat)" by simp
    then have eq: "n = 2 ^ 53" using assms by simp
    have "(2 :: rat) powi e \<le> 2 powi 53"
      using exponent2_bounds(1) [OF n] by (simp add: e_def eq)
    then have "\<not> 53 < e"
      using power_int_strict_increasing [of 53 e "2 :: rat"] by (meson leD one_less_numeral_iff semiring_norm(76))
    with False have e: "e = 53" by linarith
    have "(of_int n :: rat) / 2 powi (e - 52) = of_int (2 ^ 52)"
      by (simp add: e eq)
    then have "flpos (of_int n) = of_int (2 ^ 52) * 2 powi (e - 52)"
      unfolding flpos_def Let_def e_def [symmetric] by (simp only: round_even_of_int)
    then show ?thesis by (simp add: e eq)
  qed
qed

lemma fl64_mono: "x \<le> y \<Longrightarrow> fl64 x \<le> fl64 y"
proof -
  have pos: "0 < flpos r" if "0 < r" for r
    using flpos_range(1) [OF that] by (rule less_le_trans [rotated]) simp
  show "x \<le> y \<Longrightarrow> fl64 x \<le> fl64 y"
    using pos [of "- x"] pos [of y] flpos_mono [of x y] flpos_mono [of "- y" "- x"]
    by (auto simp: fl64_def)
qed

lemma fl64_exact: "\<bar>n\<bar> \<le> 2 ^ 53 \<Longrightarrow> fl64 (of_int n) = of_int n"
  using flpos_exact [of n] flpos_exact [of "- n"] by (auto simp: fl64_def)

lemma fl64_err: "\<bar>fl64 x - x\<bar> \<le> \<bar>x\<bar> / 2 ^ 53"
proof (cases "x < 0")
  case True
  then have "\<bar>fl64 x - x\<bar> = \<bar>flpos (- x) - (- x)\<bar>"
    by (simp add: fl64_def abs_minus_commute)
  then show ?thesis using flpos_err [of "- x"] True by simp
next
  case False
  then show ?thesis using flpos_err [of x] by (auto simp: fl64_def)
qed

interpretation ieee: rounding fl64
  by unfold_locales (fact fl64_mono fl64_exact fl64_err)+

section \<open>Durations in seconds\<close>

text \<open>\<open>Duration.Seconds\<close>.\<close>

definition seconds_of :: "duration \<Rightarrow> rat" where
  "seconds_of d = f_add (f_int (go_div d second)) (f_div (f_int (go_rem d second)) (f_int second))"

lemma seconds_of_pos: "0 < d \<Longrightarrow> 0 < seconds_of d"
proof -
  assume d: "0 < d"
  have div: "0 \<le> d div second" and md: "0 \<le> d mod second"
    using d by (simp_all add: second_def pos_imp_zdiv_nonneg_iff)
  have s: "0 < fl64 (of_int second)" by (rule ieee.pos) (simp add: second_def)
  have nn: "0 \<le> fl64 (of_int (d div second))" "0 \<le> fl64 (fl64 (of_int (d mod second)) / fl64 (of_int second))"
    using div md s by (auto intro!: ieee.nonneg divide_nonneg_pos)
  have "0 < d div second \<or> 0 < d mod second"
    using d div md by (metis add.right_neutral div_mult_mod_eq less_le mult_eq_0_iff order_less_irrefl)
  then have "0 < fl64 (of_int (d div second)) \<or> 0 < fl64 (fl64 (of_int (d mod second)) / fl64 (of_int second))"
    using s by (auto intro!: ieee.pos divide_pos_pos)
  then have "0 < fl64 (of_int (d div second)) + fl64 (fl64 (of_int (d mod second)) / fl64 (of_int second))"
    using nn by linarith
  then show ?thesis using d by (simp add: seconds_of_def f_ops ieee.pos)
qed

lemma seconds_of_whole:
  assumes "0 \<le> n" "n \<le> 2 ^ 53"
  shows "seconds_of (n * second) = of_int n"
proof -
  have "0 \<le> n * second" using assms by (simp add: second_def)
  moreover have "n * second div second = n" "n * second mod second = 0" by (simp_all add: second_def)
  ultimately show ?thesis using assms ieee.exact [of n] ieee.zero by (simp add: seconds_of_def f_ops)
qed

end
