(* ===== verification/Tracker.thy ===== *)
theory Tracker
  imports Float64
begin

text \<open>
  The per-IP state store, \<open>internal/core/state/tracker.go\<close>: the record of
  one IP (counters, path ring buffer, two-counter sliding window, accumulated
  score), the tracker with its LRU list, and every operation on them.  The mutex
  makes each operation atomic, so an operation is a function on the tracker; a
  pointer to an \<open>IPState\<close> that the caller keeps is the IP, and a write
  through it is \<open>put_state\<close>.  The LRU list of the source links the
  states; here it is the list of their IPs, front first.

  Shown: the store invariant (the LRU list and the map hold the same IPs, the
  number of IPs stays within the limit) is kept by every operation; the LRU list
  is the prefix of the list of all IPs ordered by most recent use; the ring buffer
  with its cache is the list of the last 64 paths; the two rate counters are
  exact counts of the requests of the current and the previous window.
\<close>

section \<open>IPState\<close>

definition pathBufSize :: nat where
  "pathBufSize = 64"

record IPState =
  IP :: string
  FirstSeen :: gotime
  LastSeen :: gotime
  TotalRequests :: int
  Requests404 :: int
  pathBuf :: "string list"
  pathPos :: nat
  pathFull :: bool
  pathCache :: "string list"
  pathDirty :: bool
  rateWindowStart :: gotime
  rateCurrCount :: int
  ratePrevCount :: int
  st_score :: int
  scoreUpdatedAt :: gotime

definition newIPState :: "string \<Rightarrow> gotime \<Rightarrow> IPState" where
  "newIPState ip t =
    \<lparr>IP = ip, FirstSeen = t, LastSeen = 0, TotalRequests = 0, Requests404 = 0,
     pathBuf = replicate pathBufSize [], pathPos = 0, pathFull = False,
     pathCache = [], pathDirty = False,
     rateWindowStart = 0, rateCurrCount = 0, ratePrevCount = 0,
     st_score = 0, scoreUpdatedAt = 0\<rparr>"

definition rebuildPaths :: "IPState \<Rightarrow> string list" where
  "rebuildPaths st =
    (if \<not> pathFull st then take (pathPos st) (pathBuf st)
     else drop (pathPos st) (pathBuf st) @ take (pathPos st) (pathBuf st))"

definition RecentPaths :: "IPState \<Rightarrow> string list \<times> IPState" where
  "RecentPaths st =
    (if \<not> pathDirty st then (pathCache st, st)
     else let result = rebuildPaths st
          in (result, st\<lparr>pathCache := result, pathDirty := False\<rparr>))"

definition ApproxRate :: "IPState \<Rightarrow> gotime \<Rightarrow> duration \<Rightarrow> rat" where
  "ApproxRate st now window =
    (if window \<le> 0 \<or> is_zero_time (rateWindowStart st) then 0
     else
       let elapsed = time_sub now (rateWindowStart st);
           windowSec = seconds_of window
       in if elapsed \<ge> wrap64 (2 * window) then 0
          else if elapsed \<ge> window then
            let overshot = elapsed - window;
                fraction = f_div (f_int overshot) (f_int window);
                approx = f_mul (f_int (rateCurrCount st)) (f_sub 1 fraction)
            in f_div approx windowSec
          else
            let fraction = f_div (f_int elapsed) (f_int window);
                approx = f_add (f_mul (f_int (ratePrevCount st)) (f_sub 1 fraction))
                               (f_int (rateCurrCount st))
            in f_div approx windowSec)"

definition SetScore :: "int \<Rightarrow> gotime \<Rightarrow> IPState \<Rightarrow> IPState" where
  "SetScore s t st = st\<lparr>st_score := s, scoreUpdatedAt := t\<rparr>"

section \<open>Tracker\<close>

record TrackerConfig =
  cfg_RateWindow :: duration
  cfg_MaxTrackedIPs :: int
  cfg_ObservationWindow :: duration

record Tracker =
  states :: "(string, IPState) gomap"
  lru :: "string list"
  maxIPs :: int
  rateWindow :: duration
  retention :: duration

definition NewTracker :: "TrackerConfig \<Rightarrow> Tracker" where
  "NewTracker cfg =
    (let rw = cfg_RateWindow cfg; rw = (if rw \<le> 0 then 60 * second else rw)
     in \<lparr>states = [], lru = [], maxIPs = cfg_MaxTrackedIPs cfg, rateWindow = rw,
         retention = cfg_ObservationWindow cfg\<rparr>)"

definition evictLRULocked :: "Tracker \<Rightarrow> Tracker" where
  "evictLRULocked t =
    (if lru t = [] then t
     else let ip = last (lru t)
          in t\<lparr>states := AList.delete ip (states t), lru := butlast (lru t)\<rparr>)"

definition updateRateLocked :: "duration \<Rightarrow> gotime \<Rightarrow> IPState \<Rightarrow> IPState" where
  "updateRateLocked w reqTime st =
    (if is_zero_time (rateWindowStart st) then
       st\<lparr>rateWindowStart := reqTime, rateCurrCount := 1\<rparr>
     else
       let elapsed = time_sub reqTime (rateWindowStart st)
       in if elapsed \<ge> wrap64 (2 * w) then
            st\<lparr>rateWindowStart := reqTime, rateCurrCount := 1, ratePrevCount := 0\<rparr>
          else if elapsed \<ge> w then
            st\<lparr>ratePrevCount := rateCurrCount st, rateCurrCount := 1,
               rateWindowStart := rateWindowStart st + w\<rparr>
          else st\<lparr>rateCurrCount := rateCurrCount st + 1\<rparr>)"

text \<open>The part of \<open>Update\<close> after the lookup: counters and ring buffer.\<close>

definition countRequest :: "LogEntry \<Rightarrow> IPState \<Rightarrow> IPState" where
  "countRequest e st =
    (let st = st\<lparr>LastSeen := Time e, TotalRequests := TotalRequests st + 1\<rparr>
     in if Status e = 404 then st\<lparr>Requests404 := Requests404 st + 1\<rparr> else st)"

definition pushPath :: "string \<Rightarrow> IPState \<Rightarrow> IPState" where
  "pushPath p st =
    (let st = st\<lparr>pathBuf := (pathBuf st)[pathPos st := p],
                pathPos := (pathPos st + 1) mod pathBufSize\<rparr>;
         st = (if \<not> pathFull st \<and> pathPos st = 0 then st\<lparr>pathFull := True\<rparr> else st)
     in st\<lparr>pathDirty := True\<rparr>)"

definition recordEntry :: "duration \<Rightarrow> LogEntry \<Rightarrow> IPState \<Rightarrow> IPState" where
  "recordEntry w e st = updateRateLocked w (Time e) (pushPath (Path e) (countRequest e st))"

definition Update :: "Tracker \<Rightarrow> LogEntry \<Rightarrow> IPState \<times> Tracker" where
  "Update t e =
    (let ip = RealIP e;
         (st, t1) =
           (case map_of (states t) ip of
              None \<Rightarrow>
                (let t0 = (if int (length (states t)) \<ge> maxIPs t then evictLRULocked t else t)
                 in (newIPState ip (Time e), t0\<lparr>lru := ip # lru t0\<rparr>))
            | Some st \<Rightarrow> (st, t\<lparr>lru := ip # remove1 ip (lru t)\<rparr>));
         st' = recordEntry (rateWindow t1) e st
     in (st', t1\<lparr>states := AList.update ip st' (states t1)\<rparr>))"

record Stats =
  s_TrackedIPs :: nat
  s_TotalRequests :: int
  s_Suspicious :: nat

definition GetStats :: "Tracker \<Rightarrow> Stats" where
  "GetStats t =
    foldl (\<lambda>s (ip, st).
        let s = s\<lparr>s_TotalRequests := s_TotalRequests s + TotalRequests st\<rparr>
        in if st_score st > 0 then s\<lparr>s_Suspicious := s_Suspicious s + 1\<rparr> else s)
      \<lparr>s_TrackedIPs = length (states t), s_TotalRequests = 0, s_Suspicious = 0\<rparr>
      (states t)"

definition Reconfigure :: "TrackerConfig \<Rightarrow> Tracker \<Rightarrow> Tracker" where
  "Reconfigure cfg t =
    (let rw = cfg_RateWindow cfg; rw = (if rw \<le> 0 then 60 * second else rw)
     in t\<lparr>retention := cfg_ObservationWindow cfg, rateWindow := rw\<rparr>)"

definition tracker_Len :: "Tracker \<Rightarrow> nat" where
  "tracker_Len t = length (states t)"

definition tracker_Has :: "Tracker \<Rightarrow> string \<Rightarrow> bool" where
  "tracker_Has t ip = (map_of (states t) ip \<noteq> None)"

definition GetState :: "Tracker \<Rightarrow> string \<Rightarrow> IPState option" where
  "GetState t ip = map_of (states t) ip"

text \<open>A write through a pointer obtained from \<open>Update\<close> or
  \<open>GetState\<close>.\<close>

definition put_state :: "IPState \<Rightarrow> Tracker \<Rightarrow> Tracker" where
  "put_state st t =
    (case map_of (states t) (IP st) of
       None \<Rightarrow> t
     | Some _ \<Rightarrow> t\<lparr>states := AList.update (IP st) st (states t)\<rparr>)"

definition gc_step :: "gotime \<Rightarrow> string \<times> IPState \<Rightarrow> Tracker \<times> nat \<Rightarrow> Tracker \<times> nat" where
  "gc_step threshold kv tn =
    (let (ip, st) = kv; (t, deleted) = tn
     in if LastSeen st < threshold
        then (t\<lparr>lru := remove1 ip (lru t), states := AList.delete ip (states t)\<rparr>, deleted + 1)
        else (t, deleted))"

definition runGC :: "gotime \<Rightarrow> Tracker \<Rightarrow> nat \<times> nat \<times> Tracker" where
  "runGC now t =
    (let threshold = now + (- retention t);
         (t', deleted) = fold (gc_step threshold) (states t) (t, 0)
     in (deleted, length (states t'), t'))"

text \<open>The collector: between two of its steps the other goroutines change the tracker.  It reports the
  deletions of a cycle, when there are any.\<close>

datatype gc_event = GcTick gotime | GcDone

fun RunGC :: "((Tracker \<Rightarrow> Tracker) \<times> gc_event) list \<Rightarrow> Tracker \<Rightarrow> Tracker \<times> (nat \<times> nat) list" where
  "RunGC [] t = (t, [])"
| "RunGC ((others, GcDone) # events) t = (others t, [])"
| "RunGC ((others, GcTick now) # events) t =
    (case runGC now (others t) of (deleted, remaining, t) \<Rightarrow>
       case RunGC events t of (t, msgs) \<Rightarrow> (t, if deleted > 0 then (deleted, remaining) # msgs else msgs))"

section \<open>The ring buffer is the list of the last paths\<close>

definition ring_ok :: "IPState \<Rightarrow> bool" where
  "ring_ok st \<longleftrightarrow> length (pathBuf st) = pathBufSize \<and> pathPos st < pathBufSize
     \<and> (\<not> pathDirty st \<longrightarrow> pathCache st = rebuildPaths st)"

lemma pathBufSize_pos [simp]: "0 < pathBufSize"
  by (simp add: pathBufSize_def)

lemma ring_ok_new [simp]: "ring_ok (newIPState ip t)"
  by (simp add: ring_ok_def newIPState_def rebuildPaths_def)

lemma rebuildPaths_new [simp]: "rebuildPaths (newIPState ip t) = []"
  by (simp add: newIPState_def rebuildPaths_def)

lemma pushPath_dirty [simp]: "pathDirty (pushPath p st)"
  by (simp add: pushPath_def Let_def)

lemma ring_ok_push: "ring_ok st \<Longrightarrow> ring_ok (pushPath p st)"
  by (auto simp: ring_ok_def pushPath_def Let_def)

lemma length_rebuildPaths:
  "ring_ok st \<Longrightarrow> length (rebuildPaths st) = (if pathFull st then pathBufSize else pathPos st)"
  by (auto simp: ring_ok_def rebuildPaths_def)

lemma take_update_snoc: "i < length xs \<Longrightarrow> take (Suc i) (xs[i := x]) = take i xs @ [x]"
  by (simp add: take_Suc_conv_app_nth)

lemma rebuildPaths_push:
  assumes ok: "ring_ok st"
  shows "rebuildPaths (pushPath p st) = last_n pathBufSize (rebuildPaths st @ [p])"
proof -
  let ?n = pathBufSize and ?b = "pathBuf st" and ?i = "pathPos st"
  have len: "length ?b = ?n" and pos: "?i < ?n"
    using ok by (auto simp: ring_ok_def)
  have short: "last_n ?n (take ?i ?b @ [p]) = take ?i ?b @ [p]"
    using len pos by (intro last_n_short) simp
  have full: "last_n ?n ((drop ?i ?b @ take ?i ?b) @ [p]) = drop (Suc ?i) ?b @ take ?i ?b @ [p]"
    using len pos Cons_nth_drop_Suc [of ?i ?b, symmetric]
    by (subst last_n_snoc_full) (simp_all add: last_n_short)
  consider "Suc ?i < ?n" | "Suc ?i = ?n" using pos by linarith
  then show ?thesis
  proof cases
    case 1
    then show ?thesis
      using short full len pos
      by (auto simp: rebuildPaths_def pushPath_def Let_def take_update_snoc)
  next
    case 2
    then have "take ?i ?b @ [p] = ?b[?i := p]"
      using len take_update_snoc [of ?i ?b p] by simp
    with 2 show ?thesis
      using short full len pos
      by (auto simp: rebuildPaths_def pushPath_def Let_def)
  qed
qed

lemma RecentPaths_value: "ring_ok st \<Longrightarrow> fst (RecentPaths st) = rebuildPaths st"
  by (simp add: RecentPaths_def ring_ok_def Let_def)

lemma RecentPaths_state:
  assumes "ring_ok st"
  shows "ring_ok (snd (RecentPaths st))" "rebuildPaths (snd (RecentPaths st)) = rebuildPaths st"
    "st_score (snd (RecentPaths st)) = st_score st" "IP (snd (RecentPaths st)) = IP st"
  using assms by (auto simp: RecentPaths_def ring_ok_def rebuildPaths_def Let_def)

section \<open>Single-IP facts\<close>

lemma countRequest_fields [simp]:
  "IP (countRequest e st) = IP st" "LastSeen (countRequest e st) = Time e"
  "TotalRequests (countRequest e st) = TotalRequests st + 1"
  "Requests404 (countRequest e st) = Requests404 st + (if Status e = 404 then 1 else 0)"
  "pathBuf (countRequest e st) = pathBuf st" "pathPos (countRequest e st) = pathPos st"
  "pathFull (countRequest e st) = pathFull st" "pathDirty (countRequest e st) = pathDirty st"
  "pathCache (countRequest e st) = pathCache st"
  "rateWindowStart (countRequest e st) = rateWindowStart st"
  "rateCurrCount (countRequest e st) = rateCurrCount st"
  "ratePrevCount (countRequest e st) = ratePrevCount st"
  "st_score (countRequest e st) = st_score st"
  "scoreUpdatedAt (countRequest e st) = scoreUpdatedAt st"
  by (simp_all add: countRequest_def Let_def)

lemma pushPath_fields [simp]:
  "IP (pushPath p st) = IP st" "LastSeen (pushPath p st) = LastSeen st"
  "TotalRequests (pushPath p st) = TotalRequests st"
  "Requests404 (pushPath p st) = Requests404 st"
  "rateWindowStart (pushPath p st) = rateWindowStart st"
  "rateCurrCount (pushPath p st) = rateCurrCount st"
  "ratePrevCount (pushPath p st) = ratePrevCount st"
  "st_score (pushPath p st) = st_score st"
  "scoreUpdatedAt (pushPath p st) = scoreUpdatedAt st"
  by (simp_all add: pushPath_def Let_def)

lemma updateRate_fields [simp]:
  "IP (updateRateLocked w r st) = IP st" "LastSeen (updateRateLocked w r st) = LastSeen st"
  "TotalRequests (updateRateLocked w r st) = TotalRequests st"
  "Requests404 (updateRateLocked w r st) = Requests404 st"
  "pathBuf (updateRateLocked w r st) = pathBuf st" "pathPos (updateRateLocked w r st) = pathPos st"
  "pathFull (updateRateLocked w r st) = pathFull st" "pathDirty (updateRateLocked w r st) = pathDirty st"
  "pathCache (updateRateLocked w r st) = pathCache st"
  "st_score (updateRateLocked w r st) = st_score st"
  "scoreUpdatedAt (updateRateLocked w r st) = scoreUpdatedAt st"
  by (simp_all add: updateRateLocked_def Let_def)

lemma rebuildPaths_cong [simp]:
  "rebuildPaths (countRequest e st) = rebuildPaths st"
  "rebuildPaths (updateRateLocked w r st) = rebuildPaths st"
  by (simp_all add: rebuildPaths_def)

lemma ring_ok_cong [simp]:
  "ring_ok (countRequest e st) = ring_ok st"
  "ring_ok (updateRateLocked w r st) = ring_ok st"
  by (simp_all add: ring_ok_def)

lemma recordEntry_fields [simp]:
  "IP (recordEntry w e st) = IP st" "LastSeen (recordEntry w e st) = Time e"
  "TotalRequests (recordEntry w e st) = TotalRequests st + 1"
  "Requests404 (recordEntry w e st) = Requests404 st + (if Status e = 404 then 1 else 0)"
  "st_score (recordEntry w e st) = st_score st"
  "scoreUpdatedAt (recordEntry w e st) = scoreUpdatedAt st"
  by (simp_all add: recordEntry_def)

lemma recordEntry_ring:
  assumes "ring_ok st"
  shows "ring_ok (recordEntry w e st)"
    and "rebuildPaths (recordEntry w e st) = last_n pathBufSize (rebuildPaths st @ [Path e])"
  using assms rebuildPaths_push [of "countRequest e st"]
  by (simp_all add: recordEntry_def ring_ok_push)

text \<open>The state of one IP after a list of its requests.\<close>

definition record_all :: "duration \<Rightarrow> LogEntry list \<Rightarrow> IPState \<Rightarrow> IPState" where
  "record_all w es st = foldl (\<lambda>st e. recordEntry w e st) st es"

lemma record_all_simps [simp]:
  "record_all w [] st = st"
  "record_all w (es @ [e]) st = recordEntry w e (record_all w es st)"
  by (simp_all add: record_all_def)

lemma record_all_ring:
  assumes "ring_ok st"
  shows "ring_ok (record_all w es st) \<and>
    rebuildPaths (record_all w es st) = last_n pathBufSize (rebuildPaths st @ map Path es)"
proof (induction es rule: rev_induct)
  case Nil
  then show ?case
    using assms length_rebuildPaths [OF assms]
    by (auto simp: ring_ok_def intro!: last_n_short [symmetric] split: if_splits)
next
  case (snoc e es)
  then show ?case
    using recordEntry_ring [of "record_all w es st" w e]
      last_n_append_last_n [of _ "rebuildPaths st @ map Path es"] by simp
qed

lemma record_all_counts:
  "TotalRequests (record_all w es st) = TotalRequests st + int (length es)"
  "Requests404 (record_all w es st) = Requests404 st + int (length (filter (\<lambda>e. Status e = 404) es))"
  "st_score (record_all w es st) = st_score st" "IP (record_all w es st) = IP st"
  by (induction es rule: rev_induct) simp_all

section \<open>The rate counters are exact counts\<close>

text \<open>
  For a list of request times in order, \<open>rate_exact\<close> says that the current
  counter counts the requests at or after the start of the window and the previous
  counter those of the window before it.
\<close>

definition count_in :: "gotime \<Rightarrow> gotime \<Rightarrow> gotime list \<Rightarrow> int" where
  "count_in a b ts = int (length (filter (\<lambda>t. a \<le> t \<and> t < b) ts))"

definition rate_exact :: "duration \<Rightarrow> gotime list \<Rightarrow> IPState \<Rightarrow> bool" where
  "rate_exact w ts st \<longleftrightarrow>
     (let s = rateWindowStart st
      in if ts = [] then s = 0 \<and> ratePrevCount st = 0
         else 0 < s \<and> (\<forall>t \<in> set ts. t < s + w) \<and> s \<le> last ts
            \<and> rateCurrCount st = count_in s (s + w) ts
            \<and> ratePrevCount st = count_in (s - w) s ts)"

lemma count_in_snoc [simp]:
  "count_in a b (ts @ [t]) = count_in a b ts + (if a \<le> t \<and> t < b then 1 else 0)"
  by (simp add: count_in_def)

lemma count_in_zero: "\<forall>t \<in> set ts. t < a \<Longrightarrow> count_in a b ts = 0"
  by (auto simp: count_in_def filter_empty_conv)

lemma count_in_widen: "\<forall>t \<in> set ts. t < b \<Longrightarrow> b \<le> c \<Longrightarrow> count_in a c ts = count_in a b ts"
  by (auto simp: count_in_def intro!: arg_cong [where f = length] filter_cong)

lemma rate_exact_new: "rate_exact w [] (newIPState ip t)"
  by (simp add: rate_exact_def newIPState_def)

lemma updateRate_exact:
  assumes w: "0 < w" "w < 2 ^ 62" and r: "0 < r" "\<forall>t \<in> set ts. t \<le> r"
    and ex: "rate_exact w ts st"
  shows "rate_exact w (ts @ [r]) (updateRateLocked w r st)"
proof (cases "ts = []")
  case True
  then show ?thesis
    using ex w r by (simp add: rate_exact_def updateRateLocked_def is_zero_time_def Let_def count_in_def)
next
  case False
  define s where "s = rateWindowStart st"
  have s: "0 < s" "\<forall>t \<in> set ts. t < s + w" "s \<le> last ts"
    "rateCurrCount st = count_in s (s + w) ts" "ratePrevCount st = count_in (s - w) s ts"
    using ex False by (auto simp: rate_exact_def s_def Let_def)
  have sr: "s \<le> r" using s(3) r(2) False last_in_set [of ts] by fastforce
  have big: "time_sub r s \<ge> wrap64 (2 * w) \<longleftrightarrow> r - s \<ge> 2 * w"
    "time_sub r s \<ge> w \<longleftrightarrow> r - s \<ge> w"
    using w time_sub_less_iff [of "2 * w" r s] time_sub_less_iff [of w r s]
    by (auto simp: not_le [symmetric])
  consider "r - s \<ge> 2 * w" | "r - s \<ge> w" "r - s < 2 * w" | "r - s < w" by linarith
  then show ?thesis
  proof cases
    case 1
    have "\<forall>t \<in> set ts. t < r - w" using s(2) 1 by fastforce
    then have "count_in (r - w) r ts = 0" "count_in r (r + w) ts = 0"
      using w by (auto intro!: count_in_zero)
    then show ?thesis
      using 1 s big w r by (auto simp: rate_exact_def updateRateLocked_def is_zero_time_def s_def [symmetric] Let_def)
  next
    case 2
    have "count_in (s + w) (s + w + w) ts = 0" using s(2) by (intro count_in_zero) simp
    then show ?thesis
      using 2 s big w r sr
      by (auto simp: rate_exact_def updateRateLocked_def is_zero_time_def s_def [symmetric] Let_def)
  next
    case 3
    then show ?thesis
      using s big w r sr
      by (auto simp: rate_exact_def updateRateLocked_def is_zero_time_def s_def [symmetric] Let_def)
  qed
qed

lemma rate_exact_cong [simp]:
  "rate_exact w ts (countRequest e st) = rate_exact w ts st"
  "rate_exact w ts (pushPath p st) = rate_exact w ts st"
  by (simp_all add: rate_exact_def)

lemma record_all_rate:
  assumes "0 < w" "w < 2 ^ 62" "sorted (map Time es)" "\<forall>e \<in> set es. 0 < Time e"
  shows "rate_exact w (map Time es) (record_all w es (newIPState ip t))"
  using assms(3,4)
proof (induction es rule: rev_induct)
  case (snoc e es)
  then show ?case
    using assms(1,2) updateRate_exact [of w "Time e" "map Time es"]
    by (simp add: recordEntry_def sorted_append)
qed (simp add: rate_exact_new)

section \<open>The contract of the store\<close>

text \<open>
  What the event processor relies on: an update makes the state of the entry's key
  available and at most drops states of other keys; a write-back changes its own
  key only; both keep the invariant.
\<close>

locale state_store =
  fixes upd :: "'t \<Rightarrow> 'e \<Rightarrow> 's \<times> 't"
    and get :: "'t \<Rightarrow> string \<Rightarrow> 's option"
    and put :: "'s \<Rightarrow> 't \<Rightarrow> 't"
    and ekey :: "'e \<Rightarrow> string"
    and skey :: "'s \<Rightarrow> string"
    and inv :: "'t \<Rightarrow> bool"
    and good :: "'s \<Rightarrow> bool"
  assumes inv_upd: "inv t \<Longrightarrow> inv (snd (upd t e))"
    and inv_put: "inv t \<Longrightarrow> good s \<Longrightarrow> inv (put s t)"
    and skey_upd: "inv t \<Longrightarrow> skey (fst (upd t e)) = ekey e"
    and good_get: "inv t \<Longrightarrow> get t k = Some s \<Longrightarrow> good s"
    and get_upd_same: "inv t \<Longrightarrow> get (snd (upd t e)) (ekey e) = Some (fst (upd t e))"
    and get_upd_other: "inv t \<Longrightarrow> k \<noteq> ekey e \<Longrightarrow> get (snd (upd t e)) k = Some s
          \<Longrightarrow> get t k = Some s"
    and get_put: "inv t \<Longrightarrow> get (put s t) k =
          (if k = skey s \<and> get t k \<noteq> None then Some s else get t k)"
begin

lemma good_upd: "inv t \<Longrightarrow> good (fst (upd t e))"
  using good_get [OF inv_upd get_upd_same] .

text \<open>An update followed by a write-back of the updated state.\<close>

lemma upd_put_same:
  assumes "inv t" "skey s = ekey e"
  shows "get (put s (snd (upd t e))) (ekey e) = Some s"
  using assms get_upd_same [OF assms(1)] get_put [OF inv_upd [OF assms(1)]] by simp

lemma upd_put_other:
  assumes "inv t" "skey s = ekey e" "k \<noteq> ekey e"
    "get (put s (snd (upd t e))) k = Some s'"
  shows "get t k = Some s'"
  using assms get_upd_other [OF assms(1,3)] get_put [OF inv_upd [OF assms(1)]] by simp

lemma upd_put_inv: "inv t \<Longrightarrow> good s \<Longrightarrow> inv (put s (snd (upd t e)))"
  by (intro inv_put inv_upd)

end

section \<open>The store invariant\<close>

definition ipstate_ok :: "IPState \<Rightarrow> bool" where
  "ipstate_ok st \<longleftrightarrow> ring_ok st \<and> 0 \<le> Requests404 st \<and> Requests404 st \<le> TotalRequests st"

definition states_ok :: "(string, IPState) gomap \<Rightarrow> bool" where
  "states_ok m \<longleftrightarrow> list_all (\<lambda>(ip, st). IP st = ip \<and> ipstate_ok st) m"

definition tracker_inv :: "Tracker \<Rightarrow> bool" where
  "tracker_inv t \<longleftrightarrow> gm_ok (states t) \<and> distinct (lru t) \<and> set (lru t) = gm_dom (states t)
     \<and> int (length (states t)) \<le> max 1 (maxIPs t) \<and> 0 < rateWindow t
     \<and> states_ok (states t)"

lemma ipstate_ok_new [simp]: "ipstate_ok (newIPState ip t)"
  unfolding ipstate_ok_def by (simp, simp add: newIPState_def)

lemma ipstate_ok_record: "ipstate_ok st \<Longrightarrow> ipstate_ok (recordEntry w e st)"
  by (simp add: ipstate_ok_def recordEntry_ring)

lemma ipstate_ok_SetScore [simp]: "ipstate_ok (SetScore s t st) = ipstate_ok st"
  by (simp add: ipstate_ok_def ring_ok_def rebuildPaths_def SetScore_def)

lemma IP_new [simp]: "IP (newIPState ip t) = ip"
  by (simp add: newIPState_def)

lemma tracker_inv_new: "tracker_inv (NewTracker cfg)"
  by (simp add: tracker_inv_def states_ok_def NewTracker_def Let_def second_def)

lemma tracker_inv_get:
  assumes "tracker_inv t" "map_of (states t) ip = Some st"
  shows "IP st = ip" "ipstate_ok st"
  using assms by (auto simp: tracker_inv_def states_ok_def list_all_iff dest!: map_of_SomeD)

lemma length_lru: "tracker_inv t \<Longrightarrow> length (lru t) = length (states t)"
  by (metis distinct_card gm_length tracker_inv_def)

lemma states_ok_update [simp]:
  "states_ok m \<Longrightarrow> IP st = ip \<Longrightarrow> ipstate_ok st \<Longrightarrow> states_ok (AList.update ip st m)"
  unfolding states_ok_def by (induction m) auto

lemma states_ok_filter [simp]: "states_ok m \<Longrightarrow> states_ok (filter P m)"
  by (auto simp: states_ok_def list_all_iff)

lemma states_ok_delete [simp]: "states_ok m \<Longrightarrow> states_ok (AList.delete k m)"
  by (simp add: AList.delete_eq)

lemma evict_inv:
  assumes "tracker_inv t" "states t \<noteq> []"
  shows "tracker_inv (evictLRULocked t)"
    "Suc (length (states (evictLRULocked t))) = length (states t)"
proof -
  have ne: "lru t \<noteq> []" using assms length_lru [OF assms(1)] by auto
  then obtain xs x where lru: "lru t = xs @ [x]" by (metis rev_exhaust)
  have x: "x \<in> gm_dom (states t)" "x \<notin> set xs" "set xs = gm_dom (states t) - {x}"
    using assms(1) lru by (auto simp: tracker_inv_def)
  have ok: "gm_ok (states t)" using assms(1) by (simp add: tracker_inv_def)
  show len: "Suc (length (states (evictLRULocked t))) = length (states t)"
    using lru gm_length_delete [OF ok x(1)] by (simp add: evictLRULocked_def)
  show "tracker_inv (evictLRULocked t)"
    using assms(1) lru x len
    by (simp add: tracker_inv_def evictLRULocked_def amap)
qed

lemma evict_params [simp]:
  "maxIPs (evictLRULocked t) = maxIPs t" "rateWindow (evictLRULocked t) = rateWindow t"
  "retention (evictLRULocked t) = retention t"
  by (simp_all add: evictLRULocked_def Let_def)

text \<open>The tracker into which a new IP is inserted.\<close>

definition make_room :: "Tracker \<Rightarrow> Tracker" where
  "make_room t = (if int (length (states t)) \<ge> maxIPs t then evictLRULocked t else t)"

lemma evict_empty: "tracker_inv t \<Longrightarrow> states t = [] \<Longrightarrow> evictLRULocked t = t"
  using length_lru [of t] by (simp add: evictLRULocked_def)

lemma make_room_inv:
  assumes "tracker_inv t"
  shows "tracker_inv (make_room t)" "int (length (states (make_room t))) + 1 \<le> max 1 (maxIPs t)"
proof -
  have "int (length (states t)) \<le> max 1 (maxIPs t)"
    using assms by (simp add: tracker_inv_def)
  then show "tracker_inv (make_room t)" "int (length (states (make_room t))) + 1 \<le> max 1 (maxIPs t)"
    using assms evict_inv [OF assms] evict_empty [OF assms]
    by (cases "states t = []"; force simp: make_room_def)+
qed

lemma make_room_params [simp]:
  "maxIPs (make_room t) = maxIPs t" "rateWindow (make_room t) = rateWindow t"
  "retention (make_room t) = retention t"
  by (simp_all add: make_room_def)

lemma Update_new:
  assumes "map_of (states t) (RealIP e) = None"
  shows "Update t e =
    (let st = recordEntry (rateWindow t) e (newIPState (RealIP e) (Time e)); t0 = make_room t
     in (st, t0\<lparr>lru := RealIP e # lru t0, states := AList.update (RealIP e) st (states t0)\<rparr>))"
  using assms by (simp add: Update_def make_room_def Let_def)

lemma Update_known:
  assumes "map_of (states t) (RealIP e) = Some st"
  shows "Update t e =
    (let st' = recordEntry (rateWindow t) e st
     in (st', t\<lparr>lru := RealIP e # remove1 (RealIP e) (lru t),
                 states := AList.update (RealIP e) st' (states t)\<rparr>))"
  using assms by (simp add: Update_def Let_def)

lemma Update_params [simp]:
  "maxIPs (snd (Update t e)) = maxIPs t" "rateWindow (snd (Update t e)) = rateWindow t"
  "retention (snd (Update t e)) = retention t"
  by (cases "map_of (states t) (RealIP e)"; simp add: Update_new Update_known Let_def)+

lemma make_room_sub:
  assumes "tracker_inv t"
  shows "map_of (states (make_room t)) k = Some s \<Longrightarrow> map_of (states t) k = Some s"
  by (auto simp: make_room_def evictLRULocked_def Let_def amap split: if_splits)

lemma make_room_dom: "gm_dom (states (make_room t)) \<subseteq> gm_dom (states t)"
  by (auto simp: make_room_def evictLRULocked_def Let_def amap split: if_splits)

lemma Update_inv:
  assumes inv: "tracker_inv t"
  shows "tracker_inv (snd (Update t e))"
proof (cases "map_of (states t) (RealIP e)")
  case None
  let ?t = "make_room t"
  have out: "RealIP e \<notin> gm_dom (states ?t)"
    using None make_room_dom [of t] by (auto simp: amap)
  have room: "tracker_inv ?t" "int (length (states ?t)) + 1 \<le> max 1 (maxIPs t)"
    using make_room_inv [OF inv] by blast+
  show ?thesis
    using None out room
    by (simp add: Update_new Let_def tracker_inv_def amap gm_length_update ipstate_ok_record)
next
  case (Some st)
  have dom: "RealIP e \<in> gm_dom (states t)" using Some by (rule gm_someD)
  have "IP st = RealIP e" "ipstate_ok st" using tracker_inv_get [OF inv Some] by blast+
  then show ?thesis
    using Some inv dom
    by (auto simp: Update_known Let_def tracker_inv_def amap gm_length_update
        ipstate_ok_record set_remove1_eq)
qed

lemma put_state_inv:
  assumes "tracker_inv t" "ipstate_ok st"
  shows "tracker_inv (put_state st t)"
proof (cases "map_of (states t) (IP st)")
  case (Some s)
  have "IP st \<in> gm_dom (states t)" using Some by (rule gm_someD)
  then show ?thesis
    using assms Some
    by (auto simp: put_state_def tracker_inv_def amap gm_length_update insert_absorb)
qed (use assms in \<open>simp add: put_state_def\<close>)

interpretation tracker_store: state_store Update GetState put_state RealIP IP tracker_inv ipstate_ok
proof unfold_locales
  fix t e
  assume inv: "tracker_inv t"
  show "tracker_inv (snd (Update t e))" using inv by (rule Update_inv)
  show "IP (fst (Update t e)) = RealIP e"
    using tracker_inv_get(1) [OF inv]
    by (cases "map_of (states t) (RealIP e)") (simp_all add: Update_new Update_known Let_def)
  show "GetState (snd (Update t e)) (RealIP e) = Some (fst (Update t e))"
    by (cases "map_of (states t) (RealIP e)")
      (simp_all add: Update_new Update_known Let_def GetState_def amap)
  fix k s
  assume "k \<noteq> RealIP e" "GetState (snd (Update t e)) k = Some s"
  then show "GetState t k = Some s"
    using make_room_sub [OF inv]
    by (cases "map_of (states t) (RealIP e)")
      (simp_all add: Update_new Update_known Let_def GetState_def amap)
next
  fix t s
  assume "tracker_inv t" "ipstate_ok s"
  then show "tracker_inv (put_state s t)" by (rule put_state_inv)
next
  fix t k s
  assume "tracker_inv t" "GetState t k = Some s"
  then show "ipstate_ok s" using tracker_inv_get(2) by (simp add: GetState_def)
next
  fix t s k
  show "GetState (put_state s t) k = (if k = IP s \<and> GetState t k \<noteq> None then Some s else GetState t k)"
    by (cases "map_of (states t) (IP s)") (simp_all add: GetState_def put_state_def gm_get_update)
qed

section \<open>The LRU list is the most-recent-use order\<close>

definition mru_touch :: "string \<Rightarrow> string list \<Rightarrow> string list" where
  "mru_touch ip xs = ip # removeAll ip xs"

text \<open>All IPs of a log, the most recently seen first.\<close>

definition mru_order :: "LogEntry list \<Rightarrow> string list" where
  "mru_order es = foldl (\<lambda>xs e. mru_touch (RealIP e) xs) [] es"

definition track :: "Tracker \<Rightarrow> LogEntry list \<Rightarrow> Tracker" where
  "track t es = foldl (\<lambda>t e. snd (Update t e)) t es"

lemma track_simps [simp]:
  "track t [] = t" "track t (es @ [e]) = snd (Update (track t es) e)"
  by (simp_all add: track_def)

lemma mru_order_simps [simp]:
  "mru_order [] = []" "mru_order (es @ [e]) = mru_touch (RealIP e) (mru_order es)"
  by (simp_all add: mru_order_def)

lemma mru_touch_distinct: "distinct xs \<Longrightarrow> distinct (mru_touch ip xs)"
  by (simp add: mru_touch_def distinct_removeAll)

lemma set_mru_touch [simp]: "set (mru_touch ip xs) = insert ip (set xs)"
  by (auto simp: mru_touch_def)

lemma mru_order_set: "distinct (mru_order es)" "set (mru_order es) = RealIP ` set es"
  by (induction es rule: rev_induct) (simp_all add: mru_touch_distinct)

lemma track_inv: "tracker_inv t \<Longrightarrow> tracker_inv (track t es)"
  by (induction es rule: rev_induct) (simp_all add: Update_inv)

lemma track_params [simp]:
  "maxIPs (track t es) = maxIPs t" "rateWindow (track t es) = rateWindow t"
  "retention (track t es) = retention t"
  by (induction es rule: rev_induct) simp_all

lemma Update_lru:
  assumes inv: "tracker_inv t"
  shows "lru (snd (Update t e)) =
    (if RealIP e \<in> set (lru t) then RealIP e # remove1 (RealIP e) (lru t)
     else if int (length (lru t)) \<ge> max 1 (maxIPs t) then RealIP e # butlast (lru t)
     else RealIP e # lru t)"
proof -
  have mem: "RealIP e \<in> set (lru t) \<longleftrightarrow> map_of (states t) (RealIP e) \<noteq> None"
    using inv by (simp add: tracker_inv_def amap)
  have "Suc 0 \<le> length (lru t) \<longleftrightarrow> lru t \<noteq> []" by (cases "lru t") auto
  then show ?thesis
    using mem length_lru [OF inv, symmetric]
    by (cases "map_of (states t) (RealIP e)")
      (auto simp: Update_new Update_known Let_def make_room_def evictLRULocked_def)
qed

lemma mru_step:
  assumes "0 < cap" "distinct L"
  shows "take cap (mru_touch ip L) =
    (if ip \<in> set (take cap L) then ip # remove1 ip (take cap L)
     else if length (take cap L) \<ge> cap then ip # butlast (take cap L)
     else ip # take cap L)"
proof (cases "ip \<in> set (take cap L)")
  case True
  then have "ip \<in> set L" by (rule in_set_takeD)
  then obtain a b where L: "L = a @ ip # b" "ip \<notin> set a" by (meson split_list_first)
  have a: "length a < cap"
    using True L by (metis append_Nil2 diff_is_0_eq in_set_takeD not_less take_0 take_append)
  have "removeAll ip L = a @ b" using L assms(2) by simp
  moreover have "take cap L = a @ ip # take (cap - length a - 1) b"
    using L a by (simp add: take_Cons')
  moreover have "take cap (ip # a @ b) = ip # a @ take (cap - length a - 1) b"
    using a by (simp add: take_Cons')
  ultimately show ?thesis
    using True assms(2) L by (simp add: mru_touch_def remove1_append)
next
  case False
  show ?thesis
  proof (cases "length L < cap")
    case True
    with False show ?thesis by (simp add: mru_touch_def take_Cons')
  next
    case long: False
    have "removeAll ip L = take cap L @ removeAll ip (drop cap L)"
      using False by (metis append_take_drop_id removeAll_append removeAll_id)
    with False long assms(1) show ?thesis
      by (simp add: mru_touch_def take_Cons' butlast_conv_take min_def)
  qed
qed

lemma lru_most_recent_aux:
  "lru (track (NewTracker cfg) es) = take (nat (max 1 (cfg_MaxTrackedIPs cfg))) (mru_order es)"
proof (induction es rule: rev_induct)
  case Nil
  show ?case by (simp add: NewTracker_def Let_def)
next
  case (snoc e es)
  let ?t = "track (NewTracker cfg) es" and ?cap = "nat (max 1 (cfg_MaxTrackedIPs cfg))"
  have inv: "tracker_inv ?t" by (intro track_inv tracker_inv_new)
  have m: "maxIPs ?t = cfg_MaxTrackedIPs cfg" by (simp add: NewTracker_def Let_def)
  have "int (length (lru ?t)) \<ge> max 1 (maxIPs ?t) \<longleftrightarrow> length (lru ?t) \<ge> ?cap"
    unfolding m by linarith
  then show ?case
    using Update_lru [OF inv, of e] mru_step [of ?cap "mru_order es" "RealIP e"] mru_order_set(1)
    by (simp add: snoc.IH)
qed

section \<open>Without eviction every IP has its exact history\<close>

abbreviation entries_of :: "string \<Rightarrow> LogEntry list \<Rightarrow> LogEntry list" where
  "entries_of ip es \<equiv> filter (\<lambda>e. RealIP e = ip) es"

definition history_state :: "duration \<Rightarrow> LogEntry list \<Rightarrow> string \<Rightarrow> IPState option" where
  "history_state w es ip =
    (if entries_of ip es = [] then None
     else Some (record_all w (entries_of ip es) (newIPState ip (Time (hd (entries_of ip es))))))"

lemma history_state_snoc:
  "history_state w (es @ [e]) ip =
    (if RealIP e = ip
     then Some (recordEntry w e (case history_state w es ip of None \<Rightarrow> newIPState ip (Time e) | Some st \<Rightarrow> st))
     else history_state w es ip)"
  using record_all_simps(2) [of w "[]"]
  by (auto simp: history_state_def simp del: record_all_simps(2))
    (simp_all add: record_all_simps(2) hd_append)

definition fits :: "int \<Rightarrow> LogEntry list \<Rightarrow> bool" where
  "fits m es \<longleftrightarrow> int (card (RealIP ` set es)) \<le> max 1 m"

lemma fits_snoc: "fits m (es @ [e]) \<Longrightarrow> fits m es"
  using card_insert_le [of "RealIP ` set es" "RealIP e"] by (simp add: fits_def)

lemma make_room_idle:
  assumes "tracker_inv t" "int (length (states t)) < max 1 (maxIPs t)"
  shows "make_room t = t"
  using assms evict_empty by (auto simp: make_room_def max_def split: if_splits)

lemma Update_get:
  assumes "tracker_inv t"
    and room: "RealIP e \<notin> gm_dom (states t) \<longrightarrow> int (length (states t)) < max 1 (maxIPs t)"
  shows "GetState (snd (Update t e)) ip =
    (if RealIP e = ip
     then Some (recordEntry (rateWindow t) e
            (case GetState t ip of None \<Rightarrow> newIPState ip (Time e) | Some st \<Rightarrow> st))
     else GetState t ip)"
proof (cases "map_of (states t) (RealIP e)")
  case None
  then have "make_room t = t" using assms by (intro make_room_idle) (simp_all add: amap)
  then show ?thesis using None by (auto simp: Update_new Let_def GetState_def gm_get_update)
next
  case (Some st)
  then show ?thesis by (auto simp: Update_known Let_def GetState_def gm_get_update)
qed

lemma track_history:
  assumes "fits (cfg_MaxTrackedIPs cfg) es"
  shows "GetState (track (NewTracker cfg) es) ip =
    history_state (rateWindow (NewTracker cfg)) es ip"
  using assms
proof (induction es arbitrary: ip rule: rev_induct)
  case Nil
  show ?case by (simp add: GetState_def history_state_def NewTracker_def Let_def)
next
  case (snoc e es)
  let ?t = "track (NewTracker cfg) es"
  have inv: "tracker_inv ?t" by (intro track_inv tracker_inv_new)
  have IH: "GetState ?t ip = history_state (rateWindow (NewTracker cfg)) es ip" for ip
    using snoc fits_snoc by blast
  have dom: "gm_dom (states ?t) = RealIP ` set es"
  proof -
    have "k \<in> gm_dom (states ?t) \<longleftrightarrow> k \<in> RealIP ` set es" for k
      using IH [of k] gm_none_iff [of "states ?t" k]
      by (auto simp: GetState_def history_state_def filter_empty_conv split: if_splits)
    then show ?thesis by blast
  qed
  have "length (states ?t) = card (RealIP ` set es)"
    using inv gm_length [of "states ?t"] dom by (simp add: tracker_inv_def)
  then have "RealIP e \<notin> gm_dom (states ?t) \<longrightarrow> int (length (states ?t)) < max 1 (maxIPs ?t)"
    using snoc.prems dom by (auto simp: fits_def NewTracker_def Let_def)
  then show ?case
    using Update_get [OF inv, of e ip] IH by (simp add: history_state_snoc)
qed

section \<open>Garbage collection and statistics\<close>

lemma gc_fold:
  assumes "distinct (lru t)"
  shows "fold (gc_step th) xs (t, n) =
    (let dead = map fst (filter (\<lambda>(ip, st). LastSeen st < th) xs)
     in (t\<lparr>lru := filter (\<lambda>ip. ip \<notin> set dead) (lru t),
            states := filter (\<lambda>(ip, st). ip \<notin> set dead) (states t)\<rparr>, n + length dead))"
  using assms
proof (induction xs arbitrary: t n)
  case Nil
  show ?case by (simp add: filter_True)
next
  case (Cons kv xs)
  obtain ip st where kv: "kv = (ip, st)" by (cases kv)
  show ?case
  proof (cases "LastSeen st < th")
    case True
    have "filter (\<lambda>(k, s). k \<notin> D) (AList.delete ip (states t)) =
        filter (\<lambda>(k, s). k \<noteq> ip \<and> k \<notin> D) (states t)" for D
      by (auto simp: AList.delete_eq intro!: filter_cong)
    then show ?thesis
      using Cons True kv
      by (simp add: gc_step_def Let_def distinct_remove1_filter)
  next
    case False
    then show ?thesis using Cons kv by (simp add: gc_step_def Let_def)
  qed
qed

definition gc_alive :: "gotime \<Rightarrow> Tracker \<Rightarrow> string \<times> IPState \<Rightarrow> bool" where
  "gc_alive now t kv \<longleftrightarrow> now - retention t \<le> LastSeen (snd kv)"

lemma runGC_states:
  assumes inv: "tracker_inv t"
  shows "snd (snd (runGC now t)) =
      t\<lparr>lru := filter (\<lambda>ip. \<exists>st. map_of (states t) ip = Some st \<and> gc_alive now t (ip, st)) (lru t),
        states := filter (gc_alive now t) (states t)\<rparr>"
    and "fst (runGC now t) + length (filter (gc_alive now t) (states t)) = length (states t)"
    and "fst (snd (runGC now t)) = length (filter (gc_alive now t) (states t))"
proof -
  define dead where "dead = map fst (filter (\<lambda>(ip, st). LastSeen st < now - retention t) (states t))"
  have ok: "gm_ok (states t)" "distinct (lru t)" "set (lru t) = gm_dom (states t)"
    using inv by (auto simp: tracker_inv_def)
  have run: "runGC now t =
    (length dead, length (filter (\<lambda>(ip, st). ip \<notin> set dead) (states t)),
       t\<lparr>lru := filter (\<lambda>ip. ip \<notin> set dead) (lru t),
         states := filter (\<lambda>(ip, st). ip \<notin> set dead) (states t)\<rparr>)"
    using gc_fold [OF ok(2)] by (simp add: runGC_def Let_def dead_def)
  have key: "ip \<notin> set dead \<longleftrightarrow> gc_alive now t (ip, st)" if "(ip, st) \<in> set (states t)" for ip st
  proof -
    have "ip \<in> set dead \<longleftrightarrow> (\<exists>s. (ip, s) \<in> set (states t) \<and> LastSeen s < now - retention t)"
      by (auto simp: dead_def image_iff)
    also have "\<dots> \<longleftrightarrow> LastSeen st < now - retention t"
      using that eq_key_imp_eq_value [OF ok(1)] by blast
    finally show ?thesis by (simp add: gc_alive_def not_less)
  qed
  have states: "filter (\<lambda>(ip, st). ip \<notin> set dead) (states t) = filter (gc_alive now t) (states t)"
    using key by (intro filter_cong) auto
  have lru: "filter (\<lambda>ip. ip \<notin> set dead) (lru t) =
      filter (\<lambda>ip. \<exists>st. map_of (states t) ip = Some st \<and> gc_alive now t (ip, st)) (lru t)"
    using ok key by (intro filter_cong) (auto simp: map_of_eq_Some_iff)
  show "snd (snd (runGC now t)) = t\<lparr>lru := filter (\<lambda>ip. \<exists>st. map_of (states t) ip = Some st \<and> gc_alive now t (ip, st)) (lru t),
        states := filter (gc_alive now t) (states t)\<rparr>"
    by (simp add: run states lru)
  show "fst (snd (runGC now t)) = length (filter (gc_alive now t) (states t))"
    by (simp add: run states)
  have "length dead = length (filter (\<lambda>x. \<not> gc_alive now t x) (states t))"
    by (auto simp: dead_def gc_alive_def not_le intro!: arg_cong [where f = length] filter_cong)
  then show "fst (runGC now t) + length (filter (gc_alive now t) (states t)) = length (states t)"
    using sum_length_filter_compl [of "gc_alive now t" "states t"] by (simp add: run)
qed

lemma runGC_inv:
  assumes "tracker_inv t"
  shows "tracker_inv (snd (snd (runGC now t)))"
proof -
  have "length (filter P (states t)) \<le> length (states t)" for P by simp
  then have "int (length (filter P (states t))) \<le> max 1 (maxIPs t)" for P
    using assms unfolding tracker_inv_def by (meson of_nat_mono order_trans)
  then show ?thesis
    using assms runGC_states(1) [OF assms, of now]
    by (auto simp: tracker_inv_def gm_ok_filter image_iff map_of_eq_Some_iff)
qed

lemma GetStats_fold:
  "foldl (\<lambda>s (ip, st).
        let s = s\<lparr>s_TotalRequests := s_TotalRequests s + TotalRequests st\<rparr>
        in if st_score st > 0 then s\<lparr>s_Suspicious := s_Suspicious s + 1\<rparr> else s) s0 m =
    s0\<lparr>s_TotalRequests := s_TotalRequests s0 + sum_list (map (TotalRequests \<circ> snd) m),
       s_Suspicious := s_Suspicious s0 + length (filter (\<lambda>(ip, st). st_score st > 0) m)\<rparr>"
  by (induction m arbitrary: s0) (auto simp: Let_def)

section \<open>Reachable trackers\<close>

text \<open>
  The states a tracker goes through: it is created, then updated by the pipeline,
  written through the pointers detectors and scorer hold, collected by the
  background goroutine and reconfigured on a reload, in any order.
\<close>

inductive tracker_reach :: "TrackerConfig \<Rightarrow> Tracker \<Rightarrow> bool" for cfg where
  reach_new: "tracker_reach cfg (NewTracker cfg)"
| reach_update: "tracker_reach cfg t \<Longrightarrow> tracker_reach cfg (snd (Update t e))"
| reach_score: "tracker_reach cfg t \<Longrightarrow> GetState t ip = Some st
    \<Longrightarrow> tracker_reach cfg (put_state (SetScore s tm st) t)"
| reach_paths: "tracker_reach cfg t \<Longrightarrow> GetState t ip = Some st
    \<Longrightarrow> tracker_reach cfg (put_state (snd (RecentPaths st)) t)"
| reach_gc: "tracker_reach cfg t \<Longrightarrow> tracker_reach cfg (snd (snd (runGC now t)))"
| reach_reconfigure: "tracker_reach cfg t \<Longrightarrow> tracker_reach cfg (Reconfigure cfg' t)"

text \<open>The collector keeps the tracker well formed when the other goroutines do, and reports no more
  than it deletes.\<close>

lemma RunGC_inv:
  assumes "tracker_inv t" "\<forall>(f, e) \<in> set events. \<forall>t. tracker_inv t \<longrightarrow> tracker_inv (f t)"
  shows "tracker_inv (fst (RunGC events t)) \<and> list_all (\<lambda>(deleted, remaining). 0 < deleted) (snd (RunGC events t))"
  using assms
proof (induction events t rule: RunGC.induct)
  case (3 others now events t)
  obtain d r t1 where g: "runGC now (others t) = (d, r, t1)" by (metis surj_pair)
  have "tracker_inv (others t)" using "3.prems" by auto
  then have "tracker_inv t1" using runGC_inv [of "others t" now] by (simp add: g)
  then have "tracker_inv (fst (RunGC events t1)) \<and> list_all (\<lambda>(deleted, remaining). 0 < deleted) (snd (RunGC events t1))"
    using "3.IH" [OF g [symmetric] refl] "3.prems"(2) by auto
  then show ?case by (cases "RunGC events t1") (simp add: g)
qed auto

lemma ipstate_ok_RecentPaths: "ipstate_ok st \<Longrightarrow> ipstate_ok (snd (RecentPaths st))"
  using RecentPaths_state(1) [of st] by (auto simp: ipstate_ok_def RecentPaths_def Let_def)

lemma Reconfigure_inv: "tracker_inv t \<Longrightarrow> tracker_inv (Reconfigure cfg t)"
  by (simp add: tracker_inv_def Reconfigure_def Let_def second_def)

lemma put_state_max [simp]: "maxIPs (put_state st t) = maxIPs t"
  by (simp add: put_state_def split: option.split)

lemma runGC_max: "tracker_inv t \<Longrightarrow> maxIPs (snd (snd (runGC now t))) = maxIPs t"
  by (simp add: runGC_states)

lemma tracker_reach_inv:
  assumes "tracker_reach cfg t"
  shows "tracker_inv t \<and> maxIPs t = cfg_MaxTrackedIPs cfg"
  using assms
proof induction
  case reach_new
  show ?case using tracker_inv_new by (simp add: NewTracker_def Let_def)
next
  case (reach_score t ip st s tm)
  then have "ipstate_ok st" using tracker_store.good_get by blast
  with reach_score show ?case by (simp add: put_state_inv)
next
  case (reach_paths t ip st)
  then have "ipstate_ok st" using tracker_store.good_get by blast
  with reach_paths show ?case by (simp add: put_state_inv ipstate_ok_RecentPaths)
next
  case (reach_reconfigure t cfg')
  then show ?case using Reconfigure_inv by (simp add: Reconfigure_def Let_def)
qed (simp_all add: Update_inv runGC_inv runGC_max)

section \<open>The rate estimate\<close>

lemma approx_bounds:
  assumes c: "0 \<le> c" "0 \<le> p" "c + p \<le> 2 ^ 53" and u: "0 \<le> u" "u \<le> 1"
  shows "0 \<le> f_add (f_mul (f_int p) u) (f_int c)"
    "f_add (f_mul (f_int p) u) (f_int c) \<le> of_int (c + p)"
proof -
  have p: "0 \<le> f_mul (f_int p) u" "f_mul (f_int p) u \<le> of_int p"
    using ieee.scaled_bounds [of p u] c u by (simp_all add: f_ops)
  have ci: "f_int c = of_int c" using c by (simp add: f_int_def ieee.exact)
  have ex: "fl64 (of_int (c + p)) = of_int (c + p)" by (rule ieee.exact) (use c in simp)
  have le: "f_mul (f_int p) u + of_int c \<le> of_int (c + p)" using p(2) by simp
  have "f_add (f_mul (f_int p) u) (f_int c) = fl64 (f_mul (f_int p) u + of_int c)"
    by (simp only: f_add_def ci)
  then show "0 \<le> f_add (f_mul (f_int p) u) (f_int c)"
    "f_add (f_mul (f_int p) u) (f_int c) \<le> of_int (c + p)"
    using p c ieee.nonneg [of "f_mul (f_int p) u + of_int c"] ieee.mono [OF le] ex by simp_all
qed

lemma approx_curr_bounds:
  assumes "0 \<le> c" "c \<le> 2 ^ 53" "0 \<le> u" "u \<le> 1"
  shows "0 \<le> f_mul (f_int c) u" "f_mul (f_int c) u \<le> of_int c"
  using ieee.scaled_bounds [of c u] assms by (simp_all add: f_ops)

lemma fraction_left:
  assumes "0 \<le> a" "a \<le> b" "0 < b"
  shows "0 \<le> f_sub 1 (f_div (f_int a) (f_int b))" "f_sub 1 (f_div (f_int a) (f_int b)) \<le> 1"
  using ieee.remaining_unit [of "of_int a" "of_int b"] assms by (simp_all add: f_ops)

lemma f_div_bounds:
  assumes "0 \<le> x" "x \<le> y" "0 < z"
  shows "0 \<le> f_div x z \<and> f_div x z \<le> f_div y z"
  using assms by (auto simp: f_ops intro!: ieee.nonneg ieee.mono divide_right_mono divide_nonneg_pos)

section \<open>Properties\<close>

text \<open>A small log for the witnesses: three requests of two clients.\<close>

definition demo_cfg :: TrackerConfig where
  "demo_cfg = \<lparr>cfg_RateWindow = 60 * second, cfg_MaxTrackedIPs = 2,
     cfg_ObservationWindow = 300 * second\<rparr>"

definition demo_entry :: "string \<Rightarrow> gotime \<Rightarrow> string \<Rightarrow> int \<Rightarrow> LogEntry" where
  "demo_entry ip t p s = blank_entry\<lparr>RealIP := ip, RemoteAddr := ip, Time := t, Path := p, Status := s\<rparr>"

definition demo_log :: "LogEntry list" where
  "demo_log = [demo_entry ''10.0.0.1'' 1000 ''/a'' 200, demo_entry ''10.0.0.2'' 2000 ''/b'' 404,
     demo_entry ''10.0.0.1'' 3000 ''/c'' 404]"

lemmas demo_defs = demo_cfg_def demo_entry_def demo_log_def blank_entry_def

lemma demo_fits: "fits (cfg_MaxTrackedIPs demo_cfg) demo_log"
  by (simp add: fits_def demo_defs card_insert_if)

text \<open>C13: after any log, the tracker holds exactly the most recently seen IPs, as many as
  the limit allows (at least one), and its LRU list is in order of most recent use.\<close>

theorem tracked_ips_most_recent:
  "lru (track (NewTracker cfg) es) = take (nat (max 1 (cfg_MaxTrackedIPs cfg))) (mru_order es)
   \<and> tracker_Has (track (NewTracker cfg) es) ip =
       (ip \<in> set (take (nat (max 1 (cfg_MaxTrackedIPs cfg))) (mru_order es)))"
  using lru_most_recent_aux [of cfg es] track_inv [OF tracker_inv_new, of cfg es]
  by (auto simp: tracker_Has_def tracker_inv_def amap)

text \<open>C16: in every reachable state the map and the LRU list hold the same IPs without
  repetition, at most the configured number of them (or one), and every ring buffer and counter is
  well formed.\<close>

theorem tracker_reachable_ok:
  assumes "tracker_reach cfg t"
  shows "int (tracker_Len t) \<le> max 1 (cfg_MaxTrackedIPs cfg) \<and> length (lru t) = tracker_Len t
    \<and> distinct (lru t) \<and> set (lru t) = gm_dom (states t) \<and> states_ok (states t)"
  using tracker_reach_inv [OF assms] length_lru [of t]
  by (auto simp: tracker_inv_def tracker_Len_def)

theorem tracker_reachable_ok_witness:
  "int (tracker_Len (snd (Update (NewTracker demo_cfg) (hd demo_log)))) \<le> max 1 (cfg_MaxTrackedIPs demo_cfg)"
  using tracker_reachable_ok [OF reach_update [OF reach_new, of demo_cfg "hd demo_log"]] by blast

text \<open>C14: while the distinct IPs of the log fit the limit, an IP is tracked exactly when it
  occurs, its recent paths are the last 64 paths it requested in order, and its counters count its
  requests and its 404 responses.\<close>

theorem ip_history_exact:
  assumes "fits (cfg_MaxTrackedIPs cfg) es" "entries_of ip es \<noteq> []"
  shows "\<exists>st. GetState (track (NewTracker cfg) es) ip = Some st
    \<and> fst (RecentPaths st) = last_n 64 (map Path (entries_of ip es))
    \<and> TotalRequests st = int (length (entries_of ip es))
    \<and> Requests404 st = int (length (filter (\<lambda>e. Status e = 404) (entries_of ip es)))"
proof -
  let ?w = "rateWindow (NewTracker cfg)" and ?m = "entries_of ip es"
  let ?st = "record_all ?w ?m (newIPState ip (Time (hd ?m)))"
  have "GetState (track (NewTracker cfg) es) ip = Some ?st"
    using track_history [OF assms(1)] assms(2) by (simp add: history_state_def)
  moreover have "fst (RecentPaths ?st) = last_n 64 (map Path ?m)"
    using record_all_ring [of "newIPState ip (Time (hd ?m))" ?w ?m]
    by (simp add: RecentPaths_value pathBufSize_def)
  moreover have "TotalRequests ?st = int (length ?m)"
    "Requests404 ?st = int (length (filter (\<lambda>e. Status e = 404) ?m))"
    unfolding record_all_counts by (simp_all add: newIPState_def)
  ultimately show ?thesis by blast
qed

theorem ip_history_exact_witness:
  "\<exists>st. GetState (track (NewTracker demo_cfg) demo_log) ''10.0.0.1'' = Some st
    \<and> fst (RecentPaths st) = [''/a'', ''/c''] \<and> TotalRequests st = 2 \<and> Requests404 st = 1"
proof -
  have "entries_of ''10.0.0.1'' demo_log \<noteq> []" by (simp add: demo_defs)
  from ip_history_exact [OF demo_fits this] show ?thesis
    by (simp add: demo_defs last_n_def)
qed

text \<open>C15: with request times in order, the two rate counters of an IP are the exact
  numbers of its requests in the current window and in the window before it, and the latest request
  lies in the current window.\<close>

theorem rate_counters_exact:
  assumes "fits (cfg_MaxTrackedIPs cfg) es" "GetState (track (NewTracker cfg) es) ip = Some st"
    and "cfg_RateWindow cfg < 2 ^ 62" "sorted (map Time (entries_of ip es))"
    and "\<forall>e \<in> set es. 0 < Time e"
  shows "let s = rateWindowStart st; w = rateWindow (NewTracker cfg); ts = map Time (entries_of ip es)
    in rateCurrCount st = count_in s (s + w) ts \<and> ratePrevCount st = count_in (s - w) s ts
       \<and> s \<le> last ts \<and> last ts < s + w"
proof -
  let ?w = "rateWindow (NewTracker cfg)" and ?m = "entries_of ip es"
  have w: "0 < ?w" "?w < 2 ^ 62" using assms(3) by (auto simp: NewTracker_def Let_def second_def)
  have m: "?m \<noteq> []" "st = record_all ?w ?m (newIPState ip (Time (hd ?m)))"
    using assms(2) track_history [OF assms(1)] by (auto simp: history_state_def split: if_splits)
  have "rate_exact ?w (map Time ?m) st"
    unfolding m(2) using w assms(4,5) by (intro record_all_rate) auto
  then show ?thesis
    using m(1) last_in_set [of "map Time ?m"] by (auto simp: rate_exact_def Let_def simp del: set_map)
qed

theorem rate_counters_exact_witness:
  "\<exists>st. GetState (track (NewTracker demo_cfg) demo_log) ''10.0.0.1'' = Some st
    \<and> rateCurrCount st = count_in (rateWindowStart st)
        (rateWindowStart st + rateWindow (NewTracker demo_cfg)) [1000, 3000]"
proof -
  obtain st where st: "GetState (track (NewTracker demo_cfg) demo_log) ''10.0.0.1'' = Some st"
    using track_history [OF demo_fits, of "''10.0.0.1''"] by (auto simp: history_state_def demo_defs)
  have "cfg_RateWindow demo_cfg < 2 ^ 62" "sorted (map Time (entries_of ''10.0.0.1'' demo_log))"
    "\<forall>e \<in> set demo_log. 0 < Time e" "map Time (entries_of ''10.0.0.1'' demo_log) = [1000, 3000]"
    by (simp_all add: demo_defs second_def)
  then show ?thesis
    using rate_counters_exact [OF demo_fits st] st by (auto simp: Let_def)
qed

text \<open>a collection keeps exactly the IPs whose last request is not older than the
  retention period, leaves their states unchanged and reports the numbers of deleted and remaining IPs
  correctly.\<close>

theorem runGC_exact:
  assumes "tracker_reach cfg t"
  shows "GetState (snd (snd (runGC now t))) ip =
      (case GetState t ip of None \<Rightarrow> None
       | Some st \<Rightarrow> if LastSeen st < now - retention t then None else Some st)
    \<and> fst (runGC now t) + fst (snd (runGC now t)) = tracker_Len t
    \<and> fst (snd (runGC now t)) = tracker_Len (snd (snd (runGC now t)))"
proof -
  have inv: "tracker_inv t" using tracker_reach_inv [OF assms] by simp
  then have "gm_ok (states t)" by (simp add: tracker_inv_def)
  then show ?thesis
    using runGC_states [OF inv, of now] gm_get_filter [of "states t" "gc_alive now t" ip]
    by (auto simp: GetState_def tracker_Len_def gc_alive_def not_less split: option.splits)
qed

theorem runGC_exact_witness:
  "let t = snd (Update (NewTracker demo_cfg) (hd demo_log)); r = runGC (400 * second) t
   in fst r + fst (snd r) = tracker_Len t"
  unfolding Let_def
  using runGC_exact [OF reach_update [OF reach_new, of demo_cfg "hd demo_log"], of "400 * second"]
  by blast

text \<open>the rate estimate is never negative, never exceeds the rate of all requests of
  both windows, and is zero once two windows have passed.\<close>

theorem ApproxRate_bounds:
  assumes "0 < window" "window < 2 ^ 62" "rateWindowStart st \<le> now"
    and "0 \<le> rateCurrCount st" "0 \<le> ratePrevCount st" "rateCurrCount st + ratePrevCount st \<le> 2 ^ 53"
  shows "0 \<le> ApproxRate st now window
    \<and> ApproxRate st now window \<le> f_div (of_int (rateCurrCount st + ratePrevCount st)) (seconds_of window)
    \<and> (now - rateWindowStart st \<ge> 2 * window \<longrightarrow> ApproxRate st now window = 0)"
proof -
  let ?c = "rateCurrCount st" and ?p = "ratePrevCount st" and ?e = "time_sub now (rateWindowStart st)"
  have sec: "0 < seconds_of window" using assms(1) by (rule seconds_of_pos)
  have e: "0 \<le> ?e" using assms(3) by (rule time_sub_nonneg)
  have wrap: "wrap64 (2 * window) = 2 * window" using assms(1,2) by simp
  have stale: "now - rateWindowStart st \<ge> 2 * window \<longleftrightarrow> ?e \<ge> 2 * window"
    using assms(1,2) time_sub_less_iff [of "2 * window" now "rateWindowStart st"]
    by (auto simp flip: not_less)
  have top: "0 \<le> f_div (of_int (?c + ?p)) (seconds_of window)"
    using assms(4,5) sec f_div_bounds [of "of_int (?c + ?p)" "of_int (?c + ?p)"] by simp
  consider "is_zero_time (rateWindowStart st) \<or> ?e \<ge> 2 * window"
    | "\<not> is_zero_time (rateWindowStart st)" "window \<le> ?e" "?e < 2 * window"
    | "\<not> is_zero_time (rateWindowStart st)" "?e < window" by linarith
  then show ?thesis
  proof cases
    case 1
    then show ?thesis using top wrap by (auto simp: ApproxRate_def Let_def)
  next
    case 2
    let ?u = "f_sub 1 (f_div (f_int (?e - window)) (f_int window))"
    have u: "0 \<le> ?u" "?u \<le> 1" using fraction_left [of "?e - window" window] 2 assms(1) by simp_all
    have "?c \<le> 2 ^ 53" using assms(5,6) by linarith
    note c = approx_curr_bounds [OF assms(4) this u]
    have "(of_int ?c :: rat) \<le> of_int (?c + ?p)" using assms(5) by simp
    with c have "0 \<le> f_mul (f_int ?c) ?u" "f_mul (f_int ?c) ?u \<le> of_int (?c + ?p)"
      by (blast intro: order_trans)+
    from f_div_bounds [OF this sec] show ?thesis
      using 2 stale wrap assms(1) by (simp add: ApproxRate_def Let_def)
  next
    case 3
    let ?u = "f_sub 1 (f_div (f_int ?e) (f_int window))"
    have "0 \<le> f_add (f_mul (f_int ?p) ?u) (f_int ?c)"
      "f_add (f_mul (f_int ?p) ?u) (f_int ?c) \<le> of_int (?c + ?p)"
      using approx_bounds [of ?c ?p ?u] fraction_left [of ?e window] assms 3 e by simp_all
    from f_div_bounds [OF this sec] show ?thesis
      using 3 stale wrap assms(1) by (simp add: ApproxRate_def Let_def)
  qed
qed

definition demo_state :: IPState where
  "demo_state = (newIPState ''10.0.0.1'' 0)\<lparr>rateWindowStart := 1000, rateCurrCount := 3, ratePrevCount := 1\<rparr>"

theorem ApproxRate_bounds_witness:
  "0 \<le> ApproxRate demo_state 2000 (60 * second)
   \<and> ApproxRate demo_state 2000 (60 * second) \<le> f_div 4 (seconds_of (60 * second))"
proof -
  have f: "rateWindowStart demo_state = 1000" "rateCurrCount demo_state = 3" "ratePrevCount demo_state = 1"
    by (simp_all add: demo_state_def)
  have "(0 :: int) < 60 * second" "60 * second < 2 ^ 62" by (simp_all add: second_def)
  from ApproxRate_bounds [OF this, of demo_state 2000, unfolded f] show ?thesis by simp
qed

end
