(* ===== verification/Detectors.thy ===== *)
theory Detectors
  imports Tracker
begin

text \<open>
  The detectors of \<open>pkg/detectorplugins\<close>: each with its configuration
  record, its factory and its \<open>Detect\<close>.  A detector reads the state of the
  client and the current log line; \<open>RecentPaths\<close> rebuilds a cache inside
  the state, so \<open>Detect\<close> returns the state too.

  The parameter readers \<open>GetInt\<close>, \<open>GetStrings\<close> and so on belong
  to the external detector package: the record \<open>getters\<close> stands for them.
  The matcher of the badbot detector is the blocklist manager or the no-op matcher.

  The locale \<open>detector_contract\<close> states what the scorer relies on; every
  detector is an instance.  Shown besides: the sequence search of the crawler
  detector is exact, the probe detector fires exactly on the listed paths and
  directories, the User-Agent verdict does not depend on letter case and takes the
  most severe category.
\<close>

section \<open>Results and the contract of a detector\<close>

record DetectResult =
  Score :: int
  Module :: string
  Reason :: string

definition noResult :: DetectResult where
  "noResult = \<lparr>Score = 0, Module = [], Reason = []\<rparr>"

type_synonym detect_fn = "IPState \<Rightarrow> LogEntry \<Rightarrow> DetectResult \<times> IPState"

record 'c getters =
  GetInt :: "'c \<Rightarrow> string \<Rightarrow> int \<Rightarrow> int"
  GetFloat64 :: "'c \<Rightarrow> string \<Rightarrow> rat \<Rightarrow> rat"
  GetDuration :: "'c \<Rightarrow> string \<Rightarrow> duration \<Rightarrow> duration"
  GetStrings :: "'c \<Rightarrow> string \<Rightarrow> string list \<Rightarrow> string list"
  GetBool :: "'c \<Rightarrow> string \<Rightarrow> bool \<Rightarrow> bool"

text \<open>Two states that differ at most in the path cache.\<close>

definition same_view :: "IPState \<Rightarrow> IPState \<Rightarrow> bool" where
  "same_view st st' \<longleftrightarrow> st' = st \<or> st' = snd (RecentPaths st)"

locale detector_contract =
  fixes name :: string and detect :: detect_fn
  assumes keeps_view: "same_view st (snd (detect st e))"
    and fired_module: "Score (fst (detect st e)) \<noteq> 0 \<Longrightarrow> Module (fst (detect st e)) = name"
begin

lemma keeps_score:
  "st_score (snd (detect st e)) = st_score st" "scoreUpdatedAt (snd (detect st e)) = scoreUpdatedAt st"
  "IP (snd (detect st e)) = IP st" "TotalRequests (snd (detect st e)) = TotalRequests st"
  using keeps_view [of st e] by (auto simp: same_view_def RecentPaths_def Let_def)

lemma keeps_ok: "ipstate_ok st \<Longrightarrow> ipstate_ok (snd (detect st e))"
  using keeps_view [of st e] ipstate_ok_RecentPaths [of st] by (auto simp: same_view_def)

lemma keeps_paths: "ring_ok st \<Longrightarrow> fst (RecentPaths (snd (detect st e))) = fst (RecentPaths st)"
  using keeps_view [of st e] RecentPaths_state [of st]
  by (auto simp: same_view_def RecentPaths_value)

end

section \<open>Bruteforce\<close>

record bruteforceDetector =
  bf_minRequests :: int
  bf_ratioThreshold :: rat
  bf_score :: int

definition newBruteforceFactory :: "'c getters \<Rightarrow> 'c \<Rightarrow> bruteforceDetector" where
  "newBruteforceFactory g cfg =
    \<lparr>bf_minRequests = GetInt g cfg ''min_requests'' 10,
     bf_ratioThreshold = GetFloat64 g cfg ''ratio_threshold'' (fl64 (6 / 10)),
     bf_score = GetInt g cfg ''score'' 30\<rparr>"

text \<open>The quotient of two counters; \<open>None\<close> is the not-a-number of 0/0, for
  which every comparison is false.\<close>

definition f_ratio :: "int \<Rightarrow> int \<Rightarrow> rat option" where
  "f_ratio a b = (if b = 0 then None else Some (f_div (f_int a) (f_int b)))"

definition fmt_pct :: "rat option \<Rightarrow> string" where
  "fmt_pct r = (case r of None \<Rightarrow> ''NaN'' | Some x \<Rightarrow> show_int (round_even (f_mul x 100)))"

definition bruteforce_Detect :: "bruteforceDetector \<Rightarrow> detect_fn" where
  "bruteforce_Detect d sv e =
    (let total = TotalRequests sv
     in if total < bf_minRequests d then (noResult, sv)
        else
          let ratio = f_ratio (Requests404 sv) total
          in if (case ratio of None \<Rightarrow> False | Some r \<Rightarrow> r < bf_ratioThreshold d) then (noResult, sv)
             else (\<lparr>Score = bf_score d, Module = ''bruteforce'',
                    Reason = ''bruteforce:404='' @ fmt_pct ratio @ ''%('' @ show_int (Requests404 sv)
                      @ ''/'' @ show_int total @ '')''\<rparr>, sv))"

section \<open>Rate\<close>

record rateDetector =
  rt_thresholdRPS :: rat
  rt_window :: duration
  rt_score :: int

datatype rateError = BadWindow duration | BadThreshold int

definition newRateFactory :: "'c getters \<Rightarrow> 'c \<Rightarrow> rateError + rateDetector" where
  "newRateFactory g cfg =
    (let threshold = GetInt g cfg ''threshold'' 100;
         window = GetDuration g cfg ''window'' (60 * second);
         score = GetInt g cfg ''score'' 25
     in if window \<le> 0 then Inl (BadWindow window)
        else if threshold \<le> 0 then Inl (BadThreshold threshold)
        else Inr \<lparr>rt_thresholdRPS = f_div (f_int threshold) (seconds_of window),
                  rt_window = window, rt_score = score\<rparr>)"

definition rate_Detect :: "rateDetector \<Rightarrow> gotime \<Rightarrow> detect_fn" where
  "rate_Detect d now sv e =
    (if ApproxRate sv now (rt_window d) \<le> rt_thresholdRPS d then (noResult, sv)
     else (\<lparr>Score = rt_score d, Module = ''rate'', Reason = ''rate:threshold_exceeded''\<rparr>, sv))"

section \<open>Overflow\<close>

definition defaultSuspiciousParams :: "string list" where
  "defaultSuspiciousParams =
    [''bypass'', ''shell'', ''cmd'', ''exec'', ''eval'', ''system'', ''passthru'']"

record overflowDetector =
  ov_maxURLLength :: int
  ov_suspiciousParams :: "string list"
  ov_score :: int

definition newOverflowFactory :: "'c getters \<Rightarrow> 'c \<Rightarrow> overflowDetector" where
  "newOverflowFactory g cfg =
    \<lparr>ov_maxURLLength = GetInt g cfg ''max_url_length'' 2048,
     ov_suspiciousParams = map to_lower (GetStrings g cfg ''suspicious_params'' defaultSuspiciousParams),
     ov_score = GetInt g cfg ''score'' 30\<rparr>"

definition full_url :: "LogEntry \<Rightarrow> string" where
  "full_url e = (if Query e \<noteq> [] then Path e @ ''?'' @ Query e else Path e)"

definition overflow_Detect :: "overflowDetector \<Rightarrow> detect_fn" where
  "overflow_Detect d sv e =
    (let fullURL = full_url e
     in if int (length fullURL) > ov_maxURLLength d
        then (\<lparr>Score = ov_score d, Module = ''overflow'',
               Reason = ''overflow:url_len='' @ show_int (int (length fullURL))\<rparr>, sv)
        else
          let lowerURL = to_lower fullURL
          in case find (\<lambda>p. str_contains lowerURL p) (ov_suspiciousParams d) of
               Some p \<Rightarrow> (\<lparr>Score = ov_score d, Module = ''overflow'',
                            Reason = ''overflow:waf_bypass='' @ p\<rparr>, sv)
             | None \<Rightarrow> (noResult, sv))"

section \<open>Probe\<close>

record probeDetector =
  pr_score :: int
  pr_pathSet :: "string list"
  pr_prefixes :: "string list"

definition defaultProbePaths :: "string list" where
  "defaultProbePaths =
    [''/.env'', ''/.env.backup'', ''/.env.local'', ''/.env.production'', ''/.env.staging'',
     ''/config.yml'', ''/config.yaml'', ''/config.json'', ''/application.properties'',
     ''/settings.py'', ''/local_settings.py'', ''/database.yml'', ''/database.yaml'',
     ''/web.config'', ''/app.config'',
     ''/.git/config'', ''/.git/HEAD'', ''/.gitignore'',
     ''/.svn/entries'', ''/.hg/'', ''/.bzr/'',
     ''/.aws/credentials'', ''/.docker/config.json'',
     ''/aws-exports.json'', ''/.gcloud/credentials'',
     ''/wp-config.php'', ''/wp-config.php.bak'', ''/wp-config.php.old'',
     ''/wp-login.php'', ''/xmlrpc.php'', ''/wp-admin/'',
     ''/administrator/'', ''/admin/'', ''/phpmyadmin/'', ''/pma/'',
     ''/joomla/'', ''/drupal/'', ''/typo3/'',
     ''/backup.zip'', ''/backup.tar.gz'', ''/backup.sql'', ''/backup.sql.gz'',
     ''/db.dump'', ''/database.sql'', ''/dump.sql'', ''/site.sql'',
     ''/server-status'', ''/server-info'',
     ''/phpinfo.php'', ''/info.php'', ''/php.php'',
     ''/actuator/'', ''/.well-known/'', ''/docker-compose.yml'', ''/Dockerfile'',
     ''/id_rsa'', ''/id_dsa'', ''/id_ecdsa'', ''/id_ed25519'',
     ''/.ssh/'', ''/.bash_history'', ''/.bashrc'']"

fun split_probe_paths :: "string list \<Rightarrow> string list \<times> string list" where
  "split_probe_paths [] = ([], [])"
| "split_probe_paths (p # ps) =
    (let (pathSet, prefixes) = split_probe_paths ps
     in if has_suffix p ''/'' then (pathSet, p # prefixes) else (p # pathSet, prefixes))"

definition newProbeFactory :: "'c getters \<Rightarrow> 'c \<Rightarrow> probeDetector" where
  "newProbeFactory g cfg =
    (let (pathSet, prefixes) = split_probe_paths (GetStrings g cfg ''paths'' defaultProbePaths)
     in \<lparr>pr_score = GetInt g cfg ''score'' 25, pr_pathSet = pathSet, pr_prefixes = prefixes\<rparr>)"

definition probe_Detect :: "probeDetector \<Rightarrow> detect_fn" where
  "probe_Detect d sv e =
    (let path = Path e; hit = \<lparr>Score = pr_score d, Module = ''probe'', Reason = ''probe:'' @ path\<rparr>
     in if path \<in> set (pr_pathSet d) then (hit, sv)
        else if list_ex (\<lambda>p. has_prefix path p) (pr_prefixes d) then (hit, sv)
        else (noResult, sv))"

section \<open>Crawler\<close>

record crawlerDetector =
  cr_minSequential :: int
  cr_score :: int

definition newCrawlerFactory :: "'c getters \<Rightarrow> 'c \<Rightarrow> crawlerDetector" where
  "newCrawlerFactory g cfg =
    \<lparr>cr_minSequential = GetInt g cfg ''min_sequential'' 5, cr_score = GetInt g cfg ''score'' 20\<rparr>"

text \<open>
  The match of \<open>^(.*/|/)(\d+)/?$\<close>: drop one trailing slash; the last segment
  must be a non-empty run of digits after a slash.  The dot does not match a line
  feed.
\<close>

definition numericSuffixRE :: "string \<Rightarrow> (string \<times> string) option" where
  "numericSuffixRE path =
    (let s = trim_suffix path ''/'';
         digits = rev (takeWhile is_digit (rev s));
         pre = rev (dropWhile is_digit (rev s))
     in if digits \<noteq> [] \<and> has_suffix pre ''/'' \<and> CHR 0x0A \<notin> set pre then Some (pre, digits) else None)"

definition parseNumericPath :: "string \<Rightarrow> (string \<times> int) option" where
  "parseNumericPath path =
    (case numericSuffixRE path of
       None \<Rightarrow> None
     | Some (pre, digits) \<Rightarrow>
        (case atoi_digits digits of None \<Rightarrow> None | Some n \<Rightarrow> Some (pre, n)))"

fun uniq_loop :: "int list \<Rightarrow> int list \<Rightarrow> int list" where
  "uniq_loop uniq [] = uniq"
| "uniq_loop uniq (n # ns) = (if n \<noteq> last uniq then uniq_loop (uniq @ [n]) ns else uniq_loop uniq ns)"

fun consec_loop :: "int \<Rightarrow> int \<Rightarrow> int \<Rightarrow> int list \<Rightarrow> bool" where
  "consec_loop minLen consec prev [] = (consec \<ge> minLen)"
| "consec_loop minLen consec prev (x # xs) =
    (if x = prev + 1 then
       if consec + 1 \<ge> minLen then True else consec_loop minLen (consec + 1) x xs
     else consec_loop minLen 1 x xs)"

definition hasConsecutiveSequence :: "int list \<Rightarrow> int \<Rightarrow> bool" where
  "hasConsecutiveSequence nums minLen =
    (if nums = [] \<or> minLen \<le> 0 then False
     else if int (length nums) < minLen then False
     else
       let nums = sort nums; uniq = uniq_loop [hd nums] (tl nums)
       in if int (length uniq) < minLen then False
          else consec_loop minLen 1 (hd uniq) (tl uniq))"

definition group_add :: "string \<Rightarrow> (string, int list) gomap \<Rightarrow> (string, int list) gomap" where
  "group_add p groups =
    (case parseNumericPath p of
       None \<Rightarrow> groups
     | Some (pre, n) \<Rightarrow>
         AList.update pre ((case map_of groups pre of None \<Rightarrow> [] | Some ns \<Rightarrow> ns) @ [n]) groups)"

definition path_groups :: "string list \<Rightarrow> (string, int list) gomap" where
  "path_groups paths = fold group_add paths []"

text \<open>\<open>order\<close> is the order in which the range loop visits the groups.\<close>

definition crawler_Detect ::
  "crawlerDetector \<Rightarrow> ((string, int list) gomap \<Rightarrow> (string, int list) gomap) \<Rightarrow> detect_fn" where
  "crawler_Detect d order sv e =
    (let (paths, sv') = RecentPaths sv
     in if int (length paths) < cr_minSequential d then (noResult, sv')
        else
          case find (\<lambda>(pre, nums). hasConsecutiveSequence nums (cr_minSequential d))
                 (order (path_groups paths)) of
            Some (pre, nums) \<Rightarrow>
              (\<lparr>Score = cr_score d, Module = ''crawler'',
                Reason = ''crawler:seq='' @ pre @ ''*'' @ show_int (cr_minSequential d)\<rparr>, sv')
          | None \<Rightarrow> (noResult, sv'))"

section \<open>No assets\<close>

definition defaultAssetExtensions :: "string list" where
  "defaultAssetExtensions =
    [''.css'', ''.js'', ''.png'', ''.jpg'', ''.jpeg'', ''.gif'', ''.svg'',
     ''.woff'', ''.woff2'', ''.ttf'', ''.ico'', ''.webp'']"

record noAssetDetector =
  na_minPageRequests :: int
  na_assetRatioThreshold :: rat
  na_score :: int
  na_assetExts :: "string list"

definition newNoAssetFactory :: "'c getters \<Rightarrow> 'c \<Rightarrow> noAssetDetector" where
  "newNoAssetFactory g cfg =
    \<lparr>na_minPageRequests = GetInt g cfg ''min_page_requests'' 3,
     na_assetRatioThreshold = GetFloat64 g cfg ''asset_ratio_threshold'' (fl64 (1 / 10)),
     na_score = GetInt g cfg ''score'' 20,
     na_assetExts = map to_lower (GetStrings g cfg ''asset_extensions'' defaultAssetExtensions)\<rparr>"

text \<open>\<open>path.Ext\<close>: the suffix from the last dot of the last segment.\<close>

definition path_Ext :: "string \<Rightarrow> string" where
  "path_Ext p =
    (let seg = takeWhile (\<lambda>c. c \<noteq> CHR ''/'') (rev p)
     in if CHR ''.'' \<in> set seg then rev (takeWhile (\<lambda>c. c \<noteq> CHR ''.'') seg @ ''.'') else [])"

definition isAsset :: "noAssetDetector \<Rightarrow> string \<Rightarrow> bool" where
  "isAsset d urlPath =
    (let urlPath = takeWhile (\<lambda>c. c \<noteq> CHR ''?'') urlPath
     in to_lower (path_Ext urlPath) \<in> set (na_assetExts d))"

definition noasset_Detect :: "noAssetDetector \<Rightarrow> detect_fn" where
  "noasset_Detect d sv e =
    (let (paths, sv') = RecentPaths sv;
         assetCount = int (length (filter (isAsset d) paths));
         pageCount = int (length (filter (\<lambda>p. \<not> isAsset d p) paths))
     in if pageCount < na_minPageRequests d then (noResult, sv')
        else
          let total = pageCount + assetCount; assetRatio = f_ratio assetCount total
          in if (case assetRatio of None \<Rightarrow> False | Some r \<Rightarrow> r \<ge> na_assetRatioThreshold d)
             then (noResult, sv')
             else (\<lparr>Score = na_score d, Module = ''noasset'',
                    Reason = ''noasset:pages='' @ show_int pageCount @ '',assets='' @ show_int assetCount
                      @ '',ratio='' @ fmt_pct assetRatio @ ''%''\<rparr>, sv'))"

section \<open>Bad bots\<close>

type_synonym matcher = "string \<Rightarrow> string \<Rightarrow> string option"

definition noopMatcher :: matcher where
  "noopMatcher list s = None"

record badBotDetector =
  bb_mgr :: matcher
  bb_score :: int
  bb_checkUA :: bool
  bb_checkReferrer :: bool

text \<open>\<open>shared\<close> is the matcher of the shared resources, if there is one.\<close>

definition newBadBotFactory :: "'c getters \<Rightarrow> 'c \<Rightarrow> matcher option \<Rightarrow> badBotDetector" where
  "newBadBotFactory g cfg shared =
    \<lparr>bb_mgr = (case shared of None \<Rightarrow> noopMatcher | Some bl \<Rightarrow> bl),
     bb_score = GetInt g cfg ''score'' 60,
     bb_checkUA = GetBool g cfg ''check_ua'' True,
     bb_checkReferrer = GetBool g cfg ''check_referrer'' False\<rparr>"

definition badbot_field :: "badBotDetector \<Rightarrow> string \<Rightarrow> string \<Rightarrow> string \<Rightarrow> DetectResult option" where
  "badbot_field d list tag v =
    (let v = to_lower v
     in if v \<noteq> [] \<and> v \<noteq> ''-'' then
          map_option (\<lambda>pat. \<lparr>Score = bb_score d, Module = ''badbot'', Reason = tag @ pat\<rparr>)
            (bb_mgr d list v)
        else None)"

definition badbot_Detect :: "badBotDetector \<Rightarrow> detect_fn" where
  "badbot_Detect d sv e =
    (case (if bb_checkUA d then badbot_field d ''badbot-ua'' ''ua='' (UserAgent e) else None) of
       Some r \<Rightarrow> (r, sv)
     | None \<Rightarrow>
        (case (if bb_checkReferrer d then badbot_field d ''badbot-ref'' ''ref='' (Referer e) else None) of
           Some r \<Rightarrow> (r, sv)
         | None \<Rightarrow> (noResult, sv)))"

section \<open>User agents\<close>

definition builtinScannerPatterns :: "string list" where
  "builtinScannerPatterns =
    [''nuclei'', ''sqlmap'', ''nikto'', ''nmap'', ''masscan'', ''zgrab'',
     ''dirbuster'', ''gobuster'', ''feroxbuster'', ''wfuzz'', ''ffuf'',
     ''hydra'', ''medusa'', ''nessus'', ''openvas'', ''acunetix'', ''w3af'',
     ''havij'', ''burpsuite'']"

definition builtinGrabberPatterns :: "string list" where
  "builtinGrabberPatterns =
    [''wget/'', ''curl/'', ''python-requests'', ''libwww-perl'', ''scrapy'', ''httrack'',
     ''webcopier'', ''sitesnagger'', ''webreaper'', ''teleport pro'']"

definition builtinAutomationPatterns :: "string list" where
  "builtinAutomationPatterns =
    [''python-urllib'', ''aiohttp'', ''go-http-client'', ''java/'', ''okhttp'', ''axios/'',
     ''node-fetch'', ''got ('', ''superagent'', ''restsharp'', ''httpclient'']"

record uaDetector =
  ua_scannerPatterns :: "string list"
  ua_grabberPatterns :: "string list"
  ua_automationPatterns :: "string list"
  ua_scannerScore :: int
  ua_grabberScore :: int
  ua_automationScore :: int
  ua_emptyUAScore :: int

definition normalizePatterns :: "string list \<Rightarrow> string list \<Rightarrow> string list" where
  "normalizePatterns builtin extra = map to_lower builtin @ map to_lower extra"

definition newUAFactory :: "'c getters \<Rightarrow> 'c \<Rightarrow> uaDetector" where
  "newUAFactory g cfg =
    \<lparr>ua_scannerPatterns = normalizePatterns builtinScannerPatterns (GetStrings g cfg ''extra_scanner_patterns'' []),
     ua_grabberPatterns = normalizePatterns builtinGrabberPatterns (GetStrings g cfg ''extra_grabber_patterns'' []),
     ua_automationPatterns = normalizePatterns builtinAutomationPatterns (GetStrings g cfg ''extra_automation_patterns'' []),
     ua_scannerScore = GetInt g cfg ''scanner_score'' 40,
     ua_grabberScore = GetInt g cfg ''grabber_score'' 20,
     ua_automationScore = GetInt g cfg ''automation_score'' 15,
     ua_emptyUAScore = GetInt g cfg ''empty_ua_score'' 30\<rparr>"

definition ua_Detect :: "uaDetector \<Rightarrow> detect_fn" where
  "ua_Detect d sv e =
    (let ua = UserAgent e
     in if ua = [] \<or> ua = ''-''
        then (\<lparr>Score = ua_emptyUAScore d, Module = ''ua'', Reason = ''ua:empty''\<rparr>, sv)
        else
          let uaLower = to_lower ua
          in case find (\<lambda>p. str_contains uaLower p) (ua_scannerPatterns d) of
               Some p \<Rightarrow> (\<lparr>Score = ua_scannerScore d, Module = ''ua'', Reason = ''ua:scanner:'' @ p\<rparr>, sv)
             | None \<Rightarrow>
            case find (\<lambda>p. str_contains uaLower p) (ua_grabberPatterns d) of
               Some p \<Rightarrow> (\<lparr>Score = ua_grabberScore d, Module = ''ua'', Reason = ''ua:grabber:'' @ p\<rparr>, sv)
             | None \<Rightarrow>
            case find (\<lambda>p. str_contains uaLower p) (ua_automationPatterns d) of
               Some p \<Rightarrow> (\<lparr>Score = ua_automationScore d, Module = ''ua'', Reason = ''ua:automation:'' @ p\<rparr>, sv)
             | None \<Rightarrow> (noResult, sv))"

section \<open>Every detector meets the contract\<close>

lemma same_view_refl [simp]: "same_view st st"
  by (simp add: same_view_def)

lemma same_view_paths [simp]: "same_view st (snd (RecentPaths st))"
  by (simp add: same_view_def)

lemma noResult_score [simp]: "Score noResult = 0"
  by (simp add: noResult_def)

interpretation bruteforce: detector_contract "''bruteforce''" "bruteforce_Detect d" for d
  by unfold_locales (auto simp: bruteforce_Detect_def Let_def split: if_splits)

interpretation rate: detector_contract "''rate''" "rate_Detect d now" for d now
  by unfold_locales (auto simp: rate_Detect_def Let_def)

interpretation overflow: detector_contract "''overflow''" "overflow_Detect d" for d
  by unfold_locales (auto simp: overflow_Detect_def Let_def split: option.splits if_splits)

interpretation probe: detector_contract "''probe''" "probe_Detect d" for d
  by unfold_locales (auto simp: probe_Detect_def Let_def)

interpretation crawler: detector_contract "''crawler''" "crawler_Detect d ord" for d ord
  by unfold_locales
    (auto simp: crawler_Detect_def Let_def split_beta split: option.splits if_splits)

interpretation noasset: detector_contract "''noasset''" "noasset_Detect d" for d
  by unfold_locales (auto simp: noasset_Detect_def Let_def split_beta split: if_splits)

interpretation badbot: detector_contract "''badbot''" "badbot_Detect d" for d
  by unfold_locales
    (auto simp: badbot_Detect_def badbot_field_def Let_def split: option.splits if_splits)

interpretation ua: detector_contract "''ua''" "ua_Detect d" for d
  by unfold_locales (auto simp: ua_Detect_def Let_def split: option.splits if_splits)

section \<open>The sequence search of the crawler detector\<close>

lemma uniq_loop_spec:
  "uniq \<noteq> [] \<Longrightarrow> uniq_loop uniq ns = butlast uniq @ remdups_adj (last uniq # ns)"
proof (induction uniq ns rule: uniq_loop.induct)
  case (2 uniq n ns)
  then show ?case by (auto simp: butlast_append)
qed simp

lemma uniq_sorted:
  assumes "nums \<noteq> []"
  shows "uniq_loop [hd (sort nums)] (tl (sort nums)) = remdups_adj (sort nums)"
  using assms uniq_loop_spec [of "[hd (sort nums)]" "tl (sort nums)"]
  by (metis append_Nil butlast.simps(2) last.simps length_0_conv length_sort list.collapse list.distinct(1))

lemma strict_sorted_remdups_adj: "sorted xs \<Longrightarrow> sorted_wrt (<) (remdups_adj (xs :: int list))"
  by (induction xs rule: remdups_adj.induct) auto

lemma consec_loop_one: "1 \<le> consec \<Longrightarrow> consec_loop 1 consec prev xs"
  by (induction "1 :: int" consec prev xs rule: consec_loop.induct) auto

lemma consec_loop_spec:
  assumes "sorted_wrt (<) (prev # xs)" "1 \<le> consec" "consec < k"
  shows "consec_loop k consec prev xs \<longleftrightarrow>
    (\<exists>a. {a..<a + k} \<subseteq> {prev - consec + 1..prev} \<union> set xs)"
  using assms
proof (induction k consec prev xs rule: consec_loop.induct)
  case (1 k consec prev)
  have False if "{a..<a + k} \<subseteq> {prev - consec + 1..prev}" for a
  proof -
    have "a \<in> {a..<a + k}" "a + k - 1 \<in> {a..<a + k}" using 1 by auto
    then have "a \<in> {prev - consec + 1..prev}" "a + k - 1 \<in> {prev - consec + 1..prev}"
      using that by blast+
    then have "prev - consec + 1 \<le> a" "a + k - 1 \<le> prev" by simp_all
    then show False using 1 by linarith
  qed
  then show ?case using 1 by auto
next
  case (2 k consec prev x xs)
  show ?case
  proof (cases "x = prev + 1")
    case True
    have eq: "{prev - consec + 1..prev} \<union> set (x # xs) = {x - (consec + 1) + 1..x} \<union> set xs"
      using True 2(4) by auto
    show ?thesis
    proof (cases "consec + 1 \<ge> k")
      case reached: True
      have "{prev - consec + 1..<prev - consec + 1 + k} \<subseteq> {x - (consec + 1) + 1..x} \<union> set xs"
        using True reached by auto
      then show ?thesis unfolding eq using True reached by auto
    next
      case False
      then show ?thesis unfolding eq using True 2 by simp
    qed
  next
    case False
    then have gap: "prev + 1 < x" using 2(3) by simp
    have "{a..<a + k} \<subseteq> {x - 1 + 1..x} \<union> set xs"
      if sub: "{a..<a + k} \<subseteq> {prev - consec + 1..prev} \<union> set (x # xs)" for a
    proof -
      have "prev + 1 \<notin> {a..<a + k}" using sub gap 2(3) by fastforce
      moreover have "\<not> a + k \<le> prev + 1"
      proof
        assume "a + k \<le> prev + 1"
        moreover have "a \<in> {a..<a + k}" using 2 by simp
        then have "a \<in> {prev - consec + 1..prev} \<union> set (x # xs)" using sub by blast
        ultimately show False using 2 gap by fastforce
      qed
      ultimately have "prev + 1 < a" by auto
      then show ?thesis using sub by fastforce
    qed
    then show ?thesis using False 2 by auto
  qed
qed

lemma hasConsecutiveSequence_iff:
  "hasConsecutiveSequence nums k \<longleftrightarrow> 0 < k \<and> (\<exists>a. {a..<a + k} \<subseteq> set nums)"
proof (cases "nums = [] \<or> k \<le> 0")
  case True
  then show ?thesis by (auto simp: hasConsecutiveSequence_def not_less)
next
  case False
  define u where "u = remdups_adj (sort nums)"
  have "sort nums \<noteq> []" using False by (metis length_0_conv length_sort)
  then have u: "set u = set nums" "sorted_wrt (<) u" "u \<noteq> []" "distinct u" "length u \<le> length nums"
    using False strict_sorted_remdups_adj [of "sort nums"] remdups_adj_length [of "sort nums"]
    by (auto simp: u_def strict_sorted_iff)
  have short: "k \<le> int (length u)" if "{a..<a + k} \<subseteq> set nums" for a
  proof -
    have "card {a..<a + k} \<le> card (set u)" using that u(1) by (intro card_mono) auto
    then show ?thesis using u(4) by (simp add: distinct_card)
  qed
  have def: "hasConsecutiveSequence nums k \<longleftrightarrow> k \<le> int (length u) \<and> consec_loop k 1 (hd u) (tl u)"
    using False u(5) by (auto simp: hasConsecutiveSequence_def Let_def uniq_sorted u_def [symmetric])
  show ?thesis
  proof (cases "k = 1")
    case True
    have "1 \<le> int (length u)" using u(3) by (cases u) auto
    then have "hasConsecutiveSequence nums k" using def True consec_loop_one by simp
    moreover have "{hd u..<hd u + k} = {hd u}" using True by auto
    then have "{hd u..<hd u + k} \<subseteq> set nums" using u hd_in_set [of u] by simp
    ultimately show ?thesis using True by (metis zero_less_one)
  next
    case k: False
    have "consec_loop k 1 (hd u) (tl u) \<longleftrightarrow> (\<exists>a. {a..<a + k} \<subseteq> {hd u - 1 + 1..hd u} \<union> set (tl u))"
      using False k u by (intro consec_loop_spec) auto
    also have "{hd u - 1 + 1..hd u} \<union> set (tl u) = set nums"
      using u by (cases u) auto
    finally show ?thesis using def short False by (meson linorder_not_le)
  qed
qed

text \<open>The numbers a client visited under a prefix.\<close>

definition nums_of :: "string \<Rightarrow> string list \<Rightarrow> int list" where
  "nums_of pre paths =
    concat (map (\<lambda>p. case parseNumericPath p of Some (q, n) \<Rightarrow> if q = pre then [n] else [] | None \<Rightarrow> []) paths)"

lemma nums_of_simps [simp]:
  "nums_of pre [] = []"
  "nums_of pre (ps @ [p]) = nums_of pre ps @
     (case parseNumericPath p of Some (q, n) \<Rightarrow> if q = pre then [n] else [] | None \<Rightarrow> [])"
  by (simp_all add: nums_of_def)

lemma nums_of_iff: "n \<in> set (nums_of pre paths) \<longleftrightarrow> (\<exists>p \<in> set paths. parseNumericPath p = Some (pre, n))"
  by (induction paths rule: rev_induct) (auto split: option.split)

lemma length_nums_of: "length (nums_of pre paths) \<le> length paths"
  by (induction paths rule: rev_induct) (auto split: option.split)

lemma path_groups_get:
  "map_of (path_groups paths) pre = (if nums_of pre paths = [] then None else Some (nums_of pre paths))"
  by (induction paths arbitrary: pre rule: rev_induct)
    (auto simp: path_groups_def group_add_def gm_get_update split: option.splits)

lemma path_groups_ok: "gm_ok (path_groups paths)"
  by (induction paths rule: rev_induct)
    (auto simp: path_groups_def group_add_def distinct_update split: option.split)

lemma path_groups_mem:
  "(pre, ns) \<in> set (path_groups paths) \<longleftrightarrow> ns = nums_of pre paths \<and> ns \<noteq> []"
proof -
  have "(pre, ns) \<in> set (path_groups paths) \<longleftrightarrow> map_of (path_groups paths) pre = Some ns"
    using map_of_eq_Some_iff [OF path_groups_ok] by simp
  then show ?thesis by (auto simp: path_groups_get)
qed

lemma interval_count:
  assumes "{a..<a + k} \<subseteq> set (nums_of pre paths)"
  shows "k \<le> int (length paths)"
proof -
  have "card {a..<a + k} \<le> card (set (nums_of pre paths))" using assms by (intro card_mono) auto
  also have "\<dots> \<le> length paths" using card_length length_nums_of order_trans by blast
  finally show ?thesis by simp
qed

lemma hasConsecutiveSequence_Nil: "\<not> hasConsecutiveSequence [] k"
  by (simp add: hasConsecutiveSequence_def)

lemma crawler_group_found:
  assumes "set (ord (path_groups paths)) = set (path_groups paths)"
  shows "(find (\<lambda>(pre, nums). hasConsecutiveSequence nums k) (ord (path_groups paths)) = None) \<longleftrightarrow>
    \<not> (0 < k \<and> (\<exists>pre a. {a..<a + k} \<subseteq> set (nums_of pre paths)))"
proof -
  have "(find (\<lambda>(pre, nums). hasConsecutiveSequence nums k) (ord (path_groups paths)) = None) \<longleftrightarrow>
      (\<forall>pre ns. (pre, ns) \<in> set (path_groups paths) \<longrightarrow> \<not> hasConsecutiveSequence ns k)"
    using assms by (auto simp: find_None_iff)
  also have "\<dots> \<longleftrightarrow> (\<forall>pre. \<not> hasConsecutiveSequence (nums_of pre paths) k)"
    by (metis path_groups_mem hasConsecutiveSequence_Nil)
  finally show ?thesis by (auto simp: hasConsecutiveSequence_iff)
qed

section \<open>Lists of patterns\<close>

lemma split_probe_paths_set:
  "set (fst (split_probe_paths ps)) = {p \<in> set ps. \<not> has_suffix p ''/''}"
  "set (snd (split_probe_paths ps)) = {p \<in> set ps. has_suffix p ''/''}"
  by (induction ps) (auto simp: split_beta Let_def)

lemma find_some_iff: "(\<exists>x. find P xs = Some x) \<longleftrightarrow> (\<exists>x \<in> set xs. P x)"
  by (induction xs) auto

section \<open>Properties\<close>

text \<open>C19: the crawler detector fires exactly when the last paths of the client contain the
  required number of consecutive numbers under one prefix, in whatever order they were requested and
  whatever order the groups are visited in.\<close>

theorem crawler_fires_iff:
  assumes "\<And>g. set (ord g) = set g" "cr_score d \<noteq> 0"
  shows "Score (fst (crawler_Detect d ord st e)) \<noteq> 0 \<longleftrightarrow>
    0 < cr_minSequential d \<and>
    (\<exists>pre a. \<forall>n. a \<le> n \<and> n < a + cr_minSequential d \<longrightarrow>
       (\<exists>p \<in> set (fst (RecentPaths st)). parseNumericPath p = Some (pre, n)))"
proof -
  let ?k = "cr_minSequential d" and ?ps = "fst (RecentPaths st)"
  have sub: "(\<forall>n. a \<le> n \<and> n < a + ?k \<longrightarrow> (\<exists>p \<in> set ?ps. parseNumericPath p = Some (pre, n)))
      \<longleftrightarrow> {a..<a + ?k} \<subseteq> set (nums_of pre ?ps)" for pre a
    by (auto simp: nums_of_iff [symmetric] subset_eq)
  show ?thesis
    unfolding sub
    using crawler_group_found [of ord ?ps ?k] assms interval_count [of _ ?k _ ?ps]
    by (auto simp: crawler_Detect_def Let_def split_beta not_less split: option.split)
qed

text \<open>the probe detector fires exactly when the requested path is one of the listed
  files or lies under one of the listed directories.\<close>

theorem probe_fires_iff:
  assumes "GetInt g cfg ''score'' 25 \<noteq> 0"
  shows "Score (fst (probe_Detect (newProbeFactory g cfg) st e)) \<noteq> 0 \<longleftrightarrow>
    (\<exists>p \<in> set (GetStrings g cfg ''paths'' defaultProbePaths).
       if has_suffix p ''/'' then has_prefix (Path e) p else Path e = p)"
  using assms
  by (auto simp: probe_Detect_def newProbeFactory_def Let_def split_beta split_probe_paths_set list_ex_iff)

text \<open>the User-Agent verdict does not depend on letter case, and a client that matches
  several categories gets the first of scanner, grabber and automation.\<close>

theorem ua_verdict:
  assumes "UserAgent e \<noteq> []" "UserAgent e \<noteq> ''-''"
  shows "fst (ua_Detect d st (e\<lparr>UserAgent := to_lower (UserAgent e)\<rparr>)) = fst (ua_Detect d st e)
    \<and> Score (fst (ua_Detect d st e)) =
       (let hit = \<lambda>ps. \<exists>p \<in> set ps. str_contains (to_lower (UserAgent e)) p
        in if hit (ua_scannerPatterns d) then ua_scannerScore d
           else if hit (ua_grabberPatterns d) then ua_grabberScore d
           else if hit (ua_automationPatterns d) then ua_automationScore d else 0)"
proof -
  have low: "to_lower (UserAgent e) \<noteq> ''-''"
  proof
    assume a: "to_lower (UserAgent e) = ''-''"
    then obtain c where c: "UserAgent e = [c]" "char_lower c = CHR ''-''"
      by (auto simp: to_lower_def map_eq_Cons_conv)
    then have "c = CHR ''-''" using char_lower_fixed [OF c(2)] by simp
    with c assms show False by simp
  qed
  have hit: "(\<exists>p \<in> set ps. str_contains s p) \<longleftrightarrow> find (\<lambda>p. str_contains s p) ps \<noteq> None" for s ps
    by (auto simp: find_None_iff)
  show ?thesis
    unfolding Let_def hit using assms low
    by (simp add: ua_Detect_def Let_def split: option.split)
qed

text \<open>a path made of a directory and a decimal number is split into the two again, with
  or without a trailing slash.\<close>

theorem parseNumericPath_roundtrip:
  assumes "has_suffix pre ''/''" "CHR 0x0A \<notin> set pre" "n < 2 ^ 63"
  shows "parseNumericPath (pre @ show_nat n) = Some (pre, int n)
    \<and> parseNumericPath (pre @ show_nat n @ ''/'') = Some (pre, int n)"
proof -
  obtain q where q: "pre = q @ ''/''" using assms(1) by (auto simp: suffix_def)
  have slash: "\<not> is_digit (CHR ''/'')" by (simp add: is_digit_def)
  have dig: "\<forall>c \<in> set (rev (show_nat n)). is_digit c"
    using show_nat_digits [of n] by (simp add: list_all_iff)
  have nosuf: "\<not> has_suffix (pre @ show_nat n) ''/''"
  proof
    assume "has_suffix (pre @ show_nat n) ''/''"
    then have "last (show_nat n) = CHR ''/''"
      by (metis last_appendR last_snoc show_nat_nonempty suffix_def)
    then show False using dig slash by (metis last_in_set set_rev show_nat_nonempty)
  qed
  have "takeWhile is_digit (rev (show_nat n) @ CHR ''/'' # rev q) = rev (show_nat n)"
    "dropWhile is_digit (rev (show_nat n) @ CHR ''/'' # rev q) = CHR ''/'' # rev q"
    using dig slash by (simp_all add: takeWhile_append dropWhile_append)
  then have "numericSuffixRE (pre @ show_nat n) = Some (pre, show_nat n)"
    "numericSuffixRE (pre @ show_nat n @ ''/'') = Some (pre, show_nat n)"
    using assms nosuf q by (simp_all add: numericSuffixRE_def trim_suffix_def Let_def suffix_def)
  then show ?thesis using assms(3) by (simp add: parseNumericPath_def atoi_show_nat)
qed

section \<open>Witnesses\<close>

definition default_getters :: "unit getters" where
  "default_getters = \<lparr>GetInt = (\<lambda>_ _ d. d), GetFloat64 = (\<lambda>_ _ d. d), GetDuration = (\<lambda>_ _ d. d),
     GetStrings = (\<lambda>_ _ d. d), GetBool = (\<lambda>_ _ d. d)\<rparr>"

theorem crawler_fires_iff_witness:
  "Score (fst (crawler_Detect \<lparr>cr_minSequential = 2, cr_score = 20\<rparr> (\<lambda>g. g)
     (pushPath ''/p/8'' (pushPath ''/p/7'' (newIPState [] 0))) blank_entry)) \<noteq> 0"
proof -
  let ?st = "pushPath ''/p/8'' (pushPath ''/p/7'' (newIPState [] 0))"
  have ok: "ring_ok (pushPath ''/p/7'' (newIPState [] 0))" "ring_ok ?st" by (simp_all add: ring_ok_push)
  have paths: "fst (RecentPaths ?st) = [''/p/7'', ''/p/8'']"
    using ok by (simp add: RecentPaths_value rebuildPaths_push last_n_def pathBufSize_def)
  have parse: "parseNumericPath ''/p/7'' = Some (''/p/'', 7)" "parseNumericPath ''/p/8'' = Some (''/p/'', 8)"
    by (simp_all add: parseNumericPath_def numericSuffixRE_def trim_suffix_def suffix_to_prefix
        atoi_digits_def parse_digits_def digit_val_def is_digit_def Let_def)
  have n: "7 \<le> n \<and> n < 7 + 2 \<longrightarrow> n = 7 \<or> n = 8" for n :: int by arith
  show ?thesis
    by (subst crawler_fires_iff) (auto simp: paths parse intro!: exI [of _ "''/p/''"] exI [of _ 7] dest!: n [rule_format])
qed

theorem probe_fires_iff_witness:
  "Score (fst (probe_Detect (newProbeFactory default_getters ()) (newIPState [] 0)
     (blank_entry\<lparr>Path := ''/wp-admin/setup.php''\<rparr>))) \<noteq> 0"
  by (subst probe_fires_iff) (simp_all add: default_getters_def defaultProbePaths_def blank_entry_def suffix_to_prefix)

definition demo_ua :: uaDetector where
  "demo_ua = \<lparr>ua_scannerPatterns = [''sqlmap''], ua_grabberPatterns = [''curl/''], ua_automationPatterns = [],
     ua_scannerScore = 40, ua_grabberScore = 20, ua_automationScore = 15, ua_emptyUAScore = 30\<rparr>"

theorem ua_verdict_witness:
  "Score (fst (ua_Detect demo_ua (newIPState [] 0) (blank_entry\<lparr>UserAgent := ''xCURL/8''\<rparr>))) = 20"
proof -
  have "to_lower ''xCURL/8'' = ''xcurl/8''" by (simp add: to_lower_def char_lower_def char_of_eq_iff take_bit_eq_mod)
  then show ?thesis
    using ua_verdict [of "blank_entry\<lparr>UserAgent := ''xCURL/8''\<rparr>" demo_ua "newIPState [] 0"]
    by (simp add: demo_ua_def sublist_Cons_right)
qed

theorem parseNumericPath_roundtrip_witness:
  "parseNumericPath (''/page/'' @ show_nat 12) = Some (''/page/'', 12)"
  using parseNumericPath_roundtrip [of "''/page/''" 12] by (simp add: suffix_def)

end
