(* ===== verification/Scorer.thy ===== *)
theory Scorer
  imports Detectors
begin

text \<open>
  The scorer, \<open>internal/core/scorer/scorer.go\<close>: linear decay of the
  accumulated score in \<open>float64\<close>, the run over the detectors with the
  exemption set, the new score written to the state, and the verdict.

  A detector is its name and its \<open>Detect\<close>; the rate detector is given the
  clock reading of its call.  The current time is read once and is an argument.

  Shown: decay stays between 0 and the current score, never grows with time, and
  is within one unit of the exact linear formula; the score, the modules and the
  reason of a verdict are those of the firing detectors outside the exemption set;
  the verdict follows the thresholds.
\<close>

section \<open>The model\<close>

record Detector =
  d_Name :: string
  d_Detect :: detect_fn

record Scorer =
  alertThreshold :: int
  banThreshold :: int
  sc_window :: duration
  sc_detectors :: "Detector list"

record ScoringConfig =
  AlertThreshold :: int
  BanThreshold :: int
  ObservationWindow :: duration

definition NewScorer :: "ScoringConfig \<Rightarrow> Detector list \<Rightarrow> Scorer" where
  "NewScorer cfg detectors =
    \<lparr>alertThreshold = AlertThreshold cfg, banThreshold = BanThreshold cfg,
     sc_window = ObservationWindow cfg, sc_detectors = detectors\<rparr>"

definition levelFor :: "Scorer \<Rightarrow> int \<Rightarrow> string" where
  "levelFor s score =
    (if score \<ge> banThreshold s then ''THREAT''
     else if score \<ge> alertThreshold s then ''WARN''
     else [])"

definition applyDecay :: "int \<Rightarrow> gotime \<Rightarrow> duration \<Rightarrow> gotime \<Rightarrow> int" where
  "applyDecay current lastUpdate window now =
    (if current \<le> 0 \<or> is_zero_time lastUpdate \<or> window \<le> 0 then 0
     else
       let elapsed = time_sub now lastUpdate
       in if elapsed \<ge> window then 0
          else
            let fraction = f_div (f_int elapsed) (f_int window);
                decayed = f_mul (f_int current) (f_sub 1 fraction)
            in f_trunc decayed)"

text \<open>The loop over the detectors: the sum of the scores, the modules and the reasons.\<close>

fun detect_loop :: "Detector list \<Rightarrow> string list option \<Rightarrow> LogEntry \<Rightarrow> IPState
    \<Rightarrow> int \<times> string list \<times> string list \<Rightarrow> (int \<times> string list \<times> string list) \<times> IPState" where
  "detect_loop [] exemptSet e sv acc = (acc, sv)"
| "detect_loop (d # ds) exemptSet e sv (delta, modulesHit, reasons) =
    (if (case exemptSet of None \<Rightarrow> False | Some names \<Rightarrow> d_Name d \<in> set names)
     then detect_loop ds exemptSet e sv (delta, modulesHit, reasons)
     else
       let (res, sv') = d_Detect d sv e
       in if Score res \<le> 0 then detect_loop ds exemptSet e sv' (delta, modulesHit, reasons)
          else detect_loop ds exemptSet e sv'
            (delta + Score res, modulesHit @ [Module res],
             if Reason res \<noteq> [] then reasons @ [Module res @ '':'' @ Reason res] else reasons))"

record Verdict =
  v_level :: string
  v_score :: int
  v_modules :: "string list"
  v_reason :: string

definition Evaluate :: "Scorer \<Rightarrow> gotime \<Rightarrow> IPState \<Rightarrow> LogEntry \<Rightarrow> string list option \<Rightarrow> Verdict \<times> IPState" where
  "Evaluate s now sv e exemptSet =
    (let existing = st_score sv;
         lastUpdate = scoreUpdatedAt sv;
         decayed = applyDecay existing lastUpdate (sc_window s) now;
         ((delta, modulesHit, reasons), sv') = detect_loop (sc_detectors s) exemptSet e sv (0, [], []);
         newScore = decayed + delta;
         sv'' = SetScore newScore now sv'
     in (\<lparr>v_level = levelFor s newScore, v_score = newScore, v_modules = modulesHit,
          v_reason = str_join reasons '',''\<rparr>, sv''))"

section \<open>Decay\<close>

lemma f_trunc_bounds:
  assumes "0 \<le> x" "x \<le> of_int n"
  shows "0 \<le> f_trunc x" "f_trunc x \<le> n"
proof -
  show "0 \<le> f_trunc x" using assms(1) by (simp add: f_trunc_def)
  have "\<lfloor>x\<rfloor> \<le> \<lfloor>of_int n :: rat\<rfloor>" using assms(2) by (rule floor_mono)
  then show "f_trunc x \<le> n" using assms(1) by (simp add: f_trunc_def)
qed

lemma f_trunc_mono: "x \<le> y \<Longrightarrow> f_trunc x \<le> f_trunc y"
proof -
  assume le: "x \<le> y"
  consider "y < 0" | "x < 0" "0 \<le> y" | "0 \<le> x" using le by linarith
  then show ?thesis
  proof cases
    case 1
    then show ?thesis using le by (simp add: f_trunc_def ceiling_mono)
  next
    case 2
    then have "\<lceil>x\<rceil> \<le> 0" "0 \<le> \<lfloor>y\<rfloor>" by (simp_all add: ceiling_le_iff)
    then have "\<lceil>x\<rceil> \<le> \<lfloor>y\<rfloor>" by (rule order_trans)
    then show ?thesis using 2 by (simp add: f_trunc_def)
  next
    case 3
    then show ?thesis using le by (simp add: f_trunc_def floor_mono)
  qed
qed

lemma applyDecay_scaled:
  assumes "0 < c" "0 < w" "t \<noteq> 0" "time_sub now t < w"
  shows "applyDecay c t w now =
    f_trunc (f_mul (f_int c) (f_sub 1 (f_div (f_int (time_sub now t)) (f_int w))))"
  using assms by (simp add: applyDecay_def is_zero_time_def Let_def)

lemma applyDecay_zero:
  "c \<le> 0 \<or> t = 0 \<or> w \<le> 0 \<or> w \<le> time_sub now t \<Longrightarrow> applyDecay c t w now = 0"
  by (auto simp: applyDecay_def is_zero_time_def Let_def)

lemma applyDecay_range:
  assumes "t \<le> now" "c \<le> 2 ^ 53"
  shows "0 \<le> applyDecay c t w now \<and> applyDecay c t w now \<le> max 0 c"
proof (cases "c \<le> 0 \<or> t = 0 \<or> w \<le> 0 \<or> w \<le> time_sub now t")
  case True
  then show ?thesis by (simp add: applyDecay_zero)
next
  case False
  then have c: "0 < c" "t \<noteq> 0" "0 < w" "time_sub now t < w" by auto
  have e: "0 \<le> time_sub now t" using assms(1) by (rule time_sub_nonneg)
  have u: "0 \<le> f_sub 1 (f_div (f_int (time_sub now t)) (f_int w))"
    "f_sub 1 (f_div (f_int (time_sub now t)) (f_int w)) \<le> 1"
    using fraction_left [of "time_sub now t" w] c e by simp_all
  have "0 \<le> c" using c by simp
  note b = approx_curr_bounds [OF this assms(2) u]
  show ?thesis
    using f_trunc_bounds [OF b] applyDecay_scaled [OF c(1,3,2,4)] by simp
qed

lemma applyDecay_antimono:
  assumes "now \<le> now'" "t \<le> now" "c \<le> 2 ^ 53"
  shows "applyDecay c t w now' \<le> applyDecay c t w now"
proof (cases "c \<le> 0 \<or> t = 0 \<or> w \<le> 0 \<or> w \<le> time_sub now' t")
  case True
  then show ?thesis using applyDecay_range [OF assms(2,3)] by (simp add: applyDecay_zero)
next
  case False
  have le: "time_sub now t \<le> time_sub now' t" using assms(1) by (rule time_sub_mono)
  have "f_sub 1 (f_div (f_int (time_sub now' t)) (f_int w)) \<le> f_sub 1 (f_div (f_int (time_sub now t)) (f_int w))"
    using ieee.remaining_antimono [of "of_int (time_sub now t)" "of_int (time_sub now' t)" "of_int w"] le False
    by (simp add: f_ops)
  then have "f_mul (f_int c) (f_sub 1 (f_div (f_int (time_sub now' t)) (f_int w)))
      \<le> f_mul (f_int c) (f_sub 1 (f_div (f_int (time_sub now t)) (f_int w)))"
    using ieee.scaled_mono [of c] False by (simp add: f_ops)
  then show ?thesis
    using False le by (simp add: applyDecay_scaled f_trunc_mono)
qed

section \<open>The loop over the detectors\<close>

definition exempted :: "string list option \<Rightarrow> Detector \<Rightarrow> bool" where
  "exempted exemptSet d \<longleftrightarrow> (case exemptSet of None \<Rightarrow> False | Some names \<Rightarrow> d_Name d \<in> set names)"

text \<open>The results of the detectors that run, each on the state its predecessors left.\<close>

fun results :: "Detector list \<Rightarrow> string list option \<Rightarrow> LogEntry \<Rightarrow> IPState \<Rightarrow> (Detector \<times> DetectResult) list" where
  "results [] exemptSet e sv = []"
| "results (d # ds) exemptSet e sv =
    (if exempted exemptSet d then results ds exemptSet e sv
     else (d, fst (d_Detect d sv e)) # results ds exemptSet e (snd (d_Detect d sv e)))"

definition fired :: "(Detector \<times> DetectResult) list \<Rightarrow> DetectResult list" where
  "fired rs = filter (\<lambda>r. 0 < Score r) (map snd rs)"

definition reasons_of :: "DetectResult list \<Rightarrow> string list" where
  "reasons_of rs = map (\<lambda>r. Module r @ '':'' @ Reason r) (filter (\<lambda>r. Reason r \<noteq> []) rs)"

lemma detect_loop_results:
  "fst (detect_loop ds ex e sv (delta, ms, rsn)) =
    (let f = fired (results ds ex e sv)
     in (delta + sum_list (map Score f), ms @ map Module f, rsn @ reasons_of f))"
proof (induction ds ex e sv "(delta, ms, rsn)" arbitrary: delta ms rsn rule: detect_loop.induct)
  case (2 d ds ex e sv delta ms rsn)
  show ?case
  proof (cases "exempted ex d")
    case True
    then show ?thesis using 2(1) by (simp add: exempted_def fired_def reasons_of_def)
  next
    case False
    obtain res sv' where r: "d_Detect d sv e = (res, sv')" by (cases "d_Detect d sv e")
    show ?thesis
      using False 2(2,3) [OF _ r [symmetric]] r
      by (auto simp: exempted_def fired_def reasons_of_def Let_def)
  qed
qed (simp add: fired_def reasons_of_def)

abbreviation good_detector :: "Detector \<Rightarrow> bool" where
  "good_detector d \<equiv> detector_contract (d_Name d) (d_Detect d)"

lemma detect_loop_state:
  assumes "\<forall>d \<in> set ds. good_detector d"
  shows "st_score (snd (detect_loop ds ex e sv acc)) = st_score sv
    \<and> IP (snd (detect_loop ds ex e sv acc)) = IP sv
    \<and> (ipstate_ok sv \<longrightarrow> ipstate_ok (snd (detect_loop ds ex e sv acc)))"
  using assms
proof (induction ds ex e sv acc rule: detect_loop.induct)
  case (2 d ds ex e sv delta ms rsn)
  have g: "good_detector d" using 2 by simp
  obtain res sv' where r: "d_Detect d sv e = (res, sv')" by (cases "d_Detect d sv e")
  have "st_score sv' = st_score sv" "IP sv' = IP sv" "ipstate_ok sv \<Longrightarrow> ipstate_ok sv'"
    using detector_contract.keeps_score [OF g, of sv e] detector_contract.keeps_ok [OF g, of sv e] r by simp_all
  then show ?case
    using 2 r by (auto simp: Let_def)
qed simp

lemma results_modules:
  assumes "\<forall>d \<in> set ds. good_detector d" "r \<in> set (fired (results ds ex e sv))"
  shows "\<exists>d \<in> set ds. \<not> exempted ex d \<and> Module r = d_Name d"
  using assms
proof (induction ds ex e sv rule: results.induct)
  case (2 d ds ex e sv)
  then show ?case
    using detector_contract.fired_module [of "d_Name d" "d_Detect d" sv e]
    by (auto simp: fired_def split: if_splits)
qed (simp add: fired_def)

lemma fired_pos: "0 \<le> sum_list (map Score (fired rs))"
  by (auto simp: fired_def intro!: sum_list_nonneg)

lemma Evaluate_facts:
  "v_score (fst (Evaluate s now sv e ex)) =
    applyDecay (st_score sv) (scoreUpdatedAt sv) (sc_window s) now
      + sum_list (map Score (fired (results (sc_detectors s) ex e sv)))"
  "v_level (fst (Evaluate s now sv e ex)) = levelFor s (v_score (fst (Evaluate s now sv e ex)))"
  "st_score (snd (Evaluate s now sv e ex)) = v_score (fst (Evaluate s now sv e ex))"
  "scoreUpdatedAt (snd (Evaluate s now sv e ex)) = now"
  using detect_loop_results [of "sc_detectors s" ex e sv 0 "[]" "[]"]
  by (simp_all add: Evaluate_def Let_def split_beta SetScore_def)

lemma Evaluate_keeps:
  assumes "\<forall>d \<in> set (sc_detectors s). good_detector d"
  shows "IP (snd (Evaluate s now sv e ex)) = IP sv"
    and "ipstate_ok sv \<Longrightarrow> ipstate_ok (snd (Evaluate s now sv e ex))"
  using detect_loop_state [OF assms, of ex e sv "(0, [], [])"]
  by (simp_all add: Evaluate_def Let_def split_beta) (simp add: SetScore_def)

section \<open>Properties\<close>

text \<open>C17: decay never makes a score negative or larger, never grows as time passes, and
  reaches zero after the observation window.\<close>

theorem applyDecay_monotone:
  assumes "t \<le> now" "now \<le> now'" "c \<le> 2 ^ 53"
  shows "0 \<le> applyDecay c t w now \<and> applyDecay c t w now \<le> max 0 c
    \<and> applyDecay c t w now' \<le> applyDecay c t w now
    \<and> (w < 2 ^ 63 \<and> t + w \<le> now \<longrightarrow> applyDecay c t w now = 0)"
proof -
  have "w \<le> time_sub now t" if "w < 2 ^ 63" "t + w \<le> now"
    using that assms(1) by (simp add: time_sub_def)
  then show ?thesis
    using applyDecay_range [OF assms(1,3)] applyDecay_antimono [OF assms(2,1,3)]
      applyDecay_zero [of c t w now] by blast
qed

text \<open>the floating-point computation of the decay is within one unit, and a margin of one
  millionth, of the exact linear formula.\<close>

theorem applyDecay_accurate:
  assumes "0 < c" "c \<le> 2 ^ 31" "0 < t" "t \<le> now" "now - t < w" "w \<le> 2 ^ 53"
  shows "\<bar>of_int (applyDecay c t w now) - of_int c * (1 - of_int (now - t) / of_int w)\<bar>
    < (1 + 1 / 1000000 :: rat)"
proof -
  let ?e = "now - t"
  define v where "v = f_mul (f_int c) (f_sub 1 (f_div (f_int ?e) (f_int w)))"
  have e: "0 \<le> ?e" "?e \<le> w" "0 < w" using assms by linarith+
  have sub: "time_sub now t = ?e" using assms by (intro time_sub_exact) simp_all
  have c: "0 \<le> c" "c \<le> 2 ^ 53" using assms(1,2) by simp_all
  have err: "\<bar>v - of_int c * (1 - of_int ?e / of_int w)\<bar> \<le> 3 * of_int c / 2 ^ 53"
    using ieee.scaled_remaining_err [OF e assms(6) c] by (simp only: v_def f_ops)
  have "3 * of_int c / 2 ^ 53 \<le> (3 * 2 ^ 31 / 2 ^ 53 :: rat)"
    using assms(2) by (intro divide_right_mono) simp_all
  then have small: "3 * of_int c / 2 ^ 53 < (1 / 1000000 :: rat)" by simp
  have u: "0 \<le> f_sub 1 (f_div (f_int ?e) (f_int w))" "f_sub 1 (f_div (f_int ?e) (f_int w)) \<le> 1"
    using fraction_left [OF e] by simp_all
  have "0 \<le> v" unfolding v_def by (rule approx_curr_bounds [OF c u])
  then have "applyDecay c t w now = \<lfloor>v\<rfloor>"
    using assms sub by (simp add: applyDecay_scaled v_def f_trunc_def)
  moreover have "\<bar>of_int \<lfloor>v\<rfloor> - v\<bar> < 1" by linarith
  ultimately show ?thesis using err small by linarith
qed


text \<open>with ordered thresholds the verdict is THREAT from the ban threshold on, WARN between
  the two thresholds, and empty below.\<close>

theorem Evaluate_level:
  assumes "alertThreshold s \<le> banThreshold s"
  shows "let v = fst (Evaluate s now sv e ex)
    in (v_level v = ''THREAT'' \<longleftrightarrow> banThreshold s \<le> v_score v)
     \<and> (v_level v = ''WARN'' \<longleftrightarrow> alertThreshold s \<le> v_score v \<and> v_score v < banThreshold s)
     \<and> (v_level v = [] \<longleftrightarrow> v_score v < alertThreshold s)"
  using assms by (auto simp: Evaluate_def levelFor_def Let_def split_beta)

section \<open>Witnesses\<close>

definition demo_scorer :: Scorer where
  "demo_scorer = NewScorer \<lparr>AlertThreshold = 50, BanThreshold = 80, ObservationWindow = 300 * second\<rparr>
     [\<lparr>d_Name = ''ua'', d_Detect = ua_Detect demo_ua\<rparr>]"

theorem applyDecay_monotone_witness:
  "applyDecay 60 1000 (300 * second) (200 * second) \<le> applyDecay 60 1000 (300 * second) (100 * second)"
  using applyDecay_monotone [of 1000 "100 * second" "200 * second" 60 "300 * second"] by (simp add: second_def)

theorem applyDecay_accurate_witness:
  "\<bar>of_int (applyDecay 60 1000 4000 3000) - 30\<bar> < (1 + 1 / 1000000 :: rat)"
  using applyDecay_accurate [of 60 1000 3000 4000] by simp


theorem Evaluate_level_witness:
  "let v = fst (Evaluate demo_scorer 5 (newIPState [] 0) blank_entry None)
   in v_level v = ''THREAT'' \<longleftrightarrow> 80 \<le> v_score v"
  using Evaluate_level [of demo_scorer 5 "newIPState [] 0" blank_entry None]
  by (simp add: demo_scorer_def NewScorer_def Let_def)

end
