(* ===== verification/Whitelist.thy ===== *)
theory Whitelist
  imports Ipnet
begin

text \<open>
  The whitelist, \<open>internal/core/whitelist\<close>: the matcher over the custom
  lists and the bot patterns, the cache of verification results with its lazy
  expiry, and the verification of bots by reverse and forward DNS.

  The DNS resolver is an argument: two lookup functions that may fail.  The cache is
  guarded by a lock; \<open>Get\<close> releases it between the read and the deletion
  of an expired entry, so the two critical sections are two functions and the
  results hold for every state of the cache between them.

  Shown: the matcher accepts exactly the listed addresses, networks and paths with
  their boundaries; a positive verification comes from a two-way DNS check that is
  at most one positive time-to-live old; an eviction never removes a live entry.
\<close>

section \<open>Matcher\<close>

record BotConfig =
  bot_Name :: string
  UAPatterns :: "string list"
  VerifyMethod :: string
  RDNSDomains :: "string list"
  ExemptDetectors :: "string list"

record WhitelistConfig =
  wl_Bots :: "BotConfig list"
  wl_IPs :: "string list"
  wl_CIDRs :: "string list"
  wl_UASubstrings :: "string list"
  wl_Paths :: "string list"

record Matcher =
  m_bots :: "BotConfig list"
  customIPs :: "string list"
  customCIDRs :: "ipnet list"
  customUASubs :: "string list"
  customPaths :: "string list"

text \<open>\<open>Inl\<close> is the error with the first invalid CIDR.\<close>

fun compile_cidrs :: "string list \<Rightarrow> string + ipnet list" where
  "compile_cidrs [] = Inr []"
| "compile_cidrs (cidr # rest) =
    (case ParseCIDR cidr of
       None \<Rightarrow> Inl cidr
     | Some net \<Rightarrow>
         (case compile_cidrs rest of Inl bad \<Rightarrow> Inl bad | Inr nets \<Rightarrow> Inr (net # nets)))"

definition NewMatcher :: "WhitelistConfig \<Rightarrow> string + Matcher" where
  "NewMatcher cfg =
    (case compile_cidrs (wl_CIDRs cfg) of
       Inl err \<Rightarrow> Inl err
     | Inr cidrs \<Rightarrow>
         Inr \<lparr>m_bots = wl_Bots cfg, customIPs = remdups (wl_IPs cfg), customCIDRs = cidrs,
              customUASubs = wl_UASubstrings cfg, customPaths = wl_Paths cfg\<rparr>)"

definition MatchBot :: "Matcher \<Rightarrow> string \<Rightarrow> BotConfig option" where
  "MatchBot m ua =
    (if ua = [] then None
     else find (\<lambda>bot. list_ex (\<lambda>pat. str_contains ua pat) (UAPatterns bot)) (m_bots m))"

definition IsWhitelistedIP :: "Matcher \<Rightarrow> string \<Rightarrow> bool" where
  "IsWhitelistedIP m ip =
    (if ip \<in> set (customIPs m) then True
     else if customCIDRs m = [] then False
     else case ParseIP ip of
            None \<Rightarrow> False
          | Some parsed \<Rightarrow> list_ex (\<lambda>cidr. net_contains cidr parsed) (customCIDRs m))"

definition IsWhitelistedUA :: "Matcher \<Rightarrow> string \<Rightarrow> bool" where
  "IsWhitelistedUA m ua = (if ua = [] then False else list_ex (\<lambda>sub. str_contains ua sub) (customUASubs m))"

definition IsWhitelistedPath :: "Matcher \<Rightarrow> string \<Rightarrow> bool" where
  "IsWhitelistedPath m path =
    (if path = [] then False
     else list_ex (\<lambda>p. p \<noteq> [] \<and>
            (path = p \<or> has_prefix path (p @ ''/'') \<or> has_prefix path (p @ ''?''))) (customPaths m))"

section \<open>Cache\<close>

record cacheEntry =
  ce_verified :: bool
  ce_isFakeBot :: bool
  ce_expiresAt :: gotime

record IPCache =
  ic_entries :: "(string, cacheEntry) gomap"
  positiveTTL :: duration
  negativeTTL :: duration

definition NewIPCache :: "duration \<Rightarrow> duration \<Rightarrow> IPCache" where
  "NewIPCache pos neg = \<lparr>ic_entries = [], positiveTTL = pos, negativeTTL = neg\<rparr>"

datatype get_read = Miss | Hit bool bool | Expired

text \<open>The critical section under the read lock, with the clock read after it.\<close>

definition Get_read :: "gotime \<Rightarrow> string \<Rightarrow> IPCache \<Rightarrow> get_read" where
  "Get_read now ip c =
    (case map_of (ic_entries c) ip of
       None \<Rightarrow> Miss
     | Some entry \<Rightarrow>
         if \<not> (now > ce_expiresAt entry) then Hit (ce_verified entry) (ce_isFakeBot entry) else Expired)"

text \<open>The critical section under the write lock.\<close>

definition Get_evict :: "gotime \<Rightarrow> string \<Rightarrow> IPCache \<Rightarrow> (bool \<times> bool) option \<times> IPCache" where
  "Get_evict now ip c =
    (case map_of (ic_entries c) ip of
       None \<Rightarrow> (None, c)
     | Some e \<Rightarrow>
         if \<not> (now > ce_expiresAt e) then (Some (ce_verified e, ce_isFakeBot e), c)
         else (None, c\<lparr>ic_entries := AList.delete ip (ic_entries c)\<rparr>))"

definition cache_Get :: "gotime \<Rightarrow> string \<Rightarrow> IPCache \<Rightarrow> (bool \<times> bool) option \<times> IPCache" where
  "cache_Get now ip c =
    (case Get_read now ip c of
       Miss \<Rightarrow> (None, c)
     | Hit verified isFakeBot \<Rightarrow> (Some (verified, isFakeBot), c)
     | Expired \<Rightarrow> Get_evict now ip c)"

definition cache_Set :: "gotime \<Rightarrow> string \<Rightarrow> bool \<Rightarrow> bool \<Rightarrow> IPCache \<Rightarrow> IPCache" where
  "cache_Set now ip verified isFakeBot c =
    (let ttl = (if verified then positiveTTL c else negativeTTL c)
     in c\<lparr>ic_entries := AList.update ip
            \<lparr>ce_verified = verified, ce_isFakeBot = isFakeBot, ce_expiresAt = now + ttl\<rparr> (ic_entries c)\<rparr>)"

section \<open>Verifier\<close>

record Resolver =
  LookupAddr :: "string \<Rightarrow> string list option"
  LookupHost :: "string \<Rightarrow> string list option"

definition matchesRDNSDomain :: "string \<Rightarrow> string list \<Rightarrow> bool" where
  "matchesRDNSDomain hostname domains =
    list_ex (\<lambda>domain. has_suffix hostname
       (if \<not> has_prefix domain ''.'' then ''.'' @ domain else domain)) domains"

fun check_hostnames :: "Resolver \<Rightarrow> string \<Rightarrow> string list \<Rightarrow> string list \<Rightarrow> bool" where
  "check_hostnames r ip domains [] = False"
| "check_hostnames r ip domains (hostname # rest) =
    (let hostname = trim_suffix hostname ''.''
     in if \<not> matchesRDNSDomain hostname domains then check_hostnames r ip domains rest
        else case LookupHost r hostname of
               None \<Rightarrow> check_hostnames r ip domains rest
             | Some addrs \<Rightarrow> if ip \<in> set addrs then True else check_hostnames r ip domains rest)"

definition verifyRDNS :: "Resolver \<Rightarrow> string \<Rightarrow> BotConfig \<Rightarrow> bool" where
  "verifyRDNS r ip botCfg =
    (case LookupAddr r ip of
       None \<Rightarrow> False
     | Some hostnames \<Rightarrow> if hostnames = [] then False else check_hostnames r ip (RDNSDomains botCfg) hostnames)"

definition Verify :: "Resolver \<Rightarrow> gotime \<Rightarrow> string \<Rightarrow> BotConfig \<Rightarrow> IPCache \<Rightarrow> (bool \<times> bool) \<times> IPCache" where
  "Verify r now ip botCfg c =
    (case cache_Get now ip c of
       (Some res, c') \<Rightarrow> (res, c')
     | (None, c') \<Rightarrow>
         if VerifyMethod botCfg = ''rdns'' \<or> VerifyMethod botCfg = ''rdns_ipjson'' then
           let verified = verifyRDNS r ip botCfg; isFakeBot = (\<not> verified)
           in ((verified, isFakeBot), cache_Set now ip verified isFakeBot c')
         else if VerifyMethod botCfg = ''ua_only'' then ((False, False), c')
         else if VerifyMethod botCfg = ''ip_ranges'' then ((False, False), c')
         else ((False, False), c'))"

section \<open>The contract of a cache with expiry\<close>

text \<open>
  What a memoising caller relies on.  Values are stored with a lifetime that depends
  on the value; a lookup may drop what it finds expired, which no later lookup sees.
\<close>

locale ttl_cache =
  fixes get :: "gotime \<Rightarrow> string \<Rightarrow> 'c \<Rightarrow> 'v option \<times> 'c"
    and set :: "gotime \<Rightarrow> string \<Rightarrow> 'v \<Rightarrow> 'c \<Rightarrow> 'c"
    and ttl :: "'c \<Rightarrow> 'v \<Rightarrow> duration"
  assumes get_set_same: "fst (get now k (set t k v c)) = (if now \<le> t + ttl c v then Some v else None)"
    and get_set_other: "k' \<noteq> k \<Longrightarrow> fst (get now k' (set t k v c)) = fst (get now k' c)"
    and get_get: "now \<le> now' \<Longrightarrow> fst (get now' k' (snd (get now k c))) = fst (get now' k' c)"
    and ttl_get: "ttl (snd (get now k c)) = ttl c"
begin

text \<open>A value computed on a miss is served until its lifetime ends.\<close>

lemma memo_hit:
  assumes "now \<le> now'" "now' \<le> now + ttl c v"
  shows "fst (get now' k (set now k v (snd (get now k c)))) = Some v"
  using assms by (simp add: get_set_same ttl_get)

lemma memo_expired: "now + ttl c v < now' \<Longrightarrow> fst (get now' k (set now k v (snd (get now k c)))) = None"
  by (simp add: get_set_same ttl_get)

lemma memo_other:
  assumes "k' \<noteq> k" "now \<le> now'"
  shows "fst (get now' k' (set now k v (snd (get now k c)))) = fst (get now' k' c)"
  using assms by (simp add: get_set_other get_get)

end

lemma cache_Get_value:
  "fst (cache_Get now ip c) =
    (case map_of (ic_entries c) ip of
       None \<Rightarrow> None
     | Some e \<Rightarrow> if now \<le> ce_expiresAt e then Some (ce_verified e, ce_isFakeBot e) else None)"
  by (auto simp: cache_Get_def Get_read_def Get_evict_def split: option.split get_read.split)

lemma cache_Get_entries:
  "map_of (ic_entries (snd (cache_Get now ip c))) k =
    (if k = ip then (case map_of (ic_entries c) ip of
        None \<Rightarrow> None | Some e \<Rightarrow> if now \<le> ce_expiresAt e then Some e else None)
     else map_of (ic_entries c) k)"
  by (auto simp: cache_Get_def Get_read_def Get_evict_def gm_get_delete split: option.split get_read.split)

lemma cache_Get_ttl [simp]:
  "positiveTTL (snd (cache_Get now ip c)) = positiveTTL c"
  "negativeTTL (snd (cache_Get now ip c)) = negativeTTL c"
  by (auto simp: cache_Get_def Get_read_def Get_evict_def split: option.split get_read.split)

interpretation ipcache: ttl_cache cache_Get "\<lambda>t k v. cache_Set t k (fst v) (snd v)"
  "\<lambda>c v. if fst v then positiveTTL c else negativeTTL c"
  by unfold_locales
    (auto simp: cache_Get_value cache_Get_entries cache_Set_def Let_def gm_get_update split: option.split if_splits)

section \<open>DNS verification\<close>

text \<open>The registrable part a reverse name must end in, with its leading dot.\<close>

definition dotted :: "string \<Rightarrow> string" where
  "dotted domain = (if has_prefix domain ''.'' then domain else ''.'' @ domain)"

lemma matchesRDNSDomain_iff:
  "matchesRDNSDomain h ds \<longleftrightarrow> (\<exists>d \<in> set ds. has_suffix h (dotted d))"
  by (auto simp: matchesRDNSDomain_def list_ex_iff dotted_def)

definition dns_confirmed :: "Resolver \<Rightarrow> string \<Rightarrow> BotConfig \<Rightarrow> bool" where
  "dns_confirmed r ip cfg \<longleftrightarrow>
    (\<exists>hs h addrs. LookupAddr r ip = Some hs \<and> h \<in> set hs
       \<and> (\<exists>d \<in> set (RDNSDomains cfg). has_suffix (trim_suffix h ''.'') (dotted d))
       \<and> LookupHost r (trim_suffix h ''.'') = Some addrs \<and> ip \<in> set addrs)"

lemma check_hostnames_iff:
  "check_hostnames r ip ds hs \<longleftrightarrow>
    (\<exists>h \<in> set hs. matchesRDNSDomain (trim_suffix h ''.'') ds \<and>
       (\<exists>addrs. LookupHost r (trim_suffix h ''.'') = Some addrs \<and> ip \<in> set addrs))"
  by (induction hs) (auto simp: Let_def split: option.splits)

lemma verifyRDNS_iff: "verifyRDNS r ip cfg = dns_confirmed r ip cfg"
  by (auto simp: verifyRDNS_def dns_confirmed_def check_hostnames_iff matchesRDNSDomain_iff split: option.split)

text \<open>
  A run of the verifier: the log of its DNS verifications, each with its address,
  its time and its outcome, the latest first, and the cache.  The resolver may answer differently
  at every call; a step may also evict an expired entry or replace the log-independent
  settings.
\<close>

inductive verify_run :: "duration \<Rightarrow> duration \<Rightarrow> (string \<times> gotime \<times> bool) list \<Rightarrow> IPCache \<Rightarrow> bool"
  for pos neg where
  run_new: "verify_run pos neg [] (NewIPCache pos neg)"
| run_verify: "verify_run pos neg log c \<Longrightarrow> fst (cache_Get now ip c) = None
    \<Longrightarrow> VerifyMethod cfg \<in> {''rdns'', ''rdns_ipjson''}
    \<Longrightarrow> verify_run pos neg ((ip, now, verifyRDNS r ip cfg) # log) (snd (Verify r now ip cfg c))"
| run_other: "verify_run pos neg log c
    \<Longrightarrow> fst (cache_Get now ip c) \<noteq> None \<or> VerifyMethod cfg \<notin> {''rdns'', ''rdns_ipjson''}
    \<Longrightarrow> verify_run pos neg log (snd (Verify r now ip cfg c))"
| run_evict: "verify_run pos neg log c \<Longrightarrow> verify_run pos neg log (snd (Get_evict now ip c))"

definition entry_logged :: "duration \<Rightarrow> duration \<Rightarrow> (string \<times> gotime \<times> bool) list \<Rightarrow> string \<Rightarrow> cacheEntry \<Rightarrow> bool" where
  "entry_logged pos neg log ip e \<longleftrightarrow>
    (\<exists>t. (ip, t, ce_verified e) \<in> set log \<and> ce_isFakeBot e = (\<not> ce_verified e)
       \<and> ce_expiresAt e = t + (if ce_verified e then pos else neg))"

lemma entry_logged_mono: "entry_logged pos neg log ip e \<Longrightarrow> entry_logged pos neg (x # log) ip e"
  by (auto simp: entry_logged_def)

lemma Verify_hit:
  "fst (cache_Get now ip c) = Some v \<Longrightarrow> Verify r now ip cfg c = (v, snd (cache_Get now ip c))"
  by (cases "cache_Get now ip c") (simp add: Verify_def)

lemma Verify_dns:
  "fst (cache_Get now ip c) = None \<Longrightarrow> VerifyMethod cfg \<in> {''rdns'', ''rdns_ipjson''} \<Longrightarrow>
    Verify r now ip cfg c = ((verifyRDNS r ip cfg, \<not> verifyRDNS r ip cfg),
      cache_Set now ip (verifyRDNS r ip cfg) (\<not> verifyRDNS r ip cfg) (snd (cache_Get now ip c)))"
  by (cases "cache_Get now ip c") (auto simp: Verify_def Let_def)

lemma Verify_unchecked:
  "fst (cache_Get now ip c) = None \<Longrightarrow> VerifyMethod cfg \<notin> {''rdns'', ''rdns_ipjson''} \<Longrightarrow>
    Verify r now ip cfg c = ((False, False), snd (cache_Get now ip c))"
  by (cases "cache_Get now ip c") (auto simp: Verify_def)

lemma Get_evict_entries:
  "map_of (ic_entries (snd (Get_evict now ip c))) k = Some e \<Longrightarrow> map_of (ic_entries c) k = Some e"
  by (auto simp: Get_evict_def gm_get_delete split: option.splits if_splits)

lemma Get_entries_sub:
  "map_of (ic_entries (snd (cache_Get now ip c))) k = Some e \<Longrightarrow> map_of (ic_entries c) k = Some e"
  by (auto simp: cache_Get_entries split: option.splits if_splits)

lemma Get_evict_ttl [simp]:
  "positiveTTL (snd (Get_evict now ip c)) = positiveTTL c" "negativeTTL (snd (Get_evict now ip c)) = negativeTTL c"
  by (auto simp: Get_evict_def split: option.split)

lemma verify_run_logged:
  assumes "verify_run pos neg log c"
  shows "positiveTTL c = pos \<and> negativeTTL c = neg \<and>
    (\<forall>ip e. map_of (ic_entries c) ip = Some e \<longrightarrow> entry_logged pos neg log ip e)"
  using assms
proof induction
  case run_new
  show ?case by (simp add: NewIPCache_def)
next
  case (run_verify log c now ip cfg r)
  let ?v = "verifyRDNS r ip cfg" and ?c = "snd (cache_Get now ip c)"
  have new: "entry_logged pos neg ((ip, now, ?v) # log) ip
      \<lparr>ce_verified = ?v, ce_isFakeBot = (\<not> ?v), ce_expiresAt = now + (if ?v then pos else neg)\<rparr>"
    by (auto simp: entry_logged_def)
  have old: "entry_logged pos neg ((ip, now, ?v) # log) k e" if "map_of (ic_entries ?c) k = Some e" for k e
    using run_verify.IH Get_entries_sub [OF that] entry_logged_mono by blast
  show ?case
    unfolding Verify_dns [OF run_verify.hyps(2,3)]
    using new old run_verify.IH by (cases ?v) (auto simp: cache_Set_def Let_def gm_get_update)
next
  case (run_other log c now ip cfg r)
  have "snd (Verify r now ip cfg c) = snd (cache_Get now ip c)"
    using run_other.hyps(2) Verify_hit Verify_unchecked
    by (cases "fst (cache_Get now ip c)") auto
  then show ?case using run_other.IH Get_entries_sub by (metis cache_Get_ttl)
next
  case (run_evict log c now ip)
  then show ?case using Get_evict_entries by (metis Get_evict_ttl)
qed

lemma Verify_origin:
  assumes "verify_run pos neg log c" "fst (Verify r now ip cfg c) = (v, f)"
  shows "VerifyMethod cfg \<in> {''rdns'', ''rdns_ipjson''} \<and> v = dns_confirmed r ip cfg \<and> f = (\<not> v)
    \<or> VerifyMethod cfg \<notin> {''rdns'', ''rdns_ipjson''} \<and> \<not> v \<and> \<not> f
    \<or> (\<exists>t. (ip, t, v) \<in> set log \<and> f = (\<not> v) \<and> now \<le> t + (if v then pos else neg))"
proof (cases "fst (cache_Get now ip c)")
  case None
  then show ?thesis
    using assms(2) Verify_dns [OF None, of cfg r] Verify_unchecked [OF None, of cfg r] verifyRDNS_iff
    by (cases "VerifyMethod cfg \<in> {''rdns'', ''rdns_ipjson''}") auto
next
  case (Some w)
  then obtain e where e: "map_of (ic_entries c) ip = Some e" "now \<le> ce_expiresAt e" "w = (ce_verified e, ce_isFakeBot e)"
    by (auto simp: cache_Get_value split: option.splits if_splits)
  have "entry_logged pos neg log ip e" using verify_run_logged [OF assms(1)] e(1) by blast
  moreover have "w = (v, f)" using assms(2) Verify_hit [OF Some] by simp
  ultimately show ?thesis using e by (auto simp: entry_logged_def)
qed

lemma compile_cidrs_Inr:
  "compile_cidrs cs = Inr nets \<Longrightarrow> list_all2 (\<lambda>c n. ParseCIDR c = Some n) cs nets"
  by (induction cs arbitrary: nets) (auto split: option.splits sum.splits)

section \<open>Properties\<close>


text \<open>a client is penalised as a fake bot only when a DNS check of its address failed, now or
  at most one negative time-to-live ago, and methods without DNS never penalise on a cache miss.\<close>

theorem Verify_fake:
  assumes "verify_run pos neg log c" "fst (Verify r now ip cfg c) = (ok, True)"
  shows "\<not> ok \<and> (VerifyMethod cfg \<in> {''rdns'', ''rdns_ipjson''} \<and> \<not> dns_confirmed r ip cfg
    \<or> (\<exists>t. (ip, t, False) \<in> set log \<and> now \<le> t + neg))"
  using Verify_origin [OF assms] by auto

text \<open>the result of a DNS verification is served from the cache to every later request of the
  same address, for any bot and whatever DNS answers then, until its time-to-live ends.\<close>

theorem Verify_cached:
  assumes "fst (cache_Get now ip c) = None" "VerifyMethod cfg \<in> {''rdns'', ''rdns_ipjson''}"
    and "now \<le> now'" "now' \<le> now + (if verifyRDNS r ip cfg then positiveTTL c else negativeTTL c)"
  shows "fst (Verify r' now' ip cfg' (snd (Verify r now ip cfg c))) = fst (Verify r now ip cfg c)"
proof -
  let ?v = "verifyRDNS r ip cfg"
  have "fst (cache_Get now' ip (cache_Set now ip ?v (\<not> ?v) (snd (cache_Get now ip c)))) = Some (?v, \<not> ?v)"
    using ipcache.memo_hit [of now now' "(?v, \<not> ?v)" c ip] assms(3,4) by simp
  from Verify_hit [OF this] show ?thesis
    unfolding Verify_dns [OF assms(1,2)] by simp
qed

text \<open>the second critical section of a lookup, run after any change of the cache, returns a
  live entry instead of deleting it, deletes nothing else, and leaves no expired entry of the
  address.\<close>

theorem Get_evict_safe:
  "map_of (ic_entries (snd (Get_evict now ip c))) k =
    (if k = ip then (case map_of (ic_entries c) ip of
        None \<Rightarrow> None | Some e \<Rightarrow> if now \<le> ce_expiresAt e then Some e else None)
     else map_of (ic_entries c) k)
   \<and> fst (Get_evict now ip c) = map_option (\<lambda>e. (ce_verified e, ce_isFakeBot e))
       (map_of (ic_entries (snd (Get_evict now ip c))) ip)"
  by (auto simp: Get_evict_def gm_get_delete split: option.split)

text \<open>an address passes the custom whitelist exactly when it is listed or a listed network
  contains it, and the construction fails exactly on a malformed network.\<close>

theorem whitelist_ip_exact:
  "(case NewMatcher cfg of
      Inl bad \<Rightarrow> bad \<in> set (wl_CIDRs cfg) \<and> ParseCIDR bad = None
    | Inr m \<Rightarrow> list_all (\<lambda>c. ParseCIDR c \<noteq> None) (wl_CIDRs cfg) \<and>
        (IsWhitelistedIP m ip \<longleftrightarrow> ip \<in> set (wl_IPs cfg) \<or>
          (\<exists>a c n. ParseIP ip = Some a \<and> c \<in> set (wl_CIDRs cfg) \<and> ParseCIDR c = Some n \<and> net_contains n a)))"
proof (cases "compile_cidrs (wl_CIDRs cfg)")
  case (Inl bad)
  have "bad \<in> set cs \<and> ParseCIDR bad = None" if "compile_cidrs cs = Inl bad" for cs
    using that by (induction cs) (auto split: option.splits sum.splits)
  with Inl show ?thesis by (simp add: NewMatcher_def)
next
  case (Inr nets)
  then have all: "list_all2 (\<lambda>c n. ParseCIDR c = Some n) (wl_CIDRs cfg) nets" by (rule compile_cidrs_Inr)
  have mem: "n \<in> set nets \<longleftrightarrow> (\<exists>c \<in> set (wl_CIDRs cfg). ParseCIDR c = Some n)" for n
    using all by (induction rule: list_all2_induct) auto
  have "list_all (\<lambda>c. ParseCIDR c \<noteq> None) (wl_CIDRs cfg)"
    using all by (induction rule: list_all2_induct) auto
  then show ?thesis
    using Inr mem by (auto simp: NewMatcher_def IsWhitelistedIP_def list_ex_iff split: option.split) blast
qed

text \<open>a path passes the custom whitelist exactly when it is a listed path or continues one at
  a slash or a query mark; a longer name that only starts like a listed path does not pass.\<close>

theorem whitelist_path_boundary:
  "IsWhitelistedPath m path \<longleftrightarrow>
    (\<exists>p \<in> set (customPaths m). p \<noteq> [] \<and> (\<exists>rest. path = p @ rest \<and> (rest = [] \<or> hd rest \<in> {CHR ''/'', CHR ''?''})))"
proof -
  have "path = p \<or> prefix (p @ ''/'') path \<or> prefix (p @ ''?'') path \<longleftrightarrow>
      (\<exists>rest. path = p @ rest \<and> (rest = [] \<or> hd rest \<in> {CHR ''/'', CHR ''?''}))" for p
  proof
    assume "\<exists>rest. path = p @ rest \<and> (rest = [] \<or> hd rest \<in> {CHR ''/'', CHR ''?''})"
    then obtain rest where r: "path = p @ rest" "rest = [] \<or> hd rest \<in> {CHR ''/'', CHR ''?''}" by blast
    then show "path = p \<or> prefix (p @ ''/'') path \<or> prefix (p @ ''?'') path"
      by (cases rest) auto
  qed (auto simp: prefix_def)
  then show ?thesis by (auto simp: IsWhitelistedPath_def list_ex_iff)
qed

section \<open>Witnesses\<close>

definition demo_resolver :: Resolver where
  "demo_resolver = \<lparr>LookupAddr = (\<lambda>ip. if ip = ''66.249.66.1'' then Some [''crawl.googlebot.com.''] else None),
     LookupHost = (\<lambda>h. if h = ''crawl.googlebot.com'' then Some [''66.249.66.1''] else None)\<rparr>"

definition demo_bot :: BotConfig where
  "demo_bot = \<lparr>bot_Name = ''Googlebot'', UAPatterns = [''Googlebot''], VerifyMethod = ''rdns'',
     RDNSDomains = [''googlebot.com''], ExemptDetectors = []\<rparr>"

definition demo_cache :: IPCache where
  "demo_cache = NewIPCache (24 * 3600 * second) (300 * second)"

lemma demo_run: "verify_run (24 * 3600 * second) (300 * second) [] demo_cache"
  unfolding demo_cache_def by (rule run_new)

lemma demo_miss: "fst (cache_Get now ip demo_cache) = None"
  by (simp add: cache_Get_value demo_cache_def NewIPCache_def)

lemma demo_verified: "verifyRDNS demo_resolver ''66.249.66.1'' demo_bot"
  "\<not> verifyRDNS demo_resolver ''10.0.0.1'' demo_bot"
  by (simp_all add: verifyRDNS_def demo_resolver_def demo_bot_def matchesRDNSDomain_def trim_suffix_def
      suffix_to_prefix Let_def)

lemma demo_verify:
  "fst (Verify demo_resolver 7 ''66.249.66.1'' demo_bot demo_cache) = (True, False)"
  "fst (Verify demo_resolver 7 ''10.0.0.1'' demo_bot demo_cache) = (False, True)"
  using Verify_dns [OF demo_miss, of demo_bot demo_resolver 7] demo_verified by (simp_all add: demo_bot_def)


theorem Verify_fake_witness:
  "\<not> dns_confirmed demo_resolver ''10.0.0.1'' demo_bot"
  using Verify_fake [OF demo_run demo_verify(2)] by simp

theorem Verify_cached_witness:
  "fst (Verify demo_resolver 8 ''66.249.66.1'' demo_bot
      (snd (Verify demo_resolver 7 ''66.249.66.1'' demo_bot demo_cache))) = (True, False)"
  using Verify_cached [OF demo_miss, of demo_bot 7 8 demo_resolver "''66.249.66.1''" demo_resolver demo_bot] demo_verified demo_verify
  by (simp add: demo_bot_def demo_cache_def NewIPCache_def second_def)

end
