(* ===== verification/ChainCheck.thy ===== *)
theory ChainCheck
  imports Ipnet
begin

text \<open>
  The chain guard, \<open>internal/core/chaincheck\<close>: the static list of
  non-routable ranges, the Cloudflare ranges with their background refresh, and the
  checker over both.

  The HTTP client is the argument \<open>http\<close>: the answer to a request for a
  URL.  The refresh goroutine is the flag that it runs; its ticks are steps of
  \<open>cf_reach\<close>.

  Shown: every hard-coded range parses, so the constructors cannot panic; the
  bogon ranges are exactly the documented intervals of IPv4 addresses; a check
  reports the Cloudflare range first; a refresh replaces the ranges by what the
  answering sources list and keeps them when none lists anything.
\<close>

section \<open>Bogon ranges\<close>

definition bogonCIDRs :: "string list" where
  "bogonCIDRs =
    [''10.0.0.0/8'', ''172.16.0.0/12'', ''192.168.0.0/16'', ''100.64.0.0/10'',
     ''127.0.0.0/8'', ''::1/128'', ''169.254.0.0/16'', ''fe80::/10'',
     ''192.0.2.0/24'', ''198.51.100.0/24'', ''203.0.113.0/24'',
     ''0.0.0.0/8'', ''240.0.0.0/4'', ''fc00::/7'']"

text \<open>\<open>None\<close> is the panic on a malformed entry.\<close>

fun compile_nets :: "string list \<Rightarrow> ipnet list option" where
  "compile_nets [] = Some []"
| "compile_nets (cidr # cidrs) =
    (case ParseCIDR cidr of
       None \<Rightarrow> None
     | Some net \<Rightarrow> map_option (\<lambda>nets. net # nets) (compile_nets cidrs))"

definition NewBogonChecker :: "ipnet list option" where
  "NewBogonChecker = compile_nets bogonCIDRs"

definition nets_Contains :: "ipnet list \<Rightarrow> ipaddr \<Rightarrow> string option" where
  "nets_Contains nets ip = map_option show_net (find (\<lambda>n. net_contains n ip) nets)"

section \<open>Cloudflare ranges\<close>

definition fallbackCloudflareV4 :: "string list" where
  "fallbackCloudflareV4 =
    [''173.245.48.0/20'', ''103.21.244.0/22'', ''103.22.200.0/22'', ''103.31.4.0/22'',
     ''141.101.64.0/18'', ''108.162.192.0/18'', ''190.93.240.0/20'', ''188.114.96.0/20'',
     ''197.234.240.0/22'', ''198.41.128.0/17'', ''162.158.0.0/15'', ''104.16.0.0/13'',
     ''104.24.0.0/14'', ''172.64.0.0/13'', ''131.0.72.0/22'']"

definition fallbackCloudflareV6 :: "string list" where
  "fallbackCloudflareV6 =
    [''2400:cb00::/32'', ''2606:4700::/32'', ''2803:f800::/32'', ''2405:b500::/32'',
     ''2405:8100::/32'', ''2a06:98c0::/29'', ''2c0f:f248::/32'']"

definition fetchLimitBytes :: nat where
  "fetchLimitBytes = 64 * 1024"

definition parseCIDRList :: "string list \<Rightarrow> ipnet list" where
  "parseCIDRList cidrs = List.map_filter (\<lambda>c. ParseCIDR (trim_space c)) cidrs"

record CloudflareConfig =
  cf_Enabled :: bool
  cf_RefreshInterval :: duration
  cf_Sources :: "string list"

record CloudflareChecker =
  cf_nets :: "ipnet list"
  cf_cfg :: CloudflareConfig
  cf_running :: bool

datatype http_answer = TransportError string | Response int string

datatype fetch_error = Transport string | BadStatus string int | LineTooLong

type_synonym http = "string \<Rightarrow> http_answer"

definition fetchSource :: "http \<Rightarrow> string \<Rightarrow> fetch_error + string list" where
  "fetchSource http url =
    (case http url of
       TransportError err \<Rightarrow> Inl (Transport err)
     | Response status body \<Rightarrow>
         if status \<noteq> 200 then Inl (BadStatus url status)
         else
           let (ls, tooLong) = scan_lines (take fetchLimitBytes body);
               cidrs = filter (\<lambda>l. l \<noteq> [] \<and> \<not> has_prefix l ''#'') (map trim_space ls)
           in if tooLong then Inl LineTooLong else Inr cidrs)"

fun collect_sources :: "http \<Rightarrow> string list \<Rightarrow> string list" where
  "collect_sources http [] = []"
| "collect_sources http (url # urls) =
    (case fetchSource http url of
       Inl err \<Rightarrow> collect_sources http urls
     | Inr cidrs \<Rightarrow> cidrs @ collect_sources http urls)"

definition fetchAll :: "http \<Rightarrow> CloudflareChecker \<Rightarrow> CloudflareChecker" where
  "fetchAll http c =
    (let collected = collect_sources http (cf_Sources (cf_cfg c))
     in if collected = [] then c else c\<lparr>cf_nets := parseCIDRList collected\<rparr>)"

definition startRefreshLoop :: "http \<Rightarrow> CloudflareChecker \<Rightarrow> CloudflareChecker" where
  "startRefreshLoop http c = fetchAll http (c\<lparr>cf_running := True\<rparr>)"

definition stopRefreshLoop :: "CloudflareChecker \<Rightarrow> CloudflareChecker" where
  "stopRefreshLoop c = c\<lparr>cf_running := False\<rparr>"

definition NewCloudflareChecker :: "http \<Rightarrow> CloudflareConfig \<Rightarrow> CloudflareChecker" where
  "NewCloudflareChecker http cfg =
    (let c = \<lparr>cf_nets = parseCIDRList (fallbackCloudflareV4 @ fallbackCloudflareV6),
              cf_cfg = cfg, cf_running = False\<rparr>
     in if cf_Enabled cfg then startRefreshLoop http c else c)"

definition cloudflare_Update :: "http \<Rightarrow> CloudflareConfig \<Rightarrow> CloudflareChecker \<Rightarrow> CloudflareChecker" where
  "cloudflare_Update http cfg c =
    (let c = (stopRefreshLoop c)\<lparr>cf_cfg := cfg\<rparr>
     in if cf_Enabled cfg then startRefreshLoop http c else c)"

definition IsLoaded :: "CloudflareChecker \<Rightarrow> bool" where
  "IsLoaded c \<longleftrightarrow> length (cf_nets c) > 0"

section \<open>The checker\<close>

record CheckResult =
  Kind :: string
  cr_IP :: string
  MatchedCIDR :: string

record CheckerConfig =
  cc_Cloudflare :: CloudflareConfig
  cc_BogonEnabled :: bool

record Checker =
  ck_cf :: "CloudflareChecker option"
  ck_bogon :: "ipnet list option"

definition NewChecker :: "http \<Rightarrow> CheckerConfig \<Rightarrow> Checker" where
  "NewChecker http cfg =
    \<lparr>ck_cf = (if cf_Enabled (cc_Cloudflare cfg) then Some (NewCloudflareChecker http (cc_Cloudflare cfg)) else None),
     ck_bogon = (if cc_BogonEnabled cfg then NewBogonChecker else None)\<rparr>"

definition sub_check :: "string \<Rightarrow> string \<Rightarrow> ipaddr \<Rightarrow> ipnet list option \<Rightarrow> CheckResult option" where
  "sub_check kind ip parsed sub =
    (case sub of
       None \<Rightarrow> None
     | Some nets \<Rightarrow>
         map_option (\<lambda>cidr. \<lparr>Kind = kind, cr_IP = ip, MatchedCIDR = cidr\<rparr>) (nets_Contains nets parsed))"

definition Check :: "Checker \<Rightarrow> string \<Rightarrow> CheckResult option" where
  "Check c ip =
    (if ip = [] then None
     else case ParseIP ip of
            None \<Rightarrow> None
          | Some parsed \<Rightarrow>
             (case sub_check ''cloudflare'' ip parsed (map_option cf_nets (ck_cf c)) of
                Some r \<Rightarrow> Some r
              | None \<Rightarrow> sub_check ''bogon'' ip parsed (ck_bogon c)))"

definition checker_Update :: "http \<Rightarrow> CheckerConfig \<Rightarrow> Checker \<Rightarrow> Checker" where
  "checker_Update http cfg c =
    (let cf' =
           (if cf_Enabled (cc_Cloudflare cfg) then
              (case ck_cf c of
                 Some cf \<Rightarrow> Some (cloudflare_Update http (cc_Cloudflare cfg) cf)
               | None \<Rightarrow> Some (NewCloudflareChecker http (cc_Cloudflare cfg)))
            else None);
         bogon' =
           (if cc_BogonEnabled cfg then
              (case ck_bogon c of None \<Rightarrow> NewBogonChecker | Some b \<Rightarrow> Some b)
            else None)
     in \<lparr>ck_cf = cf', ck_bogon = bogon'\<rparr>)"

definition checker_Close :: "Checker \<Rightarrow> Checker" where
  "checker_Close c = c\<lparr>ck_cf := map_option stopRefreshLoop (ck_cf c)\<rparr>"

section \<open>The hard-coded lists\<close>

lemma bogon_nets:
  "NewBogonChecker = Some
    [Net4 0x0A000000 8, Net4 0xAC100000 12, Net4 0xC0A80000 16, Net4 0x64400000 10,
     Net4 0x7F000000 8, Net6 1 128, Net4 0xA9FE0000 16, Net6 0xFE800000000000000000000000000000 10,
     Net4 0xC0000200 24, Net4 0xC6336400 24, Net4 0xCB007100 24,
     Net4 0 8, Net4 0xF0000000 4, Net6 0xFC000000000000000000000000000000 7]"
  by (simp add: NewBogonChecker_def bogonCIDRs_def ip_eval)

lemma fallback_nets: "length (parseCIDRList (fallbackCloudflareV4 @ fallbackCloudflareV6)) = 22"
  by (simp add: parseCIDRList_def fallbackCloudflareV4_def fallbackCloudflareV6_def map_filter_simps
      trim_space_def trim_left_def trim_right_def is_space_def ip_eval)

text \<open>The documented IPv4 ranges as half-open intervals: private, carrier-grade NAT, loopback,
  link-local, documentation, unspecified and reserved.\<close>

definition bogon_ranges :: "(nat \<times> nat) list" where
  "bogon_ranges =
    [(0x0A000000, 0x0B000000), (0xAC100000, 0xAC200000), (0xC0A80000, 0xC0A90000),
     (0x64400000, 0x64800000), (0x7F000000, 0x80000000), (0xA9FE0000, 0xA9FF0000),
     (0xC0000200, 0xC0000300), (0xC6336400, 0xC6336500), (0xCB007100, 0xCB007200),
     (0x00000000, 0x01000000), (0xF0000000, 0x100000000)]"

lemma net4_range:
  assumes "n \<le> 32" "unat b = q * 2 ^ (32 - n)"
  shows "net_contains (Net4 b n) (V4 a) \<longleftrightarrow> unat b \<le> unat a \<and> unat a < unat b + 2 ^ (32 - n)"
proof -
  have "unat b div 2 ^ (32 - n) = q" using assms(2) by simp
  then show ?thesis
    using div_eq_range [of "2 ^ (32 - n)" q "unat a"] assms(2)
    by (simp only: net_contains4) (simp add: algebra_simps)
qed

lemma bogon_contains_v4:
  assumes "NewBogonChecker = Some nets"
  shows "find (\<lambda>n. net_contains n (V4 a)) nets \<noteq> None \<longleftrightarrow>
    (\<exists>(lo, hi) \<in> set bogon_ranges. lo \<le> unat a \<and> unat a < hi)"
proof -
  have a: "unat a < 4294967296" using unsigned_less [of a, where ?'a = nat] by simp
  have mem: "find (\<lambda>n. net_contains n (V4 a)) nets \<noteq> None \<longleftrightarrow> (\<exists>n \<in> set nets. net_contains n (V4 a))"
    by (auto simp: find_None_iff)
  have nets: "nets = [Net4 0x0A000000 8, Net4 0xAC100000 12, Net4 0xC0A80000 16, Net4 0x64400000 10,
     Net4 0x7F000000 8, Net6 1 128, Net4 0xA9FE0000 16, Net6 0xFE800000000000000000000000000000 10,
     Net4 0xC0000200 24, Net4 0xC6336400 24, Net4 0xCB007100 24,
     Net4 0 8, Net4 0xF0000000 4, Net6 0xFC000000000000000000000000000000 7]"
    using assms unfolding bogon_nets by simp
  show ?thesis
    unfolding mem nets using a
    by (simp add: net_contains4 div_eq_range bogon_ranges_def del: net_contains.simps(1))
qed

lemma nets_Contains_iff: "nets_Contains nets a \<noteq> None \<longleftrightarrow> (\<exists>n \<in> set nets. net_contains n a)"
  by (auto simp: nets_Contains_def find_None_iff)

lemma sub_check_iff:
  "sub_check kind ip a sub = Some r \<longleftrightarrow>
    (\<exists>nets n. sub = Some nets \<and> find (\<lambda>n. net_contains n a) nets = Some n
       \<and> r = \<lparr>Kind = kind, cr_IP = ip, MatchedCIDR = show_net n\<rparr>)"
  by (auto simp: sub_check_def nets_Contains_def split: option.split)

lemma collect_sources_mem:
  "l \<in> set (collect_sources http urls) \<longleftrightarrow> (\<exists>url \<in> set urls. \<exists>ls. fetchSource http url = Inr ls \<and> l \<in> set ls)"
  by (induction urls) (auto split: sum.split)

lemma parseCIDRList_mem: "n \<in> set (parseCIDRList cs) \<longleftrightarrow> (\<exists>c \<in> set cs. ParseCIDR (trim_space c) = Some n)"
  by (induction cs) (auto simp: parseCIDRList_def map_filter_simps split: option.split)

section \<open>The refresh loop\<close>

text \<open>A checker after any number of ticks, reloads and stops; a tick needs a running loop.\<close>

inductive cf_reach :: "CloudflareChecker \<Rightarrow> bool" where
  cf_new: "cf_reach (NewCloudflareChecker http cfg)"
| cf_tick: "cf_reach c \<Longrightarrow> cf_running c \<Longrightarrow> cf_reach (fetchAll http c)"
| cf_update: "cf_reach c \<Longrightarrow> cf_reach (cloudflare_Update http cfg c)"
| cf_close: "cf_reach c \<Longrightarrow> cf_reach (stopRefreshLoop c)"

lemma fetchAll_running [simp]: "cf_running (fetchAll http c) = cf_running c" "cf_cfg (fetchAll http c) = cf_cfg c"
  by (simp_all add: fetchAll_def Let_def)

lemma cf_running_enabled: "cf_reach c \<Longrightarrow> cf_running c \<Longrightarrow> cf_Enabled (cf_cfg c)"
  by (induction rule: cf_reach.induct)
    (auto simp: NewCloudflareChecker_def cloudflare_Update_def startRefreshLoop_def stopRefreshLoop_def
      Let_def split: if_splits)

text \<open>Every network in use was hard-coded or listed by a source that answered.\<close>

lemma cf_nets_origin:
  assumes "cf_reach c" "n \<in> set (cf_nets c)"
  shows "n \<in> set (parseCIDRList (fallbackCloudflareV4 @ fallbackCloudflareV6)) \<or>
    (\<exists>http url ls l. fetchSource http url = Inr ls \<and> l \<in> set ls \<and> ParseCIDR (trim_space l) = Some n)"
  using assms
proof (induction arbitrary: n rule: cf_reach.induct)
  case (cf_new http cfg)
  then show ?case
    by (auto simp: NewCloudflareChecker_def startRefreshLoop_def fetchAll_def Let_def parseCIDRList_mem
        collect_sources_mem split: if_splits)
next
  case (cf_tick c http)
  then show ?case
    by (auto simp: fetchAll_def Let_def parseCIDRList_mem collect_sources_mem split: if_splits)
next
  case (cf_update c http cfg)
  then show ?case
    by (auto simp: cloudflare_Update_def startRefreshLoop_def stopRefreshLoop_def fetchAll_def Let_def
        parseCIDRList_mem collect_sources_mem split: if_splits)
next
  case (cf_close c)
  then show ?case by (simp add: stopRefreshLoop_def)
qed

section \<open>Properties\<close>

definition covered_by :: "ipnet list option \<Rightarrow> ipaddr \<Rightarrow> bool" where
  "covered_by sub a \<longleftrightarrow> (case sub of None \<Rightarrow> False | Some nets \<Rightarrow> list_ex (\<lambda>n. net_contains n a) nets)"

lemma sub_check_covered:
  "map_option (\<lambda>r. (Kind r, cr_IP r)) (sub_check kind ip a sub) = (if covered_by sub a then Some (kind, ip) else None)"
proof (cases sub)
  case (Some nets)
  then show ?thesis
    using nets_Contains_iff [of nets a]
    by (cases "nets_Contains nets a") (auto simp: sub_check_def covered_by_def list_ex_iff)
qed (simp add: sub_check_def covered_by_def)

text \<open>a check names the kind of the first matching checker, Cloudflare before bogon, and the
  address as given; it reports nothing for an empty or unparseable address or one that no enabled
  range contains.\<close>

theorem Check_verdict:
  "map_option (\<lambda>r. (Kind r, cr_IP r)) (Check c ip) =
    (case (if ip = [] then None else ParseIP ip) of
       None \<Rightarrow> None
     | Some a \<Rightarrow>
         if covered_by (map_option cf_nets (ck_cf c)) a then Some (''cloudflare'', ip)
         else if covered_by (ck_bogon c) a then Some (''bogon'', ip) else None)"
proof (cases "if ip = [] then None else ParseIP ip")
  case None
  then show ?thesis by (auto simp: Check_def split: if_splits)
next
  case (Some a)
  let ?cf = "sub_check ''cloudflare'' ip a (map_option cf_nets (ck_cf c))"
  have "Check c ip = (case ?cf of Some r \<Rightarrow> Some r | None \<Rightarrow> sub_check ''bogon'' ip a (ck_bogon c))"
    using Some by (simp add: Check_def split: if_splits)
  then show ?thesis
    using Some sub_check_covered [of "''cloudflare''" ip a "map_option cf_nets (ck_cf c)"]
      sub_check_covered [of "''bogon''" ip a "ck_bogon c"]
    by (cases ?cf) (simp_all split: if_splits)
qed

text \<open>with bogon detection alone, an IPv4 address is reported exactly when it lies in one of
  the documented private, shared, loopback, link-local, documentation or reserved intervals.\<close>

theorem bogon_exact:
  assumes "ParseIP ip = Some (V4 a)" "ip \<noteq> []" "\<not> cf_Enabled (cc_Cloudflare cfg)" "cc_BogonEnabled cfg"
  shows "Check (NewChecker http cfg) ip \<noteq> None \<longleftrightarrow>
    (\<exists>(lo, hi) \<in> set bogon_ranges. lo \<le> unat a \<and> unat a < hi)"
proof -
  obtain nets where nets: "NewBogonChecker = Some nets" using bogon_nets by blast
  have "Check (NewChecker http cfg) ip \<noteq> None \<longleftrightarrow> find (\<lambda>n. net_contains n (V4 a)) nets \<noteq> None"
    using assms by (simp add: Check_def NewChecker_def sub_check_def nets_Contains_def nets)
  then show ?thesis using bogon_contains_v4 [OF nets] by simp
qed

text \<open>a refresh keeps the ranges when no answering source lists an entry, and otherwise the
  ranges become exactly the well-formed networks listed by the sources that answered.\<close>

theorem fetchAll_nets:
  "let listed = {l. \<exists>url \<in> set (cf_Sources (cf_cfg c)). \<exists>ls. fetchSource http url = Inr ls \<and> l \<in> set ls}
   in if listed = {} then fetchAll http c = c
      else set (cf_nets (fetchAll http c)) = {n. \<exists>l \<in> listed. ParseCIDR (trim_space l) = Some n}"
proof -
  let ?urls = "cf_Sources (cf_cfg c)"
  have listed: "{l. \<exists>url \<in> set ?urls. \<exists>ls. fetchSource http url = Inr ls \<and> l \<in> set ls} = set (collect_sources http ?urls)"
    by (simp add: set_eq_iff collect_sources_mem)
  show ?thesis
    unfolding Let_def listed by (auto simp: fetchAll_def Let_def parseCIDRList_mem)
qed

text \<open>a source that answers with a page of another kind empties the list of ranges, although
  the refresh is meant never to replace a working list by an empty one.\<close>

theorem fetchAll_can_clear:
  "\<exists>http c. cf_reach c \<and> IsLoaded c \<and> \<not> IsLoaded (fetchAll http c)"
proof -
  let ?cfg = "\<lparr>cf_Enabled = True, cf_RefreshInterval = second, cf_Sources = [''u'']\<rparr>"
  let ?down = "\<lambda>_. TransportError ''timeout''" and ?page = "\<lambda>_. Response 200 ''<html>''"
  let ?c = "NewCloudflareChecker ?down ?cfg"
  have nets: "cf_nets ?c = parseCIDRList (fallbackCloudflareV4 @ fallbackCloudflareV6)" "cf_cfg ?c = ?cfg"
    by (simp_all add: NewCloudflareChecker_def startRefreshLoop_def fetchAll_def fetchSource_def Let_def)
  have "IsLoaded ?c" using fallback_nets by (simp add: IsLoaded_def nets)
  moreover have "collect_sources ?page [''u''] = [''<html>'']"
    by (simp add: fetchSource_def scan_lines_def raw_lines_def drop_cr_def fetchLimitBytes_def
        trim_space_def trim_left_def trim_right_def is_space_def)
  then have "cf_nets (fetchAll ?page ?c) = []"
    by (simp add: fetchAll_def nets parseCIDRList_def map_filter_simps ParseCIDR_def
        trim_space_def trim_left_def trim_right_def is_space_def)
  ultimately show ?thesis using cf_new by (auto simp: IsLoaded_def)
qed

section \<open>Witnesses\<close>

theorem bogon_exact_witness:
  "Check (NewChecker (\<lambda>_. TransportError [])
      \<lparr>cc_Cloudflare = \<lparr>cf_Enabled = False, cf_RefreshInterval = 0, cf_Sources = []\<rparr>, cc_BogonEnabled = True\<rparr>)
     ''172.31.0.9'' \<noteq> None"
proof -
  have "ParseIP ''172.31.0.9'' = Some (V4 0xAC1F0009)" by (simp add: ip_eval)
  from bogon_exact [OF this] show ?thesis by (simp add: bogon_ranges_def)
qed

end
