(* ===== verification/Executor.thy ===== *)
theory Executor
  imports Float64
begin

text \<open>
  What the executors share: the threat event of
  \<open>internal/threat/threatevent.go\<close>, the order of the threat levels with the
  minimum-level filter (the same code in every executor package), and the
  contracts their run loops are proved against.

  A run loop is a function from an input (an event, a timer tick, the end of the
  source, the cancellation of the context) and a state to a state; the select
  statement takes the inputs in any order, so a run is a fold over any list of
  inputs.  \<open>step_system\<close> lifts an invariant from one input to all runs;
  \<open>accounting\<close> extends it: what one input adds to a measure of the state,
  a run adds for all its inputs.  \<open>ban_requests\<close> is what a deployment relies on: requests to
  ban come from relevant events.
\<close>

section \<open>Threat events and levels\<close>

record ThreatEvent =
  te_Timestamp :: gotime
  te_Level :: string
  te_Stream :: string
  te_Source :: string
  te_SourceType :: string
  te_IP :: string
  te_Score :: int
  te_Modules :: "string list"
  te_Reason :: string
  te_RawLine :: string

definition blank_event :: ThreatEvent where
  "blank_event = \<lparr>te_Timestamp = 0, te_Level = [], te_Stream = [], te_Source = [], te_SourceType = [],
     te_IP = [], te_Score = 0, te_Modules = [], te_Reason = [], te_RawLine = []\<rparr>"

definition levelOrder :: "(string, nat) gomap" where
  "levelOrder = [(''INFO'', 0), (''WARN'', 1), (''THREAT'', 2)]"

text \<open>A key that is absent from the Go map reads as the zero level.\<close>

definition level_of :: "string \<Rightarrow> nat" where
  "level_of l = (case map_of levelOrder l of None \<Rightarrow> 0 | Some n \<Rightarrow> n)"

definition meetsMinLevel :: "string \<Rightarrow> string \<Rightarrow> bool" where
  "meetsMinLevel minLevel level =
    (if map_of levelOrder level = None then False else level_of level \<ge> level_of minLevel)"

text \<open>The deduplication window of the external package \<open>dedup\<close>: the two operations
  the executors call, on an abstract window.\<close>

record 'd window =
  win_Contains :: "gotime \<Rightarrow> string \<Rightarrow> 'd \<Rightarrow> bool"
  win_MarkBatch :: "gotime \<Rightarrow> string list \<Rightarrow> 'd \<Rightarrow> 'd"

section \<open>Run loops\<close>

locale step_system =
  fixes step :: "'i \<Rightarrow> 's \<Rightarrow> 's" and inv :: "'s \<Rightarrow> bool" and ok :: "'i \<Rightarrow> bool"
  assumes inv_step: "inv s \<Longrightarrow> ok i \<Longrightarrow> inv (step i s)"
begin

lemma run_inv: "inv s \<Longrightarrow> list_all ok is \<Longrightarrow> inv (fold step is s)"
  by (induction "is" arbitrary: s) (simp_all add: inv_step)

end

locale accounting = step_system +
  fixes weight :: "'s \<Rightarrow> nat" and arrivals :: "'i \<Rightarrow> nat" and active :: "'s \<Rightarrow> bool"
  assumes weight_step: "inv s \<Longrightarrow> ok i \<Longrightarrow> active s \<Longrightarrow> weight (step i s) = weight s + arrivals i"
    and weight_idle: "\<not> active s \<Longrightarrow> step i s = s"
begin

text \<open>What the inputs that a run takes before it ends bring in.\<close>

fun arrived :: "'i list \<Rightarrow> 's \<Rightarrow> nat" where
  "arrived [] s = 0"
| "arrived (i # is) s = (if active s then arrivals i else 0) + arrived is (step i s)"

lemma run_weight: "inv s \<Longrightarrow> list_all ok is \<Longrightarrow> weight (fold step is s) = weight s + arrived is s"
proof (induction "is" arbitrary: s)
  case (Cons i "is")
  then show ?case
    using weight_step [of s i] weight_idle [of s i] inv_step [of s i]
    by (cases "active s") simp_all
qed simp

lemma run_weight_active:
  assumes "inv s" "list_all ok is" "active (fold step (butlast is) s)"
  shows "weight (fold step is s) = weight s + sum_list (map arrivals is)"
  using assms
proof (induction "is" arbitrary: s)
  case (Cons i "is")
  have idle: "active t" if "active (fold step js t)" for js t
    using that by (induction js arbitrary: t) (auto simp: weight_idle, metis weight_idle)
  have "active s"
    using Cons.prems(3) idle [of "butlast (i # is)" s] by blast
  moreover have "weight (fold step is (step i s)) = weight (step i s) + sum_list (map arrivals is)"
    using Cons inv_step by (cases "is = []") auto
  ultimately show ?case using Cons.prems weight_step by simp
qed simp

end

text \<open>What every executor promises about the addresses it asks to be banned: each one is that of an
  event of the run that reaches the minimum level.\<close>

locale ban_requests =
  fixes events :: "'i \<Rightarrow> ThreatEvent list" and minLevel :: string and requested :: "'i list \<Rightarrow> string set"
  assumes requested_relevant: "ip \<in> requested inputs
    \<Longrightarrow> \<exists>i \<in> set inputs. \<exists>ev \<in> set (events i). meetsMinLevel minLevel (te_Level ev) \<and> te_IP ev = ip"
begin

lemma requests_traced:
  assumes "list_all from_pipeline (concat (map events inputs))" "ip \<in> requested inputs"
  obtains ev where "from_pipeline ev" "meetsMinLevel minLevel (te_Level ev)" "te_IP ev = ip"
  using requested_relevant [OF assms(2)] assms(1) that by (auto simp: list_all_iff)

end

end
