(* ===== verification/Waf.thy ===== *)
theory Waf
  imports Executor Ipnet
begin

text \<open>
  The WAF processor, \<open>pkg/processorplugins/waf\<close>: the fields of a log entry
  that rules can read, the split of the configured rules into pass rules and gate
  rules, and the dispatch of the action of the first gate rule that matches.

  The rule language and its engine are not part of the repository: the record
  \<open>rule_engine\<close> stands for building a rule set, adding a compiled rule, the
  number of rules and the first match.  \<open>engine_laws\<close> states what the processor
  relies on: rules are kept in the order they were added, and a match reports the
  first rule whose expression holds.  The score function is a parameter that changes
  a state of any type.

  Shown: the verdict of a processor built from a configuration, in terms of that
  configuration alone; that the resolver answers exactly the declared fields with
  values of the declared types.
\<close>

section \<open>Events\<close>

record Envelope =
  env_Source :: string
  env_SourceType :: string
  env_Stream :: string
  env_Level :: string
  env_Timestamp :: gotime

datatype payload = LogPayload LogEntry | ThreatPayload ThreatEvent | OpaquePayload

record Event =
  ev_Envelope :: Envelope
  ev_Payload :: payload

section \<open>The resolver\<close>

datatype field_type = TypeString | TypeInt | TypeIP | TypeTimestamp

datatype rule_value = VString string | VInt int | VIP ipaddr

fun type_of :: "rule_value \<Rightarrow> field_type" where
  "type_of (VString s) = TypeString"
| "type_of (VInt n) = TypeInt"
| "type_of (VIP a) = TypeIP"

text \<open>\<open>Manifest.Produces\<close>.\<close>

definition Produces :: "(string \<times> field_type) list" where
  "Produces =
    [(''method'', TypeString), (''path'', TypeString), (''query'', TypeString), (''raw_uri'', TypeString),
     (''status'', TypeInt), (''bytes_sent'', TypeInt), (''referer'', TypeString), (''user_agent'', TypeString),
     (''remote_addr'', TypeIP), (''real_ip'', TypeIP), (''protocol'', TypeString), (''remote_user'', TypeString)]"

definition toIPValue :: "string \<Rightarrow> rule_value option" where
  "toIPValue s =
    (if s = [] then None
     else if str_contains s ''/'' then None
     else case ParseIP s of None \<Rightarrow> None | Some ip \<Rightarrow> Some (VIP ip))"

definition resolveHTTP :: "string \<Rightarrow> LogEntry \<Rightarrow> rule_value option" where
  "resolveHTTP name entry =
    (if name = ''method'' then Some (VString (Method entry))
     else if name = ''path'' then Some (VString (Path entry))
     else if name = ''query'' then Some (VString (Query entry))
     else if name = ''raw_uri'' then Some (VString (RawURI entry))
     else if name = ''status'' then Some (VInt (Status entry))
     else if name = ''bytes_sent'' then Some (VInt (BytesSent entry))
     else if name = ''referer'' then Some (VString (Referer entry))
     else if name = ''user_agent'' then Some (VString (UserAgent entry))
     else if name = ''remote_addr'' then toIPValue (RemoteAddr entry)
     else if name = ''real_ip'' then toIPValue (RealIP entry)
     else if name = ''protocol'' then Some (VString (Protocol entry))
     else if name = ''remote_user'' then Some (VString (RemoteUser entry))
     else None)"

definition httpPrefix :: string where
  "httpPrefix = ''http.''"

text \<open>The event pointer may be nil.\<close>

definition http_Resolve :: "string \<Rightarrow> Event option \<Rightarrow> rule_value option" where
  "http_Resolve field event =
    (case event of
       None \<Rightarrow> None
     | Some ev \<Rightarrow>
         if \<not> has_prefix field httpPrefix then None
         else let rest = drop (length httpPrefix) field in
           case ev_Payload ev of
             LogPayload entry \<Rightarrow> resolveHTTP rest entry
           | ThreatPayload te \<Rightarrow> if rest = ''real_ip'' then toIPValue (te_IP te) else None
           | OpaquePayload \<Rightarrow> None)"

type_synonym resolver = "string \<Rightarrow> Event option \<Rightarrow> rule_value option"

fun chained_Resolve :: "resolver list \<Rightarrow> resolver" where
  "chained_Resolve [] field event = None"
| "chained_Resolve (r # rs) field event =
    (case r field event of Some v \<Rightarrow> Some v | None \<Rightarrow> chained_Resolve rs field event)"

section \<open>Rule sets\<close>

datatype build_error = RegisterError string | RulesetError string

record 'rs rule_engine =
  re_new :: "(string \<times> field_type) list \<Rightarrow> build_error + 'rs"
  re_add :: "'rs \<Rightarrow> string \<Rightarrow> string \<Rightarrow> string + 'rs"
  re_rules :: "'rs \<Rightarrow> nat"
  re_match :: "'rs \<Rightarrow> Event \<Rightarrow> resolver \<Rightarrow> string option"
  re_envelope :: resolver

definition newChainedResolver :: "'rs rule_engine \<Rightarrow> resolver" where
  "newChainedResolver eng = chained_Resolve [re_envelope eng, http_Resolve]"

record RuleConfig =
  rc_Name :: string
  rc_Expression :: string
  rc_Action :: string

record 'w waf_Config =
  wc_Rules :: "RuleConfig list"
  wc_DropScore :: int
  wc_TagWeights :: "(string, int) gomap"
  wc_ScoreFn :: "(string \<Rightarrow> int \<Rightarrow> 'w \<Rightarrow> 'w) option"

datatype waf_error =
  EmptyRules | EmptyName nat | EmptyExpression string | UnknownAction string string
  | BuildFailed string build_error | BadRule string string

datatype actionBucket = actionBucketPass | actionBucketGate

definition classifyAction :: "string \<Rightarrow> string \<Rightarrow> waf_error + (actionBucket \<times> string)" where
  "classifyAction ruleName action =
    (let normalised = to_lower (trim_space action)
     in if normalised = [] then Inr (actionBucketGate, ''drop'')
        else if normalised = ''pass'' then Inr (actionBucketPass, ''pass'')
        else if normalised = ''drop'' then Inr (actionBucketGate, ''drop'')
        else if normalised = ''tag'' \<or> has_prefix normalised ''tag:'' then Inr (actionBucketGate, normalised)
        else Inl (UnknownAction action ruleName))"

text \<open>The two buckets of names with expressions and the action map, in the order of the
  configuration; \<open>i\<close> is the number of rules seen before.\<close>

fun classify_rules :: "nat \<Rightarrow> RuleConfig list
    \<Rightarrow> waf_error + ((string \<times> string) list \<times> (string \<times> string) list \<times> (string, string) gomap)
    \<Rightarrow> waf_error + ((string \<times> string) list \<times> (string \<times> string) list \<times> (string, string) gomap)" where
  "classify_rules i [] acc = acc"
| "classify_rules i (r # rs) acc =
    (case acc of
       Inl err \<Rightarrow> Inl err
     | Inr (passes, gates, actions) \<Rightarrow>
         if rc_Name r = [] then Inl (EmptyName (i + 1))
         else if rc_Expression r = [] then Inl (EmptyExpression (rc_Name r))
         else case classifyAction (rc_Name r) (rc_Action r) of
             Inl err \<Rightarrow> Inl err
           | Inr (actionBucketPass, a) \<Rightarrow>
               classify_rules (i + 1) rs (Inr (passes @ [(rc_Name r, rc_Expression r)], gates, actions))
           | Inr (actionBucketGate, a) \<Rightarrow>
               classify_rules (i + 1) rs
                 (Inr (passes, gates @ [(rc_Name r, rc_Expression r)], AList.update (rc_Name r) a actions)))"

fun add_rules :: "'rs rule_engine \<Rightarrow> (string \<times> string) list \<Rightarrow> 'rs \<Rightarrow> waf_error + 'rs" where
  "add_rules eng [] rs = Inr rs"
| "add_rules eng ((name, expr) # rules) rs =
    (case re_add eng rs name expr of
       Inl e \<Rightarrow> Inl (BadRule name e)
     | Inr rs' \<Rightarrow> add_rules eng rules rs')"

definition buildRuleSet :: "'rs rule_engine \<Rightarrow> string \<Rightarrow> (string \<times> string) list \<Rightarrow> waf_error + 'rs" where
  "buildRuleSet eng label rules =
    (case re_new eng Produces of
       Inl e \<Rightarrow> Inl (BuildFailed label e)
     | Inr rs \<Rightarrow> add_rules eng rules rs)"

definition NewRuleSetFromConfig :: "'rs rule_engine \<Rightarrow> 'w waf_Config \<Rightarrow> waf_error + ('rs \<times> 'rs \<times> (string, string) gomap)" where
  "NewRuleSetFromConfig eng cfg =
    (case classify_rules 0 (wc_Rules cfg) (Inr ([], [], [])) of
       Inl err \<Rightarrow> Inl err
     | Inr (passes, gates, actions) \<Rightarrow>
         (case buildRuleSet eng ''pass'' passes of
            Inl err \<Rightarrow> Inl err
          | Inr passRS \<Rightarrow>
              (case buildRuleSet eng ''gate'' gates of
                 Inl err \<Rightarrow> Inl err
               | Inr gateRS \<Rightarrow> Inr (passRS, gateRS, actions))))"

section \<open>The processor\<close>

record ('rs, 'w) WafProcessor =
  passRules :: 'rs
  gateRules :: 'rs
  waf_actions :: "(string, string) gomap"
  waf_resolver :: resolver
  scoreFn :: "(string \<Rightarrow> int \<Rightarrow> 'w \<Rightarrow> 'w) option"
  dropScore :: int
  tagWeights :: "(string, int) gomap"

definition NewWafProcessor :: "'rs rule_engine \<Rightarrow> 'w waf_Config \<Rightarrow> waf_error + ('rs, 'w) WafProcessor" where
  "NewWafProcessor eng cfg =
    (if wc_Rules cfg = [] then Inl EmptyRules
     else case NewRuleSetFromConfig eng cfg of
         Inl err \<Rightarrow> Inl err
       | Inr (passRS, gateRS, actions) \<Rightarrow>
           Inr \<lparr>passRules = passRS, gateRules = gateRS, waf_actions = actions,
                waf_resolver = newChainedResolver eng, scoreFn = wc_ScoreFn cfg,
                dropScore = wc_DropScore cfg, tagWeights = wc_TagWeights cfg\<rparr>)"

definition clientIP :: "Event \<Rightarrow> string" where
  "clientIP event =
    (case ev_Payload event of
       LogPayload le \<Rightarrow> if RealIP le \<noteq> [] then RealIP le else RemoteAddr le
     | _ \<Rightarrow> [])"

definition set_level :: "string \<Rightarrow> Event \<Rightarrow> Event" where
  "set_level l event = event\<lparr>ev_Envelope := (ev_Envelope event)\<lparr>env_Level := l\<rparr>\<rparr>"

text \<open>The call of the score function, with its guards.\<close>

definition signal_score :: "(string \<Rightarrow> int \<Rightarrow> 'w \<Rightarrow> 'w) option \<Rightarrow> int \<Rightarrow> Event \<Rightarrow> 'w \<Rightarrow> 'w" where
  "signal_score fn delta event w =
    (case fn of
       None \<Rightarrow> w
     | Some f \<Rightarrow> if delta > 0 then (let ip = clientIP event in if ip \<noteq> [] then f ip delta w else w) else w)"

datatype ctx_error = ContextDone

text \<open>The result is the error of a cancelled context, or the event, or none for a dropped event.\<close>

definition waf_Process :: "'rs rule_engine \<Rightarrow> ('rs, 'w) WafProcessor \<Rightarrow> bool \<Rightarrow> Event \<Rightarrow> 'w
    \<Rightarrow> (ctx_error + Event option) \<times> 'w" where
  "waf_Process eng p cancelled event w =
    (if cancelled then (Inl ContextDone, w)
     else if re_rules eng (passRules p) > 0 \<and> re_match eng (passRules p) event (waf_resolver p) \<noteq> None
     then (Inr (Some event), w)
     else case re_match eng (gateRules p) event (waf_resolver p) of
         None \<Rightarrow> (Inr (Some event), w)
       | Some name \<Rightarrow>
           (let action = (case map_of (waf_actions p) name of Some a \<Rightarrow> a | None \<Rightarrow> [])
            in if action = ''drop'' then (Inr None, signal_score (scoreFn p) (dropScore p) event w)
               else if action = ''tag'' then (Inr (Some (set_level (''THREAT:'' @ name) event)), w)
               else if has_prefix action ''tag:'' then
                 (let label = trim_prefix action ''tag:'';
                      event' = set_level (''THREAT:'' @ name @ '':'' @ label) event
                  in (Inr (Some event'),
                      signal_score (scoreFn p) (case map_of (tagWeights p) label of Some w \<Rightarrow> w | None \<Rightarrow> 0) event' w))
               else (Inr None, w)))"

section \<open>What the rule engine promises\<close>

definition engine_laws :: "'rs rule_engine \<Rightarrow> ('rs \<Rightarrow> (string \<times> string) list)
    \<Rightarrow> (string \<Rightarrow> Event \<Rightarrow> resolver \<Rightarrow> bool) \<Rightarrow> bool" where
  "engine_laws eng rules eval \<longleftrightarrow>
    (\<forall>fields rs. re_new eng fields = Inr rs \<longrightarrow> rules rs = []) \<and>
    (\<forall>rs n x rs'. re_add eng rs n x = Inr rs' \<longrightarrow> rules rs' = rules rs @ [(n, x)]) \<and>
    (\<forall>rs. re_rules eng rs = length (rules rs)) \<and>
    (\<forall>rs event res. re_match eng rs event res = map_option fst (find (\<lambda>(n, x). eval x event res) (rules rs)))"

lemma engine_add_rules:
  assumes "engine_laws eng rules eval" "add_rules eng rls rs = Inr rs'"
  shows "rules rs' = rules rs @ rls"
  using assms(2)
proof (induction rls arbitrary: rs)
  case (Cons nx rls)
  then show ?case using assms(1) by (cases nx) (auto simp: engine_laws_def split: sum.splits)
qed simp

lemma engine_build:
  assumes "engine_laws eng rules eval" "buildRuleSet eng label rls = Inr rs"
  shows "rules rs = rls"
proof -
  obtain rs0 where "re_new eng Produces = Inr rs0" "add_rules eng rls rs0 = Inr rs"
    using assms(2) by (auto simp: buildRuleSet_def split: sum.splits)
  then show ?thesis
    using engine_add_rules [OF assms(1), of rls rs0 rs] assms(1) by (simp add: engine_laws_def)
qed

section \<open>The scheme\<close>

text \<open>The catalog of the rule engine: an empty one, the registration of a field, which may fail, and
  the scheme of some namespaces.  Names in error texts are not quoted.\<close>

record ('c, 's) rule_catalog =
  NewCatalog :: 'c
  cat_Register :: "string \<Rightarrow> string \<Rightarrow> field_type \<Rightarrow> 'c \<Rightarrow> string + 'c"
  Project :: "'c \<Rightarrow> string list \<Rightarrow> 's"

definition core_fields :: "(string \<times> field_type) list" where
  "core_fields = [(''timestamp'', TypeTimestamp), (''stream'', TypeString), (''source'', TypeString), (''source_type'', TypeString),
     (''level'', TypeString)]"

fun register_fields :: "('c, 's) rule_catalog \<Rightarrow> string \<Rightarrow> (string \<times> field_type) list \<Rightarrow> 'c \<Rightarrow> string + 'c" where
  "register_fields cat ns [] c = Inr c"
| "register_fields cat ns ((name, t) # fds) c =
    (case cat_Register cat ns name t c of
       Inl err \<Rightarrow> Inl (''waf: register '' @ ns @ ''.'' @ name @ '': '' @ err)
     | Inr c \<Rightarrow> register_fields cat ns fds c)"

definition BuildScheme :: "('c, 's) rule_catalog \<Rightarrow> string \<Rightarrow> (string \<times> field_type) list \<Rightarrow> string + 's" where
  "BuildScheme cat pluginID produces =
    (if pluginID \<noteq> ''waf'' then Inl (''waf: BuildScheme requires PluginID waf, got '' @ pluginID)
     else case register_fields cat ''core'' core_fields (NewCatalog cat) of
         Inl err \<Rightarrow> Inl err
       | Inr c \<Rightarrow>
           (case register_fields cat ''http'' produces c of
              Inl err \<Rightarrow> Inl err
            | Inr c \<Rightarrow> Inr (Project cat c [''http'', ''core''])))"

lemma registered_fields:
  assumes "\<And>ns n t c c'. cat_Register cat ns n t c = Inr c' \<Longrightarrow> obs c' = obs c @ [(ns, n, t)]"
  shows "register_fields cat ns fds c = Inr c' \<Longrightarrow> obs c' = obs c @ map (Pair ns) fds"
proof (induction fds arbitrary: c)
  case (Cons fd fds)
  obtain n t where fd: "fd = (n, t)" by fastforce
  obtain c1 where c1: "cat_Register cat ns n t c = Inr c1" "register_fields cat ns fds c1 = Inr c'"
    using Cons.prems by (auto simp: fd split: sum.splits)
  show ?case using Cons.IH [OF c1(2)] assms [OF c1(1)] by (simp add: fd)
qed simp

text \<open>A scheme has the five fields of the envelope and then every declared field, with its type.\<close>

lemma BuildScheme_fields:
  assumes "\<And>ns n t c c'. cat_Register cat ns n t c = Inr c' \<Longrightarrow> obs c' = obs c @ [(ns, n, t)]" "obs (NewCatalog cat) = []"
    and "BuildScheme cat pluginID Produces = Inr scheme"
  shows "\<exists>c. scheme = Project cat c [''http'', ''core''] \<and> obs c = map (Pair ''core'') core_fields @ map (Pair ''http'') Produces"
proof -
  obtain c1 c2 where c: "register_fields cat ''core'' core_fields (NewCatalog cat) = Inr c1" "register_fields cat ''http'' Produces c1 = Inr c2"
    "scheme = Project cat c2 [''http'', ''core'']"
    using assms(3) by (auto simp: BuildScheme_def split: if_splits sum.splits)
  then show ?thesis
    using registered_fields [of cat obs, OF assms(1) c(1)] registered_fields [of cat obs, OF assms(1) c(2)] assms(2) by auto
qed

section \<open>The split of the rules\<close>

definition norm_action :: "RuleConfig \<Rightarrow> string" where
  "norm_action r = to_lower (trim_space (rc_Action r))"

definition is_pass :: "RuleConfig \<Rightarrow> bool" where
  "is_pass r \<longleftrightarrow> norm_action r = ''pass''"

definition gate_action :: "RuleConfig \<Rightarrow> string" where
  "gate_action r = (if norm_action r = [] then ''drop'' else norm_action r)"

definition known_action :: "RuleConfig \<Rightarrow> bool" where
  "known_action r \<longleftrightarrow> norm_action r \<in> {[], ''pass'', ''drop'', ''tag''} \<or> has_prefix (norm_action r) ''tag:''"

definition rule_pair :: "RuleConfig \<Rightarrow> string \<times> string" where
  "rule_pair r = (rc_Name r, rc_Expression r)"

lemma classifyAction_cases:
  "classifyAction n (rc_Action r) =
    (if \<not> known_action r then Inl (UnknownAction (rc_Action r) n)
     else if is_pass r then Inr (actionBucketPass, ''pass'') else Inr (actionBucketGate, gate_action r))"
  by (auto simp: classifyAction_def known_action_def is_pass_def gate_action_def norm_action_def Let_def)

lemma classify_rules_Inr:
  assumes "classify_rules i rs (Inr (p, g, a)) = Inr (p', g', a')" "distinct (map rc_Name rs)"
  shows "p' = p @ map rule_pair (filter is_pass rs)"
    and "g' = g @ map rule_pair (filter (\<lambda>r. \<not> is_pass r) rs)"
    and "\<forall>r \<in> set rs. known_action r \<and> rc_Name r \<noteq> [] \<and> rc_Expression r \<noteq> []"
    and "\<forall>r \<in> set rs. \<not> is_pass r \<longrightarrow> map_of a' (rc_Name r) = Some (gate_action r)"
    and "\<forall>n. n \<notin> rc_Name ` set rs \<longrightarrow> map_of a' n = map_of a n"
  using assms
proof (induction rs arbitrary: i p g a)
  case (Cons r rs)
  {
    case 1
    then show ?case by (auto simp: classifyAction_cases rule_pair_def dest: Cons.IH(1) split: if_splits)
  next
    case 2
    then show ?case by (auto simp: classifyAction_cases rule_pair_def dest: Cons.IH(2) split: if_splits)
  next
    case 3
    then show ?case using Cons.IH(3) by (auto simp: classifyAction_cases split: if_splits)
  next
    case 4
    then show ?case using Cons.IH(4,5) by (auto simp: classifyAction_cases gm_get_update split: if_splits)
  next
    case 5
    then show ?case using Cons.IH(5) by (auto simp: classifyAction_cases gm_get_update split: if_splits)
  }
qed simp_all

lemma find_map_pair:
  "map_option fst (find (\<lambda>(n, x). eval x ev res) (map rule_pair rs)) =
    map_option rc_Name (find (\<lambda>r. eval (rc_Expression r) ev res) rs)"
  by (induction rs) (auto simp: rule_pair_def)

lemma find_filter: "find P (filter Q xs) = find (\<lambda>x. Q x \<and> P x) xs"
  by (induction xs) auto

lemma find_SomeD: "find P xs = Some x \<Longrightarrow> x \<in> set xs \<and> P x"
  by (induction xs) (auto split: if_splits)

lemma sublist_single: "sublist [c] s \<longleftrightarrow> c \<in> set s"
  by (auto simp: sublist_def in_set_conv_decomp)

lemma ParseIP_Nil: "ParseIP [] = None"
  by code_simp

definition unparsed :: "string \<Rightarrow> bool" where
  "unparsed s \<longleftrightarrow> ParseIP s = None \<or> CHR ''/'' \<in> set s"

lemma toIPValue_None [simp]: "toIPValue s = None \<longleftrightarrow> unparsed s"
  using ParseIP_Nil by (auto simp: toIPValue_def unparsed_def sublist_single split: option.splits)

lemma toIPValue_type: "toIPValue s = Some v \<Longrightarrow> type_of v = TypeIP"
  by (auto simp: toIPValue_def split: if_splits option.splits)

section \<open>Properties\<close>

text \<open>What the configuration says of an event: pass rules first, wherever they stand in the list,
  then the first other rule that matches.\<close>

definition waf_spec :: "'w waf_Config \<Rightarrow> (RuleConfig \<Rightarrow> bool) \<Rightarrow> Event \<Rightarrow> 'w \<Rightarrow> Event option \<times> 'w" where
  "waf_spec cfg hit event w =
    (if list_ex (\<lambda>r. is_pass r \<and> hit r) (wc_Rules cfg) then (Some event, w)
     else case find hit (wc_Rules cfg) of
         None \<Rightarrow> (Some event, w)
       | Some r \<Rightarrow>
           if gate_action r = ''drop'' then (None, signal_score (wc_ScoreFn cfg) (wc_DropScore cfg) event w)
           else if gate_action r = ''tag'' then (Some (set_level (''THREAT:'' @ rc_Name r) event), w)
           else
             let label = drop (length ''tag:'') (gate_action r)
             in (Some (set_level (''THREAT:'' @ rc_Name r @ '':'' @ label) event),
                 signal_score (wc_ScoreFn cfg) (case map_of (wc_TagWeights cfg) label of Some w \<Rightarrow> w | None \<Rightarrow> 0) event w))"

lemma clientIP_set_level [simp]: "clientIP (set_level l ev) = clientIP ev"
  by (simp add: clientIP_def set_level_def)

lemma signal_set_level [simp]: "signal_score fn d (set_level l ev) w = signal_score fn d ev w"
  by (cases fn) (simp_all add: signal_score_def)

definition waf_dispatch :: "'w waf_Config \<Rightarrow> RuleConfig \<Rightarrow> Event \<Rightarrow> 'w \<Rightarrow> (ctx_error + Event option) \<times> 'w" where
  "waf_dispatch cfg r event w =
    (let action = gate_action r
     in if action = ''drop'' then (Inr None, signal_score (wc_ScoreFn cfg) (wc_DropScore cfg) event w)
        else if action = ''tag'' then (Inr (Some (set_level (''THREAT:'' @ rc_Name r) event)), w)
        else if has_prefix action ''tag:'' then
          (let label = trim_prefix action ''tag:'';
               event' = set_level (''THREAT:'' @ rc_Name r @ '':'' @ label) event
           in (Inr (Some event'),
               signal_score (wc_ScoreFn cfg) (case map_of (wc_TagWeights cfg) label of Some w \<Rightarrow> w | None \<Rightarrow> 0) event' w))
        else (Inr None, w))"

text \<open>C25: a processor built from a configuration with distinct rule names passes every event that
  some pass rule matches, wherever that rule stands; any other event meets the action of the first
  rule that matches it, with the score the configuration gives, and passes if none does.\<close>

theorem waf_first_match:
  assumes laws: "engine_laws eng rules eval" and new: "NewWafProcessor eng cfg = Inr p"
    and names: "distinct (map rc_Name (wc_Rules cfg))"
  shows "waf_Process eng p False event w =
    map_prod Inr id (waf_spec cfg (\<lambda>r. eval (rc_Expression r) event (newChainedResolver eng)) event w)"
proof -
  define hit where "hit r = eval (rc_Expression r) event (newChainedResolver eng)" for r :: RuleConfig
  obtain ps gs acts where cl: "classify_rules 0 (wc_Rules cfg) (Inr ([], [], [])) = Inr (ps, gs, acts)"
    and b: "buildRuleSet eng ''pass'' ps = Inr (passRules p)" "buildRuleSet eng ''gate'' gs = Inr (gateRules p)"
    and p: "waf_actions p = acts" "waf_resolver p = newChainedResolver eng" "scoreFn p = wc_ScoreFn cfg"
      "dropScore p = wc_DropScore cfg" "tagWeights p = wc_TagWeights cfg"
    using new by (auto simp: NewWafProcessor_def NewRuleSetFromConfig_def split: if_splits sum.splits)
  note c = classify_rules_Inr [OF cl names]
  have rl: "rules (passRules p) = ps" "rules (gateRules p) = gs" using engine_build [OF laws] b by blast+
  have mp: "re_match eng (passRules p) event (waf_resolver p) =
      map_option rc_Name (find (\<lambda>r. is_pass r \<and> hit r) (wc_Rules cfg))"
    and mg: "re_match eng (gateRules p) event (waf_resolver p) =
      map_option rc_Name (find (\<lambda>r. \<not> is_pass r \<and> hit r) (wc_Rules cfg))"
    using laws c(1,2) rl p(2) by (simp_all add: engine_laws_def find_map_pair find_filter hit_def)
  have cnt: "re_rules eng (passRules p) = length ps" using laws rl(1) by (simp add: engine_laws_def)
  show ?thesis
  proof (cases "list_ex (\<lambda>r. is_pass r \<and> hit r) (wc_Rules cfg)")
    case True
    then have "find (\<lambda>r. is_pass r \<and> hit r) (wc_Rules cfg) \<noteq> None" "ps \<noteq> []"
      using c(1) by (auto simp: find_None_iff list_ex_iff filter_empty_conv)
    then show ?thesis using True mp cnt by (simp add: waf_Process_def waf_spec_def hit_def [symmetric])
  next
    case False
    then have none: "find (\<lambda>r. is_pass r \<and> hit r) (wc_Rules cfg) = None"
      by (auto simp: find_None_iff list_ex_iff)
    have same: "find (\<lambda>r. \<not> is_pass r \<and> hit r) (wc_Rules cfg) = find hit (wc_Rules cfg)"
      using False by (intro find_cong) (auto simp: list_ex_iff)
    show ?thesis
    proof (cases "find hit (wc_Rules cfg)")
      case None
      then show ?thesis using False none same mp mg by (simp add: waf_Process_def waf_spec_def hit_def [symmetric])
    next
      case (Some r)
      then have "r \<in> set (wc_Rules cfg) \<and> \<not> is_pass r \<and> hit r"
        using find_SomeD [of "\<lambda>r. \<not> is_pass r \<and> hit r" "wc_Rules cfg" r] unfolding same by blast
      then have r: "r \<in> set (wc_Rules cfg)" "\<not> is_pass r" "known_action r" using c(3) by blast+
      have act: "map_of acts (rc_Name r) = Some (gate_action r)" using c(4) r by blast
      have kinds: "gate_action r = ''drop'' \<or> gate_action r = ''tag'' \<or> has_prefix (gate_action r) ''tag:''"
        using r(2,3) by (auto simp: known_action_def is_pass_def gate_action_def)
      have pm: "re_match eng (passRules p) event (waf_resolver p) = None" using mp none by simp
      have gm: "re_match eng (gateRules p) event (waf_resolver p) = Some (rc_Name r)" using mg same Some by simp
      have spec: "\<not> list_ex (\<lambda>r. is_pass r \<and> hit r) (wc_Rules cfg)" "find hit (wc_Rules cfg) = Some r"
        using False Some by blast+
      have fold: "(\<lambda>r. eval (rc_Expression r) event (newChainedResolver eng)) = hit"
        by (simp add: hit_def fun_eq_iff)
      have lhs: "waf_Process eng p False event w = waf_dispatch cfg r event w"
        by (simp add: waf_Process_def pm gm act p(1,3,4,5) waf_dispatch_def Let_def)
      show ?thesis unfolding lhs fold
        using kinds by (auto simp: spec waf_spec_def waf_dispatch_def Let_def trim_prefix_def)
    qed
  qed
qed

text \<open>C26: the resolver answers exactly the fields the manifest declares: a declared field of a log
  entry has a value of the declared type, unless it is an address that does not parse, and every
  other field of the namespace has none.\<close>

theorem resolver_matches_manifest:
  "case map_of Produces name of
     None \<Rightarrow> resolveHTTP name entry = None
   | Some t \<Rightarrow> (case resolveHTTP name entry of
         Some v \<Rightarrow> type_of v = t
       | None \<Rightarrow> name = ''remote_addr'' \<and> unparsed (RemoteAddr entry) \<or> name = ''real_ip'' \<and> unparsed (RealIP entry))"
proof (cases "name \<in> fst ` set Produces")
  case True
  then have "name \<in> {''method'', ''path'', ''query'', ''raw_uri'', ''status'', ''bytes_sent'', ''referer'', ''user_agent'',
      ''remote_addr'', ''real_ip'', ''protocol'', ''remote_user''}" by (simp add: Produces_def)
  then show ?thesis
    unfolding insert_iff empty_iff
    by (elim disjE FalseE) (simp_all add: Produces_def resolveHTTP_def toIPValue_type split: option.split)
next
  case False
  then have "map_of Produces name = None" by (simp add: map_of_eq_None_iff)
  moreover have "resolveHTTP name entry = None" using False by (simp add: Produces_def resolveHTTP_def)
  ultimately show ?thesis by simp
qed

section \<open>Witness\<close>

text \<open>An engine whose expressions are literal paths.\<close>

definition literal_eval :: "string \<Rightarrow> Event \<Rightarrow> resolver \<Rightarrow> bool" where
  "literal_eval x event res \<longleftrightarrow> res ''http.path'' (Some event) = Some (VString x)"

definition literal_engine :: "(string \<times> string) list rule_engine" where
  "literal_engine = \<lparr>re_new = (\<lambda>_. Inr []), re_add = (\<lambda>rs n x. Inr (rs @ [(n, x)])), re_rules = length,
     re_match = (\<lambda>rs event res. map_option fst (find (\<lambda>(n, x). literal_eval x event res) rs)),
     re_envelope = (\<lambda>_ _. None)\<rparr>"

definition demo_waf :: "int waf_Config" where
  "demo_waf = \<lparr>wc_Rules = [\<lparr>rc_Name = ''env'', rc_Expression = ''/.env'', rc_Action = ''Drop ''\<rparr>,
       \<lparr>rc_Name = ''login'', rc_Expression = ''/login'', rc_Action = ''TAG:Scan''\<rparr>,
       \<lparr>rc_Name = ''ok'', rc_Expression = ''/ok'', rc_Action = ''pass''\<rparr>],
     wc_DropScore = 100, wc_TagWeights = [(''scan'', 30)], wc_ScoreFn = Some (\<lambda>ip d w. w + d)\<rparr>"

definition demo_request :: "string \<Rightarrow> Event" where
  "demo_request path = \<lparr>ev_Envelope = \<lparr>env_Source = [], env_SourceType = [], env_Stream = [], env_Level = [],
     env_Timestamp = 0\<rparr>, ev_Payload = LogPayload (blank_entry\<lparr>RealIP := ''192.0.2.7'', Path := path\<rparr>)\<rparr>"

theorem waf_first_match_witness:
  "\<exists>p. NewWafProcessor literal_engine demo_waf = Inr p
    \<and> waf_Process literal_engine p False (demo_request ''/.env'') 5 = (Inr None, 105)
    \<and> snd (waf_Process literal_engine p False (demo_request ''/login'') 5) = 35
    \<and> waf_Process literal_engine p False (demo_request ''/ok'') 5 = (Inr (Some (demo_request ''/ok'')), 5)"
proof -
  have laws: "engine_laws literal_engine id literal_eval"
    by (simp add: engine_laws_def literal_engine_def)
  have "\<not> isl (NewWafProcessor literal_engine demo_waf)" by code_simp
  then obtain p where new: "NewWafProcessor literal_engine demo_waf = Inr p"
    by (cases "NewWafProcessor literal_engine demo_waf") simp_all
  have names: "distinct (map rc_Name (wc_Rules demo_waf))" by (simp add: demo_waf_def)
  have val: "waf_spec demo_waf (\<lambda>r. literal_eval (rc_Expression r) (demo_request ''/.env'') (newChainedResolver literal_engine))
        (demo_request ''/.env'') 5 = (None, 105)"
    "waf_spec demo_waf (\<lambda>r. literal_eval (rc_Expression r) (demo_request ''/login'') (newChainedResolver literal_engine))
        (demo_request ''/login'') 5 = (Some (set_level ''THREAT:login:scan'' (demo_request ''/login'')), 35)"
    "waf_spec demo_waf (\<lambda>r. literal_eval (rc_Expression r) (demo_request ''/ok'') (newChainedResolver literal_engine))
        (demo_request ''/ok'') 5 = (Some (demo_request ''/ok''), 5)"
    by code_simp+
  show ?thesis
    using new waf_first_match [OF laws new names] val by simp
qed

end
