(* ===== verification/Pipeline.thy ===== *)
theory Pipeline
  imports Scorer Whitelist ChainCheck Waf
begin

text \<open>
  The security processor, \<open>cmd/arxsentinel/processor_security.go\<close>, which joins
  the components: chain check, custom whitelist, WAF gate, bot verification, state
  tracking, fake-bot penalty, scoring and the threat event; and the WAF wiring of
  \<open>processor_factory.go\<close>, whose score function writes into the tracker.

  The state that outlives a line is a record: the tracker, the verification cache,
  the chain warnings written and the metrics recorded.  Each reading of the clock is
  a field of \<open>clock\<close>; the rate detector reads it too, so the scorer is a function
  of the reading.  External code is in \<open>proc_env\<close>: the rule engine, the unwrapping
  of a log entry from an event, and the DNS resolver under a timeout.

  Shown: a line keeps the tracker invariant and touches no other address; an emitted
  threat is for the address of the line, carries the stored score and follows the
  thresholds; whitelisted lines leave no trace; no address is reported without having
  earned, through firing detectors and penalties, at least the score that is reported.
\<close>

section \<open>The model\<close>

record 'rs securityState =
  StreamName :: string
  PipelineName :: string
  PipelineIdx :: int
  ss_Scorer :: "gotime \<Rightarrow> Scorer"
  ss_Matcher :: Matcher
  ss_Waf :: "('rs, gotime \<times> Tracker) WafProcessor option"
  FakeBotScore :: int
  DNSVerifyTimeout :: duration
  RawForward :: bool

record 'rs proc_env =
  pe_engine :: "'rs rule_engine"
  pe_unwrap :: "Event \<Rightarrow> LogEntry"
  pe_resolver :: "duration \<Rightarrow> Resolver"
  pe_chain :: "Checker option"
  pe_warnings :: bool
  pe_recordThreat :: bool
  pe_recordHit :: bool

datatype metric = RecordThreat string string string | RecordDetectorHit string string string

record world =
  w_tracker :: Tracker
  w_cache :: IPCache
  w_warnings :: "(CheckResult \<times> string) list"
  w_metrics :: "metric list"

record clock =
  c_waf :: gotime
  c_verify :: gotime
  c_fake :: gotime
  c_eval :: gotime
  c_event :: gotime

record EventContext =
  SourceName :: string
  SourceType :: string

text \<open>The score function of \<open>buildWafProcessor\<close>: it writes only to an address that is
  tracked already.  The first component of the state is the clock reading.\<close>

definition waf_scoreFn :: "string \<Rightarrow> int \<Rightarrow> gotime \<times> Tracker \<Rightarrow> gotime \<times> Tracker" where
  "waf_scoreFn ip delta nt =
    (let (now, t) = nt
     in (now, case GetState t ip of
                None \<Rightarrow> t
              | Some st \<Rightarrow> put_state (SetScore (st_score st + delta) now st) t))"

record ('y) ProcessorConfig =
  Plugin :: string
  waf_config :: 'y

datatype 'y waf_param = NoWafConfig | TypedWafConfig "(gotime \<times> Tracker) waf_Config" | WafConfigMap 'y | OtherWafConfig

datatype waf_build_error = MissingWafConfig | DecodeError string | WrongWafConfigType | WafInit waf_error

text \<open>The YAML round trip of the untyped form is the argument \<open>decode\<close>.\<close>

fun buildWafProcessor :: "'rs rule_engine \<Rightarrow> ('y \<Rightarrow> string + (gotime \<times> Tracker) waf_Config)
    \<Rightarrow> 'y waf_param ProcessorConfig list \<Rightarrow> int
    \<Rightarrow> waf_build_error + ('rs, gotime \<times> Tracker) WafProcessor option" where
  "buildWafProcessor eng decode [] ban = Inr None"
| "buildWafProcessor eng decode (pc # pcs) ban =
    (if Plugin pc \<noteq> ''waf'' then buildWafProcessor eng decode pcs ban
     else
       case (case waf_config pc of
               NoWafConfig \<Rightarrow> Inl MissingWafConfig
             | TypedWafConfig cfg \<Rightarrow> Inr cfg
             | WafConfigMap y \<Rightarrow> (case decode y of Inl e \<Rightarrow> Inl (DecodeError e) | Inr cfg \<Rightarrow> Inr cfg)
             | OtherWafConfig \<Rightarrow> Inl WrongWafConfigType) of
         Inl err \<Rightarrow> Inl err
       | Inr cfg \<Rightarrow>
           (let cfg = (if wc_DropScore cfg = 0 \<and> ban > 0 then cfg\<lparr>wc_DropScore := ban\<rparr> else cfg);
                cfg = cfg\<lparr>wc_ScoreFn := Some waf_scoreFn\<rparr>
            in case NewWafProcessor eng cfg of Inl e \<Rightarrow> Inl (WafInit e) | Inr p \<Rightarrow> Inr (Some p)))"

definition chain_step :: "'rs proc_env \<Rightarrow> EventContext \<Rightarrow> LogEntry \<Rightarrow> world \<Rightarrow> world" where
  "chain_step env evctx entry w =
    (case pe_chain env of
       None \<Rightarrow> w
     | Some cc \<Rightarrow>
         if \<not> pe_warnings env then w
         else case Check cc (RemoteAddr entry) of
             None \<Rightarrow> w
           | Some result \<Rightarrow> w\<lparr>w_warnings := w_warnings w @ [(result, SourceName evctx)]\<rparr>)"

definition custom_whitelisted :: "Matcher \<Rightarrow> LogEntry \<Rightarrow> bool" where
  "custom_whitelisted m entry \<longleftrightarrow>
    IsWhitelistedIP m (RealIP entry) \<or> IsWhitelistedUA m (UserAgent entry) \<or> IsWhitelistedPath m (Path entry)"

text \<open>The WAF gate: whether the line goes on, and the tracker after the score function.\<close>

definition waf_gate :: "'rs proc_env \<Rightarrow> 'rs securityState \<Rightarrow> bool \<Rightarrow> gotime \<Rightarrow> Event \<Rightarrow> world \<Rightarrow> bool \<times> world" where
  "waf_gate env st ctxDone now event w =
    (case ss_Waf st of
       None \<Rightarrow> (True, w)
     | Some p \<Rightarrow>
         let (res, nt) = waf_Process (pe_engine env) p ctxDone event (now, w_tracker w);
             w = w\<lparr>w_tracker := snd nt\<rparr>
         in case res of
              Inl _ \<Rightarrow> (False, w)
            | Inr None \<Rightarrow> (False, w)
            | Inr (Some _) \<Rightarrow> (True, w))"

datatype bot_verdict = VerifiedBot | Proceed bool "string list option"

definition bot_step :: "'rs proc_env \<Rightarrow> 'rs securityState \<Rightarrow> gotime \<Rightarrow> LogEntry \<Rightarrow> world \<Rightarrow> bot_verdict \<times> world" where
  "bot_step env st now entry w =
    (case MatchBot (ss_Matcher st) (UserAgent entry) of
       None \<Rightarrow> (Proceed False None, w)
     | Some botCfg \<Rightarrow>
         let ((verified, fake), cache) =
               Verify (pe_resolver env (DNSVerifyTimeout st)) now (RealIP entry) botCfg (w_cache w);
             w = w\<lparr>w_cache := cache\<rparr>
         in if verified then (VerifiedBot, w)
            else (Proceed fake
                   (if \<not> fake \<and> length (ExemptDetectors botCfg) > 0 then Some (ExemptDetectors botCfg) else None), w))"

definition record_metrics :: "'rs proc_env \<Rightarrow> 'rs securityState \<Rightarrow> Verdict \<Rightarrow> world \<Rightarrow> world" where
  "record_metrics env st v w =
    w\<lparr>w_metrics := w_metrics w
        @ (if pe_recordThreat env then [RecordThreat (StreamName st) (PipelineName st) (v_level v)] else [])
        @ (if pe_recordHit env then map (RecordDetectorHit (StreamName st) (PipelineName st)) (v_modules v) else [])\<rparr>"

definition threat_of :: "'rs securityState \<Rightarrow> EventContext \<Rightarrow> gotime \<Rightarrow> LogEntry \<Rightarrow> Verdict \<Rightarrow> ThreatEvent" where
  "threat_of st evctx now entry v =
    \<lparr>te_Timestamp = now, te_Level = v_level v, te_Stream = StreamName st, te_Source = SourceName evctx,
     te_SourceType = SourceType evctx, te_IP = RealIP entry, te_Score = v_score v,
     te_Modules = v_modules v, te_Reason = v_reason v, te_RawLine = []\<rparr>"

definition score_step :: "'rs proc_env \<Rightarrow> 'rs securityState \<Rightarrow> clock \<Rightarrow> EventContext \<Rightarrow> LogEntry
    \<Rightarrow> bool \<Rightarrow> string list option \<Rightarrow> world \<Rightarrow> Event option \<times> world" where
  "score_step env st clk evctx entry isFakeBot exemptSet w =
    (let (ipState, t) = Update (w_tracker w) entry;
         ipState = (if isFakeBot then SetScore (st_score ipState + FakeBotScore st) (c_fake clk) ipState else ipState);
         (v, ipState) = Evaluate (ss_Scorer st (c_eval clk)) (c_eval clk) ipState entry exemptSet;
         w = w\<lparr>w_tracker := put_state ipState t\<rparr>
     in if v_level v = [] then (None, w)
        else
          let threat = threat_of st evctx (c_event clk) entry v
          in (Some \<lparr>ev_Envelope = \<lparr>env_Source = SourceName evctx, env_SourceType = SourceType evctx,
                      env_Stream = StreamName st, env_Level = v_level v, env_Timestamp = te_Timestamp threat\<rparr>,
                    ev_Payload = ThreatPayload threat\<rparr>,
              record_metrics env st v w))"

text \<open>The payload of the action, if any.\<close>

definition Process :: "'rs proc_env \<Rightarrow> 'rs securityState \<Rightarrow> bool \<Rightarrow> clock \<Rightarrow> EventContext \<Rightarrow> Event \<Rightarrow> world
    \<Rightarrow> Event option \<times> world" where
  "Process env st ctxDone clk evctx event w =
    (let entry = pe_unwrap env event
     in if RawForward st then
          (Some \<lparr>ev_Envelope = \<lparr>env_Source = SourceName evctx, env_SourceType = SourceType evctx,
                   env_Stream = StreamName st, env_Level = [], env_Timestamp = Time entry\<rparr>,
                 ev_Payload = LogPayload entry\<rparr>, w)
        else
          let w = chain_step env evctx entry w
          in if custom_whitelisted (ss_Matcher st) entry then (None, w)
             else case waf_gate env st ctxDone (c_waf clk) event w of
                 (False, w) \<Rightarrow> (None, w)
               | (True, w) \<Rightarrow>
                   (case bot_step env st (c_verify clk) entry w of
                      (VerifiedBot, w) \<Rightarrow> (None, w)
                    | (Proceed isFakeBot exemptSet, w) \<Rightarrow>
                        score_step env st clk evctx entry isFakeBot exemptSet w))"

section \<open>What each stage changes\<close>

lemma chain_step_frame [simp]:
  "w_tracker (chain_step env evctx entry w) = w_tracker w" "w_cache (chain_step env evctx entry w) = w_cache w"
  by (auto simp: chain_step_def split: option.split)

lemma bot_step_frame [simp]: "w_tracker (snd (bot_step env st now entry w)) = w_tracker w"
  by (auto simp: bot_step_def Let_def split_beta split: option.split)

lemma record_metrics_frame [simp]: "w_tracker (record_metrics env st v w) = w_tracker w"
  by (simp add: record_metrics_def)

text \<open>The signals of a WAF run are those a recording score function sees; the state changes by
  exactly these.\<close>

definition waf_signals :: "'rs rule_engine \<Rightarrow> ('rs, 'w) WafProcessor \<Rightarrow> bool \<Rightarrow> Event \<Rightarrow> (string \<times> int) list" where
  "waf_signals eng p ctxDone event =
    snd (waf_Process eng \<lparr>passRules = passRules p, gateRules = gateRules p, waf_actions = waf_actions p,
           waf_resolver = waf_resolver p, scoreFn = map_option (\<lambda>_ ip d log. log @ [(ip, d)]) (scoreFn p),
           dropScore = dropScore p, tagWeights = tagWeights p\<rparr> ctxDone event [])"

lemma waf_signals_apply:
  assumes "scoreFn p = Some f"
  shows "snd (waf_Process eng p ctxDone event w) = fold (\<lambda>(ip, d). f ip d) (waf_signals eng p ctxDone event) w"
  using assms
  by (auto simp: waf_signals_def waf_Process_def signal_score_def Let_def split: option.split)

lemma waf_signals_pos: "(ip, d) \<in> set (waf_signals eng p ctxDone event) \<Longrightarrow> 0 < d"
  by (auto simp: waf_signals_def waf_Process_def signal_score_def Let_def split: option.splits if_splits)

definition waf_points :: "'rs proc_env \<Rightarrow> 'rs securityState \<Rightarrow> bool \<Rightarrow> Event \<Rightarrow> string \<Rightarrow> int" where
  "waf_points env st ctxDone event ip =
    (case ss_Waf st of
       None \<Rightarrow> 0
     | Some p \<Rightarrow> sum_list (map snd (filter (\<lambda>s. fst s = ip) (waf_signals (pe_engine env) p ctxDone event))))"

lemma waf_points_nonneg: "0 \<le> waf_points env st ctxDone event ip"
  by (auto simp: waf_points_def split: option.split intro!: sum_list_nonneg dest!: waf_signals_pos)

section \<open>The score an address has earned\<close>

text \<open>The state of the line's address that the detectors see.\<close>

definition seen_state :: "'rs securityState \<Rightarrow> clock \<Rightarrow> LogEntry \<Rightarrow> bool \<Rightarrow> Tracker \<Rightarrow> IPState" where
  "seen_state st clk entry fake t =
    (let s = fst (Update t entry)
     in if fake then SetScore (st_score s + FakeBotScore st) (c_fake clk) s else s)"

definition detector_points :: "'rs securityState \<Rightarrow> clock \<Rightarrow> LogEntry \<Rightarrow> bool \<Rightarrow> string list option \<Rightarrow> Tracker \<Rightarrow> int" where
  "detector_points st clk entry fake ex t =
    sum_list (map Score (fired (results (sc_detectors (ss_Scorer st (c_eval clk))) ex entry (seen_state st clk entry fake t))))"

type_synonym 'rs line = "'rs securityState \<times> bool \<times> clock \<times> EventContext \<times> Event"

text \<open>What one line gives to an address: the WAF signals, and for the address of a line that is
  scored the fake-bot penalty and the scores of the firing detectors.\<close>

definition line_points :: "'rs proc_env \<Rightarrow> 'rs line \<Rightarrow> world \<Rightarrow> string \<Rightarrow> int" where
  "line_points env l w ip =
    (let (st, ctxDone, clk, evctx, event) = l; entry = pe_unwrap env event
     in if RawForward st \<or> custom_whitelisted (ss_Matcher st) entry then 0
        else
          let (go, w1) = waf_gate env st ctxDone (c_waf clk) event (chain_step env evctx entry w)
          in waf_points env st ctxDone event ip +
             (if \<not> go \<or> RealIP entry \<noteq> ip then 0
              else case bot_step env st (c_verify clk) entry w1 of
                  (VerifiedBot, w2) \<Rightarrow> 0
                | (Proceed fake ex, w2) \<Rightarrow>
                    (if fake then FakeBotScore st else 0) + detector_points st clk entry fake ex (w_tracker w2)))"

definition process_line :: "'rs proc_env \<Rightarrow> 'rs line \<Rightarrow> world \<Rightarrow> Event option \<times> world" where
  "process_line env l w = (case l of (st, ctxDone, clk, evctx, event) \<Rightarrow> Process env st ctxDone clk evctx event w)"

fun earned :: "'rs proc_env \<Rightarrow> 'rs line list \<Rightarrow> world \<Rightarrow> string \<Rightarrow> int" where
  "earned env [] w ip = 0"
| "earned env (l # ls) w ip = line_points env l w ip + earned env ls (snd (process_line env l w)) ip"

definition good_state :: "'rs securityState \<Rightarrow> bool" where
  "good_state st \<longleftrightarrow> (\<forall>now. list_all good_detector (sc_detectors (ss_Scorer st now)))
    \<and> 0 \<le> FakeBotScore st
    \<and> (case ss_Waf st of None \<Rightarrow> True | Some p \<Rightarrow> scoreFn p = Some waf_scoreFn)"

text \<open>The readings of the clock during a line that starts at \<open>now\<close>.\<close>

definition clock_ok :: "gotime \<Rightarrow> clock \<Rightarrow> bool" where
  "clock_ok now clk \<longleftrightarrow> now \<le> c_waf clk \<and> c_waf clk \<le> c_fake clk \<and> c_fake clk \<le> c_eval clk"

fun lines_ok :: "gotime \<Rightarrow> 'rs line list \<Rightarrow> bool" where
  "lines_ok now [] = True"
| "lines_ok now ((st, ctxDone, clk, evctx, event) # ls) =
    (good_state st \<and> clock_ok now clk \<and> lines_ok (c_eval clk) ls)"

section \<open>Invariants\<close>

definition score_inv :: "string \<Rightarrow> int \<Rightarrow> gotime \<Rightarrow> Tracker \<Rightarrow> bool" where
  "score_inv ip pts now t \<longleftrightarrow> tracker_inv t \<and> 0 \<le> pts
    \<and> (\<forall>s. GetState t ip = Some s \<longrightarrow> st_score s \<le> pts \<and> scoreUpdatedAt s \<le> now)"

lemma score_inv_mono: "score_inv ip pts now t \<Longrightarrow> now \<le> now' \<Longrightarrow> score_inv ip pts now' t"
  by (auto simp: score_inv_def intro: order_trans)

lemma waf_scoreFn_inv: "tracker_inv t \<Longrightarrow> tracker_inv (snd (waf_scoreFn ip d (now, t)))"
  using tracker_store.good_get [of t ip]
  by (auto simp: waf_scoreFn_def split: option.split intro!: tracker_store.inv_put)

lemma waf_scoreFn_time [simp]: "fst (waf_scoreFn ip d nt) = fst nt"
  by (simp add: waf_scoreFn_def split_beta)

lemma waf_scoreFn_score:
  assumes "score_inv k pts now t" "0 < d"
  shows "score_inv k (pts + (if ip = k then d else 0)) now (snd (waf_scoreFn ip d (now, t)))"
proof (cases "GetState t ip")
  case None
  then show ?thesis using assms by (auto simp: score_inv_def waf_scoreFn_def)
next
  case (Some st)
  have inv: "tracker_inv t" using assms(1) by (simp add: score_inv_def)
  have ip: "IP st = ip" using tracker_inv_get(1) [OF inv, of ip st] Some by (simp add: GetState_def)
  have k: "GetState (snd (waf_scoreFn ip d (now, t))) k =
      (if k = ip then Some (SetScore (st_score st + d) now st) else GetState t k)"
    using tracker_store.get_put [OF inv, of "SetScore (st_score st + d) now st" k] Some ip
    by (auto simp: waf_scoreFn_def SetScore_def)
  show ?thesis
    using assms k waf_scoreFn_inv [OF inv, of ip d now] Some
    by (auto simp: score_inv_def SetScore_def)
qed

lemma waf_signals_score:
  assumes "score_inv k pts now t" "\<forall>(ip, d) \<in> set sigs. 0 < d"
  shows "score_inv k (pts + sum_list (map snd (filter (\<lambda>s. fst s = k) sigs))) now
    (snd (fold (\<lambda>(ip, d). waf_scoreFn ip d) sigs (now, t)))"
  using assms
proof (induction sigs arbitrary: pts t)
  case (Cons s sigs)
  obtain ip d where s: "s = (ip, d)" by (cases s)
  obtain t' where w: "waf_scoreFn ip d (now, t) = (now, t')"
    by (metis waf_scoreFn_time fst_conv surj_pair)
  have "score_inv k (pts + (if ip = k then d else 0)) now t'"
    using waf_scoreFn_score [OF Cons.prems(1), of d ip] Cons.prems(2) s w by simp
  from Cons.IH [OF this] show ?case using Cons.prems(2) s w by (simp add: algebra_simps split: if_splits)
qed simp

lemma waf_gate_score:
  assumes "score_inv k pts now (w_tracker w)" "good_state st"
  shows "score_inv k (pts + waf_points env st ctxDone event k) now
    (w_tracker (snd (waf_gate env st ctxDone now event w)))"
proof (cases "ss_Waf st")
  case None
  then show ?thesis using assms by (simp add: waf_gate_def waf_points_def)
next
  case (Some p)
  then have f: "scoreFn p = Some waf_scoreFn" using assms(2) by (simp add: good_state_def)
  have "w_tracker (snd (waf_gate env st ctxDone now event w)) =
      snd (snd (waf_Process (pe_engine env) p ctxDone event (now, w_tracker w)))"
    using Some by (auto simp: waf_gate_def Let_def split_beta split: sum.split option.split)
  then show ?thesis
    using waf_signals_apply [OF f, of "pe_engine env" ctxDone event "(now, w_tracker w)"] Some
      waf_signals_score [OF assms(1), of "waf_signals (pe_engine env) p ctxDone event"] waf_signals_pos
    by (fastforce simp: waf_points_def)
qed

lemma Update_score:
  "st_score (fst (Update t e)) = (case GetState t (RealIP e) of None \<Rightarrow> 0 | Some s \<Rightarrow> st_score s)"
  "scoreUpdatedAt (fst (Update t e)) = (case GetState t (RealIP e) of None \<Rightarrow> 0 | Some s \<Rightarrow> scoreUpdatedAt s)"
  by (cases "GetState t (RealIP e)"; simp add: GetState_def Update_new Update_known Let_def newIPState_def)+

lemma decay_le:
  assumes "c \<le> b" "0 \<le> b" "b \<le> 2 ^ 53" "c \<le> 0 \<or> t \<le> now"
  shows "applyDecay c t w now \<le> b"
proof (cases "c \<le> 0")
  case True
  then show ?thesis using assms(2) by (simp add: applyDecay_zero)
next
  case False
  then show ?thesis using applyDecay_range [of t now c w] assms by linarith
qed

text \<open>The points a scored line gives.\<close>

definition score_gain :: "'rs securityState \<Rightarrow> clock \<Rightarrow> LogEntry \<Rightarrow> bool \<Rightarrow> string list option \<Rightarrow> Tracker \<Rightarrow> int" where
  "score_gain st clk entry fake ex t = (if fake then FakeBotScore st else 0) + detector_points st clk entry fake ex t"

lemma score_gain_nonneg: "good_state st \<Longrightarrow> 0 \<le> score_gain st clk entry fake ex t"
  by (simp add: score_gain_def good_state_def detector_points_def fired_pos)

definition step_verdict :: "'rs securityState \<Rightarrow> clock \<Rightarrow> LogEntry \<Rightarrow> bool \<Rightarrow> string list option \<Rightarrow> Tracker \<Rightarrow> Verdict \<times> IPState" where
  "step_verdict st clk entry fake ex t =
    Evaluate (ss_Scorer st (c_eval clk)) (c_eval clk) (seen_state st clk entry fake t) entry ex"

lemma score_step_tracker:
  "w_tracker (snd (score_step env st clk evctx entry fake ex w)) =
    put_state (snd (step_verdict st clk entry fake ex (w_tracker w))) (snd (Update (w_tracker w) entry))"
  by (simp add: score_step_def step_verdict_def seen_state_def Let_def split_beta)

lemma score_step_event:
  "fst (score_step env st clk evctx entry fake ex w) =
    (let v = fst (step_verdict st clk entry fake ex (w_tracker w))
     in if v_level v = [] then None
        else Some \<lparr>ev_Envelope = \<lparr>env_Source = SourceName evctx, env_SourceType = SourceType evctx,
               env_Stream = StreamName st, env_Level = v_level v, env_Timestamp = c_event clk\<rparr>,
             ev_Payload = ThreatPayload (threat_of st evctx (c_event clk) entry v)\<rparr>)"
  by (simp add: score_step_def step_verdict_def seen_state_def Let_def split_beta threat_of_def)

lemma seen_state_facts:
  assumes "tracker_inv t"
  shows "IP (seen_state st clk entry fake t) = RealIP entry" "ipstate_ok (seen_state st clk entry fake t)"
  using tracker_store.skey_upd [OF assms, of entry] tracker_store.good_upd [OF assms, of entry]
  by (simp_all add: seen_state_def Let_def) (simp add: SetScore_def)

lemma step_verdict_facts:
  assumes "tracker_inv t" "good_state st"
  shows "IP (snd (step_verdict st clk entry fake ex t)) = RealIP entry"
    and "ipstate_ok (snd (step_verdict st clk entry fake ex t))"
  using seen_state_facts [OF assms(1), where st = st] assms(2)
    Evaluate_keeps [where s = "ss_Scorer st (c_eval clk)"]
  by (simp_all add: step_verdict_def good_state_def list_all_iff)

lemma step_verdict_score:
  assumes "score_inv (RealIP entry) pts now t" "good_state st" "now \<le> c_fake clk" "c_fake clk \<le> c_eval clk"
    and "pts + score_gain st clk entry fake ex t \<le> 2 ^ 53"
  shows "v_score (fst (step_verdict st clk entry fake ex t)) \<le> pts + score_gain st clk entry fake ex t"
proof -
  define sv where "sv = seen_state st clk entry fake t"
  define b where "b = pts + (if fake then FakeBotScore st else 0)"
  have dp: "0 \<le> detector_points st clk entry fake ex t" by (simp add: detector_points_def fired_pos)
  have b: "0 \<le> b" "b \<le> 2 ^ 53" using assms(1,2,5) dp by (auto simp: b_def score_inv_def good_state_def score_gain_def)
  have "st_score (fst (Update t entry)) \<le> pts"
    "st_score (fst (Update t entry)) \<le> 0 \<or> scoreUpdatedAt (fst (Update t entry)) \<le> now"
    using assms(1) by (auto simp: Update_score score_inv_def split: option.split)
  then have "st_score sv \<le> b" "st_score sv \<le> 0 \<or> scoreUpdatedAt sv \<le> c_eval clk"
    using assms(3,4) by (auto simp: sv_def seen_state_def Let_def SetScore_def b_def)
  then have "applyDecay (st_score sv) (scoreUpdatedAt sv) (sc_window (ss_Scorer st (c_eval clk))) (c_eval clk) \<le> b"
    using b by (intro decay_le)
  then show ?thesis
    by (simp add: step_verdict_def Evaluate_facts(1) sv_def [symmetric] score_gain_def detector_points_def b_def)
qed

lemma score_step_inv:
  assumes "tracker_inv (w_tracker w)" "good_state st"
  shows "tracker_inv (w_tracker (snd (score_step env st clk evctx entry fake ex w)))"
  using tracker_store.upd_put_inv [OF assms(1) step_verdict_facts(2) [OF assms]] by (simp add: score_step_tracker)

lemma score_step_get:
  assumes "tracker_inv (w_tracker w)" "good_state st"
  shows "GetState (w_tracker (snd (score_step env st clk evctx entry fake ex w))) (RealIP entry) =
      Some (snd (step_verdict st clk entry fake ex (w_tracker w)))"
    and "k \<noteq> RealIP entry \<Longrightarrow> GetState (w_tracker (snd (score_step env st clk evctx entry fake ex w))) k = Some s
      \<Longrightarrow> GetState (w_tracker w) k = Some s"
  using tracker_store.upd_put_same [OF assms(1) step_verdict_facts(1) [OF assms]]
    tracker_store.upd_put_other [OF assms(1) step_verdict_facts(1) [OF assms]]
  by (simp_all add: score_step_tracker)

lemma score_step_score:
  assumes "score_inv k pts now (w_tracker w)" "good_state st" "now \<le> c_fake clk" "c_fake clk \<le> c_eval clk"
    and "pts + gain \<le> 2 ^ 53"
    and "gain = (if RealIP entry = k then score_gain st clk entry fake ex (w_tracker w) else 0)"
  shows "score_inv k (pts + gain) (c_eval clk) (w_tracker (snd (score_step env st clk evctx entry fake ex w)))"
proof -
  have inv: "tracker_inv (w_tracker w)" using assms(1) by (simp add: score_inv_def)
  have g: "0 \<le> gain" using assms(6) score_gain_nonneg [OF assms(2)] by simp
  have "st_score s \<le> pts + gain \<and> scoreUpdatedAt s \<le> c_eval clk"
    if s: "GetState (w_tracker (snd (score_step env st clk evctx entry fake ex w))) k = Some s" for s
  proof (cases "RealIP entry = k")
    case True
    then have "s = snd (step_verdict st clk entry fake ex (w_tracker w))"
      using s score_step_get(1) [OF inv assms(2), of env clk evctx entry fake ex] by simp
    then show ?thesis
      using step_verdict_score [of entry pts now "w_tracker w" st clk fake ex] assms True
      by (simp add: step_verdict_def Evaluate_facts(3,4))
  next
    case False
    then have "GetState (w_tracker w) k = Some s" using s score_step_get(2) [OF inv assms(2)] by metis
    then show ?thesis using assms(1,3,4) g unfolding score_inv_def by fastforce
  qed
  then show ?thesis
    using score_step_inv [OF inv assms(2)] assms(1) g by (auto simp: score_inv_def)
qed

section \<open>Lines and runs\<close>

text \<open>The ways a line can end.\<close>

lemma process_line_cases:
  fixes env :: "'rs proc_env" and w :: world and k :: string
  assumes "l = (st, ctxDone, clk, evctx, event)"
  defines "entry \<equiv> pe_unwrap env event" and "w1 \<equiv> chain_step env evctx (pe_unwrap env event) w"
  obtains (Raw) "RawForward st" "snd (process_line env l w) = w" "line_points env l w k = 0"
      "\<And>out. fst (process_line env l w) = Some out \<Longrightarrow> ev_Payload out = LogPayload entry"
  | (White) "\<not> RawForward st" "custom_whitelisted (ss_Matcher st) entry"
      "process_line env l w = (None, w1)" "line_points env l w k = 0"
  | (Dropped) w2 where "waf_gate env st ctxDone (c_waf clk) event w1 = (False, w2)"
      "process_line env l w = (None, w2)" "line_points env l w k = waf_points env st ctxDone event k"
  | (Verified) w2 w3 where "waf_gate env st ctxDone (c_waf clk) event w1 = (True, w2)"
      "w_tracker w3 = w_tracker w2" "process_line env l w = (None, w3)"
      "line_points env l w k = waf_points env st ctxDone event k"
  | (Scored) w2 w3 fake ex where "waf_gate env st ctxDone (c_waf clk) event w1 = (True, w2)"
      "\<not> custom_whitelisted (ss_Matcher st) entry" "w_tracker w3 = w_tracker w2"
      "process_line env l w = score_step env st clk evctx entry fake ex w3"
      "line_points env l w k = waf_points env st ctxDone event k
        + (if RealIP entry = k then score_gain st clk entry fake ex (w_tracker w2) else 0)"
proof -
  obtain go w2 where g: "waf_gate env st ctxDone (c_waf clk) event w1 = (go, w2)" by (cases "waf_gate env st ctxDone (c_waf clk) event w1")
  obtain bv w3 where b: "bot_step env st (c_verify clk) entry w2 = (bv, w3)" by (cases "bot_step env st (c_verify clk) entry w2")
  have t: "w_tracker w3 = w_tracker w2" using bot_step_frame [of env st "c_verify clk" entry w2] b by simp
  have w1: "chain_step env evctx entry w = w1" by (simp add: w1_def entry_def)
  note d = process_line_def Process_def line_points_def assms(1) entry_def [symmetric] w1
  show thesis
  proof (cases "RawForward st")
    case True
    show thesis by (rule Raw) (use True in \<open>auto simp: d Let_def\<close>)
  next
    case raw: False
    show thesis
    proof (cases "custom_whitelisted (ss_Matcher st) entry")
      case True
      show thesis by (rule White) (use True raw in \<open>simp_all add: d Let_def\<close>)
    next
      case wl: False
      show thesis
      proof (cases go)
        case False
        show thesis by (rule Dropped [of w2]) (use raw wl False g in \<open>simp_all add: d Let_def\<close>)
      next
        case go: True
        show thesis
        proof (cases bv)
          case VerifiedBot
          show thesis by (rule Verified [of w2 w3]) (use raw wl go g b t VerifiedBot in \<open>simp_all add: d Let_def\<close>)
        next
          case (Proceed fake ex)
          show thesis
            by (rule Scored [of w2 w3 fake ex]) (use raw wl go g b t Proceed in \<open>simp_all add: d Let_def score_gain_def\<close>)
        qed
      qed
    qed
  qed
qed

lemma process_line_score:
  assumes "l = (st, ctxDone, clk, evctx, event)" "score_inv k pts now (w_tracker w)" "good_state st" "clock_ok now clk"
    and "pts + line_points env l w k \<le> 2 ^ 53"
  shows "score_inv k (pts + line_points env l w k) (c_eval clk) (w_tracker (snd (process_line env l w)))"
    and "fst (process_line env l w) = Some out \<Longrightarrow> ev_Payload out = ThreatPayload te \<Longrightarrow> te_IP te = k
      \<Longrightarrow> te_Score te \<le> pts + line_points env l w k"
proof -
  let ?w1 = "chain_step env evctx (pe_unwrap env event) w"
  have c: "now \<le> c_waf clk" "c_waf clk \<le> c_fake clk" "c_fake clk \<le> c_eval clk" "now \<le> c_eval clk"
    using assms(4) by (simp_all add: clock_ok_def)
  have "score_inv k pts (c_waf clk) (w_tracker ?w1)" using score_inv_mono [OF assms(2) c(1)] by simp
  note waf = waf_gate_score [OF this assms(3), of env ctxDone event]
  note later = score_inv_mono [OF waf order_trans [OF c(2,3)]]
  have both: "score_inv k (pts + line_points env l w k) (c_eval clk) (w_tracker (snd (process_line env l w)))
    \<and> (fst (process_line env l w) = Some out \<longrightarrow> ev_Payload out = ThreatPayload te \<longrightarrow> te_IP te = k
      \<longrightarrow> te_Score te \<le> pts + line_points env l w k)" for out te
  proof (rule process_line_cases [OF assms(1), of env w k])
    assume "RawForward st" "snd (process_line env l w) = w" "line_points env l w k = 0"
      and "\<And>out. fst (process_line env l w) = Some out \<Longrightarrow> ev_Payload out = LogPayload (pe_unwrap env event)"
    then show ?thesis using score_inv_mono [OF assms(2) c(4)] by auto
  next
    fix w2 w3 fake ex
    assume g: "waf_gate env st ctxDone (c_waf clk) event ?w1 = (True, w2)" and t: "w_tracker w3 = w_tracker w2"
      and p: "process_line env l w = score_step env st clk evctx (pe_unwrap env event) fake ex w3"
      and lp: "line_points env l w k = waf_points env st ctxDone event k
        + (if RealIP (pe_unwrap env event) = k then score_gain st clk (pe_unwrap env event) fake ex (w_tracker w2) else 0)"
    let ?p = "pts + waf_points env st ctxDone event k"
    have i: "score_inv k ?p (c_waf clk) (w_tracker w3)" using waf g t by simp
    let ?g = "if RealIP (pe_unwrap env event) = k then score_gain st clk (pe_unwrap env event) fake ex (w_tracker w3) else 0"
    have sum: "pts + line_points env l w k = ?p + ?g" unfolding lp t by (simp add: add.assoc)
    have "score_inv k (pts + line_points env l w k) (c_eval clk) (w_tracker (snd (process_line env l w)))"
      unfolding sum p using assms(5) by (intro score_step_score [OF i assms(3) c(2,3) _ refl]) (simp only: sum)
    moreover have "te_Score te \<le> pts + line_points env l w k"
      if "fst (process_line env l w) = Some out" "ev_Payload out = ThreatPayload te" "te_IP te = k"
    proof -
      let ?v = "fst (step_verdict st clk (pe_unwrap env event) fake ex (w_tracker w3))"
      have te: "te = threat_of st evctx (c_event clk) (pe_unwrap env event) ?v"
        using that by (auto simp: p score_step_event Let_def split: if_splits)
      then have "RealIP (pe_unwrap env event) = k" "te_Score te = v_score ?v"
        using that(3) by (simp_all add: threat_of_def)
      then show ?thesis
        using step_verdict_score [of "pe_unwrap env event" ?p "c_waf clk" "w_tracker w3" st clk fake ex] i assms(3,5) c
        by (simp add: sum)
    qed
    ultimately show ?thesis by blast
  qed (use waf later score_inv_mono [OF assms(2) c(4)] in auto)
  show "score_inv k (pts + line_points env l w k) (c_eval clk) (w_tracker (snd (process_line env l w)))"
    using both by blast
  show "te_Score te \<le> pts + line_points env l w k"
    if "fst (process_line env l w) = Some out" "ev_Payload out = ThreatPayload te" "te_IP te = k"
    using both that by blast
qed

lemma waf_gate_inv:
  assumes "tracker_inv (w_tracker w)" "good_state st"
  shows "tracker_inv (w_tracker (snd (waf_gate env st ctxDone now event w)))"
proof (cases "ss_Waf st")
  case (Some p)
  have "tracker_inv (snd (fold (\<lambda>(ip, d). waf_scoreFn ip d) sigs (now, t)))" if "tracker_inv t" for sigs t
    using that
  proof (induction sigs arbitrary: t)
    case (Cons s sigs)
    obtain ip d where s: "s = (ip, d)" by (cases s)
    obtain t' where "waf_scoreFn ip d (now, t) = (now, t')" by (metis waf_scoreFn_time fst_conv surj_pair)
    then show ?case using Cons waf_scoreFn_inv [OF Cons.prems, of ip d now] s by simp
  qed simp
  then show ?thesis
    using assms Some waf_signals_apply [of p waf_scoreFn "pe_engine env" ctxDone event "(now, w_tracker w)"]
    by (auto simp: waf_gate_def good_state_def Let_def split_beta split: sum.split option.split)
qed (use assms in \<open>simp add: waf_gate_def\<close>)

lemma process_line_inv:
  assumes "tracker_inv (w_tracker w)" "good_state (fst l)"
  shows "tracker_inv (w_tracker (snd (process_line env l w)))"
proof -
  obtain st ctxDone clk evctx event where l: "l = (st, ctxDone, clk, evctx, event)" by (cases l) auto
  have st: "good_state st" using assms(2) l by simp
  show ?thesis
    using assms(1) waf_gate_inv [OF _ st, of "chain_step env evctx (pe_unwrap env event) w" env ctxDone "c_waf clk" event]
    by (cases rule: process_line_cases [OF l, of env w "[]"]) (auto simp: score_step_inv [OF _ st])
qed

interpretation processing: step_system "\<lambda>l w. snd (process_line env l w)" "\<lambda>w. tracker_inv (w_tracker w)"
    "\<lambda>l. good_state (fst l)" for env
  by unfold_locales (rule process_line_inv)

definition run_lines :: "'rs proc_env \<Rightarrow> 'rs line list \<Rightarrow> world \<Rightarrow> world" where
  "run_lines env ls w = fold (\<lambda>l w. snd (process_line env l w)) ls w"

lemma earned_snoc: "earned env (ls @ [l]) w ip = earned env ls w ip + line_points env l (run_lines env ls w) ip"
  by (induction ls arbitrary: w) (simp_all add: run_lines_def)

lemma line_points_nonneg:
  assumes "good_state (fst l)"
  shows "0 \<le> line_points env l w ip"
proof -
  obtain st ctxDone clk evctx event where l: "l = (st, ctxDone, clk, evctx, event)" by (cases l) auto
  have st: "good_state st" using assms l by simp
  show ?thesis
    by (cases rule: process_line_cases [OF l, of env w ip])
      (use waf_points_nonneg [of env st ctxDone event ip] score_gain_nonneg [OF st] in \<open>auto simp: add_nonneg_nonneg\<close>)
qed

fun end_time :: "gotime \<Rightarrow> 'rs line list \<Rightarrow> gotime" where
  "end_time now [] = now"
| "end_time now ((st, ctxDone, clk, evctx, event) # ls) = end_time (c_eval clk) ls"

lemma lines_ok_append: "lines_ok now (ls @ ls') \<longleftrightarrow> lines_ok now ls \<and> lines_ok (end_time now ls) ls'"
  by (induction now ls rule: lines_ok.induct) auto

lemma lines_ok_good: "lines_ok now ls \<Longrightarrow> list_all (\<lambda>l. good_state (fst l)) ls"
  by (induction now ls rule: lines_ok.induct) auto

lemma earned_nonneg: "list_all (\<lambda>l. good_state (fst l)) ls \<Longrightarrow> 0 \<le> earned env ls w ip"
  by (induction ls arbitrary: w) (auto intro: add_nonneg_nonneg line_points_nonneg)

lemma run_lines_score:
  assumes "score_inv k pts now (w_tracker w)" "lines_ok now ls" "pts + earned env ls w k \<le> 2 ^ 53"
  shows "score_inv k (pts + earned env ls w k) (end_time now ls) (w_tracker (run_lines env ls w))"
  using assms
proof (induction ls arbitrary: pts now w)
  case Nil
  then show ?case by (simp add: run_lines_def)
next
  case (Cons l ls)
  obtain st ctxDone clk evctx event where l: "l = (st, ctxDone, clk, evctx, event)" by (cases l) auto
  let ?w = "snd (process_line env l w)"
  have ok: "good_state st" "clock_ok now clk" "lines_ok (c_eval clk) ls" using Cons.prems(2) l by simp_all
  have "0 \<le> earned env ls ?w k" using earned_nonneg [OF lines_ok_good [OF ok(3)]] .
  then have "pts + line_points env l w k \<le> 2 ^ 53" using Cons.prems(3) by simp
  from process_line_score(1) [OF l Cons.prems(1) ok(1,2) this]
  show ?case using Cons.IH [of "pts + line_points env l w k" "c_eval clk" ?w] Cons.prems(3) ok(3)
    by (simp add: l run_lines_def add.assoc)
qed

lemma process_line_threat:
  assumes "tracker_inv (w_tracker w)" "good_state st" "l = (st, ctxDone, clk, evctx, event)"
    and "fst (process_line env l w) = Some out" "ev_Payload out = ThreatPayload te"
  shows "te_IP te = RealIP (pe_unwrap env event)" "\<not> custom_whitelisted (ss_Matcher st) (pe_unwrap env event)"
    and "te_Level te = levelFor (ss_Scorer st (c_eval clk)) (te_Score te)" "te_Level te \<noteq> []"
    and "env_Level (ev_Envelope out) = te_Level te"
    and "\<exists>s. GetState (w_tracker (snd (process_line env l w))) (te_IP te) = Some s
      \<and> st_score s = te_Score te \<and> scoreUpdatedAt s = c_eval clk"
proof -
  let ?e = "pe_unwrap env event"
  have "te_IP te = RealIP ?e \<and> \<not> custom_whitelisted (ss_Matcher st) ?e
    \<and> te_Level te = levelFor (ss_Scorer st (c_eval clk)) (te_Score te) \<and> te_Level te \<noteq> []
    \<and> env_Level (ev_Envelope out) = te_Level te
    \<and> (\<exists>s. GetState (w_tracker (snd (process_line env l w))) (te_IP te) = Some s
        \<and> st_score s = te_Score te \<and> scoreUpdatedAt s = c_eval clk)"
  proof (cases rule: process_line_cases [OF assms(3), of env w "[]", case_names Raw White Dropped Verified Scored])
    case (Scored w2 w3 fake ex)
    let ?v = "step_verdict st clk ?e fake ex (w_tracker w3)"
    have te: "te = threat_of st evctx (c_event clk) ?e (fst ?v)" "v_level (fst ?v) \<noteq> []"
      "env_Level (ev_Envelope out) = v_level (fst ?v)"
      using assms(4,5) by (auto simp: Scored(4) score_step_event Let_def split: if_splits)
    have "tracker_inv (w_tracker (snd (waf_gate env st ctxDone (c_waf clk) event (chain_step env evctx ?e w))))"
      by (rule waf_gate_inv) (use assms in simp_all)
    then have "tracker_inv (w_tracker w3)" using Scored(1,3) by simp
    from score_step_get(1) [OF this assms(2), of env clk evctx ?e fake ex] show ?thesis
      using te Scored(2) by (simp add: Scored(4) threat_of_def) (simp add: step_verdict_def Evaluate_facts)
  qed (use assms(4,5) in auto)
  then show "te_IP te = RealIP (pe_unwrap env event)" "\<not> custom_whitelisted (ss_Matcher st) (pe_unwrap env event)"
    "te_Level te = levelFor (ss_Scorer st (c_eval clk)) (te_Score te)" "te_Level te \<noteq> []"
    "env_Level (ev_Envelope out) = te_Level te"
    "\<exists>s. GetState (w_tracker (snd (process_line env l w))) (te_IP te) = Some s
      \<and> st_score s = te_Score te \<and> scoreUpdatedAt s = c_eval clk" by blast+
qed

text \<open>A line changes nothing but the states of its own address and of the client of its event.\<close>

lemma waf_signals_client: "(ip, d) \<in> set (waf_signals eng p ctxDone event) \<Longrightarrow> ip = clientIP event"
  by (auto simp: waf_signals_def waf_Process_def signal_score_def Let_def split: option.splits if_splits)

lemma waf_gate_other:
  assumes "tracker_inv (w_tracker w)" "good_state st" "k \<noteq> clientIP event"
  shows "GetState (w_tracker (snd (waf_gate env st ctxDone now event w))) k = GetState (w_tracker w) k"
proof (cases "ss_Waf st")
  case (Some p)
  let ?c = "clientIP event"
  have one: "GetState (snd (waf_scoreFn ?c d (now, t))) k = GetState t k" if "tracker_inv t" for d t
    using assms(3) tracker_inv_get(1) [OF that, of ?c, folded GetState_def]
    by (auto simp: waf_scoreFn_def tracker_store.get_put [OF that] SetScore_def split: option.split)
  have "GetState (snd (fold (\<lambda>(ip, d). waf_scoreFn ip d) sigs (now, t))) k = GetState t k"
    if "tracker_inv t" "\<forall>(ip, d) \<in> set sigs. ip = ?c" for sigs t
    using that
  proof (induction sigs arbitrary: t)
    case (Cons s sigs)
    obtain d where s: "s = (?c, d)" using Cons.prems(2) by (cases s) auto
    obtain t' where w: "waf_scoreFn ?c d (now, t) = (now, t')" by (metis waf_scoreFn_time fst_conv surj_pair)
    show ?case
      using Cons.IH [of t'] Cons.prems one [OF Cons.prems(1), of d] waf_scoreFn_inv [OF Cons.prems(1), of ?c d now] s w by simp
  qed simp
  from this [OF assms(1), of "waf_signals (pe_engine env) p ctxDone event"] show ?thesis
    using Some assms(2) waf_signals_client [of _ _ "pe_engine env" p ctxDone event]
      waf_signals_apply [of p waf_scoreFn "pe_engine env" ctxDone event "(now, w_tracker w)"]
    by (fastforce simp: waf_gate_def good_state_def Let_def split_beta split: sum.split option.split)
qed (simp add: waf_gate_def)

text \<open>The events of a run, and the lines of a client that the WAF drops.\<close>

fun emitted :: "'rs proc_env \<Rightarrow> 'rs line list \<Rightarrow> world \<Rightarrow> Event list" where
  "emitted env [] w = []"
| "emitted env (l # ls) w =
    (case fst (process_line env l w) of None \<Rightarrow> [] | Some out \<Rightarrow> [out]) @ emitted env ls (snd (process_line env l w))"

lemma earned_append: "earned env (ls @ ls') w ip = earned env ls w ip + earned env ls' (run_lines env ls w) ip"
  by (induction ls arbitrary: w) (simp_all add: run_lines_def)

lemma emitted_origin:
  assumes "out \<in> set (emitted env ls w)"
  obtains ls1 l ls2 where "ls = ls1 @ l # ls2" "fst (process_line env l (run_lines env ls1 w)) = Some out"
proof -
  have "\<exists>ls1 l ls2. ls = ls1 @ l # ls2 \<and> fst (process_line env l (run_lines env ls1 w)) = Some out"
    using assms
  proof (induction ls arbitrary: w)
    case (Cons l ls)
    show ?case
    proof (cases "fst (process_line env l w) = Some out")
      case True
      then have "l # ls = [] @ l # ls \<and> fst (process_line env l (run_lines env [] w)) = Some out" by (simp add: run_lines_def)
      then show ?thesis by blast
    next
      case False
      then have "out \<in> set (emitted env ls (snd (process_line env l w)))" using Cons.prems by (auto split: option.splits)
      then obtain ls1 l' ls2 where o: "ls = ls1 @ l' # ls2"
        "fst (process_line env l' (run_lines env ls1 (snd (process_line env l w)))) = Some out" using Cons.IH by blast
      then have "l # ls = (l # ls1) @ l' # ls2 \<and> fst (process_line env l' (run_lines env (l # ls1) w)) = Some out"
        by (simp add: run_lines_def)
      then show ?thesis by blast
    qed
  qed simp
  then show thesis using that by blast
qed

text \<open>The score of a threat is backed by the points of its address.\<close>

lemma threat_cause:
  assumes "tracker_inv (w_tracker w)" "GetState (w_tracker w) (te_IP te) = None"
    and "lines_ok start (ls @ [l])" "earned env (ls @ [l]) w (te_IP te) \<le> 2 ^ 53"
    and "fst (process_line env l (run_lines env ls w)) = Some out" "ev_Payload out = ThreatPayload te"
    and "l = (st, ctxDone, clk, evctx, event)"
  shows "te_Score te \<le> earned env (ls @ [l]) w (te_IP te)"
    and "te_Level te = levelFor (ss_Scorer st (c_eval clk)) (te_Score te)" "te_IP te = RealIP (pe_unwrap env event)"
    and "\<not> custom_whitelisted (ss_Matcher st) (pe_unwrap env event)"
proof -
  note l = assms(7)
  let ?k = "te_IP te"
  have ok: "lines_ok start ls" "good_state st" "clock_ok (end_time start ls) clk"
    using assms(3) l by (simp_all add: lines_ok_append)
  have pos: "0 \<le> line_points env l (run_lines env ls w) ?k" by (rule line_points_nonneg) (use ok(2) l in simp)
  have "score_inv ?k 0 start (w_tracker w)" using assms(1,2) by (simp add: score_inv_def)
  from run_lines_score [OF this ok(1), of env]
  have inv: "score_inv ?k (earned env ls w ?k) (end_time start ls) (w_tracker (run_lines env ls w))"
    using assms(4) pos by (simp add: earned_snoc)
  then have "tracker_inv (w_tracker (run_lines env ls w))" by (simp add: score_inv_def)
  note t = process_line_threat [OF this ok(2) l assms(5,6)]
  show "te_Level te = levelFor (ss_Scorer st (c_eval clk)) (te_Score te)" "te_IP te = RealIP (pe_unwrap env event)"
    "\<not> custom_whitelisted (ss_Matcher st) (pe_unwrap env event)" by (rule t)+
  show "te_Score te \<le> earned env (ls @ [l]) w ?k"
    using process_line_score(2) [OF l inv ok(2,3) _ assms(5,6) refl] assms(4) by (simp add: earned_snoc)
qed

definition dropped_line :: "'rs proc_env \<Rightarrow> Tracker \<Rightarrow> string \<Rightarrow> 'rs line \<Rightarrow> bool" where
  "dropped_line env t ip l =
    (case l of (st, ctxDone, clk, evctx, event) \<Rightarrow>
       good_state st \<and> \<not> RawForward st \<and> clientIP event = ip
       \<and> (case ss_Waf st of
            None \<Rightarrow> False
          | Some p \<Rightarrow> fst (waf_Process (pe_engine env) p ctxDone event (c_waf clk, t)) = Inr None))"

lemma waf_scoreFn_untracked: "GetState t ip = None \<Longrightarrow> waf_scoreFn ip d (now, t) = (now, t)"
  by (simp add: waf_scoreFn_def)

lemma dropped_line_step:
  assumes "GetState (w_tracker w) ip = None" "dropped_line env (w_tracker w) ip l"
  shows "fst (process_line env l w) = None" "w_tracker (snd (process_line env l w)) = w_tracker w"
proof -
  obtain st ctxDone clk evctx event where l: "l = (st, ctxDone, clk, evctx, event)" by (cases l) auto
  let ?w1 = "chain_step env evctx (pe_unwrap env event) w"
  obtain p where p: "ss_Waf st = Some p" "fst (waf_Process (pe_engine env) p ctxDone event (c_waf clk, w_tracker w)) = Inr None"
    "scoreFn p = Some waf_scoreFn" "clientIP event = ip" "\<not> RawForward st"
    using assms(2) by (auto simp: l dropped_line_def good_state_def split: option.splits)
  have "fold (\<lambda>(ip, d). waf_scoreFn ip d) sigs (now, w_tracker w) = (now, w_tracker w)"
    if "\<forall>s \<in> set sigs. fst s = ip" for sigs now
    using that assms(1) by (induction sigs) (auto simp: waf_scoreFn_untracked)
  from this [of "waf_signals (pe_engine env) p ctxDone event" "c_waf clk"]
  have "snd (waf_Process (pe_engine env) p ctxDone event (c_waf clk, w_tracker w)) = (c_waf clk, w_tracker w)"
    using waf_signals_apply [OF p(3), of "pe_engine env" ctxDone event "(c_waf clk, w_tracker w)"]
      waf_signals_client [of _ _ "pe_engine env" p ctxDone event] p(4) by fastforce
  then have "waf_Process (pe_engine env) p ctxDone event (c_waf clk, w_tracker w) = (Inr None, (c_waf clk, w_tracker w))"
    using p(2) by (simp add: prod_eq_iff)
  then have "waf_gate env st ctxDone (c_waf clk) event ?w1 = (False, ?w1)"
    using p(1) by (simp add: waf_gate_def chain_step_def split: option.split)
  then have "process_line env l w = (None, ?w1)" using p(5) by (simp add: l process_line_def Process_def Let_def)
  then show "fst (process_line env l w) = None" "w_tracker (snd (process_line env l w)) = w_tracker w" by simp_all
qed

section \<open>Properties\<close>

text \<open>C3: no address is reported without cause.  In a run over any lines, of any pipelines that share
  the tracker, a threat event never carries a higher score than the address has earned by WAF signals,
  fake-bot penalties and firing detectors since the start; a ban verdict means that it has earned at
  least the ban threshold.\<close>

theorem threats_earned:
  assumes "tracker_inv (w_tracker w)" "GetState (w_tracker w) (te_IP te) = None"
    and "lines_ok start (ls @ [l])" "earned env (ls @ [l]) w (te_IP te) \<le> 2 ^ 53"
    and "fst (process_line env l (run_lines env ls w)) = Some out" "ev_Payload out = ThreatPayload te"
    and "l = (st, ctxDone, clk, evctx, event)"
  shows "te_Score te \<le> earned env (ls @ [l]) w (te_IP te)
    \<and> (te_Level te = ''THREAT'' \<longrightarrow> banThreshold (ss_Scorer st (c_eval clk)) \<le> earned env (ls @ [l]) w (te_IP te))"
  using threat_cause [OF assms] by (auto simp: levelFor_def split: if_splits)



text \<open>a line of an address, User-Agent or path on the custom whitelist produces no event and
  changes neither the tracker nor the verification cache, with any WAF rules; at most a chain warning
  is written, exactly when the chain check of the connecting address reports one.\<close>

theorem whitelisted_no_trace:
  assumes "\<not> RawForward st" "custom_whitelisted (ss_Matcher st) (pe_unwrap env event)"
  shows "fst (Process env st ctxDone clk evctx event w) = None
    \<and> w_tracker (snd (Process env st ctxDone clk evctx event w)) = w_tracker w
    \<and> w_cache (snd (Process env st ctxDone clk evctx event w)) = w_cache w
    \<and> w_metrics (snd (Process env st ctxDone clk evctx event w)) = w_metrics w
    \<and> w_warnings (snd (Process env st ctxDone clk evctx event w)) = w_warnings w @
        (case pe_chain env of
           None \<Rightarrow> []
         | Some cc \<Rightarrow> if pe_warnings env then (case Check cc (RemoteAddr (pe_unwrap env event)) of
               None \<Rightarrow> [] | Some r \<Rightarrow> [(r, SourceName evctx)]) else [])"
  using assms by (auto simp: Process_def chain_step_def split: option.split)

text \<open>the score of a drop rule is lost on an address that is not tracked yet, and a dropped line
  does not start the tracking, so any number of dropped requests of such a client leaves no score and
  no event, whatever the configured drop score.\<close>

theorem waf_drop_unscored:
  assumes "GetState (w_tracker w) ip = None" "list_all (dropped_line env (w_tracker w) ip) ls"
  shows "w_tracker (run_lines env ls w) = w_tracker w \<and> emitted env ls w = []"
  using assms
proof (induction ls arbitrary: w)
  case (Cons l ls)
  then have "fst (process_line env l w) = None" "w_tracker (snd (process_line env l w)) = w_tracker w"
    using dropped_line_step [of w ip env l] by simp_all
  then show ?case using Cons by (simp add: run_lines_def)
qed (simp add: run_lines_def)

section \<open>Witnesses\<close>

definition demo_env :: "(string \<times> string) list proc_env" where
  "demo_env = \<lparr>pe_engine = literal_engine,
     pe_unwrap = (\<lambda>ev. case ev_Payload ev of LogPayload e \<Rightarrow> e | _ \<Rightarrow> blank_entry),
     pe_resolver = (\<lambda>_. \<lparr>LookupAddr = (\<lambda>_. None), LookupHost = (\<lambda>_. None)\<rparr>),
     pe_chain = None, pe_warnings = False, pe_recordThreat = True, pe_recordHit = True\<rparr>"

definition demo_gate :: "((string \<times> string) list, gotime \<times> Tracker) WafProcessor" where
  "demo_gate = \<lparr>passRules = [], gateRules = [(''env'', ''/.env'')], waf_actions = [(''env'', ''drop'')],
     waf_resolver = newChainedResolver literal_engine, scoreFn = Some waf_scoreFn, dropScore = 100, tagWeights = []\<rparr>"

definition demo_state :: "(string \<times> string) list securityState" where
  "demo_state = \<lparr>StreamName = ''web'', PipelineName = [], PipelineIdx = 0,
     ss_Scorer = (\<lambda>_. NewScorer \<lparr>AlertThreshold = 20, BanThreshold = 30, ObservationWindow = 300 * second\<rparr>
        [\<lparr>d_Name = ''ua'', d_Detect = ua_Detect demo_ua\<rparr>]),
     ss_Matcher = \<lparr>m_bots = [], customIPs = [''192.0.2.99''], customCIDRs = [], customUASubs = [], customPaths = []\<rparr>,
     ss_Waf = Some demo_gate, FakeBotScore = 50, DNSVerifyTimeout = second, RawForward = False\<rparr>"

definition demo_clock :: clock where
  "demo_clock = \<lparr>c_waf = 1000, c_verify = 1001, c_fake = 1002, c_eval = 1003, c_event = 1004\<rparr>"

definition demo_ctx :: EventContext where
  "demo_ctx = \<lparr>SourceName = ''access.log'', SourceType = ''file''\<rparr>"

definition demo_world :: world where
  "demo_world = \<lparr>w_tracker = NewTracker demo_cfg, w_cache = NewIPCache second second, w_warnings = [], w_metrics = []\<rparr>"

definition demo_line :: "string \<Rightarrow> (string \<times> string) list line" where
  "demo_line path = (demo_state, False, demo_clock, demo_ctx, demo_request path)"

lemma demo_good: "good_state demo_state"
  using ua.detector_contract_axioms [of demo_ua] by (simp add: good_state_def demo_state_def NewScorer_def demo_gate_def)

lemma demo_world_inv: "tracker_inv (w_tracker demo_world)"
  by (simp add: demo_world_def tracker_inv_new)

lemma demo_threat:
  "map_option (\<lambda>out. case ev_Payload out of ThreatPayload te \<Rightarrow> (te_IP te, te_Score te, te_Level te) | _ \<Rightarrow> ([], 0, []))
     (fst (process_line demo_env (demo_line ''/index'') demo_world)) = Some (''192.0.2.7'', 30, ''THREAT'')"
  by code_simp

lemma demo_threat_obtain:
  obtains out te where "fst (process_line demo_env (demo_line ''/index'') demo_world) = Some out"
    "ev_Payload out = ThreatPayload te" "te_IP te = ''192.0.2.7''" "te_Score te = 30" "te_Level te = ''THREAT''"
proof -
  obtain out where o: "fst (process_line demo_env (demo_line ''/index'') demo_world) = Some out"
    "(case ev_Payload out of ThreatPayload te \<Rightarrow> (te_IP te, te_Score te, te_Level te) | _ \<Rightarrow> ([], 0, []))
      = (''192.0.2.7'', 30, ''THREAT'')"
    using demo_threat unfolding map_option_eq_Some by blast
  then show thesis using that by (cases "ev_Payload out") auto
qed

theorem threats_earned_witness:
  "30 \<le> earned demo_env [demo_line ''/index''] demo_world ''192.0.2.7''"
proof -
  obtain out te where o: "fst (process_line demo_env (demo_line ''/index'') demo_world) = Some out"
    "ev_Payload out = ThreatPayload te" "te_IP te = ''192.0.2.7''" "te_Score te = 30" by (rule demo_threat_obtain)
  have "earned demo_env [demo_line ''/index''] demo_world ''192.0.2.7'' \<le> 2 ^ 53" by code_simp
  moreover have "lines_ok 0 [demo_line ''/index'']"
    by (simp add: demo_line_def demo_good clock_ok_def demo_clock_def)
  moreover have "GetState (w_tracker demo_world) ''192.0.2.7'' = None" by code_simp
  ultimately show ?thesis
    using threats_earned [of demo_world te 0 "[]" "demo_line ''/index''" demo_env out demo_state False demo_clock demo_ctx
        "demo_request ''/index''"] o demo_world_inv by (simp add: run_lines_def demo_line_def)
qed



theorem whitelisted_no_trace_witness:
  "w_tracker (snd (Process demo_env (demo_state\<lparr>ss_Matcher := (ss_Matcher demo_state)\<lparr>customIPs := [''192.0.2.7'']\<rparr>\<rparr>)
     False demo_clock demo_ctx (demo_request ''/.env'') demo_world)) = w_tracker demo_world"
  using whitelisted_no_trace [of "demo_state\<lparr>ss_Matcher := (ss_Matcher demo_state)\<lparr>customIPs := [''192.0.2.7'']\<rparr>\<rparr>" demo_env
      "demo_request ''/.env''" False demo_clock demo_ctx demo_world]
  by (simp add: demo_state_def custom_whitelisted_def IsWhitelistedIP_def demo_env_def demo_request_def)

theorem waf_drop_unscored_witness:
  "emitted demo_env (replicate 1000 (demo_line ''/.env'')) demo_world = []"
proof -
  have "fst (waf_Process literal_engine demo_gate False (demo_request ''/.env'') (1000, NewTracker demo_cfg)) = Inr None"
    by code_simp
  then have "dropped_line demo_env (w_tracker demo_world) ''192.0.2.7'' (demo_line ''/.env'')"
    using demo_good
    by (simp add: dropped_line_def demo_line_def demo_world_def demo_clock_def demo_env_def demo_state_def demo_request_def clientIP_def)
  moreover have "GetState (w_tracker demo_world) ''192.0.2.7'' = None" by code_simp
  ultimately show ?thesis
    using waf_drop_unscored [of demo_world "''192.0.2.7''" demo_env "replicate 1000 (demo_line ''/.env'')"]
    by (simp add: list_all_iff)
qed

end
