(* ===== verification/Blocklist.thy ===== *)
theory Blocklist
  imports Detectors ChainCheck
begin

text \<open>
  The blocklist manager, \<open>internal/core/blocklist\<close>: the parsers of the two source
  formats with the regex-to-literal normalisation, the download and merge of the
  sources of a list, persistence in the embedded database, the life cycle of the lists,
  and the two lookups the badbot detector uses.

  The automaton library and the database are external: \<open>automaton\<close> stands for
  compiling patterns and finding the words in a text, \<open>bolt_api\<close> for opening a
  database, reading and writing the value of a bucket.  The two regular expressions
  are written out as scanners.  The goroutine of a list is its start (load from the
  database, first download) and the repetition of \<open>fetchAndUpdate\<close>.

  Shown: the wildcard loop of the normalisation ends and leaves no wildcard and no
  anchor; a download replaces the patterns exactly when some source yields one; the
  lookup answers exactly the substring question for the loaded patterns; what is saved
  is read back; and the badbot detector fires exactly on a listed substring.
\<close>

section \<open>Normalisation\<close>

definition is_alnum :: "char \<Rightarrow> bool" where
  "is_alnum c \<longleftrightarrow> (let n = of_char c :: nat in (48 \<le> n \<and> n \<le> 57) \<or> (65 \<le> n \<and> n \<le> 90) \<or> (97 \<le> n \<and> n \<le> 122))"

text \<open>\<open>unescapeRegexRe.ReplaceAllString\<close>.\<close>

fun unescapeRegex :: "string \<Rightarrow> string" where
  "unescapeRegex [] = []"
| "unescapeRegex [c] = [c]"
| "unescapeRegex (c # d # s) =
    (if c = CHR 0x5C \<and> \<not> is_alnum d then d # unescapeRegex s else c # unescapeRegex (d # s))"

text \<open>\<open>strings.ReplaceAll\<close> of a two-character word by nothing.\<close>

fun remove_pair :: "char \<Rightarrow> char \<Rightarrow> string \<Rightarrow> string" where
  "remove_pair a b [] = []"
| "remove_pair a b [c] = [c]"
| "remove_pair a b (c # d # s) =
    (if c = a \<and> d = b then remove_pair a b s else c # remove_pair a b (d # s))"

lemma length_remove_pair: "length (remove_pair a b s) \<le> length s"
  by (induction a b s rule: remove_pair.induct) auto

lemma remove_pair_same: "length (remove_pair a b s) = length s \<Longrightarrow> remove_pair a b s = s"
proof (induction a b s rule: remove_pair.induct)
  case (3 a b c d s)
  then show ?case using length_remove_pair [of a b s] by (auto split: if_splits)
qed simp_all

definition remove_wildcards :: "string \<Rightarrow> string" where
  "remove_wildcards p = remove_pair (CHR ''.'') (CHR ''+'') (remove_pair (CHR ''.'') (CHR ''*'') p)"

text \<open>The loop runs while a pass shortens the pattern.\<close>

function strip_wildcards :: "string \<Rightarrow> string" where
  "strip_wildcards p = (let q = remove_wildcards p in if q = p then p else strip_wildcards q)"
  by pat_completeness auto

termination
proof (relation "measure length")
  fix p q :: string
  assume q: "q = remove_wildcards p" "q \<noteq> p"
  let ?r = "remove_pair (CHR ''.'') (CHR ''*'') p"
  have "length q \<le> length ?r" "length ?r \<le> length p" using q(1) length_remove_pair by (simp_all add: remove_wildcards_def)
  moreover have "length q \<noteq> length p"
  proof
    assume "length q = length p"
    then have "length ?r = length p" "length q = length ?r" using calculation by simp_all
    then show False using q remove_pair_same unfolding remove_wildcards_def by metis
  qed
  ultimately show "(q, p) \<in> measure length" by simp
qed simp

declare strip_wildcards.simps [simp del]

definition normalizePatternForSubstring :: "string \<Rightarrow> string" where
  "normalizePatternForSubstring p =
    (let p = unescapeRegex p;
         p = trim_left (\<lambda>c. c = CHR ''^'') p;
         p = trim_right (\<lambda>c. c = CHR ''$'') p;
         p = strip_wildcards p;
         p = trim_space p;
         anchor = (\<lambda>c. c = CHR ''^'' \<or> c = CHR ''$'')
     in trim_right anchor (trim_left anchor p))"

section \<open>Parsers\<close>

definition PlainText_Parse :: "string \<Rightarrow> string list" where
  "PlainText_Parse data =
    List.map_filter (\<lambda>line.
      let s = trim_space line
      in if s = [] \<or> has_prefix s ''#'' then None
         else let s = normalizePatternForSubstring s in if s = [] then None else Some (to_lower s))
     (split_on (CHR 0x0A) data)"

text \<open>\<open>nginxPatternRe\<close>: the mark, the shortest non-empty text without line end that is followed by
  the mark, and the mark.  \<open>close_mark\<close> returns the text and the rest behind the mark.\<close>

definition nginx_mark :: string where
  "nginx_mark = ''(?:'' @ [CHR 0x5C] @ ''b)''"

fun close_mark :: "string \<Rightarrow> (string \<times> string) option" where
  "close_mark [] = None"
| "close_mark (c # s) =
    (if c = CHR 0x0A then None
     else if has_prefix s nginx_mark then Some ([c], drop (length nginx_mark) s)
     else map_option (map_prod (\<lambda>t. c # t) id) (close_mark s))"

lemma close_mark_rest: "close_mark s = Some (t, r) \<Longrightarrow> length r < length s"
  by (induction s arbitrary: t) (force split: if_splits)+

function nginx_captures :: "string \<Rightarrow> string list" where
  "nginx_captures [] = []"
| "nginx_captures (c # s) =
    (if has_prefix (c # s) nginx_mark then
       (case close_mark (drop (length nginx_mark) (c # s)) of
          Some (t, rest) \<Rightarrow> t # nginx_captures rest
        | None \<Rightarrow> nginx_captures s)
     else nginx_captures s)"
  by pat_completeness auto

termination
proof (relation "measure length")
  fix c :: char and s t rest x
  assume "close_mark (drop (length nginx_mark) (c # s)) = Some x" "(t, rest) = x"
  then have "length rest < length (drop (length nginx_mark) (c # s))" by (auto dest: close_mark_rest)
  then show "(rest, c # s) \<in> measure length" by simp
qed simp_all

definition NginxMap_Parse :: "string \<Rightarrow> string list" where
  "NginxMap_Parse data =
    List.map_filter (\<lambda>m. let s = normalizePatternForSubstring m in if s = [] then None else Some (to_lower s))
      (nginx_captures data)"

definition NewParser :: "string \<Rightarrow> string + (string \<Rightarrow> string list)" where
  "NewParser format =
    (if format = ''plain_text'' then Inr PlainText_Parse
     else if format = ''nginx_map'' then Inr NginxMap_Parse
     else Inl format)"

section \<open>Manager\<close>

record SourceConfig =
  bs_URL :: string
  bs_Format :: string

record ListConfig =
  lc_Name :: string
  lc_Enabled :: "bool option"
  lc_RefreshInterval :: duration
  lc_Sources :: "SourceConfig list"

record bl_Config =
  bl_Storage :: string
  bl_Lists :: "ListConfig list"

record 'm automaton =
  CompileStrings :: "string list \<Rightarrow> 'm"
  FindAll :: "'m \<Rightarrow> string \<Rightarrow> string list"

text \<open>A bucket holds the value of the key \<open>patterns\<close>; a write may fail.\<close>

record 'db bolt_api =
  bolt_Open :: "string \<Rightarrow> 'db option"
  bolt_Path :: "'db \<Rightarrow> string"
  bolt_Get :: "string \<Rightarrow> 'db \<Rightarrow> string option"
  bolt_Put :: "string \<Rightarrow> string \<Rightarrow> 'db \<Rightarrow> 'db option"

record ('m, 'db) Manager =
  m_lists :: "(string, 'm option) gomap"
  m_db :: "'db option"

definition listEnabled :: "ListConfig \<Rightarrow> bool" where
  "listEnabled lc = (case lc_Enabled lc of None \<Rightarrow> True | Some b \<Rightarrow> b)"

definition fetchSizeLimit :: nat where
  "fetchSizeLimit = 10 * 1024 * 1024"

definition bl_fetch :: "http \<Rightarrow> string \<Rightarrow> fetch_error + string" where
  "bl_fetch http url =
    (case http url of
       TransportError err \<Rightarrow> Inl (Transport err)
     | Response status body \<Rightarrow> if status \<noteq> 200 then Inl (BadStatus url status) else Inr (take fetchSizeLimit body))"

definition loadFromBolt :: "'db bolt_api \<Rightarrow> string \<Rightarrow> ('m, 'db) Manager \<Rightarrow> string list" where
  "loadFromBolt bolt listName m =
    (case m_db m of
       None \<Rightarrow> []
     | Some db \<Rightarrow>
         (case bolt_Get bolt listName db of
            None \<Rightarrow> []
          | Some raw \<Rightarrow> if raw = [] then [] else filter (\<lambda>s. s \<noteq> []) (split_on (CHR 0x0A) raw)))"

definition saveToBolt :: "'db bolt_api \<Rightarrow> string \<Rightarrow> string list \<Rightarrow> ('m, 'db) Manager \<Rightarrow> ('m, 'db) Manager" where
  "saveToBolt bolt listName patterns m =
    (case m_db m of
       None \<Rightarrow> m
     | Some db \<Rightarrow>
         if patterns = [] then m
         else case bolt_Put bolt listName (str_join patterns [CHR 0x0A]) db of
             None \<Rightarrow> m
           | Some db' \<Rightarrow> m\<lparr>m_db := Some db'\<rparr>)"

text \<open>The patterns of one source, with the fallback to the other format; none on any error.\<close>

definition source_patterns :: "http \<Rightarrow> SourceConfig \<Rightarrow> string list" where
  "source_patterns http src =
    (if bs_URL src = [] then []
     else case NewParser (bs_Format src) of
         Inl err \<Rightarrow> []
       | Inr parse \<Rightarrow>
           (case bl_fetch http (bs_URL src) of
              Inl err \<Rightarrow> []
            | Inr data \<Rightarrow>
                let patterns = parse data
                in if patterns = [] then NginxMap_Parse data else patterns))"

definition merge_patterns :: "string list \<Rightarrow> string list \<Rightarrow> string list" where
  "merge_patterns allp patterns = fold (\<lambda>p acc. if p \<in> set acc then acc else acc @ [p]) patterns allp"

definition collect_patterns :: "http \<Rightarrow> SourceConfig list \<Rightarrow> string list \<times> bool" where
  "collect_patterns http sources =
    fold (\<lambda>src (allp, anyLoaded).
      let patterns = source_patterns http src
      in (merge_patterns allp patterns, anyLoaded \<or> patterns \<noteq> [])) sources ([], False)"

definition fetchAndUpdate :: "'m automaton \<Rightarrow> 'db bolt_api \<Rightarrow> http \<Rightarrow> ListConfig \<Rightarrow> ('m, 'db) Manager \<Rightarrow> ('m, 'db) Manager" where
  "fetchAndUpdate aho bolt http cfg m =
    (let (allp, anyLoaded) = collect_patterns http (lc_Sources cfg)
     in if \<not> anyLoaded then m
        else
          let m = saveToBolt bolt (lc_Name cfg) allp m;
              matcher = (if allp \<noteq> [] then Some (CompileStrings aho allp) else None)
          in m\<lparr>m_lists := AList.update (lc_Name cfg) matcher (m_lists m)\<rparr>)"

text \<open>\<open>startList\<close> registers the list; \<open>list_start\<close> is the first part of its goroutine.\<close>

definition startList :: "ListConfig \<Rightarrow> ('m, 'db) Manager \<Rightarrow> ('m, 'db) Manager" where
  "startList cfg m = m\<lparr>m_lists := AList.update (lc_Name cfg) None (m_lists m)\<rparr>"

definition list_start :: "'m automaton \<Rightarrow> 'db bolt_api \<Rightarrow> http \<Rightarrow> ListConfig \<Rightarrow> ('m, 'db) Manager \<Rightarrow> ('m, 'db) Manager" where
  "list_start aho bolt http cfg m =
    (let patterns = loadFromBolt bolt (lc_Name cfg) m;
         m = (if patterns \<noteq> []
              then m\<lparr>m_lists := AList.update (lc_Name cfg) (Some (CompileStrings aho patterns)) (m_lists m)\<rparr> else m)
     in fetchAndUpdate aho bolt http cfg m)"

definition start_lists :: "ListConfig list \<Rightarrow> ('m, 'db) Manager \<Rightarrow> ('m, 'db) Manager" where
  "start_lists lcs m = fold startList (filter listEnabled lcs) m"

definition NewManager :: "'db bolt_api \<Rightarrow> bl_Config \<Rightarrow> ('m, 'db) Manager" where
  "NewManager bolt cfg =
    start_lists (bl_Lists cfg)
      \<lparr>m_lists = [], m_db = (if bl_Storage cfg \<noteq> [] then bolt_Open bolt (bl_Storage cfg) else None)\<rparr>"

definition manager_Update :: "'db bolt_api \<Rightarrow> bl_Config \<Rightarrow> ('m, 'db) Manager \<Rightarrow> ('m, 'db) Manager" where
  "manager_Update bolt cfg m =
    (let db =
       (if bl_Storage cfg \<noteq> [] then
          (case m_db m of
             Some db \<Rightarrow> if bolt_Path bolt db \<noteq> bl_Storage cfg then bolt_Open bolt (bl_Storage cfg) else Some db
           | None \<Rightarrow> bolt_Open bolt (bl_Storage cfg))
        else None)
     in start_lists (bl_Lists cfg) \<lparr>m_lists = [], m_db = db\<rparr>)"

definition manager_Close :: "('m, 'db) Manager \<Rightarrow> ('m, 'db) Manager" where
  "manager_Close m = m\<lparr>m_lists := [], m_db := None\<rparr>"

definition manager_Match :: "'m automaton \<Rightarrow> ('m, 'db) Manager \<Rightarrow> string \<Rightarrow> string \<Rightarrow> bool" where
  "manager_Match aho m list text =
    (case map_of (m_lists m) list of
       Some (Some matcher) \<Rightarrow> FindAll aho matcher text \<noteq> []
     | _ \<Rightarrow> False)"

definition MatchResult :: "'m automaton \<Rightarrow> ('m, 'db) Manager \<Rightarrow> matcher" where
  "MatchResult aho m list text =
    (case map_of (m_lists m) list of
       Some (Some matcher) \<Rightarrow> (case FindAll aho matcher text of [] \<Rightarrow> None | w # ws \<Rightarrow> Some w)
     | _ \<Rightarrow> None)"

section \<open>The normalisation\<close>

lemma remove_pair_fixed: "remove_pair a b s = s \<Longrightarrow> \<not> sublist [a, b] s"
proof (induction a b s rule: remove_pair.induct)
  case (3 a b c d s)
  have "\<not> (c = a \<and> d = b)" using 3(3) length_remove_pair [of a b s] by (metis impossible_Cons le_SucI length_Cons remove_pair.simps(3))
  then have "remove_pair a b (d # s) = d # s" using 3(3) by auto
  then show ?case using 3(2) \<open>\<not> (c = a \<and> d = b)\<close> by (auto simp: sublist_Cons_right)
qed (auto simp: sublist_Cons_right)

lemma wildcards_fixed:
  assumes "remove_wildcards p = p"
  shows "\<not> sublist ''.*'' p" "\<not> sublist ''.+'' p"
proof -
  let ?r = "remove_pair (CHR ''.'') (CHR ''*'') p"
  have "length p \<le> length ?r"
    using assms length_remove_pair [of "CHR ''.''" "CHR ''+''" ?r] by (simp add: remove_wildcards_def)
  then have r: "?r = p" using length_remove_pair [of "CHR ''.''" "CHR ''*''" p] remove_pair_same by simp
  then show "\<not> sublist ''.*'' p" by (rule remove_pair_fixed)
  show "\<not> sublist ''.+'' p" using assms r by (simp add: remove_wildcards_def remove_pair_fixed)
qed

lemma strip_wildcards_iter:
  "\<exists>n \<le> length p. strip_wildcards p = (remove_wildcards ^^ n) p \<and> remove_wildcards (strip_wildcards p) = strip_wildcards p"
proof (induction p rule: strip_wildcards.induct)
  case (1 p)
  show ?case
  proof (cases "remove_wildcards p = p")
    case True
    then show ?thesis by (intro exI [of _ 0]) (simp add: strip_wildcards.simps [of p])
  next
    case False
    let ?q = "remove_wildcards p" and ?r = "remove_pair (CHR ''.'') (CHR ''*'') p"
    have "length ?q < length p"
    proof (rule ccontr)
      assume "\<not> length ?q < length p"
      then have "length ?r = length p" "length ?q = length ?r"
        using length_remove_pair [of "CHR ''.''" "CHR ''*''" p] length_remove_pair [of "CHR ''.''" "CHR ''+''" ?r]
        by (simp_all add: remove_wildcards_def)
      then show False using False remove_pair_same unfolding remove_wildcards_def by metis
    qed
    moreover obtain n where "n \<le> length ?q" "strip_wildcards ?q = (remove_wildcards ^^ n) ?q"
      "remove_wildcards (strip_wildcards ?q) = strip_wildcards ?q" using 1 False by auto
    moreover have "strip_wildcards p = strip_wildcards ?q" using False by (simp add: strip_wildcards.simps [of p] Let_def)
    ultimately show ?thesis by (intro exI [of _ "Suc n"]) (simp add: funpow_swap1)
  qed
qed

lemma set_unescape: "set (unescapeRegex p) \<subseteq> set p"
  by (induction p rule: unescapeRegex.induct) auto

lemma set_remove_pair: "set (remove_pair a b p) \<subseteq> set p"
  by (induction a b p rule: remove_pair.induct) auto

lemma set_strip: "set (strip_wildcards p) \<subseteq> set p"
proof (induction p rule: strip_wildcards.induct)
  case (1 p)
  have "set (remove_wildcards p) \<subseteq> set p" using set_remove_pair unfolding remove_wildcards_def by (meson subset_trans)
  then show ?case using 1 by (auto simp: strip_wildcards.simps [of p] Let_def)
qed

lemma set_trim: "set (trim_left P s) \<subseteq> set s" "set (trim_right P s) \<subseteq> set s"
  by (auto simp: trim_left_def trim_right_def dest: set_dropWhileD)

lemma sublist_trim: "sublist (trim_left P s) s" "sublist (trim_right P s) s"
proof -
  show "sublist (trim_left P s) s"
    unfolding trim_left_def by (intro suffix_imp_sublist suffix_dropWhile)
  have "suffix (dropWhile P (rev s)) (rev s)" by (rule suffix_dropWhile)
  then have "prefix (trim_right P s) s" by (simp add: trim_right_def suffix_to_prefix)
  then show "sublist (trim_right P s) s" by (rule prefix_imp_sublist)
qed

lemma set_normalize: "set (normalizePatternForSubstring p) \<subseteq> set p"
  unfolding normalizePatternForSubstring_def Let_def trim_space_def
  using set_unescape set_strip set_trim by (meson subset_trans)

lemma trim_ends:
  "trim_left P s \<noteq> [] \<Longrightarrow> \<not> P (hd (trim_left P s))" "trim_right P s \<noteq> [] \<Longrightarrow> \<not> P (last (trim_right P s))"
  by (simp_all add: trim_left_def trim_right_def hd_dropWhile last_rev)

lemma trim_right_hd: "trim_right P s \<noteq> [] \<Longrightarrow> hd (trim_right P s) = hd s"
proof -
  have "suffix (dropWhile P (rev s)) (rev s)" by (rule suffix_dropWhile)
  then have "prefix (trim_right P s) s" by (simp add: trim_right_def suffix_to_prefix)
  then show "trim_right P s \<noteq> [] \<Longrightarrow> hd (trim_right P s) = hd s" by (cases "trim_right P s") (auto simp: prefix_def)
qed

text \<open>The loop that removes wildcards stops after at most as many passes as the pattern has
  characters, at a pattern another pass does not change; and a normalised pattern contains
  no wildcard \<open>.*\<close> or \<open>.+\<close> and has no anchor at either end.\<close>

theorem normalize_clean:
  "(\<exists>n \<le> length p. strip_wildcards p = (remove_wildcards ^^ n) p)
   \<and> remove_wildcards (strip_wildcards p) = strip_wildcards p
   \<and> \<not> sublist ''.*'' (normalizePatternForSubstring p) \<and> \<not> sublist ''.+'' (normalizePatternForSubstring p)
   \<and> (normalizePatternForSubstring p \<noteq> [] \<longrightarrow>
        hd (normalizePatternForSubstring p) \<notin> set ''^$'' \<and> last (normalizePatternForSubstring p) \<notin> set ''^$'')"
proof (intro conjI impI)
  let ?a = "\<lambda>c. c = CHR ''^'' \<or> c = CHR ''$''"
  obtain q where n: "normalizePatternForSubstring p = trim_right ?a (trim_left ?a (trim_space (strip_wildcards q)))"
    by (simp add: normalizePatternForSubstring_def Let_def)
  have sub: "sublist (normalizePatternForSubstring p) (strip_wildcards q)"
    unfolding n trim_space_def using sublist_trim by (meson sublist_order.order_trans)
  show "\<exists>n \<le> length p. strip_wildcards p = (remove_wildcards ^^ n) p"
    and "remove_wildcards (strip_wildcards p) = strip_wildcards p"
    using strip_wildcards_iter [of p] by blast+
  have "remove_wildcards (strip_wildcards q) = strip_wildcards q" using strip_wildcards_iter [of q] by blast
  then show "\<not> sublist ''.*'' (normalizePatternForSubstring p)" "\<not> sublist ''.+'' (normalizePatternForSubstring p)"
    using wildcards_fixed sub by (meson sublist_order.order_trans)+
  assume ne: "normalizePatternForSubstring p \<noteq> []"
  then have "trim_left ?a (trim_space (strip_wildcards q)) \<noteq> []" unfolding n by (auto simp: trim_right_def)
  then show "hd (normalizePatternForSubstring p) \<notin> set ''^$''" "last (normalizePatternForSubstring p) \<notin> set ''^$''"
    using trim_ends [of ?a] ne trim_right_hd [of ?a] unfolding n by auto
qed

theorem normalize_clean_witness:
  "normalizePatternForSubstring ''^.*Ahrefs.+.*Bot$'' = ''AhrefsBot''
   \<and> hd (normalizePatternForSubstring ''^.*Ahrefs.+.*Bot$'') \<notin> set ''^$''"
proof -
  have n: "normalizePatternForSubstring ''^.*Ahrefs.+.*Bot$'' = ''AhrefsBot''" by code_simp
  then have "normalizePatternForSubstring ''^.*Ahrefs.+.*Bot$'' \<noteq> []" by simp
  then show ?thesis using n normalize_clean [of "''^.*Ahrefs.+.*Bot$''"] by blast
qed

section \<open>What the sources yield\<close>

lemma lower_no_newline: "CHR 0x0A \<notin> set s \<Longrightarrow> CHR 0x0A \<notin> set (to_lower s)"
proof
  assume s: "CHR 0x0A \<notin> set s" and "CHR 0x0A \<in> set (to_lower s)"
  then obtain c where c: "c \<in> set s" "char_lower c = CHR 0x0A" unfolding to_lower_def by force
  have "c = CHR 0x0A" by (rule char_lower_fixed [OF c(2)]) simp
  then show False using s c by simp
qed

definition pattern_ok :: "string \<Rightarrow> bool" where
  "pattern_ok p \<longleftrightarrow> p \<noteq> [] \<and> CHR 0x0A \<notin> set p"

lemma normalized_ok:
  assumes "CHR 0x0A \<notin> set s" "normalizePatternForSubstring s \<noteq> []"
  shows "pattern_ok (to_lower (normalizePatternForSubstring s))"
proof -
  have "CHR 0x0A \<notin> set (normalizePatternForSubstring s)" using assms(1) set_normalize by (rule contra_subsetD [rotated])
  then show ?thesis using assms(2) lower_no_newline by (simp add: pattern_ok_def)
qed

lemma split_on_no_sep: "l \<in> set (split_on c s) \<Longrightarrow> c \<notin> set l"
  by (induction s arbitrary: l) (auto split: list.splits if_splits)

lemma close_mark_no_newline: "close_mark s = Some (t, r) \<Longrightarrow> CHR 0x0A \<notin> set t"
  by (induction s arbitrary: t) (force split: if_splits)+

lemma nginx_captures_no_newline: "t \<in> set (nginx_captures s) \<Longrightarrow> CHR 0x0A \<notin> set t"
  by (induction s rule: nginx_captures.induct) (auto split: if_splits option.splits dest: close_mark_no_newline)

lemma PlainText_ok: "p \<in> set (PlainText_Parse data) \<Longrightarrow> pattern_ok p"
proof -
  assume "p \<in> set (PlainText_Parse data)"
  then obtain line where l: "line \<in> set (split_on (CHR 0x0A) data)" "normalizePatternForSubstring (trim_space line) \<noteq> []"
    "p = to_lower (normalizePatternForSubstring (trim_space line))"
    by (auto simp: PlainText_Parse_def map_filter_def Let_def split: if_splits)
  then have "CHR 0x0A \<notin> set (trim_space line)"
    using split_on_no_sep set_trim unfolding trim_space_def by (meson subsetD)
  then show "pattern_ok p" using l normalized_ok by blast
qed

lemma NginxMap_ok: "p \<in> set (NginxMap_Parse data) \<Longrightarrow> pattern_ok p"
  by (auto simp: NginxMap_Parse_def map_filter_def Let_def split: if_splits
        intro!: normalized_ok dest: nginx_captures_no_newline)

lemma source_patterns_ok: "p \<in> set (source_patterns http src) \<Longrightarrow> pattern_ok p"
  by (auto simp: source_patterns_def NewParser_def Let_def split: if_splits sum.splits
        dest: PlainText_ok NginxMap_ok)

lemma merge_patterns_snoc:
  "merge_patterns allp (p # ps) = merge_patterns (if p \<in> set allp then allp else allp @ [p]) ps"
  by (simp add: merge_patterns_def)

lemma merge_patterns_props:
  "set (merge_patterns allp ps) = set allp \<union> set ps \<and> (distinct allp \<longrightarrow> distinct (merge_patterns allp ps))"
  by (induction ps arbitrary: allp) (auto simp: merge_patterns_snoc merge_patterns_def [of _ "[]"])

text \<open>All patterns the sources of a list yield, in order.\<close>

definition all_patterns :: "http \<Rightarrow> SourceConfig list \<Rightarrow> string list" where
  "all_patterns http sources = concat (map (source_patterns http) sources)"

lemma collect_patterns_props:
  "set (fst (collect_patterns http srcs)) = set (all_patterns http srcs) \<and> distinct (fst (collect_patterns http srcs))
   \<and> (snd (collect_patterns http srcs) \<longleftrightarrow> all_patterns http srcs \<noteq> [])"
proof (induction srcs rule: rev_induct)
  case (snoc src srcs)
  obtain a b where c: "collect_patterns http srcs = (a, b)" by force
  then have "collect_patterns http (srcs @ [src])
      = (merge_patterns a (source_patterns http src), b \<or> source_patterns http src \<noteq> [])"
    by (simp add: collect_patterns_def Let_def)
  then show ?case using snoc merge_patterns_props [of a "source_patterns http src"] by (simp add: c all_patterns_def)
qed (simp add: collect_patterns_def all_patterns_def)

lemma collected_ok: "p \<in> set (fst (collect_patterns http srcs)) \<Longrightarrow> pattern_ok p"
  using collect_patterns_props [of http srcs] by (auto simp: all_patterns_def dest: source_patterns_ok)

section \<open>Lookups\<close>

text \<open>What the code relies on of the automaton: the words found in a text are the compiled words
  that occur in it.\<close>

definition automaton_law :: "'m automaton \<Rightarrow> bool" where
  "automaton_law aho \<longleftrightarrow>
    (\<forall>ps text. [] \<notin> set ps \<longrightarrow> set (FindAll aho (CompileStrings aho ps) text) = {w \<in> set ps. sublist w text})"

text \<open>What it relies on of the database: a committed value is read back, and the other buckets keep
  theirs.\<close>

definition bolt_law :: "'db bolt_api \<Rightarrow> bool" where
  "bolt_law bolt \<longleftrightarrow>
    (\<forall>k v db db'. bolt_Put bolt k v db = Some db' \<longrightarrow>
       bolt_Get bolt k db' = Some v \<and> (\<forall>k'. k' \<noteq> k \<longrightarrow> bolt_Get bolt k' db' = bolt_Get bolt k' db))"

lemma collected_no_empty: "[] \<notin> set (fst (collect_patterns http srcs))"
  using collected_ok by (auto simp: pattern_ok_def)

lemma saveToBolt_lists [simp]: "m_lists (saveToBolt bolt k ps m) = m_lists m"
  by (auto simp: saveToBolt_def split: option.splits)

lemma fetchAndUpdate_lists:
  "m_lists (fetchAndUpdate aho bolt http cfg m) =
    (if all_patterns http (lc_Sources cfg) = [] then m_lists m
     else AList.update (lc_Name cfg) (Some (CompileStrings aho (fst (collect_patterns http (lc_Sources cfg))))) (m_lists m))"
proof -
  obtain a b where c: "collect_patterns http (lc_Sources cfg) = (a, b)" by force
  have "set a = set (all_patterns http (lc_Sources cfg))" "b \<longleftrightarrow> all_patterns http (lc_Sources cfg) \<noteq> []"
    using collect_patterns_props [of http "lc_Sources cfg"] by (simp_all add: c)
  then show ?thesis by (auto simp: fetchAndUpdate_def c Let_def)
qed

lemma Match_compiled:
  assumes "automaton_law aho" "map_of (m_lists m) list = Some (Some (CompileStrings aho ps))" "[] \<notin> set ps"
  shows "manager_Match aho m list text \<longleftrightarrow> (\<exists>p \<in> set ps. sublist p text)"
proof -
  have "FindAll aho (CompileStrings aho ps) text \<noteq> [] \<longleftrightarrow> {w \<in> set ps. sublist w text} \<noteq> {}"
    using assms(1, 3) unfolding automaton_law_def by (metis set_empty)
  then show ?thesis using assms(2) by (auto simp: manager_Match_def)
qed

lemma MatchResult_compiled:
  assumes "automaton_law aho" "map_of (m_lists m) list = Some (Some (CompileStrings aho ps))" "[] \<notin> set ps"
  shows "case MatchResult aho m list text of None \<Rightarrow> \<forall>p \<in> set ps. \<not> sublist p text
     | Some w \<Rightarrow> w \<in> set ps \<and> sublist w text"
proof -
  have f: "set (FindAll aho (CompileStrings aho ps) text) = {w \<in> set ps. sublist w text}"
    using assms(1, 3) unfolding automaton_law_def by blast
  show ?thesis
  proof (cases "FindAll aho (CompileStrings aho ps) text")
    case Nil
    then have "{w \<in> set ps. sublist w text} = {}" using f by simp
    then show ?thesis using assms(2) Nil by (simp add: MatchResult_def)
  next
    case (Cons w ws)
    then have "w \<in> {w \<in> set ps. sublist w text}" using f by auto
    then show ?thesis using assms(2) Cons by (simp add: MatchResult_def)
  qed
qed

text \<open>C29: After a download round a list answers exactly whether the text contains a pattern some source
  yielded in this round; a round in which no source yields a pattern changes nothing; and
  no round changes the answers of another list.\<close>

theorem blocklist_match_exact:
  assumes "automaton_law aho"
  shows "(manager_Match aho (fetchAndUpdate aho bolt http cfg m) (lc_Name cfg) text \<longleftrightarrow>
      (if all_patterns http (lc_Sources cfg) = [] then manager_Match aho m (lc_Name cfg) text
       else list_ex (\<lambda>p. sublist p text) (all_patterns http (lc_Sources cfg))))
    \<and> (list \<noteq> lc_Name cfg \<longrightarrow>
      manager_Match aho (fetchAndUpdate aho bolt http cfg m) list text = manager_Match aho m list text)"
proof (intro conjI impI)
  let ?ps = "fst (collect_patterns http (lc_Sources cfg))"
  show "manager_Match aho (fetchAndUpdate aho bolt http cfg m) (lc_Name cfg) text \<longleftrightarrow>
      (if all_patterns http (lc_Sources cfg) = [] then manager_Match aho m (lc_Name cfg) text
       else list_ex (\<lambda>p. sublist p text) (all_patterns http (lc_Sources cfg)))"
  proof (cases "all_patterns http (lc_Sources cfg) = []")
    case False
    then have "map_of (m_lists (fetchAndUpdate aho bolt http cfg m)) (lc_Name cfg) = Some (Some (CompileStrings aho ?ps))"
      by (simp add: fetchAndUpdate_lists amap)
    from Match_compiled [OF assms this collected_no_empty] show ?thesis
      using False collect_patterns_props [of http "lc_Sources cfg"] by (simp add: list_ex_iff)
  qed (simp add: fetchAndUpdate_lists manager_Match_def)
  assume "list \<noteq> lc_Name cfg"
  then show "manager_Match aho (fetchAndUpdate aho bolt http cfg m) list text = manager_Match aho m list text"
    by (simp add: fetchAndUpdate_lists manager_Match_def amap)
qed

definition ex_automaton :: "string list automaton" where
  "ex_automaton = \<lparr>CompileStrings = id, FindAll = (\<lambda>ps text. filter (\<lambda>p. sublist p text) ps)\<rparr>"

definition ex_bolt :: "(string, string) gomap bolt_api" where
  "ex_bolt = \<lparr>bolt_Open = (\<lambda>path. Some []), bolt_Path = (\<lambda>db. ''bl.db''), bolt_Get = (\<lambda>k db. map_of db k),
     bolt_Put = (\<lambda>k v db. Some (AList.update k v db))\<rparr>"

definition ex_list :: ListConfig where
  "ex_list = \<lparr>lc_Name = ''badbot-ua'', lc_Enabled = None, lc_RefreshInterval = 3600 * second,
     lc_Sources = [\<lparr>bs_URL = ''u'', bs_Format = ''plain_text''\<rparr>]\<rparr>"

definition ex_http :: http where
  "ex_http = (\<lambda>url. Response 200 (''# bots'' @ [CHR 0x0A] @ ''Ahrefs.*Bot'' @ [CHR 0x0A] @ ''^sqlmap$''))"

definition ex_manager :: "(string list, (string, string) gomap) Manager" where
  "ex_manager = NewManager ex_bolt \<lparr>bl_Storage = ''bl.db'', bl_Lists = [ex_list]\<rparr>"

lemma ex_automaton_law: "automaton_law ex_automaton"
  by (auto simp: automaton_law_def ex_automaton_def)

lemma ex_bolt_law: "bolt_law ex_bolt"
  by (auto simp: bolt_law_def ex_bolt_def amap)

lemma bl_fetch_short:
  "http url = Response 200 body \<Longrightarrow> length body \<le> 10485760 \<Longrightarrow> bl_fetch http url = Inr body"
  by (simp add: bl_fetch_def fetchSizeLimit_def)

lemma ex_patterns: "all_patterns ex_http (lc_Sources ex_list) = [''ahrefsbot'', ''sqlmap'']"
proof -
  let ?b = "''# bots'' @ [CHR 0x0A] @ ''Ahrefs.*Bot'' @ [CHR 0x0A] @ ''^sqlmap$''"
  have "PlainText_Parse ?b = [''ahrefsbot'', ''sqlmap'']" by code_simp
  moreover have "bl_fetch ex_http ''u'' = Inr ?b" by (rule bl_fetch_short) (simp_all add: ex_http_def)
  ultimately show ?thesis by (simp add: all_patterns_def source_patterns_def ex_list_def NewParser_def)
qed

theorem blocklist_match_exact_witness:
  "manager_Match ex_automaton (fetchAndUpdate ex_automaton ex_bolt ex_http ex_list ex_manager) ''badbot-ua'' ''my sqlmap 1''
   \<and> manager_Match ex_automaton (fetchAndUpdate ex_automaton ex_bolt ex_http ex_list ex_manager) ''x'' ''a''
       = manager_Match ex_automaton ex_manager ''x'' ''a''"
proof -
  have "lc_Name ex_list = ''badbot-ua''" by (simp add: ex_list_def)
  moreover have "list_ex (\<lambda>p. sublist p ''my sqlmap 1'') (all_patterns ex_http (lc_Sources ex_list))"
    unfolding ex_patterns by code_simp
  ultimately show ?thesis
    using blocklist_match_exact [OF ex_automaton_law, of ex_bolt ex_http ex_list ex_manager "''my sqlmap 1''" "''x''"]
      blocklist_match_exact [OF ex_automaton_law, of ex_bolt ex_http ex_list ex_manager "''a''" "''x''"] ex_patterns by simp
qed

section \<open>Persistence\<close>

lemma split_join:
  assumes "ps \<noteq> []" "\<forall>p \<in> set ps. CHR 0x0A \<notin> set p"
  shows "split_on (CHR 0x0A) (str_join ps [CHR 0x0A]) = ps"
  using assms
proof (induction ps "[CHR 0x0A]" rule: str_join.induct)
  case (2 p)
  then show ?case by (auto intro: split_by_none)
next
  case (3 p q ps)
  have "split_on (CHR 0x0A) (p @ CHR 0x0A # str_join (q # ps) [CHR 0x0A])
      = p # split_on (CHR 0x0A) (str_join (q # ps) [CHR 0x0A])"
    using 3(3) by (intro split_by_append) auto
  then show ?case using 3 by simp
qed simp

lemma load_saved:
  assumes "bolt_law bolt" "m_db m = Some db" "bolt_Put bolt k (str_join ps [CHR 0x0A]) db = Some db'"
    and "ps \<noteq> []" "\<forall>p \<in> set ps. pattern_ok p"
  shows "m_db (saveToBolt bolt k ps m) = Some db'" "m_db m' = Some db' \<Longrightarrow> loadFromBolt bolt k m' = ps"
proof -
  show "m_db (saveToBolt bolt k ps m) = Some db'" using assms by (simp add: saveToBolt_def)
  have "bolt_Get bolt k db' = Some (str_join ps [CHR 0x0A])" using assms(1, 3) by (simp add: bolt_law_def)
  moreover have "str_join ps [CHR 0x0A] \<noteq> []" using assms(4, 5) by (auto simp: str_join_Nil_iff pattern_ok_def)
  moreover have "split_on (CHR 0x0A) (str_join ps [CHR 0x0A]) = ps"
    using assms(4, 5) by (intro split_join) (auto simp: pattern_ok_def)
  moreover have "filter (\<lambda>s. s \<noteq> []) ps = ps" using assms(5) by (auto simp: filter_id_conv pattern_ok_def)
  ultimately show "m_db m' = Some db' \<Longrightarrow> loadFromBolt bolt k m' = ps" by (simp add: loadFromBolt_def)
qed

text \<open>C30: What a download round saved in the database is what a later start of the list reads back: even
  when every download of that start fails, the list has the automaton of the round.\<close>

theorem blocklist_restart_recovers:
  assumes "bolt_law bolt" "m_db m = Some db"
    and "bolt_Put bolt (lc_Name cfg) (str_join (fst (collect_patterns http (lc_Sources cfg))) [CHR 0x0A]) db = Some db'"
    and "all_patterns http (lc_Sources cfg) \<noteq> []"
    and "m_db m' = m_db (fetchAndUpdate aho bolt http cfg m)"
    and "all_patterns http' (lc_Sources cfg) = []"
  shows "map_of (m_lists (list_start aho bolt http' cfg m')) (lc_Name cfg)
      = map_of (m_lists (fetchAndUpdate aho bolt http cfg m)) (lc_Name cfg)
    \<and> loadFromBolt bolt (lc_Name cfg) m' = fst (collect_patterns http (lc_Sources cfg))"
proof (intro conjI)
  let ?ps = "fst (collect_patterns http (lc_Sources cfg))"
  have ps: "?ps \<noteq> []" "snd (collect_patterns http (lc_Sources cfg))"
    using assms(4) collect_patterns_props [of http "lc_Sources cfg"] by auto
  have ok: "\<forall>p \<in> set ?ps. pattern_ok p" using collected_ok by blast
  note saved = load_saved [OF assms(1-3) ps(1) ok]
  have "m_db m' = Some db'"
    using assms(5) ps saved(1) by (simp add: fetchAndUpdate_def Let_def case_prod_beta)
  then show l: "loadFromBolt bolt (lc_Name cfg) m' = ?ps" by (rule saved(2))
  show "map_of (m_lists (list_start aho bolt http' cfg m')) (lc_Name cfg)
      = map_of (m_lists (fetchAndUpdate aho bolt http cfg m)) (lc_Name cfg)"
    using l ps(1) assms(4, 6) by (simp add: list_start_def Let_def fetchAndUpdate_lists amap)
qed

theorem blocklist_restart_recovers_witness:
  "map_of (m_lists (list_start ex_automaton ex_bolt (\<lambda>url. TransportError ''down'') ex_list
       \<lparr>m_lists = [], m_db = m_db (fetchAndUpdate ex_automaton ex_bolt ex_http ex_list ex_manager)\<rparr>)) ''badbot-ua''
   = map_of (m_lists (fetchAndUpdate ex_automaton ex_bolt ex_http ex_list ex_manager)) ''badbot-ua''"
proof -
  let ?put = "\<lambda>v. AList.update ''badbot-ua'' v []"
  have n: "lc_Name ex_list = ''badbot-ua''" by (simp add: ex_list_def)
  have "m_db ex_manager = Some []"
    by (simp add: ex_manager_def NewManager_def start_lists_def startList_def listEnabled_def ex_list_def ex_bolt_def)
  moreover have "bolt_Put ex_bolt (lc_Name ex_list) v [] = Some (?put v)" for v by (simp add: ex_bolt_def ex_list_def)
  moreover have "all_patterns (\<lambda>url. TransportError ''down'') (lc_Sources ex_list) = []"
    by (simp add: all_patterns_def source_patterns_def bl_fetch_def ex_list_def NewParser_def)
  ultimately show ?thesis
    using blocklist_restart_recovers [OF ex_bolt_law, of ex_manager "[]" ex_list ex_http _
        "\<lparr>m_lists = [], m_db = m_db (fetchAndUpdate ex_automaton ex_bolt ex_http ex_list ex_manager)\<rparr>" ex_automaton]
    by (simp add: ex_patterns n)
qed

section \<open>The badbot detector\<close>

text \<open>With the blocklist manager as its matcher, loaded with the patterns of a download round, the badbot
  detector on User-Agents fires exactly when the lowered User-Agent, neither empty nor a
  dash, contains a pattern of the list, and its reason names such a pattern.\<close>

theorem badbot_exact:
  assumes "automaton_law aho" "map_of (m_lists m) ''badbot-ua'' = Some (Some (CompileStrings aho ps))" "[] \<notin> set ps"
  shows "let ua = to_lower (UserAgent e);
      d = \<lparr>bb_mgr = MatchResult aho m, bb_score = sc, bb_checkUA = True, bb_checkReferrer = False\<rparr>
    in if ua \<noteq> [] \<and> ua \<noteq> ''-'' \<and> list_ex (\<lambda>p. sublist p ua) ps
       then \<exists>p \<in> set ps. sublist p ua \<and>
         badbot_Detect d sv e = (\<lparr>Score = sc, Module = ''badbot'', Reason = ''ua='' @ p\<rparr>, sv)
       else badbot_Detect d sv e = (noResult, sv)"
  using MatchResult_compiled [OF assms, of "to_lower (UserAgent e)"]
  by (auto simp: badbot_Detect_def badbot_field_def Let_def list_ex_iff split: option.splits)

theorem badbot_exact_witness:
  "\<exists>p \<in> set [''sqlmap'']. sublist p (to_lower (UserAgent (blank_entry\<lparr>UserAgent := ''SQLMap/1''\<rparr>))) \<and>
     badbot_Detect \<lparr>bb_mgr = MatchResult ex_automaton \<lparr>m_lists = [(''badbot-ua'', Some [''sqlmap''])], m_db = None :: (string, string) gomap option\<rparr>,
         bb_score = 60, bb_checkUA = True, bb_checkReferrer = False\<rparr> (newIPState [] 0) (blank_entry\<lparr>UserAgent := ''SQLMap/1''\<rparr>)
       = (\<lparr>Score = 60, Module = ''badbot'', Reason = ''ua='' @ p\<rparr>, newIPState [] 0)"
proof -
  let ?m = "\<lparr>m_lists = [(''badbot-ua'', Some [''sqlmap''])], m_db = None :: (string, string) gomap option\<rparr>"
  have "map_of (m_lists ?m) ''badbot-ua'' = Some (Some (CompileStrings ex_automaton [''sqlmap'']))"
    by (simp add: ex_automaton_def)
  note b = badbot_exact [OF ex_automaton_law this, of "blank_entry\<lparr>UserAgent := ''SQLMap/1''\<rparr>" 60 "newIPState [] 0"]
  have u: "to_lower ''SQLMap/1'' = ''sqlmap/1''" by code_simp
  have "sublist ''sqlmap'' ''sqlmap/1''" by code_simp
  then show ?thesis using b by (simp add: Let_def u)
qed

end
