(* ===== verification/ConfigTypes.thy ===== *)
theory ConfigTypes
  imports Pipeline Blocklist
begin

text \<open>
  The configuration of the daemon, \<open>internal/sys/config\<close>: the sections as records with the
  fields of the source, the built-in defaults, and the conversion for the chain check.

  The pass-through fields of the three forwarding sinks are grouped in one record each.
  A slice or map whose nil value the code distinguishes from an empty one is an option.
  Untyped YAML values (plugin parameters) are the type variable \<open>'y\<close>; the queue settings
  and the JSON field names are data types of the external packages, with the fields the
  sources use.
\<close>

section \<open>Inputs, outputs and pipelines\<close>

record QueueConfig =
  q_Type :: string
  q_Mode :: string
  q_Peer :: string
  q_Bucket :: string
  q_Key :: string

record InputConfig =
  in_Type :: string
  in_Path :: string
  in_Parser :: string
  in_Exec :: string
  in_Addr :: string
  in_Mode :: string
  in_URL :: string
  in_HTTPPath :: string
  in_Token :: string
  in_TLSCert :: string
  in_TLSKey :: string
  in_Protocol :: string
  in_EnvelopeField :: string
  in_PullInterval :: string
  in_MaxBodyBytes :: int
  in_MaxConnections :: int
  in_Queue :: "QueueConfig option"

definition zero_input :: InputConfig where
  "zero_input = \<lparr>in_Type = [], in_Path = [], in_Parser = [], in_Exec = [], in_Addr = [], in_Mode = [],
     in_URL = [], in_HTTPPath = [], in_Token = [], in_TLSCert = [], in_TLSKey = [], in_Protocol = [],
     in_EnvelopeField = [], in_PullInterval = [], in_MaxBodyBytes = 0, in_MaxConnections = 0, in_Queue = None\<rparr>"

record LokiFields =
  LokiURL :: string
  LokiLabels :: "(string, string) gomap"
  LokiBatchSize :: int
  LokiFlushInterval :: string
  LokiTenantID :: string
  LokiUsername :: string
  LokiPassword :: string
  LokiGzip :: bool
  LokiTLSCert :: string
  LokiTLSKey :: string
  LokiCACert :: string

record SplunkFields =
  SplunkURL :: string
  SplunkToken :: string
  SplunkSourceType :: string
  SplunkSource :: string
  SplunkIndex :: string
  SplunkHost :: string
  SplunkBatchSize :: int
  SplunkFlushInterval :: string
  SplunkGzip :: bool
  SplunkTLSCert :: string
  SplunkTLSKey :: string
  SplunkCACert :: string

record DatadogFields =
  DatadogURL :: string
  DatadogAPIKey :: string
  DatadogSource :: string
  DatadogTags :: string
  DatadogHostname :: string
  DatadogService :: string
  DatadogBatchSize :: int
  DatadogFlushInterval :: string
  DatadogGzip :: bool
  DatadogTLSCert :: string
  DatadogTLSKey :: string
  DatadogCACert :: string

record SinkConfig =
  sk_Type :: string
  sk_Name :: string
  sk_Path :: string
  sk_Format :: string
  sk_Exec :: string
  sk_Queue :: "QueueConfig option"
  sk_Loki :: LokiFields
  sk_Splunk :: SplunkFields
  sk_Datadog :: DatadogFields

definition zero_loki :: LokiFields where
  "zero_loki = \<lparr>LokiURL = [], LokiLabels = [], LokiBatchSize = 0, LokiFlushInterval = [], LokiTenantID = [],
     LokiUsername = [], LokiPassword = [], LokiGzip = False, LokiTLSCert = [], LokiTLSKey = [], LokiCACert = []\<rparr>"

definition zero_splunk :: SplunkFields where
  "zero_splunk = \<lparr>SplunkURL = [], SplunkToken = [], SplunkSourceType = [], SplunkSource = [], SplunkIndex = [],
     SplunkHost = [], SplunkBatchSize = 0, SplunkFlushInterval = [], SplunkGzip = False, SplunkTLSCert = [],
     SplunkTLSKey = [], SplunkCACert = []\<rparr>"

definition zero_datadog :: DatadogFields where
  "zero_datadog = \<lparr>DatadogURL = [], DatadogAPIKey = [], DatadogSource = [], DatadogTags = [], DatadogHostname = [],
     DatadogService = [], DatadogBatchSize = 0, DatadogFlushInterval = [], DatadogGzip = False, DatadogTLSCert = [],
     DatadogTLSKey = [], DatadogCACert = []\<rparr>"

definition zero_sink :: SinkConfig where
  "zero_sink = \<lparr>sk_Type = [], sk_Name = [], sk_Path = [], sk_Format = [], sk_Exec = [], sk_Queue = None,
     sk_Loki = zero_loki, sk_Splunk = zero_splunk, sk_Datadog = zero_datadog\<rparr>"

record 'y ExecutorItem =
  ei_Name :: string
  ei_Type :: string
  ei_Exec :: string
  ei_Params :: 'y
  ei_Config :: 'y

record ExecutorSourceRef =
  es_Name :: string
  es_Queue :: "QueueConfig option"

record 'y ExecutorTopConfig =
  ex_Name :: string
  ex_Type :: string
  ex_Sources :: "ExecutorSourceRef list"
  ex_Config :: 'y

record PipelineRuntimeConfig =
  BufferSize :: int
  ShutdownTimeout :: duration

record 'y DetectorConfig =
  dc_Enabled :: bool
  dc_Exec :: string
  dc_Params :: 'y

record 'y PipelineConfig =
  pl_Name :: string
  pl_TrackerGroup :: string
  pl_Inputs :: "InputConfig list"
  pl_Outputs :: "SinkConfig list"
  pl_Detectors :: "(string, 'y DetectorConfig) gomap option"
  pl_Processors :: "'y waf_param ProcessorConfig list option"
  pl_Pipeline :: PipelineRuntimeConfig
  pl_RawForward :: bool

definition zero_runtime :: PipelineRuntimeConfig where
  "zero_runtime = \<lparr>BufferSize = 0, ShutdownTimeout = 0\<rparr>"

definition zero_pipeline :: "'y PipelineConfig" where
  "zero_pipeline = \<lparr>pl_Name = [], pl_TrackerGroup = [], pl_Inputs = [], pl_Outputs = [], pl_Detectors = None,
     pl_Processors = None, pl_Pipeline = zero_runtime, pl_RawForward = False\<rparr>"

record 'y StreamConfig =
  sm_Name :: string
  sm_Pipelines :: "'y PipelineConfig list"
  sm_Inputs :: "InputConfig list"
  sm_Outputs :: "SinkConfig list"
  sm_Executors :: "'y ExecutorItem list option"
  sm_Processors :: "'y waf_param ProcessorConfig list option"
  sm_Pipeline :: PipelineRuntimeConfig
  sm_LogFile :: string
  sm_ThreatLog :: string

definition zero_stream :: "'y StreamConfig" where
  "zero_stream = \<lparr>sm_Name = [], sm_Pipelines = [], sm_Inputs = [], sm_Outputs = [], sm_Executors = None,
     sm_Processors = None, sm_Pipeline = zero_runtime, sm_LogFile = [], sm_ThreatLog = []\<rparr>"

record TransportPeer =
  peer_Host :: string
  peer_Fingerprint :: string

record TransportConfig =
  tr_Enabled :: bool
  tr_IdentityPath :: string
  tr_KnownNodesPath :: string
  tr_Listen :: string
  tr_Peers :: "TransportPeer list"
  tr_PairingSecret :: string

section \<open>Sections\<close>

record GeneralConfig =
  ge_LogFile :: string
  ge_PIDFile :: string
  ge_LinesBufSize :: int
  ge_TailRetryInterval :: duration
  ge_StatsInterval :: duration

record LoggingConfig =
  lg_Debug :: bool
  lg_ConsoleColor :: bool

record JSONFieldsConfig =
  jf_RemoteAddr :: string
  jf_Time :: string
  jf_Request :: string
  jf_Status :: string
  jf_BytesSent :: string
  jf_Referer :: string
  jf_UserAgent :: string
  jf_RealIP :: string

record ParserConfig =
  pa_Profile :: string
  pa_LogFormat :: string
  pa_RegexPattern :: string
  pa_Timezone :: string
  pa_JSONFields :: JSONFieldsConfig

text \<open>The scoring section is the record of the scorer with the name of the decay algorithm.\<close>

record ScoringSection = ScoringConfig +
  Decay :: string

record StateConfig =
  GCInterval :: duration
  MaxTrackedIPs :: int

record ProbeConfig =
  pb_Enabled :: bool
  pb_Score :: int
  pb_Paths :: "string list"

record BruteforceConfig =
  bc_Enabled :: bool
  bc_MinRequests :: int
  bc_RatioThreshold :: rat
  bc_Score :: int

record CrawlerConfig =
  cw_Enabled :: bool
  cw_MinSequential :: int
  cw_Score :: int

record NoAssetConfig =
  nc_Enabled :: bool
  nc_MinPageRequests :: int
  nc_AssetRatioThreshold :: rat
  nc_AssetExtensions :: "string list"
  nc_Score :: int

record RateConfig =
  rc_Enabled :: bool
  rc_Window :: duration
  rc_Threshold :: int
  rc_Score :: int

record UserAgentConfig =
  uc_Enabled :: bool
  uc_ScannerScore :: int
  uc_GrabberScore :: int
  uc_AutomationScore :: int
  uc_EmptyUAScore :: int
  uc_ExtraScannerPatterns :: "string list"
  uc_ExtraGrabberPatterns :: "string list"
  uc_ExtraAutomationPatterns :: "string list"

record OverflowConfig =
  oc_Enabled :: bool
  oc_MaxURLLength :: int
  oc_SuspiciousParams :: "string list"
  oc_Score :: int

record BadBotConfig =
  bb_Enabled :: bool
  bb_Score :: int
  bb_CheckUA :: bool
  bb_CheckReferrer :: bool

record DetectorsConfig =
  de_Probe :: ProbeConfig
  de_Bruteforce :: BruteforceConfig
  de_Crawler :: CrawlerConfig
  de_NoAsset :: NoAssetConfig
  de_Rate :: RateConfig
  de_UserAgent :: UserAgentConfig
  de_Overflow :: OverflowConfig
  de_BadBot :: BadBotConfig

record DNSCacheConfig =
  dn_PositiveTTL :: duration
  dn_NegativeTTL :: duration
  dn_IPListRefresh :: duration

text \<open>The whitelist section is the record of the matcher (bots and custom lists) with the
  settings of the verification.\<close>

record WhitelistSection = WhitelistConfig +
  wl_DNSCache :: DNSCacheConfig
  wl_FakeBotScore :: int
  wl_DNSVerifyTimeout :: duration

record OutputConfig =
  ou_ThreatLog :: string
  ou_OperationalLog :: string

record MetricsConfig =
  me_Enabled :: bool
  me_ListenAddr :: string
  me_Username :: string
  me_PasswordHash :: string

record ChainGuardConfig =
  cg_Enabled :: bool
  cg_WarningsLog :: string
  cg_CloudflareEnabled :: bool
  cg_RefreshInterval :: duration
  cg_Sources :: "string list"
  cg_BogonEnabled :: bool

record 'y Config =
  cfg_General :: GeneralConfig
  cfg_Logging :: LoggingConfig
  cfg_Parser :: ParserConfig
  cfg_Scoring :: ScoringSection
  cfg_State :: StateConfig
  cfg_Detectors :: DetectorsConfig
  cfg_Whitelist :: WhitelistSection
  cfg_Output :: OutputConfig
  cfg_Metrics :: MetricsConfig
  cfg_Blocklist :: bl_Config
  cfg_ChainGuard :: ChainGuardConfig
  cfg_Streams :: "'y StreamConfig list"
  cfg_Inputs :: "InputConfig list"
  cfg_Outputs :: "SinkConfig list"
  cfg_DeprecatedExecutors :: "'y ExecutorItem list"
  cfg_Executors :: "'y ExecutorTopConfig list"
  cfg_Pipeline :: PipelineRuntimeConfig
  cfg_Transport :: TransportConfig

definition ToChainCheckConfig :: "ChainGuardConfig \<Rightarrow> CheckerConfig" where
  "ToChainCheckConfig c =
    \<lparr>cc_Cloudflare = \<lparr>cf_Enabled = cg_CloudflareEnabled c, cf_RefreshInterval = cg_RefreshInterval c,
       cf_Sources = cg_Sources c\<rparr>,
     cc_BogonEnabled = cg_BogonEnabled c\<rparr>"

text \<open>The part of the configuration the tracker reads.\<close>

definition tracker_config :: "'y Config \<Rightarrow> TrackerConfig" where
  "tracker_config cfg =
    \<lparr>cfg_RateWindow = rc_Window (de_Rate (cfg_Detectors cfg)), cfg_MaxTrackedIPs = MaxTrackedIPs (cfg_State cfg),
     cfg_ObservationWindow = ObservationWindow (cfg_Scoring cfg)\<rparr>"

end
