(* ===== verification/ConfigEnv.thy ===== *)
theory ConfigEnv
  imports ConfigTypes
begin

text \<open>
  Defaults and environment of the configuration, \<open>internal/sys/config/config.go\<close>: the built-in
  configuration, the readers of integers, booleans and durations of the Go library, and
  the table of \<open>ARXSENTINEL_*\<close> overrides.

  The eight \<open>env*\<close> helpers share their first lines (look the variable up, do nothing when
  it is unset or empty), so an override is the pair of its variable and what happens with
  a value; the field a helper writes is given by the update function of the record.
  \<open>strconv.ParseFloat\<close> and the process environment are arguments; a duration is read as
  \<open>time.ParseDuration\<close> does, with its overflow checks and its float64 fractions.

  Shown: an override reads exactly its variable; variables outside the table change
  nothing; a failed start names a variable that is set to an unreadable value; a set
  variable beats the file, and the file beats the defaults.
\<close>

section \<open>Readers of the Go library\<close>

text \<open>\<open>strconv.Atoi\<close> and \<open>strconv.ParseBool\<close>.\<close>

definition Atoi :: "string \<Rightarrow> int option" where
  "Atoi s =
    (let neg = has_prefix s ''-'';
         ds = (if neg \<or> has_prefix s ''+'' then tl s else s)
     in if ds = [] \<or> \<not> list_all is_digit ds then None
        else let n = (if neg then - parse_digits ds else parse_digits ds)
             in if - (2 ^ 63) \<le> n \<and> n < 2 ^ 63 then Some n else None)"

definition ParseBool :: "string \<Rightarrow> bool option" where
  "ParseBool s =
    (if s \<in> set [''1'', ''t'', ''T'', ''true'', ''TRUE'', ''True''] then Some True
     else if s \<in> set [''0'', ''f'', ''F'', ''false'', ''FALSE'', ''False''] then Some False
     else None)"

text \<open>\<open>time.ParseDuration\<close>: a sequence of numbers with units; sums and products above
  the range of a duration are errors.\<close>

definition unitMap :: "(string, int) gomap" where
  "unitMap =
    [(''ns'', 1), (''us'', 1000), ([CHR 0xC2, CHR 0xB5] @ ''s'', 1000), ([CHR 0xCE, CHR 0xBC] @ ''s'', 1000),
     (''ms'', 1000000), (''s'', 1000000000), (''m'', 60 * 1000000000), (''h'', 3600 * 1000000000)]"

fun leadingFraction :: "string \<Rightarrow> bool \<Rightarrow> int \<Rightarrow> rat \<Rightarrow> int \<times> rat \<times> string" where
  "leadingFraction [] overflow x scale = (x, scale, [])"
| "leadingFraction (c # s) overflow x scale =
    (if \<not> is_digit c then (x, scale, c # s)
     else if overflow \<or> x > (2 ^ 63 - 1) div 10 then leadingFraction s True x scale
     else let y = x * 10 + digit_val c
          in if y > 2 ^ 63 then leadingFraction s True x scale
             else leadingFraction s False y (f_mul scale 10))"

definition dur_number :: "string \<Rightarrow> (int \<times> int \<times> rat \<times> string) option" where
  "dur_number s =
    (let v = parse_digits (takeWhile is_digit s);
         r = dropWhile is_digit s;
         pre = r \<noteq> s
     in if v > 2 ^ 63 then None
        else if has_prefix r ''.'' then
          (let (f, scale, u) = leadingFraction (tl r) False 0 1
           in if \<not> pre \<and> u = tl r then None else Some (v, f, scale, u))
        else if \<not> pre then None
        else Some (v, 0, 1, r))"

definition dur_component :: "string \<Rightarrow> (int \<times> string) option" where
  "dur_component s =
    (case dur_number s of
       None \<Rightarrow> None
     | Some (v, f, scale, r) \<Rightarrow>
         let in_unit = (\<lambda>c. c \<noteq> CHR ''.'' \<and> \<not> is_digit c);
             u = takeWhile in_unit r; rest = dropWhile in_unit r
         in if u = [] then None
            else case map_of unitMap u of
                None \<Rightarrow> None
              | Some unit \<Rightarrow>
                  if v > 2 ^ 63 div unit then None
                  else let v = v * unit;
                           v = (if f > 0 then v + f_trunc (f_mul (f_int f) (f_div (f_int unit) scale)) else v)
                       in if v > 2 ^ 63 then None else Some (v, rest))"

lemma leadingFraction_rest: "leadingFraction s b x sc = (y, sc', r) \<Longrightarrow> length r \<le> length s"
  by (induction s b x sc rule: leadingFraction.induct) (auto simp: Let_def split: if_splits)

lemma dur_number_rest: "dur_number s = Some (v, f, sc, r) \<Longrightarrow> length r \<le> length s"
proof -
  assume n: "dur_number s = Some (v, f, sc, r)"
  let ?t = "dropWhile is_digit s"
  obtain y c u where l: "leadingFraction (tl ?t) False 0 1 = (y, c, u)" by (metis prod_cases3)
  have "length ?t \<le> length s" by (rule length_dropWhile_le)
  moreover have "r = u \<or> r = ?t" using n l by (auto simp: dur_number_def Let_def split: if_splits)
  ultimately show ?thesis using leadingFraction_rest [OF l] by auto
qed

lemma dur_component_rest: "dur_component s = Some (v, r) \<Longrightarrow> length r < length s"
proof -
  assume c: "dur_component s = Some (v, r)"
  then obtain w f sc t where t: "dur_number s = Some (w, f, sc, t)" by (auto simp: dur_component_def split: option.splits)
  let ?u = "\<lambda>c. c \<noteq> CHR ''.'' \<and> \<not> is_digit c"
  have "takeWhile ?u t \<noteq> []" "r = dropWhile ?u t"
    using c t by (auto simp: dur_component_def Let_def split: option.splits if_splits)
  then have "length r < length t"
    by (metis takeWhile_dropWhile_id length_append length_greater_0_conv less_add_same_cancel2)
  then show ?thesis using dur_number_rest [OF t] by simp
qed

function dur_loop :: "int \<Rightarrow> string \<Rightarrow> int option" where
  "dur_loop d s =
    (if s = [] then Some d
     else case dur_component s of
         None \<Rightarrow> None
       | Some (v, rest) \<Rightarrow>
           let d = (d + v) mod 2 ^ 64
           in if d > 2 ^ 63 then None else dur_loop d rest)"
  by pat_completeness auto

termination
  by (relation "measure (length \<circ> snd)") (auto dest: dur_component_rest)

declare dur_loop.simps [simp del]

definition ParseDuration :: "string \<Rightarrow> duration option" where
  "ParseDuration s =
    (let neg = has_prefix s ''-'';
         s = (if neg \<or> has_prefix s ''+'' then tl s else s)
     in if s = ''0'' then Some 0
        else if s = [] then None
        else case dur_loop 0 s of
            None \<Rightarrow> None
          | Some d \<Rightarrow> if neg then Some (- d) else if d > 2 ^ 63 - 1 then None else Some d)"

section \<open>Overrides\<close>

datatype config_error =
  ReadError string
| YamlError string
| EnvError string string
| LogFileAndStreams
| Invalid string "nat list"

record env =
  getenv :: "string \<Rightarrow> string option"
  ParseFloat :: "string \<Rightarrow> rat option"

type_synonym 'y env_override = "string \<times> (env \<Rightarrow> string \<Rightarrow> 'y Config \<Rightarrow> config_error + 'y Config)"

definition run_override :: "env \<Rightarrow> 'y env_override \<Rightarrow> 'y Config \<Rightarrow> config_error + 'y Config" where
  "run_override env ov cfg =
    (case getenv env (fst ov) of
       None \<Rightarrow> Inr cfg
     | Some v \<Rightarrow> if v = [] then Inr cfg else snd ov env v cfg)"

text \<open>A parsed value is written to the field.\<close>

definition set_parsed :: "string \<Rightarrow> string \<Rightarrow> (('a \<Rightarrow> 'a) \<Rightarrow> 'y Config \<Rightarrow> 'y Config) \<Rightarrow> 'a option \<Rightarrow> 'y Config
    \<Rightarrow> config_error + 'y Config" where
  "set_parsed key v upd r cfg = (case r of None \<Rightarrow> Inl (EnvError key v) | Some x \<Rightarrow> Inr (upd (\<lambda>_. x) cfg))"

definition envStr :: "string \<Rightarrow> ((string \<Rightarrow> string) \<Rightarrow> 'y Config \<Rightarrow> 'y Config) \<Rightarrow> 'y env_override" where
  "envStr key upd = (key, \<lambda>env v. set_parsed key v upd (Some v))"

definition envBool :: "string \<Rightarrow> ((bool \<Rightarrow> bool) \<Rightarrow> 'y Config \<Rightarrow> 'y Config) \<Rightarrow> 'y env_override" where
  "envBool key upd = (key, \<lambda>env v. set_parsed key v upd (ParseBool v))"

definition envInt :: "string \<Rightarrow> ((int \<Rightarrow> int) \<Rightarrow> 'y Config \<Rightarrow> 'y Config) \<Rightarrow> 'y env_override" where
  "envInt key upd = (key, \<lambda>env v. set_parsed key v upd (Atoi v))"

definition envFloat :: "string \<Rightarrow> ((rat \<Rightarrow> rat) \<Rightarrow> 'y Config \<Rightarrow> 'y Config) \<Rightarrow> 'y env_override" where
  "envFloat key upd = (key, \<lambda>env v. set_parsed key v upd (ParseFloat env v))"

definition envDur :: "string \<Rightarrow> ((duration \<Rightarrow> duration) \<Rightarrow> 'y Config \<Rightarrow> 'y Config) \<Rightarrow> 'y env_override" where
  "envDur key upd = (key, \<lambda>env v. set_parsed key v upd (ParseDuration v))"

definition csv_parts :: "string \<Rightarrow> string list" where
  "csv_parts v = filter (\<lambda>p. p \<noteq> []) (map trim_space (split_on (CHR '','') v))"

definition envCSV :: "string \<Rightarrow> ((string list \<Rightarrow> string list) \<Rightarrow> 'y Config \<Rightarrow> 'y Config) \<Rightarrow> 'y env_override" where
  "envCSV key upd = (key, \<lambda>env v. set_parsed key v upd (Some (csv_parts v)))"

text \<open>The first part that is not an address, or not a network, ends the two list readers.\<close>

definition envIPList :: "string \<Rightarrow> ((string list \<Rightarrow> string list) \<Rightarrow> 'y Config \<Rightarrow> 'y Config) \<Rightarrow> 'y env_override" where
  "envIPList key upd =
    (key, \<lambda>env v. set_parsed key v upd
       (if list_all (\<lambda>p. ParseIP p \<noteq> None) (csv_parts v) then Some (csv_parts v) else None))"

definition envCIDRList :: "string \<Rightarrow> ((string list \<Rightarrow> string list) \<Rightarrow> 'y Config \<Rightarrow> 'y Config) \<Rightarrow> 'y env_override" where
  "envCIDRList key upd =
    (key, \<lambda>env v. set_parsed key v upd
       (if list_all (\<lambda>p. ParseCIDR p \<noteq> None) (csv_parts v) then Some (csv_parts v) else None))"

definition env_general :: "'y env_override list" where
  "env_general =
    [envStr ''ARXSENTINEL_GENERAL_LOG_FILE'' (cfg_General_update \<circ> ge_LogFile_update),
     envStr ''ARXSENTINEL_GENERAL_PID_FILE'' (cfg_General_update \<circ> ge_PIDFile_update),
     envInt ''ARXSENTINEL_GENERAL_LINES_BUF_SIZE'' (cfg_General_update \<circ> ge_LinesBufSize_update),
     envDur ''ARXSENTINEL_GENERAL_TAIL_RETRY_INTERVAL'' (cfg_General_update \<circ> ge_TailRetryInterval_update),
     envDur ''ARXSENTINEL_GENERAL_STATS_INTERVAL'' (cfg_General_update \<circ> ge_StatsInterval_update)]"

definition env_logging :: "'y env_override list" where
  "env_logging =
    [envBool ''ARXSENTINEL_LOGGING_DEBUG'' (cfg_Logging_update \<circ> lg_Debug_update),
     envBool ''ARXSENTINEL_LOGGING_CONSOLE_COLOR'' (cfg_Logging_update \<circ> lg_ConsoleColor_update)]"

definition env_parser :: "'y env_override list" where
  "env_parser =
    [envStr ''ARXSENTINEL_PARSER_PROFILE'' (cfg_Parser_update \<circ> pa_Profile_update),
     envStr ''ARXSENTINEL_PARSER_LOG_FORMAT'' (cfg_Parser_update \<circ> pa_LogFormat_update),
     envStr ''ARXSENTINEL_PARSER_REGEX_PATTERN'' (cfg_Parser_update \<circ> pa_RegexPattern_update),
     envStr ''ARXSENTINEL_PARSER_TIMEZONE'' (cfg_Parser_update \<circ> pa_Timezone_update),
     envStr ''ARXSENTINEL_PARSER_JSON_REMOTE_ADDR'' (cfg_Parser_update \<circ> pa_JSONFields_update \<circ> jf_RemoteAddr_update),
     envStr ''ARXSENTINEL_PARSER_JSON_TIME'' (cfg_Parser_update \<circ> pa_JSONFields_update \<circ> jf_Time_update),
     envStr ''ARXSENTINEL_PARSER_JSON_REQUEST'' (cfg_Parser_update \<circ> pa_JSONFields_update \<circ> jf_Request_update),
     envStr ''ARXSENTINEL_PARSER_JSON_STATUS'' (cfg_Parser_update \<circ> pa_JSONFields_update \<circ> jf_Status_update),
     envStr ''ARXSENTINEL_PARSER_JSON_BYTES_SENT'' (cfg_Parser_update \<circ> pa_JSONFields_update \<circ> jf_BytesSent_update),
     envStr ''ARXSENTINEL_PARSER_JSON_REFERER'' (cfg_Parser_update \<circ> pa_JSONFields_update \<circ> jf_Referer_update),
     envStr ''ARXSENTINEL_PARSER_JSON_USER_AGENT'' (cfg_Parser_update \<circ> pa_JSONFields_update \<circ> jf_UserAgent_update),
     envStr ''ARXSENTINEL_PARSER_JSON_REAL_IP'' (cfg_Parser_update \<circ> pa_JSONFields_update \<circ> jf_RealIP_update)]"

definition env_scoring :: "'y env_override list" where
  "env_scoring =
    [envInt ''ARXSENTINEL_SCORING_ALERT_THRESHOLD'' (cfg_Scoring_update \<circ> AlertThreshold_update),
     envInt ''ARXSENTINEL_SCORING_BAN_THRESHOLD'' (cfg_Scoring_update \<circ> BanThreshold_update),
     envDur ''ARXSENTINEL_SCORING_OBSERVATION_WINDOW'' (cfg_Scoring_update \<circ> ObservationWindow_update),
     envStr ''ARXSENTINEL_SCORING_DECAY'' (cfg_Scoring_update \<circ> Decay_update)]"

definition env_state :: "'y env_override list" where
  "env_state =
    [envDur ''ARXSENTINEL_STATE_GC_INTERVAL'' (cfg_State_update \<circ> GCInterval_update),
     envInt ''ARXSENTINEL_STATE_MAX_TRACKED_IPS'' (cfg_State_update \<circ> MaxTrackedIPs_update)]"

text \<open>The limit of connections goes to every top-level syslog input that has none.\<close>

definition env_source :: "'y env_override list" where
  "env_source =
    [(''ARXSENTINEL_SYSLOG_MAX_CONNECTIONS'',
      \<lambda>env v cfg.
        (case Atoi v of
           None \<Rightarrow> Inl (EnvError ''ARXSENTINEL_SYSLOG_MAX_CONNECTIONS'' v)
         | Some val \<Rightarrow>
             if val \<le> 0 then Inl (EnvError ''ARXSENTINEL_SYSLOG_MAX_CONNECTIONS'' v)
             else Inr (cfg\<lparr>cfg_Inputs :=
               map (\<lambda>i. if in_Type i = ''syslog'' \<and> in_MaxConnections i \<le> 0 then i\<lparr>in_MaxConnections := val\<rparr> else i)
                 (cfg_Inputs cfg)\<rparr>)))]"

definition env_probe :: "'y env_override list" where
  "env_probe =
    [envBool ''ARXSENTINEL_DETECTORS_PROBE_ENABLED'' (cfg_Detectors_update \<circ> de_Probe_update \<circ> pb_Enabled_update),
     envInt ''ARXSENTINEL_DETECTORS_PROBE_SCORE'' (cfg_Detectors_update \<circ> de_Probe_update \<circ> pb_Score_update)]"

definition env_bruteforce :: "'y env_override list" where
  "env_bruteforce =
    [envBool ''ARXSENTINEL_DETECTORS_BRUTEFORCE_ENABLED'' (cfg_Detectors_update \<circ> de_Bruteforce_update \<circ> bc_Enabled_update),
     envInt ''ARXSENTINEL_DETECTORS_BRUTEFORCE_MIN_REQUESTS'' (cfg_Detectors_update \<circ> de_Bruteforce_update \<circ> bc_MinRequests_update),
     envFloat ''ARXSENTINEL_DETECTORS_BRUTEFORCE_RATIO_THRESHOLD'' (cfg_Detectors_update \<circ> de_Bruteforce_update \<circ> bc_RatioThreshold_update),
     envInt ''ARXSENTINEL_DETECTORS_BRUTEFORCE_SCORE'' (cfg_Detectors_update \<circ> de_Bruteforce_update \<circ> bc_Score_update)]"

definition env_crawler :: "'y env_override list" where
  "env_crawler =
    [envBool ''ARXSENTINEL_DETECTORS_CRAWLER_ENABLED'' (cfg_Detectors_update \<circ> de_Crawler_update \<circ> cw_Enabled_update),
     envInt ''ARXSENTINEL_DETECTORS_CRAWLER_MIN_SEQUENTIAL'' (cfg_Detectors_update \<circ> de_Crawler_update \<circ> cw_MinSequential_update),
     envInt ''ARXSENTINEL_DETECTORS_CRAWLER_SCORE'' (cfg_Detectors_update \<circ> de_Crawler_update \<circ> cw_Score_update)]"

definition env_noasset :: "'y env_override list" where
  "env_noasset =
    [envBool ''ARXSENTINEL_DETECTORS_NOASSET_ENABLED'' (cfg_Detectors_update \<circ> de_NoAsset_update \<circ> nc_Enabled_update),
     envInt ''ARXSENTINEL_DETECTORS_NOASSET_MIN_PAGE_REQUESTS'' (cfg_Detectors_update \<circ> de_NoAsset_update \<circ> nc_MinPageRequests_update),
     envFloat ''ARXSENTINEL_DETECTORS_NOASSET_ASSET_RATIO_THRESHOLD'' (cfg_Detectors_update \<circ> de_NoAsset_update \<circ> nc_AssetRatioThreshold_update),
     envInt ''ARXSENTINEL_DETECTORS_NOASSET_SCORE'' (cfg_Detectors_update \<circ> de_NoAsset_update \<circ> nc_Score_update)]"

definition env_rate :: "'y env_override list" where
  "env_rate =
    [envBool ''ARXSENTINEL_DETECTORS_RATE_ENABLED'' (cfg_Detectors_update \<circ> de_Rate_update \<circ> rc_Enabled_update),
     envDur ''ARXSENTINEL_DETECTORS_RATE_WINDOW'' (cfg_Detectors_update \<circ> de_Rate_update \<circ> rc_Window_update),
     envInt ''ARXSENTINEL_DETECTORS_RATE_THRESHOLD'' (cfg_Detectors_update \<circ> de_Rate_update \<circ> rc_Threshold_update),
     envInt ''ARXSENTINEL_DETECTORS_RATE_SCORE'' (cfg_Detectors_update \<circ> de_Rate_update \<circ> rc_Score_update)]"

definition env_useragent :: "'y env_override list" where
  "env_useragent =
    [envBool ''ARXSENTINEL_DETECTORS_USERAGENT_ENABLED'' (cfg_Detectors_update \<circ> de_UserAgent_update \<circ> uc_Enabled_update),
     envInt ''ARXSENTINEL_DETECTORS_USERAGENT_SCANNER_SCORE'' (cfg_Detectors_update \<circ> de_UserAgent_update \<circ> uc_ScannerScore_update),
     envInt ''ARXSENTINEL_DETECTORS_USERAGENT_GRABBER_SCORE'' (cfg_Detectors_update \<circ> de_UserAgent_update \<circ> uc_GrabberScore_update),
     envInt ''ARXSENTINEL_DETECTORS_USERAGENT_AUTOMATION_SCORE'' (cfg_Detectors_update \<circ> de_UserAgent_update \<circ> uc_AutomationScore_update),
     envInt ''ARXSENTINEL_DETECTORS_USERAGENT_EMPTY_UA_SCORE'' (cfg_Detectors_update \<circ> de_UserAgent_update \<circ> uc_EmptyUAScore_update)]"

definition env_overflow :: "'y env_override list" where
  "env_overflow =
    [envBool ''ARXSENTINEL_DETECTORS_OVERFLOW_ENABLED'' (cfg_Detectors_update \<circ> de_Overflow_update \<circ> oc_Enabled_update),
     envInt ''ARXSENTINEL_DETECTORS_OVERFLOW_MAX_URL_LENGTH'' (cfg_Detectors_update \<circ> de_Overflow_update \<circ> oc_MaxURLLength_update),
     envInt ''ARXSENTINEL_DETECTORS_OVERFLOW_SCORE'' (cfg_Detectors_update \<circ> de_Overflow_update \<circ> oc_Score_update)]"

definition env_badbot :: "'y env_override list" where
  "env_badbot =
    [envBool ''ARXSENTINEL_DETECTORS_BADBOT_ENABLED'' (cfg_Detectors_update \<circ> de_BadBot_update \<circ> bb_Enabled_update),
     envInt ''ARXSENTINEL_DETECTORS_BADBOT_SCORE'' (cfg_Detectors_update \<circ> de_BadBot_update \<circ> bb_Score_update),
     envBool ''ARXSENTINEL_DETECTORS_BADBOT_CHECK_UA'' (cfg_Detectors_update \<circ> de_BadBot_update \<circ> bb_CheckUA_update),
     envBool ''ARXSENTINEL_DETECTORS_BADBOT_CHECK_REFERRER'' (cfg_Detectors_update \<circ> de_BadBot_update \<circ> bb_CheckReferrer_update)]"

definition env_chain_guard :: "'y env_override list" where
  "env_chain_guard =
    [envBool ''ARXSENTINEL_CHAIN_GUARD_ENABLED'' (cfg_ChainGuard_update \<circ> cg_Enabled_update),
     envStr ''ARXSENTINEL_CHAIN_GUARD_WARNINGS_LOG'' (cfg_ChainGuard_update \<circ> cg_WarningsLog_update),
     envBool ''ARXSENTINEL_CHAIN_GUARD_CLOUDFLARE_ENABLED'' (cfg_ChainGuard_update \<circ> cg_CloudflareEnabled_update),
     envDur ''ARXSENTINEL_CHAIN_GUARD_CLOUDFLARE_REFRESH_INTERVAL'' (cfg_ChainGuard_update \<circ> cg_RefreshInterval_update),
     envBool ''ARXSENTINEL_CHAIN_GUARD_BOGON_ENABLED'' (cfg_ChainGuard_update \<circ> cg_BogonEnabled_update)]"

definition env_blocklist :: "'y env_override list" where
  "env_blocklist =
    [envStr ''ARXSENTINEL_BLOCKLIST_STORAGE'' (cfg_Blocklist_update \<circ> bl_Storage_update)]"

definition env_whitelist :: "'y env_override list" where
  "env_whitelist =
    [envInt ''ARXSENTINEL_WHITELIST_FAKE_BOT_SCORE'' (cfg_Whitelist_update \<circ> wl_FakeBotScore_update),
     envDur ''ARXSENTINEL_WHITELIST_DNS_VERIFY_TIMEOUT'' (cfg_Whitelist_update \<circ> wl_DNSVerifyTimeout_update),
     envDur ''ARXSENTINEL_WHITELIST_DNS_CACHE_POSITIVE_TTL'' (cfg_Whitelist_update \<circ> wl_DNSCache_update \<circ> dn_PositiveTTL_update),
     envDur ''ARXSENTINEL_WHITELIST_DNS_CACHE_NEGATIVE_TTL'' (cfg_Whitelist_update \<circ> wl_DNSCache_update \<circ> dn_NegativeTTL_update),
     envDur ''ARXSENTINEL_WHITELIST_DNS_CACHE_IP_LIST_REFRESH'' (cfg_Whitelist_update \<circ> wl_DNSCache_update \<circ> dn_IPListRefresh_update),
     envIPList ''ARXSENTINEL_WHITELIST_CUSTOM_IPS'' (cfg_Whitelist_update \<circ> wl_IPs_update),
     envCIDRList ''ARXSENTINEL_WHITELIST_CUSTOM_CIDRS'' (cfg_Whitelist_update \<circ> wl_CIDRs_update),
     envCSV ''ARXSENTINEL_WHITELIST_CUSTOM_PATHS'' (cfg_Whitelist_update \<circ> wl_Paths_update)]"

definition env_output :: "'y env_override list" where
  "env_output =
    [envStr ''ARXSENTINEL_OUTPUT_THREAT_LOG'' (cfg_Output_update \<circ> ou_ThreatLog_update),
     envStr ''ARXSENTINEL_OUTPUT_OPERATIONAL_LOG'' (cfg_Output_update \<circ> ou_OperationalLog_update)]"

definition env_metrics :: "'y env_override list" where
  "env_metrics =
    [envBool ''ARXSENTINEL_METRICS_ENABLED'' (cfg_Metrics_update \<circ> me_Enabled_update),
     envStr ''ARXSENTINEL_METRICS_LISTEN_ADDR'' (cfg_Metrics_update \<circ> me_ListenAddr_update),
     envStr ''ARXSENTINEL_METRICS_USERNAME'' (cfg_Metrics_update \<circ> me_Username_update),
     envStr ''ARXSENTINEL_METRICS_PASSWORD_HASH'' (cfg_Metrics_update \<circ> me_PasswordHash_update)]"

definition env_pipeline :: "'y env_override list" where
  "env_pipeline =
    [envInt ''ARXSENTINEL_PIPELINE_BUFFER_SIZE'' (cfg_Pipeline_update \<circ> BufferSize_update),
     envDur ''ARXSENTINEL_PIPELINE_SHUTDOWN_TIMEOUT'' (cfg_Pipeline_update \<circ> ShutdownTimeout_update)]"

definition env_table :: "'y env_override list" where
  "env_table = concat
    [env_general, env_logging, env_parser, env_scoring, env_state, env_source, env_probe, env_bruteforce, env_crawler, env_noasset, env_rate, env_useragent, env_overflow, env_badbot, env_chain_guard, env_blocklist, env_whitelist, env_output, env_metrics, env_pipeline]"

fun run_overrides :: "env \<Rightarrow> 'y env_override list \<Rightarrow> 'y Config \<Rightarrow> config_error + 'y Config" where
  "run_overrides env [] cfg = Inr cfg"
| "run_overrides env (ov # ovs) cfg =
    (case run_override env ov cfg of Inl err \<Rightarrow> Inl err | Inr cfg' \<Rightarrow> run_overrides env ovs cfg')"

definition applyEnvOverrides :: "env \<Rightarrow> 'y Config \<Rightarrow> config_error + 'y Config" where
  "applyEnvOverrides env cfg = run_overrides env env_table cfg"

section \<open>Defaults\<close>

definition cfg_defaultProbePaths :: "string list" where
  "cfg_defaultProbePaths =
    [''/.env'', ''/.env.backup'', ''/.env.local'', ''/.env.production'', ''/.env.staging'',
     ''/config.yml'', ''/config.yaml'', ''/config.json'', ''/application.properties'',
     ''/settings.py'', ''/local_settings.py'', ''/database.yml'', ''/database.yaml'',
     ''/web.config'', ''/app.config'', ''/.git/config'', ''/.git/HEAD'', ''/.gitignore'',
     ''/.svn/entries'', ''/.hg/'', ''/.bzr/'', ''/.aws/credentials'',
     ''/.docker/config.json'', ''/aws-exports.json'', ''/.gcloud/credentials'',
     ''/wp-config.php'', ''/wp-config.php.bak'', ''/wp-config.php.old'', ''/wp-login.php'',
     ''/xmlrpc.php'', ''/wp-admin/'', ''/administrator/'', ''/admin/'', ''/phpmyadmin/'',
     ''/pma/'', ''/joomla/'', ''/drupal/'', ''/typo3/'', ''/backup.zip'', ''/backup.tar.gz'',
     ''/backup.sql'', ''/backup.sql.gz'', ''/db.dump'', ''/database.sql'', ''/dump.sql'',
     ''/site.sql'', ''/server-status'', ''/server-info'', ''/phpinfo.php'', ''/info.php'',
     ''/php.php'', ''/actuator/'', ''/actuator/env'', ''/actuator/health'',
     ''/actuator/mappings'', ''/metrics'', ''/health'', ''/.well-known/'', ''/.debug'',
     ''/trace'', ''/console'', ''/graphql'', ''/graphiql'', ''/api/graphql'']"

definition defaultBots :: "BotConfig list" where
  "defaultBots =
    [\<lparr>bot_Name = ''google'', UAPatterns = [''Googlebot'', ''Google-InspectionTool'', ''GoogleOther'', ''AdsBot-Google''], VerifyMethod = ''rdns_ipjson'',
        RDNSDomains = [''.googlebot.com'', ''.google.com''], ExemptDetectors = []\<rparr>,
     \<lparr>bot_Name = ''bing'', UAPatterns = [''bingbot'', ''BingPreview'', ''msnbot'', ''adidxbot''], VerifyMethod = ''rdns'',
        RDNSDomains = [''.search.msn.com''], ExemptDetectors = []\<rparr>,
     \<lparr>bot_Name = ''yandex'', UAPatterns = [''YandexBot'', ''YandexImages'', ''YandexMetrika'', ''YandexDirect''], VerifyMethod = ''rdns'',
        RDNSDomains = [''.yandex.ru'', ''.yandex.net'', ''.yandex.com''], ExemptDetectors = []\<rparr>,
     \<lparr>bot_Name = ''duckduckgo'', UAPatterns = [''DuckDuckBot''], VerifyMethod = ''rdns'',
        RDNSDomains = [''.duckduckgo.com''], ExemptDetectors = []\<rparr>,
     \<lparr>bot_Name = ''baidu'', UAPatterns = [''Baiduspider'', ''BaiduMobaider''], VerifyMethod = ''rdns'',
        RDNSDomains = [''.baidu.com'', ''.baidu.jp''], ExemptDetectors = []\<rparr>,
     \<lparr>bot_Name = ''apple'', UAPatterns = [''Applebot''], VerifyMethod = ''rdns'',
        RDNSDomains = [''.applebot.apple.com''], ExemptDetectors = []\<rparr>,
     \<lparr>bot_Name = ''facebook'', UAPatterns = [''facebookexternalhit'', ''Facebot''], VerifyMethod = ''ip_ranges'',
        RDNSDomains = [], ExemptDetectors = []\<rparr>,
     \<lparr>bot_Name = ''twitter'', UAPatterns = [''Twitterbot''], VerifyMethod = ''ip_ranges'',
        RDNSDomains = [], ExemptDetectors = []\<rparr>,
     \<lparr>bot_Name = ''telegram'', UAPatterns = [''TelegramBot''], VerifyMethod = ''ip_ranges'',
        RDNSDomains = [], ExemptDetectors = []\<rparr>,
     \<lparr>bot_Name = ''claudebot'', UAPatterns = [''ClaudeBot'', ''Claude-Web'', ''anthropic-ai''], VerifyMethod = ''ua_only'',
        RDNSDomains = [], ExemptDetectors = [''noasset'']\<rparr>,
     \<lparr>bot_Name = ''gptbot'', UAPatterns = [''GPTBot'', ''OAI-SearchBot'', ''ChatGPT-User''], VerifyMethod = ''ua_only'',
        RDNSDomains = [], ExemptDetectors = [''noasset'']\<rparr>,
     \<lparr>bot_Name = ''amazonbot'', UAPatterns = [''Amazonbot''], VerifyMethod = ''ua_only'',
        RDNSDomains = [], ExemptDetectors = [''noasset'']\<rparr>,
     \<lparr>bot_Name = ''meta-crawler'', UAPatterns = [''meta-externalagent'', ''meta-externalfetcher''], VerifyMethod = ''ua_only'',
        RDNSDomains = [], ExemptDetectors = [''noasset'']\<rparr>]"

definition defaultDetectors :: DetectorsConfig where
  "defaultDetectors =
    \<lparr>de_Probe = \<lparr>pb_Enabled = True, pb_Score = 25, pb_Paths = cfg_defaultProbePaths\<rparr>,
     de_Bruteforce = \<lparr>bc_Enabled = True, bc_MinRequests = 10, bc_RatioThreshold = fl64 (6 / 10), bc_Score = 30\<rparr>,
     de_Crawler = \<lparr>cw_Enabled = True, cw_MinSequential = 5, cw_Score = 20\<rparr>,
     de_NoAsset = \<lparr>nc_Enabled = True, nc_MinPageRequests = 3, nc_AssetRatioThreshold = fl64 (1 / 10),
       nc_AssetExtensions = [''.css'', ''.js'', ''.png'', ''.jpg'', ''.jpeg'', ''.gif'', ''.svg'', ''.woff'', ''.woff2'',
         ''.ttf'', ''.ico'', ''.webp''],
       nc_Score = 20\<rparr>,
     de_Rate = \<lparr>rc_Enabled = True, rc_Window = 60 * second, rc_Threshold = 100, rc_Score = 25\<rparr>,
     de_UserAgent = \<lparr>uc_Enabled = True, uc_ScannerScore = 40, uc_GrabberScore = 20, uc_AutomationScore = 15,
       uc_EmptyUAScore = 30, uc_ExtraScannerPatterns = [], uc_ExtraGrabberPatterns = [], uc_ExtraAutomationPatterns = []\<rparr>,
     de_Overflow = \<lparr>oc_Enabled = True, oc_MaxURLLength = 2048,
       oc_SuspiciousParams = [''bypass'', ''shell'', ''cmd'', ''exec'', ''eval'', ''system'', ''passthru''], oc_Score = 30\<rparr>,
     de_BadBot = \<lparr>bb_Enabled = True, bb_Score = 60, bb_CheckUA = True, bb_CheckReferrer = False\<rparr>\<rparr>"

definition defaultConfig :: "'y Config" where
  "defaultConfig =
    \<lparr>cfg_General = \<lparr>ge_LogFile = [], ge_PIDFile = ''/run/arxsentinel/arxsentinel.pid'', ge_LinesBufSize = 1000,
       ge_TailRetryInterval = 5 * second, ge_StatsInterval = 300 * second\<rparr>,
     cfg_Logging = \<lparr>lg_Debug = False, lg_ConsoleColor = True\<rparr>,
     cfg_Parser = \<lparr>pa_Profile = [], pa_LogFormat = ''combined'', pa_RegexPattern = [], pa_Timezone = ''UTC'',
       pa_JSONFields = \<lparr>jf_RemoteAddr = ''remote_addr'', jf_Time = ''time_iso8601'', jf_Request = ''request'',
         jf_Status = ''status'', jf_BytesSent = ''bytes_sent'', jf_Referer = ''http_referer'',
         jf_UserAgent = ''http_user_agent'', jf_RealIP = ''real_ip''\<rparr>\<rparr>,
     cfg_Scoring = \<lparr>AlertThreshold = 50, BanThreshold = 80, ObservationWindow = 300 * second, Decay = ''linear''\<rparr>,
     cfg_State = \<lparr>GCInterval = 60 * second, MaxTrackedIPs = 100000\<rparr>,
     cfg_Detectors = defaultDetectors,
     cfg_Whitelist = \<lparr>wl_Bots = defaultBots, wl_IPs = [], wl_CIDRs = [], wl_UASubstrings = [], wl_Paths = [],
       wl_DNSCache = \<lparr>dn_PositiveTTL = 24 * 3600 * second, dn_NegativeTTL = 3600 * second,
         dn_IPListRefresh = 24 * 3600 * second\<rparr>,
       wl_FakeBotScore = 35, wl_DNSVerifyTimeout = 2 * second\<rparr>,
     cfg_Output = \<lparr>ou_ThreatLog = ''/var/log/arxsentinel/threats.log'',
       ou_OperationalLog = ''/var/log/arxsentinel/sentinel.log''\<rparr>,
     cfg_Metrics = \<lparr>me_Enabled = False, me_ListenAddr = '':9117'', me_Username = [], me_PasswordHash = []\<rparr>,
     cfg_Blocklist = \<lparr>bl_Storage = [], bl_Lists = []\<rparr>,
     cfg_ChainGuard = \<lparr>cg_Enabled = False, cg_WarningsLog = [], cg_CloudflareEnabled = True,
       cg_RefreshInterval = 24 * 3600 * second,
       cg_Sources = [''https://www.cloudflare.com/ips-v4/'', ''https://www.cloudflare.com/ips-v6/''],
       cg_BogonEnabled = True\<rparr>,
     cfg_Streams = [], cfg_Inputs = [], cfg_Outputs = [], cfg_DeprecatedExecutors = [], cfg_Executors = [],
     cfg_Pipeline = \<lparr>BufferSize = 8192, ShutdownTimeout = 15 * second\<rparr>,
     cfg_Transport = \<lparr>tr_Enabled = False, tr_IdentityPath = [], tr_KnownNodesPath = [], tr_Listen = [], tr_Peers = [],
       tr_PairingSecret = []\<rparr>\<rparr>"

section \<open>What an override does\<close>

lemmas env_helpers = envStr_def envBool_def envInt_def envFloat_def envDur_def envCSV_def envIPList_def envCIDRList_def

lemmas env_sections = env_general_def env_logging_def env_parser_def env_scoring_def env_state_def env_source_def
  env_probe_def env_bruteforce_def env_crawler_def env_noasset_def env_rate_def env_useragent_def env_overflow_def
  env_badbot_def env_chain_guard_def env_blocklist_def env_whitelist_def env_output_def env_metrics_def env_pipeline_def

text \<open>An override fails only with its own variable and value, and reads nothing else of the environment.\<close>

definition named :: "'y env_override \<Rightarrow> bool" where
  "named ov \<longleftrightarrow> (\<forall>env v cfg e. snd ov env v cfg = Inl e \<longrightarrow> e = EnvError (fst ov) v)
    \<and> (\<forall>env env' v. ParseFloat env = ParseFloat env' \<longrightarrow> snd ov env v = snd ov env' v)"

lemma named_parsed:
  assumes "\<And>env env' v. ParseFloat env = ParseFloat env' \<Longrightarrow> r env v = r env' v"
  shows "named (key, \<lambda>env v. set_parsed key v upd (r env v))"
  unfolding named_def fst_conv snd_conv
proof (intro conjI allI impI)
  fix env env' :: env and v
  assume "ParseFloat env = ParseFloat env'"
  then have "r env v = r env' v" by (rule assms)
  then show "set_parsed key v upd (r env v) = set_parsed key v upd (r env' v)" by simp
qed (simp add: set_parsed_def split: option.splits)

lemma named_table: "list_all named env_table"
proof -
  have n: "named (envStr k u)" "named (envBool k u1)" "named (envInt k u2)" "named (envFloat k u3)"
    "named (envDur k u2)" "named (envCSV k u4)" "named (envIPList k u4)" "named (envCIDRList k u4)"
    for k and u :: "(string \<Rightarrow> string) \<Rightarrow> 'y Config \<Rightarrow> 'y Config" and u1 :: "(bool \<Rightarrow> bool) \<Rightarrow> 'y Config \<Rightarrow> 'y Config"
      and u2 :: "(int \<Rightarrow> int) \<Rightarrow> 'y Config \<Rightarrow> 'y Config" and u3 :: "(rat \<Rightarrow> rat) \<Rightarrow> 'y Config \<Rightarrow> 'y Config"
      and u4 :: "(string list \<Rightarrow> string list) \<Rightarrow> 'y Config \<Rightarrow> 'y Config"
    unfolding env_helpers by (rule named_parsed; simp)+
  have "list_all named (env_source :: 'y env_override list)"
    by (simp add: env_source_def named_def split: option.split)
  then show "list_all named (env_table :: 'y env_override list)"
    unfolding env_table_def by (simp add: n env_general_def env_logging_def env_parser_def env_scoring_def env_state_def
      env_probe_def env_bruteforce_def env_crawler_def env_noasset_def env_rate_def env_useragent_def env_overflow_def
      env_badbot_def env_chain_guard_def env_blocklist_def env_whitelist_def env_output_def env_metrics_def env_pipeline_def)
qed

lemma run_override_error:
  assumes "named ov" "run_override env ov cfg = Inl e"
  shows "\<exists>v. e = EnvError (fst ov) v \<and> getenv env (fst ov) = Some v \<and> v \<noteq> []"
proof -
  obtain v where v: "getenv env (fst ov) = Some v" "v \<noteq> []" "snd ov env v cfg = Inl e"
    using assms(2) by (auto simp: run_override_def split: option.splits if_splits)
  have "e = EnvError (fst ov) v" using assms(1) v(3) unfolding named_def by blast
  then show ?thesis using v by blast
qed

lemma run_overrides_error:
  assumes "list_all named ovs" "run_overrides env ovs cfg = Inl e"
  shows "\<exists>k v. e = EnvError k v \<and> k \<in> set (map fst ovs) \<and> getenv env k = Some v \<and> v \<noteq> []"
  using assms
proof (induction ovs arbitrary: cfg)
  case (Cons ov ovs)
  show ?case
  proof (cases "run_override env ov cfg")
    case (Inl err)
    then have "run_override env ov cfg = Inl e" using Cons.prems(2) by simp
    from run_override_error [OF _ this] show ?thesis using Cons.prems(1) by auto
  next
    case (Inr cfg')
    then have "run_overrides env ovs cfg' = Inl e" using Cons.prems(2) by simp
    from Cons.IH [OF _ this] show ?thesis using Cons.prems(1) by fastforce
  qed
qed simp

lemma run_overrides_agree:
  assumes "list_all named ovs" "\<forall>k \<in> set (map fst ovs). getenv env k = getenv env' k" "ParseFloat env = ParseFloat env'"
  shows "run_overrides env ovs cfg = run_overrides env' ovs cfg"
  using assms(1, 2)
proof (induction ovs arbitrary: cfg)
  case (Cons ov ovs)
  have "named ov" using Cons.prems(1) by simp
  then have "snd ov env v = snd ov env' v" for v using assms(3) unfolding named_def by blast
  then have "run_override env ov cfg = run_override env' ov cfg"
    using Cons.prems(2) by (simp add: run_override_def split: option.split)
  then show ?case using Cons by (simp split: sum.split)
qed simp



section \<open>Precedence\<close>

text \<open>An override that leaves a part of the configuration alone.\<close>

definition keeps :: "('y Config \<Rightarrow> 'a) \<Rightarrow> 'y env_override \<Rightarrow> bool" where
  "keeps g ov \<longleftrightarrow> (\<forall>env v cfg cfg'. snd ov env v cfg = Inr cfg' \<longrightarrow> g cfg' = g cfg)"

lemma keeps_parsed: "(\<And>h c. g (upd h c) = g c) \<Longrightarrow> keeps g (key, \<lambda>env v. set_parsed key v upd (r env v))"
  by (auto simp: keeps_def set_parsed_def split: option.splits)

lemma run_override_keeps: "keeps g ov \<Longrightarrow> run_override env ov cfg = Inr cfg' \<Longrightarrow> g cfg' = g cfg"
  unfolding keeps_def by (auto simp: run_override_def split: option.splits if_splits)

lemma run_overrides_keeps: "list_all (keeps g) ovs \<Longrightarrow> run_overrides env ovs cfg = Inr cfg' \<Longrightarrow> g cfg' = g cfg"
  by (induction ovs arbitrary: cfg) (fastforce split: sum.splits dest: run_override_keeps)+

lemma run_overrides_append:
  "run_overrides env (xs @ ys) cfg = (case run_overrides env xs cfg of Inl e \<Rightarrow> Inl e | Inr c \<Rightarrow> run_overrides env ys c)"
  by (induction xs arbitrary: cfg) (auto split: sum.split)

text \<open>The value of a setting under an environment: the parsed variable when it is set, the
  given value otherwise.\<close>

definition overridden :: "(string \<Rightarrow> 'a option) \<Rightarrow> env \<Rightarrow> string \<Rightarrow> 'a \<Rightarrow> 'a" where
  "overridden parse env key x =
    (case getenv env key of None \<Rightarrow> x | Some v \<Rightarrow> if v = [] then x else the (parse v))"

lemma run_override_scoring:
  assumes "run_overrides env env_scoring cfg = Inr cfg'"
  shows "cfg_Scoring cfg' = \<lparr>
      AlertThreshold = overridden Atoi env ''ARXSENTINEL_SCORING_ALERT_THRESHOLD'' (AlertThreshold (cfg_Scoring cfg)),
      BanThreshold = overridden Atoi env ''ARXSENTINEL_SCORING_BAN_THRESHOLD'' (BanThreshold (cfg_Scoring cfg)),
      ObservationWindow = overridden ParseDuration env ''ARXSENTINEL_SCORING_OBSERVATION_WINDOW'' (ObservationWindow (cfg_Scoring cfg)),
      Decay = overridden Some env ''ARXSENTINEL_SCORING_DECAY'' (Decay (cfg_Scoring cfg))\<rparr>"
  using assms
  by (auto simp: env_scoring_def env_helpers run_override_def set_parsed_def overridden_def
      split: option.splits if_splits sum.splits)

lemma env_scoring_effect:
  assumes "applyEnvOverrides env cfg = Inr cfg'"
  shows "cfg_Scoring cfg' = \<lparr>
      AlertThreshold = overridden Atoi env ''ARXSENTINEL_SCORING_ALERT_THRESHOLD'' (AlertThreshold (cfg_Scoring cfg)),
      BanThreshold = overridden Atoi env ''ARXSENTINEL_SCORING_BAN_THRESHOLD'' (BanThreshold (cfg_Scoring cfg)),
      ObservationWindow = overridden ParseDuration env ''ARXSENTINEL_SCORING_OBSERVATION_WINDOW'' (ObservationWindow (cfg_Scoring cfg)),
      Decay = overridden Some env ''ARXSENTINEL_SCORING_DECAY'' (Decay (cfg_Scoring cfg))\<rparr>"
proof -
  define before where "before = concat [env_general, env_logging, env_parser :: 'a env_override list]"
  define after where "after = concat [env_state, env_source, env_probe, env_bruteforce, env_crawler, env_noasset, env_rate,
    env_useragent, env_overflow, env_badbot, env_chain_guard, env_blocklist, env_whitelist, env_output, env_metrics,
    env_pipeline :: 'a env_override list]"
  have t: "env_table = before @ env_scoring @ after" by (simp add: env_table_def before_def after_def)
  have b: "list_all (keeps cfg_Scoring) before"
    by (simp add: before_def env_general_def env_logging_def env_parser_def env_helpers keeps_parsed)
  have a: "list_all (keeps cfg_Scoring) after"
    by (simp add: after_def env_state_def env_source_def env_probe_def env_bruteforce_def env_crawler_def env_noasset_def
        env_rate_def env_useragent_def env_overflow_def env_badbot_def env_chain_guard_def env_blocklist_def
        env_whitelist_def env_output_def env_metrics_def env_pipeline_def env_helpers keeps_parsed)
      (auto simp: keeps_def split: option.splits if_splits)
  obtain c1 c2 where c: "run_overrides env before cfg = Inr c1" "run_overrides env env_scoring c1 = Inr c2"
    "run_overrides env after c2 = Inr cfg'"
    using assms by (auto simp: applyEnvOverrides_def t run_overrides_append split: sum.splits)
  show ?thesis
    using run_override_scoring [OF c(2)] run_overrides_keeps [OF b c(1)] run_overrides_keeps [OF a c(3)] by simp
qed

end
