(* ===== verification/ConfigLoad.thy ===== *)
theory ConfigLoad
  imports ConfigEnv
begin

text \<open>
  Loading of the configuration: the migration of the older input and output settings
  (\<open>internal/sys/config/migrate.go\<close>), the validation and \<open>LoadConfig\<close> (\<open>config.go\<close>).

  The file system, the YAML decoder that overlays a document on a configuration, the
  effective mode of a queue and the environment are arguments.  A chain of checks with
  early returns is \<open>first_error\<close> of the list of its checks; an error value names the check
  and the indexes in its message.

  Shown: migrating is idempotent and silent the second time; the chain of checks accepts
  exactly the configurations that satisfy a declarative predicate; \<open>LoadConfig\<close> returns only
  such configurations, all of whose streams run, and fails for no other reason than the
  documented ones; a set variable beats the file and the file the defaults.
\<close>

section \<open>Migration\<close>

datatype deprecation =
  GeneralLogFile string
| OutputThreatLog string
| StreamLogFile nat string string
| StreamThreatLog nat string string

definition file_input :: "string \<Rightarrow> string \<Rightarrow> InputConfig" where
  "file_input path parser = zero_input\<lparr>in_Type := ''file'', in_Path := path, in_Parser := parser\<rparr>"

definition file_sink :: "string \<Rightarrow> SinkConfig" where
  "file_sink path = zero_sink\<lparr>sk_Type := ''file'', sk_Path := path, sk_Format := ''fail2ban''\<rparr>"

definition migrate_top :: "'y Config \<Rightarrow> deprecation list \<times> 'y Config" where
  "migrate_top cfg =
    (let logFile = ge_LogFile (cfg_General cfg); threatLog = ou_ThreatLog (cfg_Output cfg);
         (w1, ins) = (if cfg_Inputs cfg = [] \<and> logFile \<noteq> []
           then ([GeneralLogFile logFile], [file_input logFile (pa_LogFormat (cfg_Parser cfg))])
           else ([], cfg_Inputs cfg));
         (w2, outs) = (if cfg_Outputs cfg = [] \<and> threatLog \<noteq> []
           then ([OutputThreatLog threatLog], [file_sink threatLog]) else ([], cfg_Outputs cfg));
         ins = (if ins = [] then [file_input ''/var/log/nginx/access.log'' ''combined''] else ins);
         outs = (if outs = [] then [file_sink ''/var/log/arxsentinel/threats.log''] else outs)
     in (w1 @ w2, cfg\<lparr>cfg_Inputs := ins, cfg_Outputs := outs\<rparr>))"

definition migrate_stream :: "string \<Rightarrow> nat \<Rightarrow> 'y StreamConfig \<Rightarrow> deprecation list \<times> 'y StreamConfig" where
  "migrate_stream logFormat i s =
    (let (w1, ins) = (if sm_Inputs s = [] \<and> sm_LogFile s \<noteq> []
           then ([StreamLogFile i (sm_Name s) (sm_LogFile s)], [file_input (sm_LogFile s) logFormat])
           else ([], sm_Inputs s));
         (w2, outs) = (if sm_Outputs s = [] \<and> sm_ThreatLog s \<noteq> []
           then ([StreamThreatLog i (sm_Name s) (sm_ThreatLog s)], [file_sink (sm_ThreatLog s)])
           else ([], sm_Outputs s))
     in (w1 @ w2, s\<lparr>sm_Inputs := ins, sm_Outputs := outs\<rparr>))"

definition runtime_defaults :: "PipelineRuntimeConfig \<Rightarrow> PipelineRuntimeConfig" where
  "runtime_defaults rt =
    \<lparr>BufferSize = (if BufferSize rt = 0 then 8192 else BufferSize rt),
     ShutdownTimeout = (if ShutdownTimeout rt = 0 then 15 * second else ShutdownTimeout rt)\<rparr>"

text \<open>A stream without pipelines becomes one pipeline with the inputs and outputs of the stream.\<close>

definition wrap_stream :: "PipelineRuntimeConfig \<Rightarrow> 'y StreamConfig \<Rightarrow> 'y StreamConfig" where
  "wrap_stream dflt s =
    (if sm_Pipelines s \<noteq> [] then s
     else if sm_Inputs s = [] \<and> sm_Outputs s = [] \<and> sm_Executors s = None then s
     else
       let rt = sm_Pipeline s;
           rt = (if BufferSize rt = 0 then rt\<lparr>BufferSize := BufferSize dflt\<rparr> else rt);
           rt = (if ShutdownTimeout rt = 0 then rt\<lparr>ShutdownTimeout := ShutdownTimeout dflt\<rparr> else rt)
       in s\<lparr>sm_Pipelines := [zero_pipeline\<lparr>pl_Inputs := sm_Inputs s, pl_Outputs := sm_Outputs s, pl_Pipeline := rt\<rparr>]\<rparr>)"

definition propagate_processors :: "'y StreamConfig \<Rightarrow> 'y StreamConfig" where
  "propagate_processors s =
    (if sm_Processors s = None \<or> sm_Processors s = Some [] then s
     else s\<lparr>sm_Pipelines :=
       map (\<lambda>p. if pl_Processors p = None then p\<lparr>pl_Processors := sm_Processors s\<rparr> else p) (sm_Pipelines s)\<rparr>)"

definition Migrate :: "'y Config \<Rightarrow> deprecation list \<times> 'y Config" where
  "Migrate cfg =
    (let (w, cfg) = migrate_top cfg;
         rs = map (\<lambda>(i, s). migrate_stream (pa_LogFormat (cfg_Parser cfg)) i s) (enumerate 0 (cfg_Streams cfg));
         rt = runtime_defaults (cfg_Pipeline cfg);
         streams = map (\<lambda>r. propagate_processors (wrap_stream rt (snd r))) rs
     in (w @ concat (map fst rs), cfg\<lparr>cfg_Streams := streams, cfg_Pipeline := rt\<rparr>))"

section \<open>Validation\<close>

definition guard :: "bool \<Rightarrow> 'e \<Rightarrow> 'e + unit" where
  "guard b e = (if b then Inl e else Inr ())"

fun first_error :: "('e + unit) list \<Rightarrow> 'e + unit" where
  "first_error [] = Inr ()"
| "first_error (r # rs) = (case r of Inl e \<Rightarrow> Inl e | Inr u \<Rightarrow> first_error rs)"

fun unique_loop :: "'e \<Rightarrow> string list \<Rightarrow> string list \<Rightarrow> 'e + unit" where
  "unique_loop e seen [] = Inr ()"
| "unique_loop e seen (x # xs) = (if x \<in> set seen then Inl e else unique_loop e (x # seen) xs)"

definition isIPLike :: "string \<Rightarrow> bool" where
  "isIPLike s \<longleftrightarrow> ParseIP s \<noteq> None"

text \<open>The checks of the two modes of an HTTP input.\<close>

definition tls_checks :: "nat \<Rightarrow> string \<Rightarrow> InputConfig \<Rightarrow> config_error + unit" where
  "tls_checks i url inp =
    (if has_prefix url ''https://'' then first_error
       [guard (in_TLSCert inp = []) (Invalid ''inputs[%d]: http https: tls_cert is required'' [i]),
        guard (in_TLSKey inp = []) (Invalid ''inputs[%d]: http https: tls_key is required'' [i])]
     else Inr ())"

definition http_checks :: "nat \<Rightarrow> InputConfig \<Rightarrow> config_error + unit" where
  "http_checks i inp =
    first_error
      [if in_Mode inp = [] \<or> in_Mode inp = ''push'' then first_error
         [guard (in_Addr inp = []) (Invalid ''inputs[%d]: http push: addr is required'' [i]),
          guard (in_Protocol inp = []) (Invalid ''inputs[%d]: http push: protocol is required'' [i]),
          tls_checks i (in_Addr inp) inp]
       else if in_Mode inp = ''pull'' then first_error
         [guard (in_URL inp = []) (Invalid ''inputs[%d]: http pull: url is required'' [i]),
          guard (in_Protocol inp = []) (Invalid ''inputs[%d]: http pull: protocol is required'' [i]),
          guard (in_PullInterval inp = []) (Invalid ''inputs[%d]: http pull: pull_interval is required'' [i]),
          tls_checks i (in_URL inp) inp]
       else Inl (Invalid ''inputs[%d]: http: unknown mode (want push or pull)'' [i]),
       guard (in_Protocol inp = ''ndjson'' \<and> in_EnvelopeField inp = [])
         (Invalid ''inputs[%d]: http ndjson: envelope_field is required'' [i])]"

definition input_types :: "string list" where
  "input_types = [''file'', ''stdin'', ''exec'', ''syslog'', ''http'', ''sentinel'']"

definition input_key :: "InputConfig \<Rightarrow> string" where
  "input_key inp =
    (if in_Type inp = ''http'' then in_Type inp @ '':'' @ in_Addr inp @ '':'' @ in_URL inp
     else in_Type inp @ '':'' @ in_Path inp)"

fun inputs_loop :: "nat \<Rightarrow> string list \<Rightarrow> InputConfig list \<Rightarrow> config_error + unit" where
  "inputs_loop i seen [] = Inr ()"
| "inputs_loop i seen (inp # inputs) =
    first_error
      [guard (in_Type inp \<notin> set input_types) (Invalid ''inputs[%d]: unknown type'' [i]),
       guard (in_Type inp = ''syslog'' \<and> in_Addr inp = []) (Invalid ''inputs[%d]: type=syslog requires addr'' [i]),
       if in_Type inp = ''http'' then http_checks i inp else Inr (),
       guard (input_key inp \<in> set seen) (Invalid ''inputs[%d]: duplicate source'' [i]),
       guard (in_Type inp = ''file'' \<and> in_Path inp = []) (Invalid ''inputs[%d]: type=file requires path'' [i]),
       inputs_loop (i + 1) (input_key inp # seen) inputs]"

definition validateInputs :: "InputConfig list \<Rightarrow> config_error + unit" where
  "validateInputs inputs = inputs_loop 0 [] inputs"

definition sink_key :: "SinkConfig \<Rightarrow> string" where
  "sink_key s = sk_Type s @ '':'' @ sk_Path s"

definition sink_formats :: "string list" where
  "sink_formats = [[], ''fail2ban'', ''json'', ''sentinel-threat'', ''raw-line'']"

fun sinks_loop :: "nat \<Rightarrow> string list \<Rightarrow> SinkConfig list \<Rightarrow> config_error + unit" where
  "sinks_loop i seen [] = Inr ()"
| "sinks_loop i seen (s # sinks) =
    first_error
      [guard (sink_key s \<in> set seen) (Invalid ''outputs[%d]: duplicate sink'' [i]),
       guard (sk_Type s = ''file'' \<and> sk_Path s = []) (Invalid ''outputs[%d]: type=file requires path'' [i]),
       guard (sk_Type s = ''loki'' \<and> (LokiURL (sk_Loki s) = [] \<or> LokiLabels (sk_Loki s) = []))
         (Invalid ''outputs[%d]: type=loki requires loki_url and loki_labels'' [i]),
       guard (sk_Type s = ''splunk'' \<and> (SplunkURL (sk_Splunk s) = [] \<or> SplunkToken (sk_Splunk s) = []))
         (Invalid ''outputs[%d]: type=splunk requires splunk_url and splunk_token'' [i]),
       guard (sk_Type s = ''datadog'' \<and> (DatadogURL (sk_Datadog s) = [] \<or> DatadogAPIKey (sk_Datadog s) = []))
         (Invalid ''outputs[%d]: type=datadog requires datadog_url and datadog_api_key'' [i]),
       guard (sk_Format s \<notin> set sink_formats) (Invalid ''outputs[%d]: unknown format'' [i]),
       guard (sk_Format s = ''raw-line'' \<and> sk_Type s \<noteq> ''sentinel-threat'')
         (Invalid ''outputs[%d]: format=raw-line is only valid for type=sentinel-threat'' [i]),
       sinks_loop (i + 1) (sink_key s # seen) sinks]"

definition validateSinks :: "SinkConfig list \<Rightarrow> config_error + unit" where
  "validateSinks sinks = sinks_loop 0 [] sinks"

definition validateTransportConfig :: "TransportConfig \<Rightarrow> config_error + unit" where
  "validateTransportConfig t =
    (if \<not> tr_Enabled t then Inr ()
     else first_error
       ([guard (tr_IdentityPath t = []) (Invalid ''transport.identity must be set'' []),
         guard (tr_KnownNodesPath t = []) (Invalid ''transport.known_nodes must be set'' []),
         guard (tr_Listen t = []) (Invalid ''transport.listen must be set'' [])]
        @ map (\<lambda>(i, p). guard (peer_Host p = []) (Invalid ''transport.peers[%d].host must not be empty'' [i]))
            (enumerate 0 (tr_Peers t))
        @ [guard (tr_Peers t \<noteq> [] \<and> tr_PairingSecret t = []) (Invalid ''transport.pairing_secret must be set'' [])]))"

definition checkQueue :: "(QueueConfig \<Rightarrow> string) \<Rightarrow> TransportConfig \<Rightarrow> string \<Rightarrow> nat list \<Rightarrow> QueueConfig option
    \<Rightarrow> config_error + unit" where
  "checkQueue mode t loc ixs q =
    (case q of
       None \<Rightarrow> Inr ()
     | Some q \<Rightarrow>
         if q_Type q \<noteq> ''transport'' then Inr ()
         else first_error
           [guard (\<not> tr_Enabled t) (Invalid (loc @ '': queue.type=transport requires transport.enabled'') ixs),
            if mode q \<noteq> ''recv'' then first_error
              [guard (q_Peer q = []) (Invalid (loc @ '': queue.peer is required'') ixs),
               guard (q_Peer q \<notin> set (map peer_Host (tr_Peers t))) (Invalid (loc @ '': queue.peer does not match any peer'') ixs)]
            else Inr ()])"

definition validateTransportWiring :: "(QueueConfig \<Rightarrow> string) \<Rightarrow> 'y Config \<Rightarrow> config_error + unit" where
  "validateTransportWiring mode cfg =
    (let check = checkQueue mode (cfg_Transport cfg);
         checkOutputs = (\<lambda>prefix ixs outs. first_error (map (\<lambda>(i, o'). check prefix (ixs @ [i]) (sk_Queue o')) (enumerate 0 outs)));
         checkInputs = (\<lambda>prefix ixs ins. first_error (map (\<lambda>(i, inp). check prefix (ixs @ [i]) (in_Queue inp)) (enumerate 0 ins)))
     in first_error
       ([checkOutputs ''outputs'' [] (cfg_Outputs cfg), checkInputs ''inputs'' [] (cfg_Inputs cfg)]
        @ map (\<lambda>(i, s). first_error
            ([checkOutputs ''streams[%d].outputs'' [i] (sm_Outputs s), checkInputs ''streams[%d].inputs'' [i] (sm_Inputs s)]
             @ map (\<lambda>(j, p). first_error
                 [checkOutputs ''streams[%d].pipelines[%d].outputs'' [i, j] (pl_Outputs p),
                  checkInputs ''streams[%d].pipelines[%d].inputs'' [i, j] (pl_Inputs p)]) (enumerate 0 (sm_Pipelines s))))
            (enumerate 0 (cfg_Streams cfg))
        @ map (\<lambda>(i, ex). first_error
            (map (\<lambda>(j, src). check ''executors[%d].sources[%d]'' [i, j] (es_Queue src)) (enumerate 0 (ex_Sources ex))))
            (enumerate 0 (cfg_Executors cfg))))"

definition scoring_checks :: "'y Config \<Rightarrow> config_error + unit" where
  "scoring_checks cfg =
    (let sc = cfg_Scoring cfg
     in first_error
      [guard (AlertThreshold sc \<le> 0) (Invalid ''scoring.alert_threshold must be > 0'' []),
       guard (BanThreshold sc \<le> 0) (Invalid ''scoring.ban_threshold must be > 0'' []),
       guard (BanThreshold sc \<le> AlertThreshold sc) (Invalid ''scoring.ban_threshold must be > alert_threshold'' []),
       guard (ObservationWindow sc \<le> 0) (Invalid ''scoring.observation_window must be > 0'' []),
       guard (MaxTrackedIPs (cfg_State cfg) \<le> 0) (Invalid ''state.max_tracked_ips must be > 0'' [])])"

definition detector_checks :: "DetectorsConfig \<Rightarrow> config_error + unit" where
  "detector_checks d =
    (let pos = (\<lambda>enabled name v. guard (enabled \<and> v \<le> (0 :: int)) (Invalid name [])) in first_error
      [pos (pb_Enabled (de_Probe d)) ''detectors.probe.score must be > 0'' (pb_Score (de_Probe d)),
       pos (bc_Enabled (de_Bruteforce d)) ''detectors.bruteforce.min_requests must be > 0'' (bc_MinRequests (de_Bruteforce d)),
       pos (bc_Enabled (de_Bruteforce d)) ''detectors.bruteforce.score must be > 0'' (bc_Score (de_Bruteforce d)),
       pos (cw_Enabled (de_Crawler d)) ''detectors.crawler.min_sequential must be > 0'' (cw_MinSequential (de_Crawler d)),
       pos (cw_Enabled (de_Crawler d)) ''detectors.crawler.score must be > 0'' (cw_Score (de_Crawler d)),
       pos (nc_Enabled (de_NoAsset d)) ''detectors.noasset.min_page_requests must be > 0'' (nc_MinPageRequests (de_NoAsset d)),
       pos (nc_Enabled (de_NoAsset d)) ''detectors.noasset.score must be > 0'' (nc_Score (de_NoAsset d)),
       pos (rc_Enabled (de_Rate d)) ''detectors.rate.threshold must be > 0'' (rc_Threshold (de_Rate d)),
       pos (rc_Enabled (de_Rate d)) ''detectors.rate.window must be > 0'' (rc_Window (de_Rate d)),
       pos (rc_Enabled (de_Rate d)) ''detectors.rate.score must be > 0'' (rc_Score (de_Rate d)),
       pos (uc_Enabled (de_UserAgent d)) ''detectors.useragent.scanner_score must be > 0'' (uc_ScannerScore (de_UserAgent d)),
       pos (uc_Enabled (de_UserAgent d)) ''detectors.useragent.grabber_score must be > 0'' (uc_GrabberScore (de_UserAgent d)),
       pos (uc_Enabled (de_UserAgent d)) ''detectors.useragent.automation_score must be > 0'' (uc_AutomationScore (de_UserAgent d)),
       pos (uc_Enabled (de_UserAgent d)) ''detectors.useragent.empty_ua_score must be > 0'' (uc_EmptyUAScore (de_UserAgent d)),
       pos (oc_Enabled (de_Overflow d)) ''detectors.overflow.max_url_length must be > 0'' (oc_MaxURLLength (de_Overflow d)),
       pos (oc_Enabled (de_Overflow d)) ''detectors.overflow.score must be > 0'' (oc_Score (de_Overflow d)),
       pos (bb_Enabled (de_BadBot d)) ''detectors.badbot.score must be > 0'' (bb_Score (de_BadBot d))])"

definition list_checks :: "nat \<times> ListConfig \<Rightarrow> config_error + unit" where
  "list_checks = (\<lambda>(i, l). first_error
    ([guard (lc_Name l = []) (Invalid ''blocklist.lists[%d].name must not be empty'' [i]),
      guard (lc_RefreshInterval l \<le> 0) (Invalid ''blocklist.lists[%d]: refresh_interval must be > 0'' [i]),
      guard (lc_Sources l = []) (Invalid ''blocklist.lists[%d]: must have at least one source'' [i])]
     @ map (\<lambda>(j, src). guard (bs_URL src = []) (Invalid ''blocklist.lists[%d] sources[%d]: url must not be empty'' [i, j]))
         (enumerate 0 (lc_Sources l))))"

fun pipelines_loop :: "nat \<Rightarrow> nat \<Rightarrow> string list \<Rightarrow> 'y PipelineConfig list \<Rightarrow> config_error + unit" where
  "pipelines_loop i j names [] = Inr ()"
| "pipelines_loop i j names (p # ps) =
    first_error
      [guard (pl_Name p \<noteq> [] \<and> pl_Name p \<in> set names) (Invalid ''streams[%d]: duplicate pipeline name'' [i]),
       guard (pl_Inputs p = []) (Invalid ''streams[%d].pipelines[%d]: must have at least one input'' [i, j]),
       guard (pl_Outputs p = []) (Invalid ''streams[%d].pipelines[%d]: must have at least one output'' [i, j]),
       validateInputs (pl_Inputs p),
       validateSinks (pl_Outputs p),
       pipelines_loop i (j + 1) (if pl_Name p \<noteq> [] then pl_Name p # names else names) ps]"

definition stream_checks :: "nat \<times> 'y StreamConfig \<Rightarrow> config_error + unit" where
  "stream_checks = (\<lambda>(i, s). first_error
    [guard (sm_Pipelines s = []) (Invalid ''streams[%d]: must have at least one pipeline'' [i]),
     pipelines_loop i 0 [] (sm_Pipelines s)])"

definition validateConfig :: "(QueueConfig \<Rightarrow> string) \<Rightarrow> 'y Config \<Rightarrow> config_error + unit" where
  "validateConfig mode cfg = first_error
    ([first_error (map (\<lambda>s. guard (sk_Name s \<noteq> [] \<and> isIPLike (sk_Name s))
        (Invalid ''outputs: sink name looks like an IP address'' [])) (cfg_Outputs cfg)),
      unique_loop (Invalid ''executors: duplicate executor name'' []) [] (map ex_Name (cfg_Executors cfg)),
      scoring_checks cfg,
      detector_checks (cfg_Detectors cfg),
      first_error (map list_checks (enumerate 0 (bl_Lists (cfg_Blocklist cfg)))),
      guard (cg_Enabled (cfg_ChainGuard cfg) \<and> cg_WarningsLog (cfg_ChainGuard cfg) = [])
        (Invalid ''chain_guard.warnings_log must be set when chain_guard is enabled'' []),
      guard (cg_CloudflareEnabled (cfg_ChainGuard cfg) \<and> cg_Sources (cfg_ChainGuard cfg) = [])
        (Invalid ''chain_guard.cloudflare.sources must not be empty'' []),
      guard (me_Username (cfg_Metrics cfg) \<noteq> [] \<and> me_PasswordHash (cfg_Metrics cfg) = [])
        (Invalid ''metrics.password_hash must be set when metrics.username is configured'' []),
      first_error (map stream_checks (enumerate 0 (cfg_Streams cfg))),
      validateInputs (cfg_Inputs cfg),
      validateSinks (cfg_Outputs cfg),
      guard (BufferSize (cfg_Pipeline cfg) < 0) (Invalid ''pipeline.buffer_size must be >= 0'' []),
      guard (ShutdownTimeout (cfg_Pipeline cfg) < 0) (Invalid ''pipeline.shutdown_timeout must be >= 0'' []),
      validateTransportConfig (cfg_Transport cfg),
      validateTransportWiring mode cfg])"

section \<open>Loading\<close>

datatype file_result = NotFound | ReadFails string | Content string

record 'y load_env =
  le_env :: env
  le_read :: "string \<Rightarrow> file_result"
  le_unmarshal :: "string \<Rightarrow> 'y Config \<Rightarrow> string + 'y Config"
  le_mode :: "QueueConfig \<Rightarrow> string"

text \<open>Without streams, the log file of the general section, by default the nginx log, becomes one stream.\<close>

definition synthesize_stream :: "'y Config \<Rightarrow> 'y Config" where
  "synthesize_stream cfg =
    (if cfg_Streams cfg \<noteq> [] then cfg
     else
       let cfg = (if ge_LogFile (cfg_General cfg) = []
             then cfg\<lparr>cfg_General := (cfg_General cfg)\<lparr>ge_LogFile := ''/var/log/nginx/access.log''\<rparr>\<rparr> else cfg)
       in cfg\<lparr>cfg_Streams := [zero_stream\<lparr>sm_LogFile := ge_LogFile (cfg_General cfg),
                 sm_ThreatLog := ou_ThreatLog (cfg_Output cfg)\<rparr>]\<rparr>)"

definition load_overlaid :: "'y load_env \<Rightarrow> 'y Config \<Rightarrow> config_error + (deprecation list \<times> 'y Config)" where
  "load_overlaid le cfg =
    (case applyEnvOverrides (le_env le) cfg of
       Inl err \<Rightarrow> Inl err
     | Inr cfg \<Rightarrow>
         let cfg = cfg\<lparr>cfg_Parser := (cfg_Parser cfg)\<lparr>pa_LogFormat := to_lower (pa_LogFormat (cfg_Parser cfg))\<rparr>\<rparr>
         in if ge_LogFile (cfg_General cfg) \<noteq> [] \<and> cfg_Streams cfg \<noteq> [] then Inl LogFileAndStreams
            else
              let (warnings, cfg) = Migrate (synthesize_stream cfg)
              in case validateConfig (le_mode le) cfg of Inl err \<Rightarrow> Inl err | Inr u \<Rightarrow> Inr (warnings, cfg))"

definition LoadConfig :: "'y load_env \<Rightarrow> string \<Rightarrow> config_error + (deprecation list \<times> 'y Config)" where
  "LoadConfig le path =
    (case le_read le path of
       ReadFails err \<Rightarrow> Inl (ReadError err)
     | NotFound \<Rightarrow> load_overlaid le defaultConfig
     | Content data \<Rightarrow>
         (case le_unmarshal le data defaultConfig of
            Inl err \<Rightarrow> Inl (YamlError err)
          | Inr cfg \<Rightarrow> load_overlaid le cfg))"

section \<open>The migration settles\<close>

text \<open>A stream another migration would not change.\<close>

definition settled :: "PipelineRuntimeConfig \<Rightarrow> 'y StreamConfig \<Rightarrow> bool" where
  "settled rt s \<longleftrightarrow> (sm_Inputs s \<noteq> [] \<or> sm_LogFile s = []) \<and> (sm_Outputs s \<noteq> [] \<or> sm_ThreatLog s = [])
    \<and> wrap_stream rt s = s \<and> propagate_processors s = s"

lemma migrate_stream_fields [simp]:
  "sm_LogFile (snd (migrate_stream f i s)) = sm_LogFile s" "sm_ThreatLog (snd (migrate_stream f i s)) = sm_ThreatLog s"
  "sm_Executors (snd (migrate_stream f i s)) = sm_Executors s" "sm_Pipelines (snd (migrate_stream f i s)) = sm_Pipelines s"
  "sm_Name (snd (migrate_stream f i s)) = sm_Name s" "sm_Processors (snd (migrate_stream f i s)) = sm_Processors s"
  by (simp_all add: migrate_stream_def)

lemma wrap_stream_fields [simp]:
  "sm_LogFile (wrap_stream rt s) = sm_LogFile s" "sm_ThreatLog (wrap_stream rt s) = sm_ThreatLog s"
  "sm_Inputs (wrap_stream rt s) = sm_Inputs s" "sm_Outputs (wrap_stream rt s) = sm_Outputs s"
  "sm_Executors (wrap_stream rt s) = sm_Executors s" "sm_Name (wrap_stream rt s) = sm_Name s"
  by (simp_all add: wrap_stream_def Let_def)

lemma propagate_fields [simp]:
  "sm_LogFile (propagate_processors s) = sm_LogFile s" "sm_ThreatLog (propagate_processors s) = sm_ThreatLog s"
  "sm_Inputs (propagate_processors s) = sm_Inputs s" "sm_Outputs (propagate_processors s) = sm_Outputs s"
  "sm_Executors (propagate_processors s) = sm_Executors s" "sm_Name (propagate_processors s) = sm_Name s"
  "sm_Pipelines (propagate_processors s) = [] \<longleftrightarrow> sm_Pipelines s = []"
  by (simp_all add: propagate_processors_def)

lemma propagate_idem [simp]: "propagate_processors (propagate_processors s) = propagate_processors s"
  by (auto simp: propagate_processors_def comp_def)

lemma wrap_after: "wrap_stream rt (propagate_processors (wrap_stream rt s)) = propagate_processors (wrap_stream rt s)"
proof (cases "sm_Pipelines (wrap_stream rt s) = []")
  case True
  then have "wrap_stream rt s = s" by (simp add: wrap_stream_def Let_def split: if_splits)
  moreover from this have "propagate_processors s = s" using True by (simp add: propagate_processors_def)
  ultimately show ?thesis by simp
next
  case False
  then have "sm_Pipelines (propagate_processors (wrap_stream rt s)) \<noteq> []" by simp
  then show ?thesis by (simp add: wrap_stream_def [of rt "propagate_processors (wrap_stream rt s)"])
qed

lemma settled_after: "settled rt (propagate_processors (wrap_stream rt (snd (migrate_stream f i s))))"
  by (simp add: settled_def wrap_after) (simp add: migrate_stream_def)

lemma settled_fix: "settled rt s \<Longrightarrow> migrate_stream f i s = ([], s) \<and> propagate_processors (wrap_stream rt s) = s"
  by (auto simp: settled_def migrate_stream_def)

lemma runtime_defaults_idem [simp]: "runtime_defaults (runtime_defaults rt) = runtime_defaults rt"
  by (simp add: runtime_defaults_def second_def)

lemma migrate_top_fields [simp]:
  "cfg_Streams (snd (migrate_top cfg)) = cfg_Streams cfg" "cfg_Pipeline (snd (migrate_top cfg)) = cfg_Pipeline cfg"
  "cfg_Parser (snd (migrate_top cfg)) = cfg_Parser cfg" "cfg_General (snd (migrate_top cfg)) = cfg_General cfg"
  "cfg_Inputs (snd (migrate_top cfg)) \<noteq> []" "cfg_Outputs (snd (migrate_top cfg)) \<noteq> []"
  by (simp_all add: migrate_top_def split_beta Let_def)

lemma migrate_top_fix: "cfg_Inputs cfg \<noteq> [] \<Longrightarrow> cfg_Outputs cfg \<noteq> [] \<Longrightarrow> migrate_top cfg = ([], cfg)"
  by (simp add: migrate_top_def)

definition migrated_streams :: "'y Config \<Rightarrow> 'y StreamConfig list" where
  "migrated_streams cfg =
    map (\<lambda>(i, s). propagate_processors (wrap_stream (runtime_defaults (cfg_Pipeline cfg))
      (snd (migrate_stream (pa_LogFormat (cfg_Parser cfg)) i s)))) (enumerate 0 (cfg_Streams cfg))"

lemma Migrate_snd:
  "snd (Migrate cfg) = (snd (migrate_top cfg))\<lparr>cfg_Streams := migrated_streams cfg,
     cfg_Pipeline := runtime_defaults (cfg_Pipeline cfg)\<rparr>"
  by (simp add: Migrate_def split_beta Let_def migrated_streams_def comp_def)

lemma migrated_settled: "s \<in> set (migrated_streams cfg) \<Longrightarrow> settled (runtime_defaults (cfg_Pipeline cfg)) s"
  by (auto simp: migrated_streams_def settled_after)

lemma map_enumerate_id: "(\<And>i x. x \<in> set xs \<Longrightarrow> f (i, x) = x) \<Longrightarrow> map f (enumerate n xs) = xs"
  by (induction xs arbitrary: n) auto

lemma concat_enumerate_Nil: "(\<And>i x. x \<in> set xs \<Longrightarrow> f (i, x) = []) \<Longrightarrow> concat (map f (enumerate n xs)) = []"
  by (induction xs arbitrary: n) auto

lemma Migrate_settles: "Migrate (snd (Migrate cfg)) = ([], snd (Migrate cfg))"
proof -
  let ?c = "snd (Migrate cfg)" and ?rt = "runtime_defaults (cfg_Pipeline cfg)"
  have top: "migrate_top ?c = ([], ?c)" by (rule migrate_top_fix) (simp_all add: Migrate_snd)
  have stable: "migrate_stream f i s = ([], s) \<and> propagate_processors (wrap_stream ?rt s) = s"
    if "s \<in> set (cfg_Streams ?c)" for f i s
    using that by (intro settled_fix) (simp add: Migrate_snd migrated_settled)
  have rt: "runtime_defaults (cfg_Pipeline ?c) = ?rt" "cfg_Pipeline ?c = ?rt" by (simp_all add: Migrate_snd)
  have "map (\<lambda>(i, s). propagate_processors (wrap_stream ?rt (snd (migrate_stream f i s)))) (enumerate 0 (cfg_Streams ?c)) = cfg_Streams ?c"
    for f using stable by (intro map_enumerate_id) auto
  moreover have "concat (map (\<lambda>(i, s). fst (migrate_stream f i s)) (enumerate 0 (cfg_Streams ?c))) = []"
    for f using stable by (intro concat_enumerate_Nil) auto
  ultimately show ?thesis
    by (simp add: Migrate_def [of ?c] top split_beta Let_def rt comp_def case_prod_unfold)
qed

text \<open>C33: Migrating a configuration twice is the same as migrating it once, and the second migration
  has nothing to report.\<close>

theorem Migrate_idempotent: "Migrate (snd (Migrate cfg)) = ([], snd (Migrate cfg))"
  by (rule Migrate_settles)

section \<open>What a valid configuration is\<close>

definition http_ok :: "InputConfig \<Rightarrow> bool" where
  "http_ok inp \<longleftrightarrow>
    (let pull = (in_Mode inp = ''pull''); url = (if pull then in_URL inp else in_Addr inp)
     in in_Mode inp \<in> {[], ''push'', ''pull''} \<and> url \<noteq> [] \<and> in_Protocol inp \<noteq> [] \<and> (pull \<longrightarrow> in_PullInterval inp \<noteq> [])
      \<and> (has_prefix url ''https://'' \<longrightarrow> in_TLSCert inp \<noteq> [] \<and> in_TLSKey inp \<noteq> [])
      \<and> (in_Protocol inp = ''ndjson'' \<longrightarrow> in_EnvelopeField inp \<noteq> []))"

definition input_ok :: "InputConfig \<Rightarrow> bool" where
  "input_ok inp \<longleftrightarrow> in_Type inp \<in> set input_types \<and> (in_Type inp = ''syslog'' \<longrightarrow> in_Addr inp \<noteq> [])
    \<and> (in_Type inp = ''http'' \<longrightarrow> http_ok inp) \<and> (in_Type inp = ''file'' \<longrightarrow> in_Path inp \<noteq> [])"

definition inputs_ok :: "InputConfig list \<Rightarrow> bool" where
  "inputs_ok ins \<longleftrightarrow> list_all input_ok ins \<and> distinct (map input_key ins)"

definition sink_ok :: "SinkConfig \<Rightarrow> bool" where
  "sink_ok s \<longleftrightarrow> (sk_Type s = ''file'' \<longrightarrow> sk_Path s \<noteq> [])
    \<and> (sk_Type s = ''loki'' \<longrightarrow> LokiURL (sk_Loki s) \<noteq> [] \<and> LokiLabels (sk_Loki s) \<noteq> [])
    \<and> (sk_Type s = ''splunk'' \<longrightarrow> SplunkURL (sk_Splunk s) \<noteq> [] \<and> SplunkToken (sk_Splunk s) \<noteq> [])
    \<and> (sk_Type s = ''datadog'' \<longrightarrow> DatadogURL (sk_Datadog s) \<noteq> [] \<and> DatadogAPIKey (sk_Datadog s) \<noteq> [])
    \<and> sk_Format s \<in> set sink_formats \<and> (sk_Format s = ''raw-line'' \<longrightarrow> sk_Type s = ''sentinel-threat'')"

definition sinks_ok :: "SinkConfig list \<Rightarrow> bool" where
  "sinks_ok ss \<longleftrightarrow> list_all sink_ok ss \<and> distinct (map sink_key ss)"

definition transport_ok :: "TransportConfig \<Rightarrow> bool" where
  "transport_ok t \<longleftrightarrow> (tr_Enabled t \<longrightarrow> tr_IdentityPath t \<noteq> [] \<and> tr_KnownNodesPath t \<noteq> [] \<and> tr_Listen t \<noteq> []
    \<and> list_all (\<lambda>p. peer_Host p \<noteq> []) (tr_Peers t) \<and> (tr_Peers t \<noteq> [] \<longrightarrow> tr_PairingSecret t \<noteq> []))"

definition queue_ok :: "(QueueConfig \<Rightarrow> string) \<Rightarrow> TransportConfig \<Rightarrow> QueueConfig option \<Rightarrow> bool" where
  "queue_ok mode t q = (case q of None \<Rightarrow> True
     | Some q \<Rightarrow> q_Type q = ''transport'' \<longrightarrow>
         tr_Enabled t \<and> (mode q \<noteq> ''recv'' \<longrightarrow> q_Peer q \<noteq> [] \<and> q_Peer q \<in> set (map peer_Host (tr_Peers t))))"

text \<open>Every queue setting of a configuration.\<close>

definition all_queues :: "'y Config \<Rightarrow> QueueConfig option list" where
  "all_queues cfg = map sk_Queue (cfg_Outputs cfg) @ map in_Queue (cfg_Inputs cfg)
    @ concat (map (\<lambda>s. map sk_Queue (sm_Outputs s) @ map in_Queue (sm_Inputs s)
        @ concat (map (\<lambda>p. map sk_Queue (pl_Outputs p) @ map in_Queue (pl_Inputs p)) (sm_Pipelines s))) (cfg_Streams cfg))
    @ concat (map (\<lambda>ex. map es_Queue (ex_Sources ex)) (cfg_Executors cfg))"

definition detectors_ok :: "DetectorsConfig \<Rightarrow> bool" where
  "detectors_ok d \<longleftrightarrow> (pb_Enabled (de_Probe d) \<longrightarrow> 0 < pb_Score (de_Probe d))
    \<and> (bc_Enabled (de_Bruteforce d) \<longrightarrow> 0 < bc_MinRequests (de_Bruteforce d) \<and> 0 < bc_Score (de_Bruteforce d))
    \<and> (cw_Enabled (de_Crawler d) \<longrightarrow> 0 < cw_MinSequential (de_Crawler d) \<and> 0 < cw_Score (de_Crawler d))
    \<and> (nc_Enabled (de_NoAsset d) \<longrightarrow> 0 < nc_MinPageRequests (de_NoAsset d) \<and> 0 < nc_Score (de_NoAsset d))
    \<and> (rc_Enabled (de_Rate d) \<longrightarrow> 0 < rc_Threshold (de_Rate d) \<and> 0 < rc_Window (de_Rate d) \<and> 0 < rc_Score (de_Rate d))
    \<and> (uc_Enabled (de_UserAgent d) \<longrightarrow> 0 < uc_ScannerScore (de_UserAgent d) \<and> 0 < uc_GrabberScore (de_UserAgent d)
         \<and> 0 < uc_AutomationScore (de_UserAgent d) \<and> 0 < uc_EmptyUAScore (de_UserAgent d))
    \<and> (oc_Enabled (de_Overflow d) \<longrightarrow> 0 < oc_MaxURLLength (de_Overflow d) \<and> 0 < oc_Score (de_Overflow d))
    \<and> (bb_Enabled (de_BadBot d) \<longrightarrow> 0 < bb_Score (de_BadBot d))"

definition scoring_ok :: "'y Config \<Rightarrow> bool" where
  "scoring_ok cfg \<longleftrightarrow> 0 < AlertThreshold (cfg_Scoring cfg) \<and> AlertThreshold (cfg_Scoring cfg) < BanThreshold (cfg_Scoring cfg)
    \<and> 0 < ObservationWindow (cfg_Scoring cfg) \<and> 0 < MaxTrackedIPs (cfg_State cfg)"

definition list_ok :: "ListConfig \<Rightarrow> bool" where
  "list_ok l \<longleftrightarrow> lc_Name l \<noteq> [] \<and> 0 < lc_RefreshInterval l \<and> lc_Sources l \<noteq> [] \<and> list_all (\<lambda>src. bs_URL src \<noteq> []) (lc_Sources l)"

definition pipeline_ok :: "'y PipelineConfig \<Rightarrow> bool" where
  "pipeline_ok p \<longleftrightarrow> pl_Inputs p \<noteq> [] \<and> pl_Outputs p \<noteq> [] \<and> inputs_ok (pl_Inputs p) \<and> sinks_ok (pl_Outputs p)"

definition stream_ok :: "'y StreamConfig \<Rightarrow> bool" where
  "stream_ok s \<longleftrightarrow> sm_Pipelines s \<noteq> [] \<and> list_all pipeline_ok (sm_Pipelines s)
    \<and> distinct (filter (\<lambda>n. n \<noteq> []) (map pl_Name (sm_Pipelines s)))"

definition config_ok :: "(QueueConfig \<Rightarrow> string) \<Rightarrow> 'y Config \<Rightarrow> bool" where
  "config_ok mode cfg \<longleftrightarrow> scoring_ok cfg \<and> detectors_ok (cfg_Detectors cfg)
    \<and> list_all stream_ok (cfg_Streams cfg) \<and> inputs_ok (cfg_Inputs cfg) \<and> sinks_ok (cfg_Outputs cfg)
    \<and> list_all (\<lambda>s. sk_Name s = [] \<or> ParseIP (sk_Name s) = None) (cfg_Outputs cfg)
    \<and> distinct (map ex_Name (cfg_Executors cfg)) \<and> list_all list_ok (bl_Lists (cfg_Blocklist cfg))
    \<and> (cg_Enabled (cfg_ChainGuard cfg) \<longrightarrow> cg_WarningsLog (cfg_ChainGuard cfg) \<noteq> [])
    \<and> (cg_CloudflareEnabled (cfg_ChainGuard cfg) \<longrightarrow> cg_Sources (cfg_ChainGuard cfg) \<noteq> [])
    \<and> (me_Username (cfg_Metrics cfg) \<noteq> [] \<longrightarrow> me_PasswordHash (cfg_Metrics cfg) \<noteq> [])
    \<and> 0 \<le> BufferSize (cfg_Pipeline cfg) \<and> 0 \<le> ShutdownTimeout (cfg_Pipeline cfg)
    \<and> transport_ok (cfg_Transport cfg) \<and> list_all (queue_ok mode (cfg_Transport cfg)) (all_queues cfg)"

section \<open>The chain of checks decides validity\<close>

lemma first_error_ok: "first_error rs = Inr u \<longleftrightarrow> list_all (\<lambda>r. r = Inr ()) rs"
  by (induction rs) (auto split: sum.split)

lemma guard_ok: "guard b e = Inr u \<longleftrightarrow> \<not> b"
  by (simp add: guard_def)

declare first_error.simps [simp del]

lemmas check_simps = first_error_ok guard_ok

lemma checks_enumerate:
  "(\<And>i x. f (i, x) = Inr () \<longleftrightarrow> Q x) \<Longrightarrow> list_all (\<lambda>r. r = Inr ()) (map f (enumerate n xs)) \<longleftrightarrow> list_all Q xs"
  by (induction xs arbitrary: n) auto

lemma unique_loop_ok: "unique_loop e seen xs = Inr u \<longleftrightarrow> distinct xs \<and> set seen \<inter> set xs = {}"
  by (induction e seen xs rule: unique_loop.induct) auto

lemma http_checks_ok: "http_checks i inp = Inr () \<longleftrightarrow> http_ok inp"
  by (auto simp: http_checks_def http_ok_def tls_checks_def check_simps Let_def split: if_splits)

lemma inputs_loop_ok:
  "inputs_loop i seen ins = Inr () \<longleftrightarrow> list_all input_ok ins \<and> distinct (map input_key ins) \<and> set seen \<inter> input_key ` set ins = {}"
proof (induction ins arbitrary: i seen)
  case (Cons inp ins)
  have "input_ok inp \<longleftrightarrow> in_Type inp \<in> set input_types \<and> (in_Type inp = ''syslog'' \<longrightarrow> in_Addr inp \<noteq> [])
      \<and> (if in_Type inp = ''http'' then http_checks i inp else Inr ()) = Inr () \<and> (in_Type inp = ''file'' \<longrightarrow> in_Path inp \<noteq> [])"
    by (simp add: input_ok_def http_checks_ok)
  then show ?case
    by (simp only: inputs_loop.simps check_simps list.pred_inject Cons.IH not_not) auto
qed simp

lemma sinks_loop_ok:
  "sinks_loop i seen ss = Inr () \<longleftrightarrow> list_all sink_ok ss \<and> distinct (map sink_key ss) \<and> set seen \<inter> sink_key ` set ss = {}"
proof (induction ss arbitrary: i seen)
  case (Cons s ss)
  show ?case by (simp only: sinks_loop.simps check_simps list.pred_inject Cons.IH not_not sink_ok_def) auto
qed simp

lemma validateInputs_ok: "validateInputs ins = Inr () \<longleftrightarrow> inputs_ok ins"
  by (simp add: validateInputs_def inputs_loop_ok inputs_ok_def)

lemma validateSinks_ok: "validateSinks ss = Inr () \<longleftrightarrow> sinks_ok ss"
  by (simp add: validateSinks_def sinks_loop_ok sinks_ok_def)

lemma transport_checks_ok: "validateTransportConfig t = Inr () \<longleftrightarrow> transport_ok t"
proof -
  have "list_all (\<lambda>r. r = Inr ()) (map (\<lambda>(i, p). guard (peer_Host p = []) (Invalid m [i])) (enumerate 0 (tr_Peers t)))
      \<longleftrightarrow> list_all (\<lambda>p. peer_Host p \<noteq> []) (tr_Peers t)" for m
    by (rule checks_enumerate) (simp add: check_simps)
  then show ?thesis by (auto simp: validateTransportConfig_def transport_ok_def check_simps)
qed

lemma checkQueue_ok: "checkQueue mode t loc ixs q = Inr () \<longleftrightarrow> queue_ok mode t q"
  by (auto simp: checkQueue_def queue_ok_def check_simps split: option.split)

lemma detector_checks_ok: "detector_checks d = Inr () \<longleftrightarrow> detectors_ok d"
proof -
  have "guard (b \<and> v \<le> 0) e = Inr () \<longleftrightarrow> (b \<longrightarrow> 0 < v)" for b and e :: config_error and v :: int by (auto simp: guard_ok)
  then show ?thesis
    by (simp only: detector_checks_def detectors_ok_def first_error_ok Let_def list.pred_inject imp_conjR conj_assoc simp_thms)
qed

lemma list_checks_ok: "list_checks (i, l) = Inr () \<longleftrightarrow> list_ok l"
proof -
  have "list_all (\<lambda>r. r = Inr ()) (map (\<lambda>(j, src). guard (bs_URL src = []) (Invalid m [i, j])) (enumerate 0 (lc_Sources l)))
      \<longleftrightarrow> list_all (\<lambda>src. bs_URL src \<noteq> []) (lc_Sources l)" for m
    by (rule checks_enumerate) (simp add: check_simps)
  then show ?thesis by (simp add: list_checks_def list_ok_def check_simps not_le)
qed

lemma pipelines_loop_ok:
  "pipelines_loop i j names ps = Inr () \<longleftrightarrow> list_all pipeline_ok ps
    \<and> distinct (filter (\<lambda>n. n \<noteq> []) (map pl_Name ps)) \<and> set names \<inter> (pl_Name ` set ps - {[]}) = {}"
proof (induction ps arbitrary: j names)
  case (Cons p ps)
  show ?case
    by (simp only: pipelines_loop.simps check_simps list.pred_inject Cons.IH not_not pipeline_ok_def
        validateInputs_ok validateSinks_ok) auto
qed simp

lemma stream_checks_ok: "stream_checks (i, s) = Inr () \<longleftrightarrow> stream_ok s"
  by (simp add: stream_checks_def stream_ok_def check_simps pipelines_loop_ok)

lemma scoring_checks_ok: "scoring_checks cfg = Inr () \<longleftrightarrow> scoring_ok cfg"
  by (auto simp: scoring_checks_def scoring_ok_def check_simps Let_def)

lemma wiring_ok: "validateTransportWiring mode cfg = Inr () \<longleftrightarrow> list_all (queue_ok mode (cfg_Transport cfg)) (all_queues cfg)"
proof -
  let ?q = "queue_ok mode (cfg_Transport cfg)" and ?check = "checkQueue mode (cfg_Transport cfg)"
  have o: "list_all (\<lambda>r. r = Inr ()) (map (\<lambda>(i, o'). ?check prefix (ixs @ [i]) (sk_Queue o')) (enumerate 0 outs))
      \<longleftrightarrow> list_all (\<lambda>o'. ?q (sk_Queue o')) outs" for prefix ixs outs
    by (rule checks_enumerate) (simp add: checkQueue_ok)
  have i: "list_all (\<lambda>r. r = Inr ()) (map (\<lambda>(i, inp). ?check prefix (ixs @ [i]) (in_Queue inp)) (enumerate 0 ins))
      \<longleftrightarrow> list_all (\<lambda>inp. ?q (in_Queue inp)) ins" for prefix ixs ins
    by (rule checks_enumerate) (simp add: checkQueue_ok)
  have p: "list_all (\<lambda>r. r = Inr ()) (map (\<lambda>(j, p). first_error
        [first_error (map (\<lambda>(i, o'). ?check a (ixs j @ [i]) (sk_Queue o')) (enumerate 0 (pl_Outputs p))),
         first_error (map (\<lambda>(i, inp). ?check b (ixs j @ [i]) (in_Queue inp)) (enumerate 0 (pl_Inputs p)))]) (enumerate 0 ps))
      \<longleftrightarrow> list_all (\<lambda>p. list_all (\<lambda>o'. ?q (sk_Queue o')) (pl_Outputs p) \<and> list_all (\<lambda>inp. ?q (in_Queue inp)) (pl_Inputs p)) ps"
    for a b ixs and ps :: "'a PipelineConfig list"
    by (rule checks_enumerate) (simp add: first_error_ok o i)
  have s: "list_all (\<lambda>r. r = Inr ()) (map (\<lambda>(i, s). first_error
        ([first_error (map (\<lambda>(k, o'). ?check a ([i] @ [k]) (sk_Queue o')) (enumerate 0 (sm_Outputs s))),
          first_error (map (\<lambda>(k, inp). ?check b ([i] @ [k]) (in_Queue inp)) (enumerate 0 (sm_Inputs s)))]
         @ map (\<lambda>(j, p). first_error
           [first_error (map (\<lambda>(k, o'). ?check c ([i, j] @ [k]) (sk_Queue o')) (enumerate 0 (pl_Outputs p))),
            first_error (map (\<lambda>(k, inp). ?check d ([i, j] @ [k]) (in_Queue inp)) (enumerate 0 (pl_Inputs p)))]) (enumerate 0 (sm_Pipelines s))))
        (enumerate 0 ss))
      \<longleftrightarrow> list_all (\<lambda>s. list_all (\<lambda>o'. ?q (sk_Queue o')) (sm_Outputs s) \<and> list_all (\<lambda>inp. ?q (in_Queue inp)) (sm_Inputs s)
         \<and> list_all (\<lambda>p. list_all (\<lambda>o'. ?q (sk_Queue o')) (pl_Outputs p) \<and> list_all (\<lambda>inp. ?q (in_Queue inp)) (pl_Inputs p)) (sm_Pipelines s)) ss"
    for a b c d and ss :: "'a StreamConfig list"
    by (rule checks_enumerate) (simp only: first_error_ok o i p list_all_append list.pred_inject prod.case simp_thms conj_assoc)
  have e: "list_all (\<lambda>r. r = Inr ()) (map (\<lambda>(i, ex). first_error
        (map (\<lambda>(j, src). ?check a [i, j] (es_Queue src)) (enumerate 0 (ex_Sources ex)))) (enumerate 0 exs))
      \<longleftrightarrow> list_all (\<lambda>ex. list_all (\<lambda>src. ?q (es_Queue src)) (ex_Sources ex)) exs" for a and exs :: "'a ExecutorTopConfig list"
    by (rule checks_enumerate, simp only: first_error_ok prod.case, rule checks_enumerate) (simp add: checkQueue_ok)
  show ?thesis
    unfolding validateTransportWiring_def Let_def first_error_ok list_all_append list.pred_inject o i s e
    by (simp add: all_queues_def list_all_iff ball_Un conj_assoc)
qed

lemma validate_iff: "validateConfig mode cfg = Inr () \<longleftrightarrow> config_ok mode cfg"
proof -
  have l: "list_all (\<lambda>r. r = Inr ()) (map list_checks (enumerate 0 ls)) \<longleftrightarrow> list_all list_ok ls" for ls
    by (rule checks_enumerate) (rule list_checks_ok)
  have t: "list_all (\<lambda>r. r = Inr ()) (map stream_checks (enumerate 0 ss)) \<longleftrightarrow> list_all stream_ok ss" for ss :: "'a StreamConfig list"
    by (rule checks_enumerate) (rule stream_checks_ok)
  show ?thesis
    unfolding validateConfig_def first_error_ok list.pred_inject guard_ok l t unique_loop_ok scoring_checks_ok
      detector_checks_ok validateInputs_ok validateSinks_ok transport_checks_ok wiring_ok
    unfolding list.pred_map comp_def isIPLike_def guard_ok config_ok_def
    by (simp add: not_less) blast
qed

text \<open>C32: The chain of checks accepts a configuration exactly when it is valid: thresholds in order, every
  stream with named-apart pipelines that have distinct, complete inputs and outputs, every
  enabled detector with positive settings, and every transport queue with a known peer.\<close>

theorem validateConfig_exact: "validateConfig mode cfg = Inr () \<longleftrightarrow> config_ok mode cfg"
  by (rule validate_iff)

text \<open>The key that tells two inputs, or two sinks, apart ignores the address of a listener and the name
  of a channel: a second syslog listener and a second named channel are refused.\<close>

lemma second_listener_rejected:
  assumes "a \<noteq> []" "b \<noteq> []"
  shows "validateInputs [zero_input\<lparr>in_Type := ''syslog'', in_Addr := a\<rparr>, zero_input\<lparr>in_Type := ''syslog'', in_Addr := b\<rparr>]
      = Inl (Invalid ''inputs[%d]: duplicate source'' [1])"
    and "validateSinks [zero_sink\<lparr>sk_Type := ''sentinel-threat'', sk_Name := a\<rparr>, zero_sink\<lparr>sk_Type := ''sentinel-threat'', sk_Name := b\<rparr>]
      = Inl (Invalid ''outputs[%d]: duplicate sink'' [1])"
  using assms
  by (simp_all add: validateInputs_def validateSinks_def first_error.simps guard_def input_types_def input_key_def zero_input_def
      sink_key_def sink_formats_def zero_sink_def)

section \<open>What is loaded\<close>

lemma Migrate_keeps [simp]:
  "cfg_Scoring (snd (Migrate cfg)) = cfg_Scoring cfg" "cfg_State (snd (Migrate cfg)) = cfg_State cfg"
  "cfg_Detectors (snd (Migrate cfg)) = cfg_Detectors cfg" "cfg_Whitelist (snd (Migrate cfg)) = cfg_Whitelist cfg"
  by (simp_all add: Migrate_snd migrate_top_def split_beta Let_def)

lemma synthesize_keeps [simp]:
  "cfg_Scoring (synthesize_stream cfg) = cfg_Scoring cfg" "cfg_Streams (synthesize_stream cfg) \<noteq> []"
  by (simp_all add: synthesize_stream_def Let_def)

lemma Migrate_streams_nonempty: "cfg_Streams cfg \<noteq> [] \<Longrightarrow> cfg_Streams (snd (Migrate cfg)) \<noteq> []"
  by (simp add: Migrate_snd migrated_streams_def) (metis enumerate_simps(1) length_0_conv length_enumerate)

text \<open>The document over the defaults, or the defaults when there is no file.\<close>

definition overlaid :: "'y load_env \<Rightarrow> string \<Rightarrow> 'y Config option" where
  "overlaid le path =
    (case le_read le path of
       ReadFails err \<Rightarrow> None
     | NotFound \<Rightarrow> Some defaultConfig
     | Content data \<Rightarrow> (case le_unmarshal le data defaultConfig of Inl err \<Rightarrow> None | Inr cfg \<Rightarrow> Some cfg))"

lemma LoadConfig_inv:
  assumes "LoadConfig le path = Inr (ws, cfg)"
  obtains base c d where "overlaid le path = Some base" "applyEnvOverrides (le_env le) base = Inr c"
    "d = c\<lparr>cfg_Parser := (cfg_Parser c)\<lparr>pa_LogFormat := to_lower (pa_LogFormat (cfg_Parser c))\<rparr>\<rparr>"
    "ge_LogFile (cfg_General c) = [] \<or> cfg_Streams c = []"
    "Migrate (synthesize_stream d) = (ws, cfg)" "validateConfig (le_mode le) cfg = Inr ()"
proof -
  obtain base where b: "overlaid le path = Some base" "load_overlaid le base = Inr (ws, cfg)"
    using assms by (auto simp: LoadConfig_def overlaid_def split: file_result.splits sum.splits)
  then obtain c where c: "applyEnvOverrides (le_env le) base = Inr c" by (auto simp: load_overlaid_def split: sum.splits)
  let ?d = "c\<lparr>cfg_Parser := (cfg_Parser c)\<lparr>pa_LogFormat := to_lower (pa_LogFormat (cfg_Parser c))\<rparr>\<rparr>"
  have "ge_LogFile (cfg_General c) = [] \<or> cfg_Streams c = []"
    using b(2) by (auto simp: load_overlaid_def c Let_def split: if_splits)
  moreover from this have "Migrate (synthesize_stream ?d) = (ws, cfg) \<and> validateConfig (le_mode le) cfg = Inr ()"
    using b(2) by (auto simp: load_overlaid_def c Let_def split: prod.splits sum.splits)
  ultimately show ?thesis using that b(1) c by blast
qed

lemma LoadConfig_facts:
  assumes "LoadConfig le path = Inr (ws, cfg)"
  shows "config_ok (le_mode le) cfg \<and> cfg_Streams cfg \<noteq> [] \<and> Migrate cfg = ([], cfg)"
proof -
  obtain base c d where d: "Migrate (synthesize_stream d) = (ws, cfg)" "validateConfig (le_mode le) cfg = Inr ()"
    using assms by (rule LoadConfig_inv)
  have m: "cfg = snd (Migrate (synthesize_stream d))" using d(1) by simp
  then have "cfg_Streams cfg \<noteq> []" by (simp add: Migrate_streams_nonempty)
  moreover have "Migrate cfg = ([], cfg)" unfolding m by (rule Migrate_settles)
  ultimately show ?thesis using d(2) validate_iff by blast
qed

text \<open>C31: A configuration that loads is valid, has a stream, and needs no further migration.\<close>

theorem LoadConfig_sound:
  assumes "LoadConfig le path = Inr (ws, cfg)"
  shows "config_ok (le_mode le) cfg \<and> cfg_Streams cfg \<noteq> [] \<and> Migrate cfg = ([], cfg)"
  using assms by (rule LoadConfig_facts)

text \<open>The scoring settings in force are the ones of the environment where a variable is set, else
  those of the file, else the defaults.\<close>

theorem LoadConfig_priority:
  assumes "LoadConfig le path = Inr (ws, cfg)" "overlaid le path = Some base"
  shows "AlertThreshold (cfg_Scoring cfg)
      = overridden Atoi (le_env le) ''ARXSENTINEL_SCORING_ALERT_THRESHOLD'' (AlertThreshold (cfg_Scoring base))
    \<and> BanThreshold (cfg_Scoring cfg)
      = overridden Atoi (le_env le) ''ARXSENTINEL_SCORING_BAN_THRESHOLD'' (BanThreshold (cfg_Scoring base))
    \<and> ObservationWindow (cfg_Scoring cfg)
      = overridden ParseDuration (le_env le) ''ARXSENTINEL_SCORING_OBSERVATION_WINDOW'' (ObservationWindow (cfg_Scoring base))"
proof -
  obtain base' c d where d: "overlaid le path = Some base'" "applyEnvOverrides (le_env le) base' = Inr c"
    "d = c\<lparr>cfg_Parser := (cfg_Parser c)\<lparr>pa_LogFormat := to_lower (pa_LogFormat (cfg_Parser c))\<rparr>\<rparr>"
    "Migrate (synthesize_stream d) = (ws, cfg)"
    using assms(1) by (rule LoadConfig_inv)
  have "cfg_Scoring (snd (Migrate (synthesize_stream d))) = cfg_Scoring c" by (simp add: d(3))
  then have "cfg_Scoring cfg = cfg_Scoring c" by (simp add: d(4))
  then show ?thesis using env_scoring_effect [OF d(2)] d(1) assms(2) by simp
qed

lemma run_overrides_unset: "(\<And>k. getenv env k = None) \<Longrightarrow> run_overrides env ovs cfg = Inr cfg"
  by (induction ovs) (simp_all add: run_override_def)

lemma legacy_stream_io:
  "map (\<lambda>p. (pl_Inputs p, pl_Outputs p)) (sm_Pipelines (propagate_processors (wrap_stream rt
      (snd (migrate_stream f i (zero_stream\<lparr>sm_LogFile := c # lf, sm_ThreatLog := threats\<rparr>))))))
    = [([file_input (c # lf) f], if threats = [] then [] else [file_sink threats])]"
  by (simp add: migrate_stream_def wrap_stream_def propagate_processors_def zero_stream_def zero_pipeline_def Let_def)

text \<open>Without streams in the document, the one stream that runs reads the log file of the general
  section and writes the threat log of the output section, whatever the top-level inputs
  and outputs are (no variable set).\<close>

theorem toplevel_io_unused:
  assumes "\<forall>k. getenv (le_env le) k = None" "overlaid le path = Some y" "cfg_Streams y = []" "LoadConfig le path = Inr (ws, cfg)"
  shows "map (\<lambda>s. map (\<lambda>p. (pl_Inputs p, pl_Outputs p)) (sm_Pipelines s)) (cfg_Streams cfg)
    = [[([file_input (if ge_LogFile (cfg_General y) = [] then ''/var/log/nginx/access.log'' else ge_LogFile (cfg_General y))
           (to_lower (pa_LogFormat (cfg_Parser y)))],
         [file_sink (ou_ThreatLog (cfg_Output y))])]]"
proof -
  obtain base c d where d: "overlaid le path = Some base" "applyEnvOverrides (le_env le) base = Inr c"
    "d = c\<lparr>cfg_Parser := (cfg_Parser c)\<lparr>pa_LogFormat := to_lower (pa_LogFormat (cfg_Parser c))\<rparr>\<rparr>"
    "Migrate (synthesize_stream d) = (ws, cfg)" "validateConfig (le_mode le) cfg = Inr ()"
    using assms(4) by (rule LoadConfig_inv)
  have "applyEnvOverrides (le_env le) base = Inr base"
    using assms(1) by (simp add: applyEnvOverrides_def run_overrides_unset)
  then have c: "c = y" using d(1,2) assms(2) by simp
  have m: "cfg = snd (Migrate (synthesize_stream d))" using d(4) by simp
  let ?log = "if ge_LogFile (cfg_General y) = [] then ''/var/log/nginx/access.log'' else ge_LogFile (cfg_General y)"
  let ?io = "\<lambda>s. map (\<lambda>p. (pl_Inputs p, pl_Outputs p)) (sm_Pipelines s)"
  let ?s = "zero_stream\<lparr>sm_LogFile := ?log, sm_ThreatLog := ou_ThreatLog (cfg_Output y)\<rparr>"
  have syn: "cfg_Streams (synthesize_stream d) = [?s]" "pa_LogFormat (cfg_Parser (synthesize_stream d)) = to_lower (pa_LogFormat (cfg_Parser y))"
    using assms(3) by (simp_all add: synthesize_stream_def d(3) c)
  obtain rt where streams: "cfg_Streams cfg = [propagate_processors (wrap_stream rt
      (snd (migrate_stream (to_lower (pa_LogFormat (cfg_Parser y))) 0 ?s)))]"
    unfolding m by (simp add: Migrate_snd migrated_streams_def syn enumerate_simps)
  have io: "map ?io (cfg_Streams cfg) = [[([file_input ?log (to_lower (pa_LogFormat (cfg_Parser y)))],
      if ou_ThreatLog (cfg_Output y) = [] then [] else [file_sink (ou_ThreatLog (cfg_Output y))])]]"
    unfolding streams by (cases ?log) (auto simp: legacy_stream_io split: if_splits)
  have "list_all stream_ok (cfg_Streams cfg)" using d(5) validate_iff config_ok_def by blast
  then have "list_all (\<lambda>io. list_all (\<lambda>(ins, outs). outs \<noteq> []) io) (map ?io (cfg_Streams cfg))"
    by (auto simp: list_all_iff stream_ok_def pipeline_ok_def)
  then show ?thesis unfolding io by (simp split: if_splits)
qed

section \<open>Starting without a file\<close>

definition default_stream :: "'y StreamConfig" where
  "default_stream = zero_stream\<lparr>sm_LogFile := ''/var/log/nginx/access.log'', sm_ThreatLog := ''/var/log/arxsentinel/threats.log'',
     sm_Inputs := [file_input ''/var/log/nginx/access.log'' ''combined''],
     sm_Outputs := [file_sink ''/var/log/arxsentinel/threats.log''],
     sm_Pipelines := [zero_pipeline\<lparr>pl_Inputs := [file_input ''/var/log/nginx/access.log'' ''combined''],
       pl_Outputs := [file_sink ''/var/log/arxsentinel/threats.log''],
       pl_Pipeline := \<lparr>BufferSize = 8192, ShutdownTimeout = 15 * second\<rparr>\<rparr>]\<rparr>"

definition default_loaded :: "'y Config" where
  "default_loaded = defaultConfig\<lparr>cfg_General := (cfg_General (defaultConfig :: 'y Config))\<lparr>ge_LogFile := ''/var/log/nginx/access.log''\<rparr>,
     cfg_Streams := [default_stream], cfg_Inputs := [file_input ''/var/log/nginx/access.log'' ''combined''],
     cfg_Outputs := [file_sink ''/var/log/arxsentinel/threats.log'']\<rparr>"

lemma default_io_ok:
  "inputs_ok [file_input ''/var/log/nginx/access.log'' ''combined'']" "sinks_ok [file_sink ''/var/log/arxsentinel/threats.log'']"
  by (simp_all add: inputs_ok_def input_ok_def file_input_def zero_input_def input_types_def
      sinks_ok_def sink_ok_def file_sink_def zero_sink_def sink_formats_def)

lemma default_ok: "config_ok mode (default_loaded :: 'y Config)"
proof -
  let ?d = "default_loaded :: 'y Config"
  have "scoring_ok ?d" "detectors_ok (cfg_Detectors ?d)"
    by (simp_all add: scoring_ok_def detectors_ok_def default_loaded_def defaultConfig_def defaultDetectors_def second_def)
  moreover have "list_all stream_ok (cfg_Streams ?d)"
    by (simp add: default_loaded_def default_stream_def stream_ok_def pipeline_ok_def default_io_ok zero_pipeline_def zero_stream_def)
  moreover have "list_all (queue_ok mode t) (all_queues ?d)" for t
    by (simp add: default_loaded_def default_stream_def all_queues_def queue_ok_def file_sink_def file_input_def zero_sink_def
        zero_input_def zero_pipeline_def zero_stream_def defaultConfig_def)
  moreover have "cfg_Inputs ?d = [file_input ''/var/log/nginx/access.log'' ''combined'']"
    "cfg_Outputs ?d = [file_sink ''/var/log/arxsentinel/threats.log'']" "cfg_Executors ?d = []"
    "bl_Lists (cfg_Blocklist ?d) = []" "\<not> cg_Enabled (cfg_ChainGuard ?d)"
    "cg_Sources (cfg_ChainGuard ?d) \<noteq> []" "me_Username (cfg_Metrics ?d) = []"
    "0 \<le> BufferSize (cfg_Pipeline ?d)" "0 \<le> ShutdownTimeout (cfg_Pipeline ?d)"
    "transport_ok (cfg_Transport ?d)"
    by (simp_all add: default_loaded_def defaultConfig_def second_def transport_ok_def)
  moreover have "sk_Name (file_sink p) = []" for p by (simp add: file_sink_def zero_sink_def)
  ultimately show ?thesis by (simp add: config_ok_def default_io_ok)
qed

lemma to_lower_combined: "to_lower ''combined'' = ''combined''"
  by code_simp

lemma default_migrated:
  "Migrate (synthesize_stream (defaultConfig\<lparr>cfg_Parser := (cfg_Parser (defaultConfig :: 'y Config))\<lparr>pa_LogFormat :=
      to_lower (pa_LogFormat (cfg_Parser (defaultConfig :: 'y Config)))\<rparr>\<rparr>))
   = ([GeneralLogFile ''/var/log/nginx/access.log'', OutputThreatLog ''/var/log/arxsentinel/threats.log'',
       StreamLogFile 0 [] ''/var/log/nginx/access.log'', StreamThreatLog 0 [] ''/var/log/arxsentinel/threats.log''], default_loaded :: 'y Config)"
  by (simp add: Migrate_def migrate_top_def synthesize_stream_def migrate_stream_def wrap_stream_def propagate_processors_def
      runtime_defaults_def default_loaded_def default_stream_def defaultConfig_def zero_stream_def zero_pipeline_def zero_runtime_def
      to_lower_combined enumerate_simps Let_def second_def)

lemma defaults_load:
  fixes le :: "'y load_env"
  assumes "le_read le path = NotFound" "\<forall>k. getenv (le_env le) k = None"
  shows "LoadConfig le path =
    Inr ([GeneralLogFile ''/var/log/nginx/access.log'', OutputThreatLog ''/var/log/arxsentinel/threats.log'',
       StreamLogFile 0 [] ''/var/log/nginx/access.log'', StreamThreatLog 0 [] ''/var/log/arxsentinel/threats.log''], default_loaded)"
proof -
  have "applyEnvOverrides (le_env le) (defaultConfig :: 'y Config) = Inr defaultConfig"
    using assms(2) by (simp add: applyEnvOverrides_def run_overrides_unset)
  moreover have "cfg_Streams (defaultConfig :: 'y Config) = []" by (simp add: defaultConfig_def)
  moreover have "validateConfig (le_mode le) (default_loaded :: 'y Config) = Inr ()" using default_ok validate_iff by blast
  ultimately show ?thesis using assms(1) by (simp add: LoadConfig_def load_overlaid_def default_migrated Let_def)
qed

text \<open>A start without a configuration file and without variables succeeds: the daemon reads the nginx
  log, writes the default threat log, and tells the operator about the four old settings.\<close>

theorem LoadConfig_out_of_the_box:
  assumes "le_read le path = NotFound" "\<forall>k. getenv (le_env le) k = None"
  shows "LoadConfig le path =
    Inr ([GeneralLogFile ''/var/log/nginx/access.log'', OutputThreatLog ''/var/log/arxsentinel/threats.log'',
       StreamLogFile 0 [] ''/var/log/nginx/access.log'', StreamThreatLog 0 [] ''/var/log/arxsentinel/threats.log''], default_loaded)"
  using assms by (rule defaults_load)

definition bare_env :: "unit load_env" where
  "bare_env = \<lparr>le_env = \<lparr>getenv = (\<lambda>k. None), ParseFloat = (\<lambda>s. None)\<rparr>, le_read = (\<lambda>path. NotFound),
     le_unmarshal = (\<lambda>data cfg. Inl data), le_mode = q_Mode\<rparr>"

lemma bare_env_fields: "le_read bare_env path = NotFound" "getenv (le_env bare_env) k = None" "overlaid bare_env path = Some defaultConfig"
  "le_mode bare_env = q_Mode"
  by (simp_all add: bare_env_def overlaid_def)

lemma bare_loads:
  "LoadConfig bare_env [] = Inr ([GeneralLogFile ''/var/log/nginx/access.log'', OutputThreatLog ''/var/log/arxsentinel/threats.log'',
     StreamLogFile 0 [] ''/var/log/nginx/access.log'', StreamThreatLog 0 [] ''/var/log/arxsentinel/threats.log''], default_loaded)"
  by (rule defaults_load) (simp_all add: bare_env_fields)

theorem LoadConfig_out_of_the_box_witness: "LoadConfig bare_env ''missing.yaml'' = LoadConfig bare_env []"
  using LoadConfig_out_of_the_box [of bare_env "''missing.yaml''"] bare_loads by (simp add: bare_env_fields)

theorem LoadConfig_sound_witness: "config_ok q_Mode (default_loaded :: unit Config) \<and> Migrate (default_loaded :: unit Config) = ([], default_loaded)"
  using LoadConfig_sound [OF bare_loads] by (simp add: bare_env_fields)

theorem LoadConfig_priority_witness: "BanThreshold (cfg_Scoring (default_loaded :: unit Config)) = 80"
  using LoadConfig_priority [OF bare_loads bare_env_fields(3)] by (simp add: overridden_def bare_env_fields defaultConfig_def)

theorem toplevel_io_unused_witness:
  "map (\<lambda>s. map (\<lambda>p. (pl_Inputs p, pl_Outputs p)) (sm_Pipelines s)) (cfg_Streams (default_loaded :: unit Config))
    = [[([file_input ''/var/log/nginx/access.log'' ''combined''], [file_sink ''/var/log/arxsentinel/threats.log''])]]"
  using toplevel_io_unused [OF _ bare_env_fields(3) _ bare_loads] by (simp add: bare_env_fields defaultConfig_def to_lower_combined)

end
