(* ===== verification/Factory.thy ===== *)
theory Factory
  imports ConfigLoad
begin

text \<open>
  Wiring of the pipelines, \<open>cmd/arxsentinel\<close>: the builders of detectors, sources and sinks
  (\<open>builders.go\<close>), the security factory with its build and reload (\<open>processor_factory.go\<close>),
  the look-up helpers (\<open>helpers.go\<close>) and the adapter that turns a configuration into
  the specifications the runtime engine runs (\<open>runtime_adapter.go\<close>).

  The registries of the core package (detectors, sources, sinks, parsers) are arguments.
  A tracker lives in the factory under the name of its group, and a pipeline state holds
  that name: the code holds the pointer that the map holds, and no entry of the map is
  ever replaced.  The state of a built pipeline is the state of the security processor
  extended by that reference.

  Shown: pipelines share a tracker exactly when their groups agree; no build and no reload
  loses the history of an address; what is built from a loaded configuration has ordered
  thresholds and a tracker with room; a reload that fails on the WAF rules is half applied.
\<close>

section \<open>Look-up helpers\<close>

definition resolveTrackerGroup :: "'y PipelineConfig \<Rightarrow> string" where
  "resolveTrackerGroup pipeCfg = (if pl_TrackerGroup pipeCfg \<noteq> [] then pl_TrackerGroup pipeCfg else pl_Name pipeCfg)"

definition findPipelineCfg :: "'y StreamConfig \<Rightarrow> string \<Rightarrow> nat \<Rightarrow> 'y PipelineConfig \<Rightarrow> 'y PipelineConfig" where
  "findPipelineCfg streamCfg name idx fallback =
    (if name \<noteq> [] then
       (case find (\<lambda>p. pl_Name p = name) (sm_Pipelines streamCfg) of Some p \<Rightarrow> p | None \<Rightarrow> fallback)
     else if idx < length (sm_Pipelines streamCfg) then sm_Pipelines streamCfg ! idx
     else fallback)"

definition findStreamCfg :: "'y Config \<Rightarrow> string \<Rightarrow> 'y StreamConfig option" where
  "findStreamCfg cfg name = find (\<lambda>s. sm_Name s = name) (cfg_Streams cfg)"

definition sinkTypeFromName :: "string \<Rightarrow> string" where
  "sinkTypeFromName name = (if has_prefix name ''file:'' then ''file'' else name)"

definition streamSourceLabel :: "'y StreamConfig \<Rightarrow> 'y Config \<Rightarrow> string" where
  "streamSourceLabel streamCfg cfg =
    (let inputs = sm_Inputs streamCfg;
         inputs = (if inputs = [] \<and> sm_Pipelines streamCfg \<noteq> [] then pl_Inputs (hd (sm_Pipelines streamCfg)) else inputs);
         inputs = (if inputs = [] then cfg_Inputs cfg else inputs)
     in case inputs of
         [] \<Rightarrow> ''(none)''
       | i # _ \<Rightarrow> if in_Type i = ''stdin'' then ''stdin'' else in_Path i)"

definition parseFlagInputs :: "string \<Rightarrow> 'y Config \<Rightarrow> InputConfig list" where
  "parseFlagInputs flagVal cfg =
    (if flagVal = ''stdin'' then [zero_input\<lparr>in_Type := ''stdin'', in_Parser := pa_LogFormat (cfg_Parser cfg)\<rparr>]
     else [zero_input\<lparr>in_Type := ''file'', in_Path := flagVal, in_Parser := pa_LogFormat (cfg_Parser cfg)\<rparr>])"

text \<open>\<open>strings.SplitN\<close> at the first comma.\<close>

definition parseFlagOutputs :: "string \<Rightarrow> string + SinkConfig list" where
  "parseFlagOutputs flagVal =
    (let sinkType = takeWhile (\<lambda>c. c \<noteq> CHR '','') flagVal;
         rest = dropWhile (\<lambda>c. c \<noteq> CHR '','') flagVal;
         format = (if rest = [] then ''fail2ban'' else tl rest)
     in if sinkType = ''stdout'' then Inr [zero_sink\<lparr>sk_Type := ''stdout'', sk_Format := format\<rparr>] else Inl sinkType)"

section \<open>Detectors\<close>

text \<open>\<open>PDurationText\<close> is the text of a duration, \<open>Duration.String\<close>.\<close>

datatype param = PInt int | PFloat rat | PStrings "string list" | PBool bool | PDurationText duration

text \<open>The parameters of a registry entry: the untyped ones of the file, or those written from the
  global section.\<close>

datatype 'y spec_params = FileParams 'y | GlobalParams "(string, param) gomap"

record 'y detector_spec =
  ds_Enabled :: bool
  ds_Exec :: string
  ds_Params :: "'y spec_params"

definition global_spec :: "bool \<Rightarrow> (string, param) gomap \<Rightarrow> 'y detector_spec" where
  "global_spec en ps = \<lparr>ds_Enabled = en, ds_Exec = [], ds_Params = GlobalParams ps\<rparr>"

definition globalDetectorSpecs :: "'y Config \<Rightarrow> (string, 'y detector_spec) gomap" where
  "globalDetectorSpecs cfg =
    (let d = cfg_Detectors cfg; pb = de_Probe d; rt = de_Rate d; ua = de_UserAgent d; bf = de_Bruteforce d;
         cw = de_Crawler d; na = de_NoAsset d; ov = de_Overflow d; bb = de_BadBot d
     in [(''probe'', global_spec (pb_Enabled pb) [(''score'', PInt (pb_Score pb)), (''paths'', PStrings (pb_Paths pb))]),
         (''rate'', global_spec (rc_Enabled rt) [(''threshold'', PInt (rc_Threshold rt)), (''window'', PDurationText (rc_Window rt)),
            (''score'', PInt (rc_Score rt))]),
         (''ua'', global_spec (uc_Enabled ua) [(''scanner_score'', PInt (uc_ScannerScore ua)), (''grabber_score'', PInt (uc_GrabberScore ua)),
            (''automation_score'', PInt (uc_AutomationScore ua)), (''empty_ua_score'', PInt (uc_EmptyUAScore ua)),
            (''extra_scanner_patterns'', PStrings (uc_ExtraScannerPatterns ua)),
            (''extra_grabber_patterns'', PStrings (uc_ExtraGrabberPatterns ua)),
            (''extra_automation_patterns'', PStrings (uc_ExtraAutomationPatterns ua))]),
         (''bruteforce'', global_spec (bc_Enabled bf) [(''min_requests'', PInt (bc_MinRequests bf)),
            (''ratio_threshold'', PFloat (bc_RatioThreshold bf)), (''score'', PInt (bc_Score bf))]),
         (''crawler'', global_spec (cw_Enabled cw) [(''min_sequential'', PInt (cw_MinSequential cw)), (''score'', PInt (cw_Score cw))]),
         (''noasset'', global_spec (nc_Enabled na) [(''min_page_requests'', PInt (nc_MinPageRequests na)),
            (''asset_ratio_threshold'', PFloat (nc_AssetRatioThreshold na)), (''score'', PInt (nc_Score na)),
            (''asset_extensions'', PStrings (nc_AssetExtensions na))]),
         (''overflow'', global_spec (oc_Enabled ov) [(''max_url_length'', PInt (oc_MaxURLLength ov)),
            (''suspicious_params'', PStrings (oc_SuspiciousParams ov)), (''score'', PInt (oc_Score ov))]),
         (''badbot'', global_spec (bb_Enabled bb) [(''check_ua'', PBool (bb_CheckUA bb)), (''check_referrer'', PBool (bb_CheckReferrer bb)),
            (''score'', PInt (bb_Score bb))])])"

text \<open>The shared resources of the detectors: the blocklist manager, when there is one.\<close>

definition bridgeShared :: "matcher option \<Rightarrow> matcher option" where
  "bridgeShared blocklistManager = (case blocklistManager of None \<Rightarrow> None | Some mgr \<Rightarrow> Some mgr)"

text \<open>A registry builds a detector from its name, settings and shared resources; it reports an error
  or returns nothing for a disabled one.  The rate detector reads the clock when it runs, so
  a built detector is a function of the time.\<close>

type_synonym 'y detector_registry = "string \<Rightarrow> 'y detector_spec \<Rightarrow> matcher option \<Rightarrow> string + (gotime \<Rightarrow> Detector) option"

definition pipeline_specs :: "'y Config \<Rightarrow> 'y PipelineConfig \<Rightarrow> (string, 'y detector_spec) gomap" where
  "pipeline_specs cfg pipeCfg =
    (case pl_Detectors pipeCfg of
       None \<Rightarrow> globalDetectorSpecs cfg
     | Some ds \<Rightarrow> map (\<lambda>(name, dc). (name, \<lparr>ds_Enabled = dc_Enabled dc, ds_Exec = dc_Exec dc, ds_Params = FileParams (dc_Params dc)\<rparr>)) ds)"

definition buildPipelineDetectors :: "'y detector_registry \<Rightarrow> 'y Config \<Rightarrow> 'y PipelineConfig \<Rightarrow> matcher option
    \<Rightarrow> (gotime \<Rightarrow> Detector) list" where
  "buildPipelineDetectors reg cfg pipeCfg shared =
    (let ds = bridgeShared shared; specs = pipeline_specs cfg pipeCfg
     in List.map_filter (\<lambda>name. case reg name (the (map_of specs name)) ds of Inl err \<Rightarrow> None | Inr d \<Rightarrow> d)
          (sort (map fst specs)))"

section \<open>The security factory\<close>

record ('rs, 'y) factory_env =
  fe_registry :: "'y detector_registry"
  fe_engine :: "'rs rule_engine"
  fe_decode :: "'y \<Rightarrow> string + (gotime \<times> Tracker) waf_Config"
  fe_shared :: "matcher option"

record 'y securityFactory =
  f_cfg :: "'y Config"
  f_trackers :: "(string, Tracker) gomap"

record 'rs pipeline_state = "'rs securityState" +
  ps_group :: string

datatype factory_error =
  StreamNotFound string
| IndexOutOfRange
| WhitelistError string
| WafError waf_build_error
| LoadError config_error

definition getOrCreateTracker :: "string \<Rightarrow> 'y Config \<Rightarrow> 'y securityFactory \<Rightarrow> 'y securityFactory" where
  "getOrCreateTracker grp cfg f =
    (case map_of (f_trackers f) grp of
       Some t \<Rightarrow> f
     | None \<Rightarrow> f\<lparr>f_trackers := AList.update grp (NewTracker (tracker_config cfg)) (f_trackers f)\<rparr>)"

definition new_scorer :: "('rs, 'y) factory_env \<Rightarrow> 'y Config \<Rightarrow> 'y PipelineConfig \<Rightarrow> gotime \<Rightarrow> Scorer" where
  "new_scorer fe cfg pipeCfg now =
    NewScorer (ScoringConfig.truncate (cfg_Scoring cfg))
      (map (\<lambda>d. d now) (buildPipelineDetectors (fe_registry fe) cfg pipeCfg (fe_shared fe)))"

definition processors_of :: "'y PipelineConfig \<Rightarrow> 'y waf_param ProcessorConfig list" where
  "processors_of p = (case pl_Processors p of None \<Rightarrow> [] | Some ps \<Rightarrow> ps)"

definition Build :: "('rs, 'y) factory_env \<Rightarrow> string \<Rightarrow> string \<Rightarrow> nat \<Rightarrow> 'y securityFactory
    \<Rightarrow> (factory_error + 'rs pipeline_state) \<times> 'y securityFactory" where
  "Build fe streamName pipeName pipeIdx f =
    (let cfg = f_cfg f
     in case findStreamCfg cfg streamName of
         None \<Rightarrow> (Inl (StreamNotFound streamName), f)
       | Some streamCfg \<Rightarrow>
           if \<not> pipeIdx < length (sm_Pipelines streamCfg) then (Inl IndexOutOfRange, f)
           else
             let pipeCfg = findPipelineCfg streamCfg pipeName pipeIdx (sm_Pipelines streamCfg ! pipeIdx)
             in case NewMatcher (WhitelistConfig.truncate (cfg_Whitelist cfg)) of
                 Inl err \<Rightarrow> (Inl (WhitelistError err), f)
               | Inr matcher \<Rightarrow>
                   let grp = resolveTrackerGroup pipeCfg;
                       f = getOrCreateTracker grp cfg f
                   in case buildWafProcessor (fe_engine fe) (fe_decode fe) (processors_of pipeCfg) (BanThreshold (cfg_Scoring cfg)) of
                       Inl err \<Rightarrow> (Inl (WafError err), f)
                     | Inr wafProc \<Rightarrow>
                         (Inr \<lparr>StreamName = streamName, PipelineName = pipeName, PipelineIdx = int pipeIdx,
                            ss_Scorer = new_scorer fe cfg pipeCfg, ss_Matcher = matcher, ss_Waf = wafProc,
                            FakeBotScore = wl_FakeBotScore (cfg_Whitelist cfg),
                            DNSVerifyTimeout = wl_DNSVerifyTimeout (cfg_Whitelist cfg),
                            RawForward = pl_RawForward pipeCfg, ps_group = grp\<rparr>, f))"

text \<open>The stub that stands for a pipeline that is no longer configured.\<close>

definition oldPipeConfigFromOld :: "'rs pipeline_state \<Rightarrow> 'y PipelineConfig" where
  "oldPipeConfigFromOld old = zero_pipeline\<lparr>pl_Name := PipelineName old\<rparr>"

definition streamConfigFromOld :: "'rs pipeline_state \<Rightarrow> 'y StreamConfig" where
  "streamConfigFromOld old = zero_stream\<lparr>sm_Name := StreamName old\<rparr>"

definition reconfigure_group :: "string \<Rightarrow> 'y Config \<Rightarrow> 'y securityFactory \<Rightarrow> 'y securityFactory" where
  "reconfigure_group grp cfg f =
    (case map_of (f_trackers f) grp of
       None \<Rightarrow> f
     | Some t \<Rightarrow> f\<lparr>f_trackers := AList.update grp (Reconfigure (tracker_config cfg) t) (f_trackers f)\<rparr>)"

text \<open>\<open>loaded\<close> is the result of reading the configuration file again.\<close>

definition Reload :: "('rs, 'y) factory_env \<Rightarrow> config_error + (deprecation list \<times> 'y Config) \<Rightarrow> 'rs pipeline_state
    \<Rightarrow> 'y securityFactory \<Rightarrow> (factory_error + 'rs pipeline_state) \<times> 'y securityFactory" where
  "Reload fe loaded old f =
    (case loaded of
       Inl err \<Rightarrow> (Inl (LoadError err), f)
     | Inr (warnings, newCfg) \<Rightarrow>
         (case NewMatcher (WhitelistConfig.truncate (cfg_Whitelist newCfg)) of
            Inl err \<Rightarrow> (Inl (WhitelistError err), f)
          | Inr newMatcher \<Rightarrow>
              let newStreamCfg = (case findStreamCfg newCfg (StreamName old) of Some s \<Rightarrow> s | None \<Rightarrow> streamConfigFromOld old);
                  newPipeCfg = findPipelineCfg newStreamCfg (PipelineName old) (nat (PipelineIdx old)) (oldPipeConfigFromOld old);
                  f = f\<lparr>f_cfg := newCfg\<rparr>;
                  f = reconfigure_group (ps_group old) newCfg f
              in case buildWafProcessor (fe_engine fe) (fe_decode fe) (processors_of newPipeCfg) (BanThreshold (cfg_Scoring newCfg)) of
                  Inl err \<Rightarrow> (Inl (WafError err), f)
                | Inr wafProc \<Rightarrow>
                    (Inr \<lparr>StreamName = StreamName old, PipelineName = PipelineName old, PipelineIdx = PipelineIdx old,
                       ss_Scorer = new_scorer fe newCfg newPipeCfg, ss_Matcher = newMatcher, ss_Waf = wafProc,
                       FakeBotScore = wl_FakeBotScore (cfg_Whitelist newCfg),
                       DNSVerifyTimeout = wl_DNSVerifyTimeout (cfg_Whitelist newCfg),
                       RawForward = pl_RawForward newPipeCfg, ps_group = ps_group old\<rparr>, f)))"

section \<open>Sources, sinks and streams\<close>

datatype 'p parser_choice = ProfileParser string 'p | JSONParser JSONFieldsConfig | RegexParser string 'p | CombinedParser

text \<open>The parsers of the core package: the named profiles, and the compilation of a pattern.\<close>

record 'p parsers =
  Profiles :: "string \<Rightarrow> (string + 'p) option"
  NewRegexParser :: "string \<Rightarrow> string + 'p"

datatype wiring_error = UnknownProfile string | ParserError string | NoInputs | NoOutputs | SourceError string string
  | SinkError string string | UnknownFormat string string

definition buildParserForInput :: "'p parsers \<Rightarrow> 'y Config \<Rightarrow> InputConfig \<Rightarrow> wiring_error + 'p parser_choice" where
  "buildParserForInput ps cfg input =
    (let profile = pa_Profile (cfg_Parser cfg)
     in if profile \<noteq> [] then
          (case Profiles ps profile of
             None \<Rightarrow> Inl (UnknownProfile profile)
           | Some (Inl err) \<Rightarrow> Inl (ParserError err)
           | Some (Inr p) \<Rightarrow> Inr (ProfileParser profile p))
        else
          let format = (if in_Parser input = [] then pa_LogFormat (cfg_Parser cfg) else in_Parser input)
          in if format = ''json'' then Inr (JSONParser (pa_JSONFields (cfg_Parser cfg)))
             else if format = ''regex'' then
               (case NewRegexParser ps (pa_RegexPattern (cfg_Parser cfg)) of
                  Inl err \<Rightarrow> Inl (ParserError err)
                | Inr p \<Rightarrow> Inr (RegexParser (pa_RegexPattern (cfg_Parser cfg)) p))
             else Inr CombinedParser)"

fun source_loop :: "'p parsers \<Rightarrow> (InputConfig \<Rightarrow> 'p parser_choice \<Rightarrow> duration \<Rightarrow> string + 'src) \<Rightarrow> 'y Config
    \<Rightarrow> InputConfig list \<Rightarrow> wiring_error + 'src list" where
  "source_loop ps build cfg [] = Inr []"
| "source_loop ps build cfg (inp # inputs) =
    (case buildParserForInput ps cfg inp of
       Inl err \<Rightarrow> Inl err
     | Inr p \<Rightarrow>
         (case build inp p (ge_TailRetryInterval (cfg_General cfg)) of
            Inl err \<Rightarrow> Inl (SourceError (in_Type inp) err)
          | Inr src \<Rightarrow>
              (case source_loop ps build cfg inputs of Inl err \<Rightarrow> Inl err | Inr srcs \<Rightarrow> Inr (src # srcs))))"

definition buildSources :: "'p parsers \<Rightarrow> (InputConfig \<Rightarrow> 'p parser_choice \<Rightarrow> duration \<Rightarrow> string + 'src) \<Rightarrow> 'y Config
    \<Rightarrow> InputConfig list \<Rightarrow> wiring_error + 'src list" where
  "buildSources ps build cfg inputs = (if inputs = [] then Inl NoInputs else source_loop ps build cfg inputs)"

datatype formatter = FailbanFormatter | JSONFormatter | SentinelFormatter string | RawLineFormatter

definition formatterForFormat :: "string \<Rightarrow> string \<Rightarrow> string \<Rightarrow> wiring_error + formatter" where
  "formatterForFormat sinkType format streamName =
    (if sinkType = ''sentinel-threat'' then
       (if format = ''raw-line'' then Inr RawLineFormatter else Inr (SentinelFormatter streamName))
     else if format = [] \<or> format = ''fail2ban'' then Inr FailbanFormatter
     else if format = ''json'' then Inr JSONFormatter
     else Inl (UnknownFormat format sinkType))"

fun sink_loop :: "(SinkConfig \<Rightarrow> formatter \<Rightarrow> string + 'snk) \<Rightarrow> string \<Rightarrow> SinkConfig list \<Rightarrow> wiring_error + 'snk list" where
  "sink_loop build streamName [] = Inr []"
| "sink_loop build streamName (out # outputs) =
    (case formatterForFormat (sk_Type out) (sk_Format out) streamName of
       Inl err \<Rightarrow> Inl err
     | Inr formatter \<Rightarrow>
         (case build out formatter of
            Inl err \<Rightarrow> Inl (SinkError (sk_Type out) err)
          | Inr sink \<Rightarrow>
              (case sink_loop build streamName outputs of Inl err \<Rightarrow> Inl err | Inr sinks \<Rightarrow> Inr (sink # sinks))))"

definition buildSinks :: "(SinkConfig \<Rightarrow> formatter \<Rightarrow> string + 'snk) \<Rightarrow> string \<Rightarrow> SinkConfig list \<Rightarrow> wiring_error + 'snk list" where
  "buildSinks build streamName outputs = (if outputs = [] then Inl NoOutputs else sink_loop build streamName outputs)"

record ('src, 'snk) PipelineSpec =
  sp_Name :: string
  sp_Idx :: nat
  sp_Sources :: "'src list"
  sp_Sinks :: "'snk list"

record ('src, 'snk) StreamSpec =
  st_Name :: string
  st_TrackerGroup :: string
  st_BufferSize :: int
  st_ShutdownTimeout :: duration
  st_StatsInterval :: duration
  st_Pipelines :: "('src, 'snk) PipelineSpec list"

fun adapt_pipelines :: "('y PipelineConfig \<Rightarrow> wiring_error + ('src list \<times> 'snk list)) \<Rightarrow> nat \<Rightarrow> 'y PipelineConfig list
    \<Rightarrow> wiring_error + ('src, 'snk) PipelineSpec list" where
  "adapt_pipelines io j [] = Inr []"
| "adapt_pipelines io j (p # ps) =
    (case io p of
       Inl err \<Rightarrow> Inl err
     | Inr (sources, sinks) \<Rightarrow>
         (case adapt_pipelines io (j + 1) ps of
            Inl err \<Rightarrow> Inl err
          | Inr specs \<Rightarrow> Inr (\<lparr>sp_Name = pl_Name p, sp_Idx = j, sp_Sources = sources, sp_Sinks = sinks\<rparr> # specs)))"

definition pipeline_io :: "'p parsers \<Rightarrow> (InputConfig \<Rightarrow> 'p parser_choice \<Rightarrow> duration \<Rightarrow> string + 'src)
    \<Rightarrow> (SinkConfig \<Rightarrow> formatter \<Rightarrow> string + 'snk) \<Rightarrow> 'y Config \<Rightarrow> string \<Rightarrow> 'y PipelineConfig \<Rightarrow> wiring_error + ('src list \<times> 'snk list)" where
  "pipeline_io ps bsrc bsnk cfg streamName p =
    (case buildSources ps bsrc cfg (pl_Inputs p) of
       Inl err \<Rightarrow> Inl err
     | Inr sources \<Rightarrow>
         (case buildSinks bsnk streamName (pl_Outputs p) of Inl err \<Rightarrow> Inl err | Inr sinks \<Rightarrow> Inr (sources, sinks)))"

definition stream_buffer :: "'y Config \<Rightarrow> 'y StreamConfig \<Rightarrow> int" where
  "stream_buffer cfg s =
    (if sm_Pipelines s \<noteq> [] \<and> BufferSize (pl_Pipeline (hd (sm_Pipelines s))) > 0
     then BufferSize (pl_Pipeline (hd (sm_Pipelines s))) else BufferSize (cfg_Pipeline cfg))"

fun adapt_streams :: "'p parsers \<Rightarrow> (InputConfig \<Rightarrow> 'p parser_choice \<Rightarrow> duration \<Rightarrow> string + 'src)
    \<Rightarrow> (SinkConfig \<Rightarrow> formatter \<Rightarrow> string + 'snk) \<Rightarrow> 'y Config \<Rightarrow> 'y StreamConfig list
    \<Rightarrow> wiring_error + ('src, 'snk) StreamSpec list" where
  "adapt_streams ps bsrc bsnk cfg [] = Inr []"
| "adapt_streams ps bsrc bsnk cfg (s # ss) =
    (case adapt_pipelines (pipeline_io ps bsrc bsnk cfg (sm_Name s)) 0 (sm_Pipelines s) of
       Inl err \<Rightarrow> Inl err
     | Inr pipelines \<Rightarrow>
         (case adapt_streams ps bsrc bsnk cfg ss of
            Inl err \<Rightarrow> Inl err
          | Inr specs \<Rightarrow>
              Inr (\<lparr>st_Name = sm_Name s,
                    st_TrackerGroup = (if sm_Pipelines s \<noteq> [] then resolveTrackerGroup (hd (sm_Pipelines s)) else []),
                    st_BufferSize = stream_buffer cfg s,
                    st_ShutdownTimeout = 5 * second, st_StatsInterval = ge_StatsInterval (cfg_General cfg),
                    st_Pipelines = pipelines\<rparr> # specs)))"

definition adaptConfigToStreams :: "'p parsers \<Rightarrow> (InputConfig \<Rightarrow> 'p parser_choice \<Rightarrow> duration \<Rightarrow> string + 'src)
    \<Rightarrow> (SinkConfig \<Rightarrow> formatter \<Rightarrow> string + 'snk) \<Rightarrow> 'y Config \<Rightarrow> wiring_error + ('src, 'snk) StreamSpec list" where
  "adaptConfigToStreams ps bsrc bsnk cfg = adapt_streams ps bsrc bsnk cfg (cfg_Streams cfg)"

section \<open>Trackers survive\<close>

lemma getOrCreateTracker_get:
  "map_of (f_trackers (getOrCreateTracker g cfg f)) h =
    (if h = g \<and> map_of (f_trackers f) g = None then Some (NewTracker (tracker_config cfg)) else map_of (f_trackers f) h)"
  by (auto simp: getOrCreateTracker_def gm_get_update split: option.split)

lemma Build_trackers:
  "f_trackers (snd (Build fe s p i f)) = f_trackers f \<or> (\<exists>g. snd (Build fe s p i f) = getOrCreateTracker g (f_cfg f) f)"
  by (auto simp: Build_def Let_def split: option.splits sum.splits)

lemma reconfigure_get:
  "map_of (f_trackers (reconfigure_group g cfg f)) h =
    (if h = g then map_option (Reconfigure (tracker_config cfg)) (map_of (f_trackers f) g) else map_of (f_trackers f) h)"
  by (auto simp: reconfigure_group_def gm_get_update split: option.split)

lemma Reload_trackers:
  "f_trackers (snd (Reload fe loaded old f)) = f_trackers f
   \<or> (\<exists>cfg. f_trackers (snd (Reload fe loaded old f)) = f_trackers (reconfigure_group (ps_group old) cfg (f\<lparr>f_cfg := cfg\<rparr>)))"
  by (auto simp: Reload_def Let_def split: sum.splits prod.splits)

text \<open>C35: Neither building another pipeline nor a reload, successful or not, loses anything the
  trackers know: every tracker keeps its addresses, their order and its limit, and a
  build creates at most one tracker, empty, under a group that had none.\<close>

theorem factory_keeps_history:
  assumes "map_of (f_trackers f) g = Some t"
  shows "map_of (f_trackers (snd (Build fe s p i f))) g = Some t
    \<and> (\<exists>t'. map_of (f_trackers (snd (Reload fe loaded old f))) g = Some t'
         \<and> states t' = states t \<and> lru t' = lru t \<and> maxIPs t' = maxIPs t)"
proof
  show "map_of (f_trackers (snd (Build fe s p i f))) g = Some t"
    using Build_trackers [of fe s p i f] assms by (auto simp: getOrCreateTracker_get)
  show "\<exists>t'. map_of (f_trackers (snd (Reload fe loaded old f))) g = Some t'
      \<and> states t' = states t \<and> lru t' = lru t \<and> maxIPs t' = maxIPs t"
    using Reload_trackers [of fe loaded old f] assms by (auto simp: reconfigure_get Reconfigure_def Let_def)
qed

section \<open>Each pipeline is built from its own settings\<close>

lemma find_distinct:
  assumes "distinct (map key xs)" "x \<in> set xs"
  shows "find (\<lambda>y. key y = key x) xs = Some x"
  using assms by (induction xs) auto

lemma find_named:
  assumes "distinct (filter (\<lambda>n. n \<noteq> []) (map pl_Name ps))" "j < length ps" "pl_Name (ps ! j) \<noteq> []"
  shows "find (\<lambda>p. pl_Name p = pl_Name (ps ! j)) ps = Some (ps ! j)"
  using assms
proof (induction ps arbitrary: j)
  case (Cons q ps)
  show ?case
  proof (cases j)
    case (Suc k)
    then have "pl_Name (ps ! k) \<in> pl_Name ` set ps" using Cons.prems(2) by simp
    have "pl_Name (ps ! k) \<noteq> pl_Name q"
    proof
      assume eq: "pl_Name (ps ! k) = pl_Name q"
      then have "pl_Name q \<noteq> []" using Cons.prems(3) Suc by simp
      then have "pl_Name q \<notin> pl_Name ` set ps" using Cons.prems(1) by auto
      then show False using \<open>pl_Name (ps ! k) \<in> pl_Name ` set ps\<close> eq by simp
    qed
    then show ?thesis using Cons.IH [of k] Cons.prems Suc by (auto split: if_splits)
  qed simp
qed simp

lemma own_pipeline:
  assumes "stream_ok s" "j < length (sm_Pipelines s)"
  shows "findPipelineCfg s (pl_Name (sm_Pipelines s ! j)) j fb = sm_Pipelines s ! j"
  using assms find_named [of "sm_Pipelines s" j] by (simp add: findPipelineCfg_def stream_ok_def)

text \<open>With stream names that differ, every pipeline of a valid configuration is built from its own
  settings, and only its whitelist or its WAF rules can stop it.\<close>

theorem Build_own_pipeline:
  assumes "config_ok mode (f_cfg f)" "distinct (map sm_Name (cfg_Streams (f_cfg f)))"
    and "s \<in> set (cfg_Streams (f_cfg f))" "j < length (sm_Pipelines s)"
  shows "case fst (Build fe (sm_Name s) (pl_Name (sm_Pipelines s ! j)) j f) of
      Inl err \<Rightarrow> (\<exists>e. err = WhitelistError e) \<or> (\<exists>e. err = WafError e)
    | Inr st \<Rightarrow> ss_Scorer st = new_scorer fe (f_cfg f) (sm_Pipelines s ! j)
        \<and> RawForward st = pl_RawForward (sm_Pipelines s ! j)
        \<and> ps_group st = resolveTrackerGroup (sm_Pipelines s ! j)
        \<and> map_of (f_trackers (snd (Build fe (sm_Name s) (pl_Name (sm_Pipelines s ! j)) j f))) (ps_group st) \<noteq> None"
proof -
  have "findStreamCfg (f_cfg f) (sm_Name s) = Some s"
    unfolding findStreamCfg_def by (rule find_distinct [OF assms(2,3)])
  moreover have "stream_ok s" using assms(1,3) by (simp add: config_ok_def list_all_iff)
  ultimately show ?thesis
    using assms(4) own_pipeline [of s j] by (auto simp: Build_def Let_def getOrCreateTracker_get split: sum.split)
qed

section \<open>What is built from a loaded configuration\<close>

lemma buildWaf_scoreFn: "buildWafProcessor eng dec ps ban = Inr (Some w) \<Longrightarrow> scoreFn w = Some waf_scoreFn"
  by (induction eng dec ps ban rule: buildWafProcessor.induct)
    (auto simp: NewWafProcessor_def Let_def split: if_splits sum.splits waf_param.splits)

text \<open>A pipeline built from a configuration that loaded scores with ordered positive thresholds over a
  positive window, its tracker starts empty with room for at least one address, and with a
  registry of well-behaved detectors and a penalty that is not negative its state meets the
  conditions under which threats are earned.\<close>

theorem Build_from_loaded:
  assumes "LoadConfig le path = Inr (ws, f_cfg f)" "Build fe s p i f = (Inr st, f')" "f_trackers f = []"
  shows "0 < alertThreshold (ss_Scorer st now) \<and> alertThreshold (ss_Scorer st now) < banThreshold (ss_Scorer st now)
    \<and> 0 < sc_window (ss_Scorer st now)
    \<and> (\<exists>t. map_of (f_trackers f') (ps_group st) = Some t \<and> states t = [] \<and> tracker_inv t \<and> 0 < maxIPs t \<and> 0 < rateWindow t)
    \<and> ((\<forall>name spec sh d now. fe_registry fe name spec sh = Inr (Some d) \<longrightarrow> good_detector (d now)) \<and> 0 \<le> FakeBotScore st
        \<longrightarrow> good_state (securityState.truncate st))"
proof -
  have ok: "scoring_ok (f_cfg f)" using LoadConfig_facts [OF assms(1)] by (simp add: config_ok_def)
  obtain pc w where st: "ss_Scorer st = new_scorer fe (f_cfg f) pc" "ss_Waf st = w"
    "buildWafProcessor (fe_engine fe) (fe_decode fe) (processors_of pc) (BanThreshold (cfg_Scoring (f_cfg f))) = Inr w"
    "f' = getOrCreateTracker (ps_group st) (f_cfg f) f"
    using assms(2) by (auto simp: Build_def Let_def split: option.splits sum.splits if_splits)
  have sc: "alertThreshold (ss_Scorer st now) = AlertThreshold (cfg_Scoring (f_cfg f))"
    "banThreshold (ss_Scorer st now) = BanThreshold (cfg_Scoring (f_cfg f))"
    "sc_window (ss_Scorer st now) = ObservationWindow (cfg_Scoring (f_cfg f))"
    by (simp_all add: st(1) new_scorer_def NewScorer_def ScoringConfig.truncate_def)
  let ?t = "NewTracker (tracker_config (f_cfg f))"
  have t: "map_of (f_trackers f') (ps_group st) = Some ?t" by (simp add: st(4) getOrCreateTracker_get assms(3))
  have "maxIPs ?t = MaxTrackedIPs (cfg_State (f_cfg f))" "states ?t = []" "0 < rateWindow ?t"
    by (simp_all add: NewTracker_def tracker_config_def Let_def second_def)
  then have "states ?t = [] \<and> tracker_inv ?t \<and> 0 < maxIPs ?t \<and> 0 < rateWindow ?t"
    using ok tracker_inv_new by (simp add: scoring_ok_def)
  moreover have "good_state (securityState.truncate st)"
    if reg: "\<forall>name spec sh d now. fe_registry fe name spec sh = Inr (Some d) \<longrightarrow> good_detector (d now)" "0 \<le> FakeBotScore st"
  proof -
    have "list_all good_detector (sc_detectors (new_scorer fe (f_cfg f) pc now))" for now
      using reg(1)
      by (auto simp: new_scorer_def NewScorer_def buildPipelineDetectors_def Let_def list_all_iff map_filter_def split: sum.splits)
    then show ?thesis
      using reg(2) st buildWaf_scoreFn
      by (auto simp: good_state_def securityState.truncate_def split: option.split)
  qed
  ultimately show ?thesis using ok t sc by (auto simp: scoring_ok_def)
qed

section \<open>Outputs\<close>

text \<open>For a sink the validation accepts, a formatter exists except for one combination it lets pass:
  the format \<open>sentinel-threat\<close> on a sink of another type.\<close>

theorem formatter_of_valid_sink:
  assumes "sink_ok s"
  shows "(\<exists>fm. formatterForFormat (sk_Type s) (sk_Format s) streamName = Inr fm)
    \<longleftrightarrow> \<not> (sk_Format s = ''sentinel-threat'' \<and> sk_Type s \<noteq> ''sentinel-threat'')"
  using assms by (auto simp: sink_ok_def sink_formats_def formatterForFormat_def)

theorem formatter_of_valid_sink_witness:
  "\<not> (\<exists>fm. formatterForFormat ''stdout'' ''sentinel-threat'' [] = Inr fm)"
  using formatter_of_valid_sink [of "zero_sink\<lparr>sk_Type := ''stdout'', sk_Format := ''sentinel-threat''\<rparr>" "[]"]
  by (simp add: sink_ok_def sink_formats_def zero_sink_def)

section \<open>A loaded configuration starts\<close>

text \<open>A sink whose format has a formatter; an input whose parser can be built.\<close>

definition sink_buildable :: "(SinkConfig \<Rightarrow> formatter \<Rightarrow> string + 'snk) \<Rightarrow> SinkConfig \<Rightarrow> bool" where
  "sink_buildable b s \<longleftrightarrow> \<not> (sk_Format s = ''sentinel-threat'' \<and> sk_Type s \<noteq> ''sentinel-threat'') \<and> (\<forall>fm. \<exists>x. b s fm = Inr x)"

lemma formatter_exists: "sink_ok s \<Longrightarrow> sink_buildable b s \<Longrightarrow> \<exists>fm. formatterForFormat (sk_Type s) (sk_Format s) n = Inr fm"
  by (auto simp: sink_ok_def sink_formats_def formatterForFormat_def sink_buildable_def)

lemma sink_loop_total:
  "list_all sink_ok ss \<Longrightarrow> list_all (sink_buildable b) ss \<Longrightarrow> \<exists>xs. sink_loop b n ss = Inr xs \<and> length xs = length ss"
proof (induction ss)
  case (Cons s ss)
  then obtain fm xs where "formatterForFormat (sk_Type s) (sk_Format s) n = Inr fm" "sink_loop b n ss = Inr xs" "length xs = length ss"
    using formatter_exists [of s b n] by auto
  moreover obtain x where "b s fm = Inr x" using Cons.prems(2) by (auto simp: sink_buildable_def)
  ultimately show ?case by simp
qed simp

definition parsers_total :: "'p parsers \<Rightarrow> 'y Config \<Rightarrow> bool" where
  "parsers_total ps cfg \<longleftrightarrow> pa_Profile (cfg_Parser cfg) = [] \<and> (\<exists>p. NewRegexParser ps (pa_RegexPattern (cfg_Parser cfg)) = Inr p)"

lemma source_loop_total:
  assumes "parsers_total ps cfg" "\<forall>inp p d. \<exists>x. b inp p d = Inr x"
  shows "\<exists>xs. source_loop ps b cfg ins = Inr xs \<and> length xs = length ins"
proof (induction ins)
  case (Cons inp ins)
  have "\<exists>p. buildParserForInput ps cfg inp = Inr p"
    using assms(1) by (auto simp: parsers_total_def buildParserForInput_def Let_def)
  then obtain p where p: "buildParserForInput ps cfg inp = Inr p" by blast
  obtain x where "b inp p (ge_TailRetryInterval (cfg_General cfg)) = Inr x" using assms(2) by blast
  then show ?case using Cons p by auto
qed simp

lemma pipeline_io_total:
  assumes "parsers_total ps cfg" "\<forall>inp p d. \<exists>x. bsrc inp p d = Inr x" "pipeline_ok p" "list_all (sink_buildable bsnk) (pl_Outputs p)"
  shows "\<exists>so si. pipeline_io ps bsrc bsnk cfg n p = Inr (so, si) \<and> length so = length (pl_Inputs p) \<and> length si = length (pl_Outputs p)"
  using source_loop_total [OF assms(1,2), of "pl_Inputs p"] sink_loop_total [of "pl_Outputs p" bsnk n] assms(3,4)
  by (auto simp: pipeline_io_def buildSources_def buildSinks_def pipeline_ok_def sinks_ok_def)

text \<open>A specification that runs a pipeline with all its inputs and outputs.\<close>

definition runs :: "'y PipelineConfig \<Rightarrow> ('src, 'snk) PipelineSpec \<Rightarrow> bool" where
  "runs p sp \<longleftrightarrow> sp_Name sp = pl_Name p \<and> length (sp_Sources sp) = length (pl_Inputs p) \<and> length (sp_Sinks sp) = length (pl_Outputs p)"

lemma adapt_pipelines_total:
  assumes "\<forall>p \<in> set ps. \<exists>so si. io p = Inr (so, si) \<and> length so = length (pl_Inputs p) \<and> length si = length (pl_Outputs p)"
  shows "\<exists>specs. adapt_pipelines io j ps = Inr specs \<and> list_all2 runs ps specs \<and> map sp_Idx specs = [j..<j + length ps]"
  using assms
proof (induction ps arbitrary: j)
  case (Cons p ps)
  then obtain so si where io: "io p = Inr (so, si)" "length so = length (pl_Inputs p)" "length si = length (pl_Outputs p)" by auto
  obtain specs where "adapt_pipelines io (j + 1) ps = Inr specs" "list_all2 runs ps specs" "map sp_Idx specs = [j + 1..<j + 1 + length ps]"
    using Cons.IH [of "j + 1"] Cons.prems by auto
  moreover have "[j..<j + length (p # ps)] = j # [j + 1..<j + 1 + length ps]" by (subst upt_conv_Cons) simp_all
  ultimately show ?case using io by (simp add: runs_def [of p] del: upt_Suc)
qed simp

lemma adapt_streams_total:
  assumes "parsers_total ps cfg" "\<forall>inp p d. \<exists>x. bsrc inp p d = Inr x" "list_all stream_ok ss"
    and "\<forall>s \<in> set ss. \<forall>p \<in> set (sm_Pipelines s). list_all (sink_buildable bsnk) (pl_Outputs p)"
  shows "\<exists>specs. adapt_streams ps bsrc bsnk cfg ss = Inr specs
    \<and> list_all2 (\<lambda>s sp. st_Name sp = sm_Name s \<and> list_all2 runs (sm_Pipelines s) (st_Pipelines sp)) ss specs"
  using assms(3,4)
proof (induction ss)
  case (Cons s ss)
  have "\<exists>so si. pipeline_io ps bsrc bsnk cfg (sm_Name s) p = Inr (so, si) \<and> length so = length (pl_Inputs p) \<and> length si = length (pl_Outputs p)"
    if "p \<in> set (sm_Pipelines s)" for p
    using Cons.prems that by (intro pipeline_io_total [OF assms(1,2)]) (auto simp: stream_ok_def list_all_iff)
  then obtain specs where "adapt_pipelines (pipeline_io ps bsrc bsnk cfg (sm_Name s)) 0 (sm_Pipelines s) = Inr specs"
    "list_all2 runs (sm_Pipelines s) specs"
    using adapt_pipelines_total [of "sm_Pipelines s" "pipeline_io ps bsrc bsnk cfg (sm_Name s)" 0] by blast
  then show ?case using Cons by auto
qed simp


section \<open>Reload\<close>

text \<open>A reload that fails on the WAF rules has already taken over the new configuration and the new
  windows of the tracker.\<close>

lemma reload_half_applied:
  assumes "NewMatcher (WhitelistConfig.truncate (cfg_Whitelist newCfg)) = Inr m" "map_of (f_trackers f) (ps_group old) = Some t"
    and "fst (Reload fe (Inr (ws, newCfg)) old f) = Inl err"
  shows "f_cfg (snd (Reload fe (Inr (ws, newCfg)) old f)) = newCfg
    \<and> map_of (f_trackers (snd (Reload fe (Inr (ws, newCfg)) old f))) (ps_group old) = Some (Reconfigure (tracker_config newCfg) t)"
proof -
  have "f_cfg (reconfigure_group g newCfg (f\<lparr>f_cfg := newCfg\<rparr>)) = newCfg" for g
    by (simp add: reconfigure_group_def split: option.split)
  then show ?thesis using assms by (auto simp: Reload_def Let_def reconfigure_get split: sum.splits)
qed

lemma removed_stub:
  "findPipelineCfg (streamConfigFromOld old) (PipelineName old) i (oldPipeConfigFromOld old) = oldPipeConfigFromOld old"
  "processors_of (oldPipeConfigFromOld old) = []" "\<not> pl_RawForward (oldPipeConfigFromOld old)"
  by (simp_all add: findPipelineCfg_def streamConfigFromOld_def zero_stream_def processors_of_def oldPipeConfigFromOld_def zero_pipeline_def)

text \<open>A reload without the stream of a pipeline keeps the pipeline running with the global detectors
  and without its WAF.\<close>

lemma reload_removed_stream:
  assumes "findStreamCfg newCfg (StreamName old) = None" "fst (Reload fe (Inr (ws, newCfg)) old f) = Inr st"
  shows "ss_Waf st = None \<and> \<not> RawForward st \<and> ss_Scorer st = new_scorer fe newCfg (oldPipeConfigFromOld old)"
  using assms by (auto simp: Reload_def Let_def removed_stub split: sum.splits)

section \<open>Examples\<close>

definition demo_fe :: "((string \<times> string) list, unit) factory_env" where
  "demo_fe = \<lparr>fe_registry = (\<lambda>name spec sh. Inr None), fe_engine = literal_engine, fe_decode = (\<lambda>y. Inl []), fe_shared = None\<rparr>"

definition demo_factory :: "unit securityFactory" where
  "demo_factory = \<lparr>f_cfg = default_loaded, f_trackers = []\<rparr>"

lemma default_loaded_fields:
  "cfg_Streams default_loaded = [default_stream]" "wl_CIDRs (cfg_Whitelist default_loaded) = []"
  "pa_Profile (cfg_Parser default_loaded) = []" "pa_RegexPattern (cfg_Parser default_loaded) = []"
  by (simp_all add: default_loaded_def defaultConfig_def)

lemma default_stream_fields:
  "sm_Name default_stream = []" "length (sm_Pipelines default_stream) = 1" "pl_Name (sm_Pipelines default_stream ! 0) = []"
  "pl_Processors (sm_Pipelines default_stream ! 0) = None" "pl_TrackerGroup (sm_Pipelines default_stream ! 0) = []"
  by (simp_all add: default_stream_def zero_stream_def zero_pipeline_def)

lemma default_matcher: "\<exists>m. NewMatcher (WhitelistConfig.truncate (cfg_Whitelist default_loaded)) = Inr m"
  by (simp add: NewMatcher_def WhitelistConfig.truncate_def default_loaded_fields)

lemma demo_build: "\<exists>st. Build demo_fe [] [] 0 demo_factory = (Inr st, getOrCreateTracker [] default_loaded demo_factory) \<and> ps_group st = []"
proof -
  obtain m where "NewMatcher (WhitelistConfig.truncate (cfg_Whitelist (default_loaded :: unit Config))) = Inr m" using default_matcher by blast
  then show ?thesis
    by (simp add: Build_def demo_factory_def findStreamCfg_def findPipelineCfg_def default_loaded_fields default_stream_fields
        resolveTrackerGroup_def processors_of_def Let_def)
qed

theorem factory_keeps_history_witness:
  "map_of (f_trackers (snd (Build demo_fe [] [] 0 (getOrCreateTracker [] default_loaded demo_factory)))) []
    = Some (NewTracker (tracker_config (default_loaded :: unit Config)))"
proof -
  have "map_of (f_trackers (getOrCreateTracker [] default_loaded demo_factory)) []
      = Some (NewTracker (tracker_config (default_loaded :: unit Config)))"
    by (simp add: getOrCreateTracker_get demo_factory_def)
  from factory_keeps_history [OF this] show ?thesis by blast
qed

theorem Build_own_pipeline_witness:
  "case fst (Build demo_fe [] [] 0 demo_factory) of
      Inl err \<Rightarrow> (\<exists>e. err = WhitelistError e) \<or> (\<exists>e. err = WafError e)
    | Inr st \<Rightarrow> ss_Scorer st = new_scorer demo_fe default_loaded (sm_Pipelines (default_stream :: unit StreamConfig) ! 0) \<and> ps_group st = []"
proof -
  have "config_ok q_Mode (f_cfg demo_factory)" "distinct (map sm_Name (cfg_Streams (f_cfg demo_factory)))"
    "(default_stream :: unit StreamConfig) \<in> set (cfg_Streams (f_cfg demo_factory))"
    "0 < length (sm_Pipelines (default_stream :: unit StreamConfig))"
    by (simp_all add: demo_factory_def default_ok default_loaded_fields default_stream_fields)
  from Build_own_pipeline [OF this, of demo_fe] show ?thesis
    by (simp add: default_stream_fields resolveTrackerGroup_def demo_factory_def split: sum.splits)
qed

theorem Build_from_loaded_witness:
  "\<exists>st f'. Build demo_fe [] [] 0 demo_factory = (Inr st, f')
    \<and> alertThreshold (ss_Scorer st 0) < banThreshold (ss_Scorer st 0) \<and> (\<exists>t. map_of (f_trackers f') [] = Some t \<and> 0 < maxIPs t)"
proof -
  obtain st where b: "Build demo_fe [] [] 0 demo_factory = (Inr st, getOrCreateTracker [] default_loaded demo_factory)" "ps_group st = []"
    using demo_build by blast
  have "LoadConfig bare_env [] = Inr ([GeneralLogFile ''/var/log/nginx/access.log'', OutputThreatLog ''/var/log/arxsentinel/threats.log'',
      StreamLogFile 0 [] ''/var/log/nginx/access.log'', StreamThreatLog 0 [] ''/var/log/arxsentinel/threats.log''], f_cfg demo_factory)"
    using bare_loads by (simp add: demo_factory_def)
  from Build_from_loaded [OF this b(1), of 0] show ?thesis using b by (auto simp: demo_factory_def)
qed


text \<open>Stream names are not checked: in a valid configuration with two unnamed streams, the second
  pipeline of the second stream is looked up in the first stream and its index is out of
  range.\<close>

definition twin_config :: "unit Config" where
  "twin_config = default_loaded\<lparr>cfg_Streams := [default_stream,
     default_stream\<lparr>sm_Pipelines := [sm_Pipelines default_stream ! 0, sm_Pipelines default_stream ! 0]\<rparr>]\<rparr>"

lemma unnamed_streams_collide:
  "config_ok mode twin_config \<and> fst (Build fe [] [] 1 \<lparr>f_cfg = twin_config, f_trackers = []\<rparr>) = Inl IndexOutOfRange"
proof -
  have "stream_ok (default_stream :: unit StreamConfig)" "cfg_Streams (default_loaded :: unit Config) = [default_stream]"
    using default_ok [of mode, where ?'y = unit] by (simp_all add: config_ok_def default_loaded_fields)
  then have "list_all stream_ok (cfg_Streams twin_config)"
    by (simp add: twin_config_def stream_ok_def default_stream_def zero_pipeline_def zero_stream_def)
  moreover have "set (all_queues twin_config) \<subseteq> set (all_queues (default_loaded :: unit Config))"
    by (auto simp: twin_config_def all_queues_def default_loaded_fields default_stream_def zero_stream_def zero_pipeline_def)
  ultimately have "config_ok mode twin_config"
    using default_ok [of mode, where ?'y = unit] by (auto simp: config_ok_def twin_config_def scoring_ok_def list_all_iff)
  then show ?thesis
    by (simp add: Build_def findStreamCfg_def twin_config_def default_stream_fields Let_def)
qed

end
