(* ===== verification/Json.thy ===== *)
theory Json
  imports ConfigLoad
begin

text \<open>
  What the executors use of \<open>encoding/json\<close> and \<open>net/http\<close>: JSON values, decoding into the
  fields of a struct, the values of a decoded YAML mapping with their way through
  \<open>json.Marshal\<close>, and the answer of an HTTP request with its body read as JSON.

  A struct is described by its fields: the JSON name and a decoder that writes the
  field.  As in Go, a key selects the field of that name or, failing that, the first
  field whose name agrees up to the case of ASCII letters; unknown keys are ignored;
  \<open>null\<close> leaves a field as it is; a value of the wrong type or an integer out of range
  is an error; a later key overwrites an earlier one.

  Shown: what a decoded struct holds for each field (\<open>decoded_get\<close>, \<open>decoded_frame\<close>), from which
  the executors' configurations are shown to carry the settings of the file.
\<close>

section \<open>JSON values and decoding into a struct\<close>

datatype json = JNull | JBool bool | JInt int | JReal rat | JStr string | JArr "json list"
  | JObj "(string \<times> json) list"

type_synonym 'c decoder = "json \<Rightarrow> 'c \<Rightarrow> 'c option"

definition in_int64 :: "int \<Rightarrow> bool" where
  "in_int64 n \<longleftrightarrow> - (2 ^ 63) \<le> n \<and> n < 2 ^ 63"

definition j_string :: "((string \<Rightarrow> string) \<Rightarrow> 'c \<Rightarrow> 'c) \<Rightarrow> 'c decoder" where
  "j_string upd j c = (case j of JStr s \<Rightarrow> Some (upd (\<lambda>_. s) c) | JNull \<Rightarrow> Some c | _ \<Rightarrow> None)"

definition j_int :: "((int \<Rightarrow> int) \<Rightarrow> 'c \<Rightarrow> 'c) \<Rightarrow> 'c decoder" where
  "j_int upd j c =
    (case j of JInt n \<Rightarrow> if in_int64 n then Some (upd (\<lambda>_. n) c) else None | JNull \<Rightarrow> Some c | _ \<Rightarrow> None)"

definition j_bool :: "((bool \<Rightarrow> bool) \<Rightarrow> 'c \<Rightarrow> 'c) \<Rightarrow> 'c decoder" where
  "j_bool upd j c = (case j of JBool b \<Rightarrow> Some (upd (\<lambda>_. b) c) | JNull \<Rightarrow> Some c | _ \<Rightarrow> None)"

text \<open>A \<open>null\<close> element of an array of strings is the empty string, a \<open>null\<close> array is no array.\<close>

definition string_elem :: "json \<Rightarrow> string option" where
  "string_elem j = (case j of JStr s \<Rightarrow> Some s | JNull \<Rightarrow> Some [] | _ \<Rightarrow> None)"

definition j_strings :: "((string list \<Rightarrow> string list) \<Rightarrow> 'c \<Rightarrow> 'c) \<Rightarrow> 'c decoder" where
  "j_strings upd j c =
    (case j of
       JArr js \<Rightarrow> map_option (\<lambda>ss. upd (\<lambda>_. ss) c) (those (map string_elem js))
     | JNull \<Rightarrow> Some (upd (\<lambda>_. []) c)
     | _ \<Rightarrow> None)"

text \<open>\<open>json.RawMessage\<close> takes any value.\<close>

definition j_raw :: "((json option \<Rightarrow> json option) \<Rightarrow> 'c \<Rightarrow> 'c) \<Rightarrow> 'c decoder" where
  "j_raw upd j c = Some (upd (\<lambda>_. Some j) c)"

type_synonym 'c fields = "(string \<times> 'c decoder) list"

definition find_field :: "'c fields \<Rightarrow> string \<Rightarrow> 'c decoder option" where
  "find_field fs key =
    (case map_of fs key of
       Some d \<Rightarrow> Some d
     | None \<Rightarrow> map_option snd (find (\<lambda>f. to_lower (fst f) = to_lower key) fs))"

fun unmarshal_fields :: "'c fields \<Rightarrow> (string \<times> json) list \<Rightarrow> 'c \<Rightarrow> 'c option" where
  "unmarshal_fields fs [] c = Some c"
| "unmarshal_fields fs ((k, v) # kvs) c =
    (case find_field fs k of
       None \<Rightarrow> unmarshal_fields fs kvs c
     | Some d \<Rightarrow> (case d v c of None \<Rightarrow> None | Some c' \<Rightarrow> unmarshal_fields fs kvs c'))"

definition unmarshal_struct :: "'c fields \<Rightarrow> json \<Rightarrow> 'c \<Rightarrow> 'c option" where
  "unmarshal_struct fs j c = (case j of JObj kvs \<Rightarrow> unmarshal_fields fs kvs c | JNull \<Rightarrow> Some c | _ \<Rightarrow> None)"

section \<open>Decoded YAML and its way through \<open>json.Marshal\<close>\<close>

text \<open>The dynamic types a YAML scalar or collection gets: \<open>uint64\<close> only beyond the range of
  \<open>int\<close>; a time is given by the text it is encoded as; \<open>YNaN\<close> stands for not-a-number and the
  infinities, which cannot be encoded, as \<open>YOpaque\<close>, a mapping with a key that is no string.\<close>

datatype yaml = YNull | YBool bool | YInt int | YUint int | YFloat rat | YNaN | YStr string | YTime string
  | YSeq "yaml list" | YMap "(string \<times> yaml) list" | YOpaque

fun to_json :: "yaml \<Rightarrow> json option" where
  "to_json YNull = Some JNull"
| "to_json (YBool b) = Some (JBool b)"
| "to_json (YInt n) = Some (JInt n)"
| "to_json (YUint n) = Some (JInt n)"
| "to_json (YFloat x) =
    Some (if x = of_int (floor x) \<and> \<bar>x\<bar> < 10 ^ 21 then JInt (floor x) else JReal x)"
| "to_json YNaN = None"
| "to_json (YStr s) = Some (JStr s)"
| "to_json (YTime s) = Some (JStr s)"
| "to_json (YSeq ys) = map_option JArr (those (map to_json ys))"
| "to_json (YMap kvs) =
    map_option (\<lambda>js. JObj (sort_key fst (zip (map fst kvs) js))) (those (map (\<lambda>kv. to_json (snd kv)) kvs))"
| "to_json YOpaque = None"

section \<open>Configurations of the executors\<close>

datatype exec_error = BadDuration string | MarshalFails | UnmarshalFails | Rejected string

type_synonym raw_config = "(string, yaml) gomap"

text \<open>The two readers of a duration.  \<open>parseDurationAny\<close> refuses other types; the type switch of
  the older executors ignores them.  A count of seconds is multiplied in 64 bits; a float64
  outside of them converts to the smallest integer.\<close>

definition float_to_int64 :: "rat \<Rightarrow> int" where
  "float_to_int64 x = (if in_int64 (f_trunc x) then f_trunc x else - (2 ^ 63))"

definition parseDurationAny :: "yaml \<Rightarrow> duration option" where
  "parseDurationAny v =
    (case v of
       YStr s \<Rightarrow> if s = [] then None else ParseDuration s
     | YInt n \<Rightarrow> Some (wrap64 (n * second))
     | YFloat x \<Rightarrow> Some (wrap64 (float_to_int64 x * second))
     | YNaN \<Rightarrow> Some (wrap64 (- (2 ^ 63) * second))
     | _ \<Rightarrow> None)"

definition duration_switch :: "yaml \<Rightarrow> duration \<Rightarrow> duration option" where
  "duration_switch v current =
    (case v of YStr s \<Rightarrow> ParseDuration s | YInt n \<Rightarrow> Some (wrap64 (n * second)) | _ \<Rightarrow> Some current)"

text \<open>A duration is taken out of the mapping before the rest is decoded.\<close>

definition take_duration :: "string \<Rightarrow> (yaml \<Rightarrow> 'c \<Rightarrow> 'c option) \<Rightarrow> raw_config \<times> 'c \<Rightarrow> exec_error + raw_config \<times> 'c" where
  "take_duration key set_field rc =
    (let (raw, c) = rc
     in case map_of raw key of
          None \<Rightarrow> Inr (raw, c)
        | Some v \<Rightarrow>
            (case set_field v c of
               None \<Rightarrow> Inl (BadDuration key)
             | Some c' \<Rightarrow> Inr (AList.delete key raw, c')))"

definition any_duration :: "((duration \<Rightarrow> duration) \<Rightarrow> 'c \<Rightarrow> 'c) \<Rightarrow> yaml \<Rightarrow> 'c \<Rightarrow> 'c option" where
  "any_duration upd v c = map_option (\<lambda>d. upd (\<lambda>_. d) c) (parseDurationAny v)"

definition switch_duration :: "('c \<Rightarrow> duration) \<Rightarrow> ((duration \<Rightarrow> duration) \<Rightarrow> 'c \<Rightarrow> 'c) \<Rightarrow> yaml \<Rightarrow> 'c \<Rightarrow> 'c option" where
  "switch_duration get upd v c = map_option (\<lambda>d. upd (\<lambda>_. d) c) (duration_switch v (get c))"

fun take_durations :: "(string \<times> (yaml \<Rightarrow> 'c \<Rightarrow> 'c option)) list \<Rightarrow> raw_config \<times> 'c \<Rightarrow> exec_error + raw_config \<times> 'c" where
  "take_durations [] rc = Inr rc"
| "take_durations ((k, f) # ks) rc =
    (case take_duration k f rc of Inl e \<Rightarrow> Inl e | Inr rc' \<Rightarrow> take_durations ks rc')"

definition json_fields :: "'c fields \<Rightarrow> raw_config \<times> 'c \<Rightarrow> exec_error + 'c" where
  "json_fields fs rc =
    (case to_json (YMap (fst rc)) of
       None \<Rightarrow> Inl MarshalFails
     | Some j \<Rightarrow> (case unmarshal_struct fs j (snd rc) of None \<Rightarrow> Inl UnmarshalFails | Some c \<Rightarrow> Inr c))"

text \<open>Durations, then the JSON fields, then the checks.\<close>

definition decode_config :: "(string \<times> (yaml \<Rightarrow> 'c \<Rightarrow> 'c option)) list \<Rightarrow> 'c fields \<Rightarrow> ('c \<Rightarrow> exec_error + unit)
    \<Rightarrow> raw_config \<Rightarrow> 'c \<Rightarrow> exec_error + 'c" where
  "decode_config durs fs checks raw dflt =
    (case take_durations durs (raw, dflt) of
       Inl e \<Rightarrow> Inl e
     | Inr rc \<Rightarrow>
         (case json_fields fs rc of
            Inl e \<Rightarrow> Inl e
          | Inr c \<Rightarrow> (case checks c of Inl e \<Rightarrow> Inl e | Inr u \<Rightarrow> Inr c)))"

lemma decode_checked: "decode_config durs fs checks raw dflt = Inr c \<Longrightarrow> checks c = Inr ()"
  by (auto simp: decode_config_def split: sum.splits)

section \<open>What a decoded configuration holds\<close>

definition keeps_field :: "('c \<Rightarrow> 'a) \<Rightarrow> 'c decoder \<Rightarrow> bool" where
  "keeps_field get d \<longleftrightarrow> (\<forall>v c c'. d v c = Some c' \<longrightarrow> get c' = get c)"

lemma keeps_fieldI:
  "(\<And>f c. get (upd f c) = get c) \<Longrightarrow> keeps_field get (j_string upd)"
  "(\<And>f c. get (updi f c) = get c) \<Longrightarrow> keeps_field get (j_int updi)"
  "(\<And>f c. get (updb f c) = get c) \<Longrightarrow> keeps_field get (j_bool updb)"
  by (auto simp: keeps_field_def j_string_def j_int_def j_bool_def split: json.splits if_splits)

definition lower_keys :: "(string \<times> 'v) list \<Rightarrow> bool" where
  "lower_keys m \<longleftrightarrow> list_all (\<lambda>k. to_lower k = k) (map fst m)"

lemma find_field_lower:
  assumes "lower_keys fs" "to_lower k = k"
  shows "find_field fs k = map_of fs k"
proof -
  have "find (\<lambda>f. to_lower (fst f) = to_lower k) fs = None" if "map_of fs k = None"
    using assms that by (force simp: find_None_iff lower_keys_def list_all_iff map_of_eq_None_iff)
  then show ?thesis by (auto simp: find_field_def split: option.split)
qed

lemma unmarshal_get:
  assumes "unmarshal_fields fs kvs c = Some c'" "lower_keys fs" "lower_keys kvs" "gm_ok kvs"
    and "\<forall>(k, d) \<in> set fs. k \<noteq> key \<longrightarrow> keeps_field get d" "map_of fs key = Some d"
  shows "case map_of kvs key of
      None \<Rightarrow> get c' = get c
    | Some v \<Rightarrow> (\<exists>c1 c2. d v c1 = Some c2 \<and> get c1 = get c \<and> get c' = get c2)"
  using assms(1,3,4)
proof (induction kvs arbitrary: c)
  case (Cons kv kvs)
  obtain k v where kv: "kv = (k, v)" by fastforce
  have rest: "lower_keys kvs" "gm_ok kvs" "k \<notin> gm_dom kvs" and k: "to_lower k = k"
    using Cons.prems(2,3) by (auto simp: kv lower_keys_def)
  note field = find_field_lower [OF assms(2) k]
  show ?case
  proof (cases "map_of fs k")
    case None
    then have "k \<noteq> key" "unmarshal_fields fs kvs c = Some c'"
      using assms(6) Cons.prems(1) field by (auto simp: kv)
    then show ?thesis using Cons.IH [OF _ rest(1,2)] by (simp add: kv)
  next
    case (Some d')
    then obtain c1 where c1: "d' v c = Some c1" "unmarshal_fields fs kvs c1 = Some c'"
      using Cons.prems(1) field by (auto simp: kv split: option.splits)
    note ih = Cons.IH [OF c1(2) rest(1,2)]
    show ?thesis
    proof (cases "k = key")
      case True
      then have "map_of kvs key = None" "d' = d" using rest(3) Some assms(6) by (auto simp: map_of_eq_None_iff)
      then show ?thesis using ih c1(1) True by (auto simp: kv)
    next
      case False
      then have "keeps_field get d'" using assms(5) map_of_SomeD [OF Some] by auto
      then have "get c1 = get c" using c1(1) unfolding keeps_field_def by blast
      then show ?thesis using ih False by (auto simp: kv split: option.splits)
    qed
  qed
qed simp

text \<open>The mapping as it arrives at the decoder.\<close>

lemma those_map: "those (map f xs) = Some ys \<Longrightarrow> length ys = length xs \<and> (\<forall>i < length xs. f (xs ! i) = Some (ys ! i))"
proof (induction xs arbitrary: ys)
  case (Cons x xs)
  then obtain y ys' where ys: "f x = Some y" "those (map f xs) = Some ys'" "ys = y # ys'" by (auto split: option.splits)
  then show ?case using Cons.IH [OF ys(2)] by (auto simp: nth_Cons split: nat.split)
qed simp

lemma map_of_zip_those:
  "those (map (\<lambda>kv. g (snd kv)) m) = Some js \<Longrightarrow> map_of (zip (map fst m) js) k = Option.bind (map_of m k) g"
proof (induction m arbitrary: js)
  case (Cons kv m)
  then show ?case by (auto split: option.splits)
qed simp

lemma to_json_map:
  assumes "to_json (YMap raw) = Some j" "gm_ok raw"
  obtains kvs where "j = JObj kvs" "gm_ok kvs" "gm_dom kvs = gm_dom raw" "\<forall>k. map_of kvs k = Option.bind (map_of raw k) to_json"
proof -
  obtain js where js: "those (map (\<lambda>kv. to_json (snd kv)) raw) = Some js" "j = JObj (sort_key fst (zip (map fst raw) js))"
    using assms(1) by auto
  let ?z = "zip (map fst raw) js"
  have len: "length js = length raw" using those_map [OF js(1)] by simp
  then have keys: "map fst ?z = map fst raw" by simp
  have ok: "gm_ok ?z" using assms(2) keys by simp
  have set: "set (sort_key fst ?z) = set ?z" by simp
  have ok': "gm_ok (sort_key fst ?z)"
    using ok by (simp add: distinct_map)
  have "map_of (sort_key fst ?z) k = map_of ?z k" for k
    using ok ok' set by (metis map_of_inject_set)
  then show thesis
    using js(2) ok' map_of_zip_those [OF js(1)] arg_cong [OF keys, of set]
    by (intro that [of "sort_key fst ?z"]) simp_all
qed

text \<open>Taking the durations out of the mapping.\<close>

definition keeps_setting :: "('c \<Rightarrow> 'a) \<Rightarrow> (yaml \<Rightarrow> 'c \<Rightarrow> 'c option) \<Rightarrow> bool" where
  "keeps_setting get f \<longleftrightarrow> (\<forall>v c c'. f v c = Some c' \<longrightarrow> get c' = get c)"

lemma keeps_settingI:
  "(\<And>f c. get (upd f c) = get c) \<Longrightarrow> keeps_setting get (any_duration upd)"
  "(\<And>f c. get (upd f c) = get c) \<Longrightarrow> keeps_setting get (switch_duration own upd)"
  by (auto simp: keeps_setting_def any_duration_def switch_duration_def)

lemma lower_keys_delete: "lower_keys m \<Longrightarrow> lower_keys (AList.delete k m)"
  using gm_dom_delete [of k m] by (auto simp: lower_keys_def list_all_iff)

lemma take_durations_raw:
  "take_durations ks (raw, c) = Inr (raw', c') \<Longrightarrow> gm_ok raw \<and> lower_keys raw \<Longrightarrow>
     gm_ok raw' \<and> lower_keys raw' \<and> (\<forall>k. map_of raw' k = (if k \<in> fst ` set ks then None else map_of raw k))"
proof (induction ks arbitrary: raw c)
  case (Cons kf ks)
  obtain k f where kf: "kf = (k, f)" by fastforce
  obtain raw1 c1 where r1: "take_duration k f (raw, c) = Inr (raw1, c1)" "take_durations ks (raw1, c1) = Inr (raw', c')"
    using Cons.prems(1) by (auto simp: kf split: sum.splits)
  have "raw1 = AList.delete k raw"
    using r1(1) by (auto simp: take_duration_def map_of_eq_None_iff split: option.splits)
  then have step: "gm_ok raw1 \<and> lower_keys raw1 \<and> (\<forall>k'. map_of raw1 k' = (if k' = k then None else map_of raw k'))"
    using Cons.prems(2) by (simp add: lower_keys_delete distinct_delete gm_get_delete)
  then show ?case using Cons.IH [OF r1(2)] by (auto simp: kf)
qed simp

lemma take_durations_keep:
  "take_durations ks rc = Inr rc' \<Longrightarrow> \<forall>(k, f) \<in> set ks. keeps_setting get f \<Longrightarrow> get (snd rc') = get (snd rc)"
proof (induction ks arbitrary: rc)
  case (Cons kf ks)
  obtain k f where kf: "kf = (k, f)" by fastforce
  obtain rc1 where rc1: "take_duration k f rc = Inr rc1" "take_durations ks rc1 = Inr rc'"
    using Cons.prems(1) by (auto simp: kf split: sum.splits)
  have "keeps_setting get f" using Cons.prems(2) by (simp add: kf)
  then have "get (snd rc1) = get (snd rc)"
    using rc1(1) by (auto simp: take_duration_def keeps_setting_def split: option.splits prod.splits)
  then show ?case using Cons.IH [OF rc1(2)] Cons.prems(2) by simp
qed simp

lemma take_durations_get:
  assumes "take_durations ks (raw, c) = Inr (raw', c')" "distinct (map fst ks)"
    and "\<forall>(k, f) \<in> set ks. k \<noteq> key \<longrightarrow> keeps_setting get f" "map_of ks key = Some f"
  shows "case map_of raw key of
      None \<Rightarrow> get c' = get c
    | Some v \<Rightarrow> (\<exists>c1 c2. f v c1 = Some c2 \<and> get c1 = get c \<and> get c' = get c2)"
  using assms
proof (induction ks arbitrary: raw c)
  case (Cons kf ks)
  obtain k g where kf: "kf = (k, g)" by fastforce
  obtain raw1 c1 where r1: "take_duration k g (raw, c) = Inr (raw1, c1)" "take_durations ks (raw1, c1) = Inr (raw', c')"
    using Cons.prems(1) by (auto simp: kf split: sum.splits)
  show ?case
  proof (cases "k = key")
    case True
    have "\<forall>(k, f) \<in> set ks. keeps_setting get f"
      using Cons.prems(2,3) True by (force simp: kf)
    from take_durations_keep [OF r1(2) this] have "get c' = get c1" by simp
    then show ?thesis
      using r1(1) True Cons.prems(4) by (auto simp: kf take_duration_def split: option.splits)
  next
    case False
    then have keep: "keeps_setting get g" using Cons.prems(3) by (simp add: kf)
    have c1: "get c1 = get c" "map_of raw1 key = map_of raw key"
      using r1(1) keep False
      by (auto simp: take_duration_def keeps_setting_def gm_get_delete split: option.splits)
    show ?thesis
      using Cons.IH [OF r1(2)] Cons.prems(2-4) False c1 by (auto simp: kf split: option.splits)
  qed
qed simp

text \<open>The settings of an accepted configuration.\<close>

lemma decode_config_inv:
  assumes "decode_config durs fs checks raw dflt = Inr c" "gm_ok raw" "lower_keys raw"
  obtains raw' c0 kvs where "take_durations durs (raw, dflt) = Inr (raw', c0)" "unmarshal_fields fs kvs c0 = Some c"
    "gm_ok kvs" "lower_keys kvs" "\<forall>k. map_of kvs k = (if k \<in> fst ` set durs then None else Option.bind (map_of raw k) to_json)"
proof -
  obtain raw' c0 where r: "take_durations durs (raw, dflt) = Inr (raw', c0)" "json_fields fs (raw', c0) = Inr c"
    using assms(1) by (auto simp: decode_config_def split: sum.splits)
  have raw': "gm_ok raw'" "lower_keys raw'" "\<forall>k. map_of raw' k = (if k \<in> fst ` set durs then None else map_of raw k)"
    using take_durations_raw [OF r(1)] assms(2,3) by blast+
  obtain j where j: "to_json (YMap raw') = Some j" "unmarshal_struct fs j c0 = Some c"
    using r(2) by (auto simp: json_fields_def split: option.splits)
  obtain kvs where kvs: "j = JObj kvs" "gm_ok kvs" "gm_dom kvs = gm_dom raw'" "\<forall>k. map_of kvs k = Option.bind (map_of raw' k) to_json"
    by (rule to_json_map [OF j(1) raw'(1)])
  have "lower_keys kvs" using raw'(2) kvs(3) by (simp add: lower_keys_def list_all_iff)
  then show thesis
    using r(1) j(2) kvs raw'(3) by (intro that [of raw' c0 kvs]) (auto simp: unmarshal_struct_def)
qed

lemma decoded_field:
  assumes "decode_config durs fs checks raw dflt = Inr c" "gm_ok raw" "lower_keys raw" "lower_keys fs"
    and "\<forall>(k, f) \<in> set durs. keeps_setting get f" "key \<notin> fst ` set durs"
    and "\<forall>(k, d) \<in> set fs. k \<noteq> key \<longrightarrow> keeps_field get d" "map_of fs key = Some d"
  shows "case map_of raw key of
      None \<Rightarrow> get c = get dflt
    | Some y \<Rightarrow> (case to_json y of None \<Rightarrow> get c = get dflt
        | Some v \<Rightarrow> (\<exists>c1 c2. d v c1 = Some c2 \<and> get c1 = get dflt \<and> get c = get c2))"
proof -
  obtain raw' c0 kvs where r: "take_durations durs (raw, dflt) = Inr (raw', c0)" "unmarshal_fields fs kvs c0 = Some c"
    "gm_ok kvs" "lower_keys kvs" "\<forall>k. map_of kvs k = (if k \<in> fst ` set durs then None else Option.bind (map_of raw k) to_json)"
    using assms(1-3) by (rule decode_config_inv)
  have "get c0 = get dflt" using take_durations_keep [OF r(1) assms(5)] by simp
  moreover have "map_of kvs key = Option.bind (map_of raw key) to_json" using r(5) assms(6) by simp
  ultimately show ?thesis
    using unmarshal_get [OF r(2) assms(4) r(4,3) assms(7,8)] by (simp split: option.split_asm bind_splits) metis
qed

lemma decoded_duration:
  assumes "decode_config durs fs checks raw dflt = Inr c" "gm_ok raw" "lower_keys raw" "lower_keys fs" "distinct (map fst durs)"
    and "\<forall>(k, f) \<in> set durs. k \<noteq> key \<longrightarrow> keeps_setting get f" "map_of durs key = Some f"
    and "\<forall>(k, d) \<in> set fs. keeps_field get d"
  shows "case map_of raw key of
      None \<Rightarrow> get c = get dflt
    | Some y \<Rightarrow> (\<exists>c1 c2. f y c1 = Some c2 \<and> get c1 = get dflt \<and> get c = get c2)"
proof -
  obtain raw' c0 kvs where r: "take_durations durs (raw, dflt) = Inr (raw', c0)" "unmarshal_fields fs kvs c0 = Some c"
    "gm_ok kvs" "lower_keys kvs"
    using assms(1-3) by (rule decode_config_inv)
  have "get c = get c0"
    using r(2,4) by (induction kvs arbitrary: c0)
      (use assms(8) in \<open>force simp: find_field_lower [OF assms(4)] lower_keys_def keeps_field_def split: option.splits dest: map_of_SomeD\<close>)+
  then show ?thesis
    using take_durations_get [OF r(1) assms(5,6,7)] by (auto split: option.splits)
qed

text \<open>What a setting of the file means for a field of the type.\<close>

definition string_setting :: "raw_config \<Rightarrow> string \<Rightarrow> string \<Rightarrow> string" where
  "string_setting raw key dflt = (case map_of raw key of Some (YStr s) \<Rightarrow> s | Some (YTime s) \<Rightarrow> s | _ \<Rightarrow> dflt)"

definition int_setting :: "raw_config \<Rightarrow> string \<Rightarrow> int \<Rightarrow> int" where
  "int_setting raw key dflt =
    (case map_of raw key of Some (YInt n) \<Rightarrow> n | Some (YUint n) \<Rightarrow> n | Some (YFloat x) \<Rightarrow> floor x | _ \<Rightarrow> dflt)"

definition duration_setting :: "raw_config \<Rightarrow> string \<Rightarrow> duration \<Rightarrow> duration" where
  "duration_setting raw key dflt =
    (case map_of raw key of
       Some (YStr s) \<Rightarrow> (case ParseDuration s of Some d \<Rightarrow> d | None \<Rightarrow> dflt)
     | Some (YInt n) \<Rightarrow> wrap64 (n * second)
     | _ \<Rightarrow> dflt)"

definition bool_setting :: "raw_config \<Rightarrow> string \<Rightarrow> bool \<Rightarrow> bool" where
  "bool_setting raw key dflt = (case map_of raw key of Some (YBool b) \<Rightarrow> b | _ \<Rightarrow> dflt)"

definition any_duration_setting :: "raw_config \<Rightarrow> string \<Rightarrow> duration \<Rightarrow> duration" where
  "any_duration_setting raw key dflt = (case map_of raw key of None \<Rightarrow> dflt | Some y \<Rightarrow> (case parseDurationAny y of None \<Rightarrow> dflt | Some d \<Rightarrow> d))"

text \<open>A table of fields and durations is disciplined for a field of the record when no other entry
  writes it.\<close>

definition writes_only :: "string \<Rightarrow> ('c \<Rightarrow> 'a) \<Rightarrow> (string \<times> (yaml \<Rightarrow> 'c \<Rightarrow> 'c option)) list \<Rightarrow> 'c fields \<Rightarrow> bool" where
  "writes_only key get durs fs \<longleftrightarrow> lower_keys fs \<and> distinct (map fst durs)
    \<and> list_all (\<lambda>(k, f). k \<noteq> key \<longrightarrow> keeps_setting get f) durs \<and> list_all (\<lambda>(k, d). k \<noteq> key \<longrightarrow> keeps_field get d) fs
    \<and> (key \<notin> fst ` set durs \<or> key \<notin> fst ` set fs)"

lemma decoded_json:
  assumes "decode_config durs fs checks raw dflt = Inr c" "gm_ok raw" "lower_keys raw" "writes_only key get durs fs" "map_of fs key = Some d"
  shows "case map_of raw key of
      None \<Rightarrow> get c = get dflt
    | Some y \<Rightarrow> (case to_json y of None \<Rightarrow> get c = get dflt
        | Some v \<Rightarrow> (\<exists>c1 c2. d v c1 = Some c2 \<and> get c1 = get dflt \<and> get c = get c2))"
proof -
  have "key \<in> fst ` set fs" using map_of_SomeD [OF assms(5)] by force
  then have durs: "key \<notin> fst ` set durs" using assms(4) by (simp add: writes_only_def)
  then have "\<forall>(k, f) \<in> set durs. keeps_setting get f" using assms(4) by (force simp: writes_only_def list_all_iff)
  moreover have "lower_keys fs" "\<forall>(k, d) \<in> set fs. k \<noteq> key \<longrightarrow> keeps_field get d"
    using assms(4) by (auto simp: writes_only_def list_all_iff)
  ultimately show ?thesis using decoded_field [OF assms(1-3)] durs assms(5) by blast
qed

lemma decoded_string:
  assumes "decode_config durs fs checks raw dflt = Inr c" "gm_ok raw" "lower_keys raw" "writes_only key get durs fs"
    and "map_of fs key = Some (j_string upd)" "\<And>s c. get (upd (\<lambda>_. s) c) = s"
  shows "get c = string_setting raw key (get dflt)"
  using decoded_json [OF assms(1-5)] assms(6)
  by (cases "map_of raw key"; cases "the (map_of raw key)") (auto simp: string_setting_def j_string_def split: if_splits option.splits)

lemma decoded_int:
  assumes "decode_config durs fs checks raw dflt = Inr c" "gm_ok raw" "lower_keys raw" "writes_only key get durs fs"
    and "map_of fs key = Some (j_int upd)" "\<And>s c. get (upd (\<lambda>_. s) c) = s"
  shows "get c = int_setting raw key (get dflt)"
  using decoded_json [OF assms(1-5)] assms(6)
  by (cases "map_of raw key"; cases "the (map_of raw key)") (auto simp: int_setting_def j_int_def split: if_splits option.splits)

lemma decoded_bool:
  assumes "decode_config durs fs checks raw dflt = Inr c" "gm_ok raw" "lower_keys raw" "writes_only key get durs fs"
    and "map_of fs key = Some (j_bool upd)" "\<And>s c. get (upd (\<lambda>_. s) c) = s"
  shows "get c = bool_setting raw key (get dflt)"
  using decoded_json [OF assms(1-5)] assms(6)
  by (cases "map_of raw key"; cases "the (map_of raw key)") (auto simp: bool_setting_def j_bool_def split: if_splits option.splits)

lemma decoded_time:
  assumes "decode_config durs fs checks raw dflt = Inr c" "gm_ok raw" "lower_keys raw" "writes_only key get durs fs" "map_of durs key = Some f"
  shows "case map_of raw key of
      None \<Rightarrow> get c = get dflt
    | Some y \<Rightarrow> (\<exists>c1 c2. f y c1 = Some c2 \<and> get c1 = get dflt \<and> get c = get c2)"
proof -
  have "key \<in> fst ` set durs" using map_of_SomeD [OF assms(5)] by force
  then have "key \<notin> fst ` set fs" using assms(4) by (simp add: writes_only_def)
  then have "\<forall>(k, d) \<in> set fs. keeps_field get d" using assms(4) by (force simp: writes_only_def list_all_iff)
  moreover have "lower_keys fs" "distinct (map fst durs)" "\<forall>(k, f) \<in> set durs. k \<noteq> key \<longrightarrow> keeps_setting get f"
    using assms(4) by (auto simp: writes_only_def list_all_iff)
  ultimately show ?thesis using decoded_duration [OF assms(1-3)] assms(5) by blast
qed

lemma decoded_switch:
  assumes "decode_config durs fs checks raw dflt = Inr c" "gm_ok raw" "lower_keys raw" "writes_only key get durs fs"
    and "map_of durs key = Some (switch_duration get upd)" "\<And>s c. get (upd (\<lambda>_. s) c) = s"
  shows "get c = duration_setting raw key (get dflt)"
  using decoded_time [OF assms(1-5)] assms(6)
  by (cases "map_of raw key"; cases "the (map_of raw key)")
     (auto simp: duration_setting_def switch_duration_def duration_switch_def split: option.splits)

lemma decoded_any:
  assumes "decode_config durs fs checks raw dflt = Inr c" "gm_ok raw" "lower_keys raw" "writes_only key get durs fs"
    and "map_of durs key = Some (any_duration upd)" "\<And>s c. get (upd (\<lambda>_. s) c) = s"
  shows "get c = any_duration_setting raw key (get dflt)"
  using decoded_time [OF assms(1-5)] assms(6)
  by (cases "map_of raw key") (auto simp: any_duration_setting_def any_duration_def split: option.splits)

lemmas decoded_setting = decoded_string decoded_int decoded_bool decoded_switch decoded_any

section \<open>HTTP requests and answers\<close>

record rest_request =
  rs_method :: string
  rs_path :: string
  rs_body :: "json option"

text \<open>A transport error, or a status with the body as a JSON value; \<open>None\<close> is a body that is empty,
  cannot be read or is no JSON.\<close>

datatype http_answer = NoAnswer string | Answer int "json option"

definition status_2xx :: "int \<Rightarrow> bool" where
  "status_2xx n \<longleftrightarrow> \<not> (n < 200 \<or> n \<ge> 300)"

end
