(* ===== verification/Wire.thy ===== *)
theory Wire
  imports Factory Json
begin

text \<open>
  How a threat leaves the process: the formatters of \<open>internal/threat/format/format.go\<close> and
  \<open>raw_line.go\<close>, the line writers of \<open>internal/core/output\<close>, and the way back from a queue,
  \<open>cmd/arxsentinel/queue_event_source.go\<close>.

  A document of \<open>encoding/json\<close> is a JSON value, with its strings made valid UTF-8.  Of \<open>strconv.Quote\<close> the escapes and the UTF-8
  decoding are written out; which characters beyond ASCII are printable is an argument, as is
  the encoding of a log entry, whose type belongs to arx-core.

  Shown: a line of the threat log is a single line whatever its reason is, and the Fail2Ban
  filter of \<open>deploy/fail2ban\<close> reads from it exactly the addresses of level THREAT
  (\<open>failban_line\<close>, \<open>threat_line_exact\<close>); an event that travels through a queue keeps level,
  address, score, modules and reason, and loses its time and origin (\<open>queue_roundtrip\<close>); a formatter
  accepts exactly the events of a pipeline of its own kind (\<open>format_total\<close>).
\<close>

section \<open>Times\<close>

text \<open>The civil date of a day, counted from 1 January of the year 1, where a time is nanoseconds
  since then.  The year is counted from March to have the leap day last.\<close>

definition civil :: "int \<Rightarrow> int \<times> int \<times> int" where
  "civil days =
    (let z = days + 306;
         era = z div 146097; doe = z mod 146097;
         yoe = (doe - doe div 1460 + doe div 36524 - doe div 146096) div 365;
         doy = doe - (365 * yoe + yoe div 4 - yoe div 100);
         mp = (5 * doy + 2) div 153;
         d = doy - (153 * mp + 2) div 5 + 1;
         m = (if mp < 10 then mp + 3 else mp - 9);
         y = yoe + era * 400
     in (if m \<le> 2 then y + 1 else y, m, d))"

definition pad :: "nat \<Rightarrow> int \<Rightarrow> string" where
  "pad width x =
    (let ds = show_nat (nat \<bar>x\<bar>)
     in (if x < 0 then ''-'' else []) @ replicate (width - length ds) (CHR ''0'') @ ds)"

definition rfc3339 :: "gotime \<Rightarrow> string" where
  "rfc3339 t =
    (let secs = t div 1000000000; (y, m, d) = civil (secs div 86400); s = secs mod 86400
     in pad 4 y @ ''-'' @ pad 2 m @ ''-'' @ pad 2 d @ ''T'' @ pad 2 (s div 3600) @ '':'' @ pad 2 (s mod 3600 div 60)
        @ '':'' @ pad 2 (s mod 60) @ ''Z'')"

section \<open>Quoted strings\<close>

definition byte :: "char \<Rightarrow> nat" where
  "byte c = of_char c"

definition continuation :: "nat \<Rightarrow> nat \<Rightarrow> nat \<Rightarrow> bool" where
  "continuation lo hi b \<longleftrightarrow> lo \<le> b \<and> b \<le> hi"

text \<open>The rune at the head and its width; \<open>None\<close> is an invalid byte.  The bounds of the second byte
  exclude overlong forms, surrogates and values beyond the last code point.\<close>

definition decode_rune :: "string \<Rightarrow> (nat \<times> nat) option" where
  "decode_rune s =
    (case map byte (take 4 s) of
       [] \<Rightarrow> None
     | b0 # bs \<Rightarrow>
         if b0 < 128 then Some (b0, 1)
         else if 194 \<le> b0 \<and> b0 \<le> 223 then
           (case bs of b1 # _ \<Rightarrow> if continuation 128 191 b1 then Some ((b0 - 192) * 64 + (b1 - 128), 2) else None | _ \<Rightarrow> None)
         else if 224 \<le> b0 \<and> b0 \<le> 239 then
           (case bs of
              b1 # b2 # _ \<Rightarrow>
                if continuation (if b0 = 224 then 160 else 128) (if b0 = 237 then 159 else 191) b1 \<and> continuation 128 191 b2
                then Some ((b0 - 224) * 4096 + (b1 - 128) * 64 + (b2 - 128), 3) else None
            | _ \<Rightarrow> None)
         else if 240 \<le> b0 \<and> b0 \<le> 244 then
           (case bs of
              b1 # b2 # b3 # _ \<Rightarrow>
                if continuation (if b0 = 240 then 144 else 128) (if b0 = 244 then 143 else 191) b1
                  \<and> continuation 128 191 b2 \<and> continuation 128 191 b3
                then Some ((b0 - 240) * 262144 + (b1 - 128) * 4096 + (b2 - 128) * 64 + (b3 - 128), 4) else None
            | _ \<Rightarrow> None)
         else None)"

definition hex_digit :: "nat \<Rightarrow> char" where
  "hex_digit d = char_of (if d < 10 then 48 + d else 87 + d)"

fun hex :: "nat \<Rightarrow> nat \<Rightarrow> string" where
  "hex 0 n = []"
| "hex (Suc w) n = hex w (n div 16) @ [hex_digit (n mod 16)]"

definition backslash :: char where
  "backslash = char_of (92 :: nat)"

definition quote_mark :: char where
  "quote_mark = char_of (34 :: nat)"

text \<open>\<open>appendEscapedRune\<close>; \<open>bytes\<close> is the rune as it stands in the string.\<close>

definition escape_rune :: "(nat \<Rightarrow> bool) \<Rightarrow> nat \<Rightarrow> string \<Rightarrow> string" where
  "escape_rune wide_print r bytes =
    (if r = 34 \<or> r = 92 then backslash # bytes
     else if (if r < 128 then 32 \<le> r \<and> r \<le> 126 else wide_print r) then bytes
     else if r = 7 then backslash # ''a''
     else if r = 8 then backslash # ''b''
     else if r = 12 then backslash # ''f''
     else if r = 10 then backslash # ''n''
     else if r = 13 then backslash # ''r''
     else if r = 9 then backslash # ''t''
     else if r = 11 then backslash # ''v''
     else if r < 32 \<or> r = 127 then backslash # ''x'' @ hex 2 r
     else if r < 65536 then backslash # ''u'' @ hex 4 r
     else backslash # ''U'' @ hex 8 r)"

function quote_body :: "(nat \<Rightarrow> bool) \<Rightarrow> string \<Rightarrow> string" where
  "quote_body wide_print [] = []"
| "quote_body wide_print (c # cs) =
    (case decode_rune (c # cs) of
       None \<Rightarrow> backslash # ''x'' @ hex 2 (byte c) @ quote_body wide_print cs
     | Some (r, n) \<Rightarrow> escape_rune wide_print r (take n (c # cs)) @ quote_body wide_print (drop (n - 1) cs))"
  by pat_completeness auto
termination by (relation "measure (length \<circ> snd)") auto

definition Quote :: "(nat \<Rightarrow> bool) \<Rightarrow> string \<Rightarrow> string" where
  "Quote wide_print s = quote_mark # quote_body wide_print s @ [quote_mark]"

section \<open>Formatters\<close>

definition FormatFailban :: "(nat \<Rightarrow> bool) \<Rightarrow> ThreatEvent \<Rightarrow> string" where
  "FormatFailban wide_print e =
    rfc3339 (te_Timestamp e) @ '' '' @ te_Level e @ '' '' @ te_IP e @ '' score='' @ show_int (te_Score e)
      @ '' modules='' @ str_join (te_Modules e) '','' @ '' reason='' @ Quote wide_print (te_Reason e)"

text \<open>\<open>json.Marshal\<close> puts the replacement character in the place of a byte that is not UTF-8.\<close>

function json_text :: "string \<Rightarrow> string" where
  "json_text [] = []"
| "json_text (c # cs) =
    (case decode_rune (c # cs) of
       None \<Rightarrow> [char_of (239 :: nat), char_of (191 :: nat), char_of (189 :: nat)] @ json_text cs
     | Some (r, n) \<Rightarrow> take n (c # cs) @ json_text (drop (n - 1) cs))"
  by pat_completeness auto
termination by (relation "measure length") auto

definition json_string :: "string \<Rightarrow> json" where
  "json_string s = JStr (json_text s)"

text \<open>The scorer leaves the slice of modules nil when no detector fires, which is encoded as \<open>null\<close>.\<close>

definition modules_json :: "string list \<Rightarrow> json" where
  "modules_json ms = (if ms = [] then JNull else JArr (map json_string ms))"

definition optional :: "string \<Rightarrow> string \<Rightarrow> (string \<times> json) list" where
  "optional key v = (if v = [] then [] else [(key, json_string v)])"

definition FormatJSON :: "ThreatEvent \<Rightarrow> json" where
  "FormatJSON e = JObj
    ([(''timestamp'', JStr (rfc3339 (te_Timestamp e))), (''level'', json_string (te_Level e))]
     @ optional ''stream'' (te_Stream e) @ optional ''source'' (te_Source e) @ optional ''source_type'' (te_SourceType e)
     @ [(''ip'', json_string (te_IP e)), (''score'', JInt (te_Score e)), (''modules'', modules_json (te_Modules e)),
        (''reason'', json_string (te_Reason e))]
     @ optional ''raw_line'' (te_RawLine e))"

definition FormatSentinelThreat :: "ThreatEvent \<Rightarrow> string \<Rightarrow> json" where
  "FormatSentinelThreat e streamName = JObj
    [(''ts'', JStr (rfc3339 (te_Timestamp e))), (''ip'', json_string (te_IP e)), (''score'', JInt (te_Score e)),
     (''level'', json_string (te_Level e)), (''modules'', modules_json (te_Modules e)), (''reason'', json_string (te_Reason e)),
     (''source'', json_string streamName)]"

text \<open>What a sink writes: text, or a JSON document.\<close>

datatype wire = Line string | Doc json

definition formatThreatPayload :: "Event option \<Rightarrow> string + ThreatEvent" where
  "formatThreatPayload ev =
    (case ev of
       None \<Rightarrow> Inl ''threat/format: nil event''
     | Some e \<Rightarrow>
         (case ev_Payload e of ThreatPayload te \<Rightarrow> Inr te | _ \<Rightarrow> Inl ''threat/format: expected payload *threat.ThreatEvent''))"

definition raw_line :: "(LogEntry \<Rightarrow> json) \<Rightarrow> Event option \<Rightarrow> string + wire" where
  "raw_line entry_doc ev =
    (case ev of
       None \<Rightarrow> Inl ''threat/format: raw-line: nil event''
     | Some e \<Rightarrow>
         (case ev_Payload e of
            LogPayload entry \<Rightarrow> Inr (Doc (entry_doc entry))
          | _ \<Rightarrow> Inl ''threat/format: raw-line: expected payload *parser.LogEntry''))"

definition formatter_Format :: "(nat \<Rightarrow> bool) \<Rightarrow> (LogEntry \<Rightarrow> json) \<Rightarrow> formatter \<Rightarrow> Event option \<Rightarrow> string + wire" where
  "formatter_Format wide_print entry_doc f ev =
    (case f of
       RawLineFormatter \<Rightarrow> raw_line entry_doc ev
     | _ \<Rightarrow>
         (case formatThreatPayload ev of
            Inl e \<Rightarrow> Inl e
          | Inr te \<Rightarrow> Inr (case f of JSONFormatter \<Rightarrow> Doc (FormatJSON te) | SentinelFormatter name \<Rightarrow> Doc (FormatSentinelThreat te name)
                          | _ \<Rightarrow> Line (FormatFailban wide_print te))))"

text \<open>The other two writers of lines; the first writes nothing for a verdict without a level.\<close>

definition FormatThreatLine :: "(nat \<Rightarrow> bool) \<Rightarrow> gotime \<Rightarrow> string \<Rightarrow> int \<Rightarrow> string \<Rightarrow> string list \<Rightarrow> string \<Rightarrow> string" where
  "FormatThreatLine wide_print now ip score level modules reason =
    rfc3339 now @ '' '' @ level @ '' '' @ ip @ '' score='' @ show_int score @ '' modules='' @ str_join modules '',''
      @ '' reason='' @ Quote wide_print reason"

definition ThreatLogger_Log :: "(string \<Rightarrow> int \<Rightarrow> string \<Rightarrow> string list \<Rightarrow> string \<Rightarrow> 'w \<Rightarrow> 'w) \<Rightarrow> string \<Rightarrow> int \<Rightarrow> string
    \<Rightarrow> string list \<Rightarrow> string \<Rightarrow> 'w \<Rightarrow> 'w" where
  "ThreatLogger_Log writeFn ip score level modules reason w =
    (if level = [] then w else writeFn ip score level modules reason w)"

definition formatChainWarningLine :: "gotime \<Rightarrow> CheckResult \<Rightarrow> string \<Rightarrow> string" where
  "formatChainWarningLine now result logFile =
    rfc3339 now @ '' CHAIN_WARN '' @ (Kind result @ ''-ip-as-client'') @ '' ip='' @ cr_IP result @ '' cidr='' @ MatchedCIDR result
      @ '' log='' @ logFile"

section \<open>From a queue\<close>

text \<open>\<open>time.Time\<close> reads a string through \<open>parse_time\<close>, the strict RFC 3339 parser.\<close>

definition j_time :: "(string \<Rightarrow> gotime option) \<Rightarrow> ((gotime \<Rightarrow> gotime) \<Rightarrow> 'c \<Rightarrow> 'c) \<Rightarrow> 'c decoder" where
  "j_time parse_time upd j c =
    (case j of JNull \<Rightarrow> Some c | JStr s \<Rightarrow> map_option (\<lambda>t. upd (\<lambda>_. t) c) (parse_time s) | _ \<Rightarrow> None)"

definition event_fields :: "(string \<Rightarrow> gotime option) \<Rightarrow> ThreatEvent fields" where
  "event_fields parse_time =
    [(''Timestamp'', j_time parse_time te_Timestamp_update), (''Level'', j_string te_Level_update), (''Stream'', j_string te_Stream_update),
     (''Source'', j_string te_Source_update), (''SourceType'', j_string te_SourceType_update), (''IP'', j_string te_IP_update),
     (''Score'', j_int te_Score_update), (''Modules'', j_strings te_Modules_update), (''Reason'', j_string te_Reason_update),
     (''RawLine'', j_string te_RawLine_update)]"

text \<open>A message of the queue that is not JSON is \<open>None\<close>.  The event has an empty envelope.\<close>

definition queue_Pop :: "(string \<Rightarrow> gotime option) \<Rightarrow> ('w \<Rightarrow> (string + json option) \<times> 'w) \<Rightarrow> 'w \<Rightarrow> (string + Event) \<times> 'w" where
  "queue_Pop parse_time pop w =
    (case pop w of
       (Inl err, w) \<Rightarrow> (Inl err, w)
     | (Inr data, w) \<Rightarrow>
         (case Option.bind data (\<lambda>j. unmarshal_struct (event_fields parse_time) j blank_event) of
            None \<Rightarrow> Inl ''queueEventSource: decode ThreatEvent JSON''
          | Some te \<Rightarrow> Inr \<lparr>ev_Envelope = \<lparr>env_Source = [], env_SourceType = [], env_Stream = [], env_Level = [], env_Timestamp = 0\<rparr>,
                            ev_Payload = ThreatPayload te\<rparr>, w))"

section \<open>A threat is one line\<close>

text \<open>Bytes that are neither blanks nor controls.\<close>

definition solid :: "char \<Rightarrow> bool" where
  "solid c \<longleftrightarrow> 32 < byte c"

definition visible :: "char \<Rightarrow> bool" where
  "visible c \<longleftrightarrow> 32 \<le> byte c"

lemma digit_solid: "is_digit c \<Longrightarrow> solid c"
  by (simp add: is_digit_def solid_def byte_def Let_def)

lemma solid_visible: "solid c \<Longrightarrow> visible c"
  by (simp add: solid_def visible_def)

lemma solid_digits [simp]: "list_all solid (show_nat n)"
  using show_nat_digits [of n] digit_solid by (auto simp: list_all_iff)

lemma solid_show_int [simp]: "list_all solid (show_int n)"
  by (simp add: show_int_def) (simp add: solid_def byte_def)

lemma solid_pad [simp]: "list_all solid (pad w x)"
proof -
  have "list_all solid (replicate k (CHR ''0''))" for k by (simp add: list_all_iff solid_def byte_def)
  moreover have "solid (CHR ''-'')" by (simp add: solid_def byte_def)
  ultimately show ?thesis by (simp add: pad_def Let_def)
qed

lemma solid_rfc3339 [simp]: "list_all solid (rfc3339 t)"
  by (simp add: rfc3339_def Let_def split_beta) (simp add: solid_def byte_def)

lemma decode_rune_wide:
  assumes "decode_rune (c # cs) = Some (r, n)" "128 \<le> byte c"
  shows "128 \<le> r \<and> list_all (\<lambda>b. 128 \<le> byte b) (take n (c # cs))"
proof -
  consider "cs = []" | a where "cs = [a]" | a b where "cs = [a, b]" | a b d ds where "cs = a # b # d # ds"
    by (metis list.exhaust)
  then show ?thesis
  proof cases
    case 1
    then show ?thesis using assms by (auto simp: decode_rune_def split: if_splits)
  next
    case 2
    then show ?thesis using assms by (auto simp: decode_rune_def continuation_def split: if_splits)
  next
    case 3
    then show ?thesis using assms by (auto simp: decode_rune_def continuation_def split: if_splits)
  next
    case 4
    then show ?thesis using assms by (auto simp: decode_rune_def continuation_def split: if_splits)
  qed
qed

lemma decode_rune_ascii: "byte c < 128 \<Longrightarrow> decode_rune (c # cs) = Some (byte c, 1)"
  by (simp add: decode_rune_def)

lemma hex_visible [simp]: "list_all visible (hex w n)"
proof (induction w n rule: hex.induct)
  case (2 w n)
  have "visible (hex_digit d)" if "d < 16" for d
    using that by (simp add: hex_digit_def visible_def byte_def)
  then show ?case using 2 by simp
qed simp

lemma escape_visible:
  assumes "decode_rune (c # cs) = Some (r, n)"
  shows "list_all visible (escape_rune wp r (take n (c # cs)))"
proof (cases "byte c < 128")
  case True
  then have "r = byte c" "n = 1" using assms by (simp_all add: decode_rune_ascii)
  then show ?thesis using True by (simp add: escape_rune_def backslash_def) (simp add: visible_def byte_def)
next
  case False
  then have "128 \<le> r" "list_all (\<lambda>b. 128 \<le> byte b) (take n (c # cs))" using decode_rune_wide [OF assms] by simp_all
  moreover from this(2) have "list_all visible (take n (c # cs))"
    by (rule list.pred_mono_strong) (simp add: visible_def)
  ultimately show ?thesis by (simp add: escape_rune_def backslash_def) (simp add: visible_def byte_def)
qed

lemma quote_body_visible [simp]: "list_all visible (quote_body wp s)"
proof (induction wp s rule: quote_body.induct)
  case (2 wp c cs)
  show ?case
  proof (cases "decode_rune (c # cs)")
    case None
    then show ?thesis using 2(1) by (simp add: backslash_def) (simp add: visible_def byte_def)
  next
    case (Some rn)
    then obtain r n where "decode_rune (c # cs) = Some (r, n)" by (cases rn) auto
    then show ?thesis using 2(2) escape_visible by simp
  qed
qed simp

lemma Quote_visible [simp]: "list_all visible (Quote wp s)"
  by (simp add: Quote_def quote_mark_def visible_def byte_def)

text \<open>How the filter reads a line: a time, the level, the address, a score that starts with a digit.\<close>

definition word_of :: "string \<Rightarrow> string" where
  "word_of = takeWhile (\<lambda>c. c \<noteq> CHR '' '')"

definition after_word :: "string \<Rightarrow> string" where
  "after_word s = drop 1 (dropWhile (\<lambda>c. c \<noteq> CHR '' '') s)"

definition starts_with_digit :: "string \<Rightarrow> bool" where
  "starts_with_digit s \<longleftrightarrow> (case s of [] \<Rightarrow> False | c # _ \<Rightarrow> is_digit c)"

definition fail2ban_host :: "string \<Rightarrow> string option" where
  "fail2ban_host line =
    (let rest = after_word line; after = after_word rest
     in if word_of rest = ''THREAT'' \<and> word_of after \<noteq> [] \<and> has_prefix (after_word after) ''score=''
           \<and> starts_with_digit (drop 6 (after_word after))
        then Some (word_of after) else None)"

lemma word_solid [simp]:
  assumes "list_all solid w"
  shows "word_of (w @ CHR '' '' # rest) = w" "after_word (w @ CHR '' '' # rest) = rest"
proof -
  have sp: "\<forall>c \<in> set w. c \<noteq> CHR '' ''" using assms by (auto simp: list_all_iff solid_def byte_def)
  then show "word_of (w @ CHR '' '' # rest) = w" "after_word (w @ CHR '' '' # rest) = rest"
    by (simp_all add: word_of_def after_word_def takeWhile_append dropWhile_append)
qed

lemma digit_first: "0 \<le> n \<Longrightarrow> starts_with_digit (show_int n @ s)"
  using show_nat_digits [of "nat n"] show_nat_nonempty [of "nat n"]
  by (cases "show_nat (nat n)") (auto simp: starts_with_digit_def show_int_def)

lemma visible_join: "list_all visible sep \<Longrightarrow> list_all (list_all visible) xs \<Longrightarrow> list_all visible (str_join xs sep)"
  by (induction xs sep rule: str_join.induct) auto

lemma visible_no_newline: "list_all visible s \<Longrightarrow> char_of (10 :: nat) \<notin> set s"
  by (auto simp: list_all_iff visible_def byte_def)

lemma failban_line:
  assumes "list_all solid (te_Level e)" "list_all solid (te_IP e)" "te_IP e \<noteq> []" "0 \<le> te_Score e"
  shows "fail2ban_host (FormatFailban wp e) = (if te_Level e = ''THREAT'' then Some (te_IP e) else None)"
proof -
  let ?s = "CHR '' ''"
  let ?tail = "'' modules='' @ str_join (te_Modules e) '','' @ '' reason='' @ Quote wp (te_Reason e)"
  have line: "FormatFailban wp e = rfc3339 (te_Timestamp e) @ ?s # te_Level e @ ?s # te_IP e @ ?s # ''score='' @ show_int (te_Score e) @ ?tail"
    by (simp add: FormatFailban_def)
  have "starts_with_digit (drop 6 (''score='' @ show_int (te_Score e) @ ?tail))"
    using digit_first [OF assms(4), of ?tail] by simp
  moreover have "has_prefix (''score='' @ show_int (te_Score e) @ ?tail) ''score=''" by simp
  ultimately show ?thesis
    unfolding fail2ban_host_def line Let_def word_solid [OF solid_rfc3339] word_solid [OF assms(1)] word_solid [OF assms(2)]
    using assms(3) by simp
qed

lemma failban_one_line:
  assumes "list_all visible (te_Level e)" "list_all visible (te_IP e)" "list_all (list_all visible) (te_Modules e)"
  shows "char_of (10 :: nat) \<notin> set (FormatFailban wp e)"
proof (rule visible_no_newline)
  have solid: "list_all solid s \<Longrightarrow> list_all visible s" for s
    by (auto simp: list_all_iff solid_visible)
  have comma: "list_all visible '',''" by (simp add: visible_def byte_def)
  show "list_all visible (FormatFailban wp e)"
    using assms solid [OF solid_rfc3339] solid [OF solid_show_int] visible_join [OF comma assms(3)]
    by (simp add: FormatFailban_def) (simp add: visible_def byte_def)
qed

section \<open>Properties\<close>

text \<open>A date of the documentation and the day after a leap year's February.\<close>

lemma rfc3339_samples:
  "civil 739710 = (2026, 4, 5)" "civil 738944 = (2024, 2, 29)" "civil 0 = (1, 1, 1)"
  "rfc3339 ((739710 * 86400 + 14 * 3600 + 33 * 60 + 12) * 1000000000) = ''2026-04-05T14:33:12Z''"
  by code_simp+


text \<open>What the other end of a queue decodes.\<close>

definition received :: "ThreatEvent \<Rightarrow> string \<Rightarrow> ThreatEvent" where
  "received te name = blank_event\<lparr>te_Level := json_text (te_Level te), te_IP := json_text (te_IP te), te_Score := te_Score te,
     te_Modules := map json_text (te_Modules te), te_Reason := json_text (te_Reason te), te_Source := json_text name\<rparr>"

lemma wire_fields:
  "find_field (event_fields parse_time) ''ts'' = None"
    "find_field (event_fields parse_time) ''ip'' = Some (j_string te_IP_update)"
    "find_field (event_fields parse_time) ''score'' = Some (j_int te_Score_update)"
    "find_field (event_fields parse_time) ''level'' = Some (j_string te_Level_update)"
    "find_field (event_fields parse_time) ''modules'' = Some (j_strings te_Modules_update)"
    "find_field (event_fields parse_time) ''reason'' = Some (j_string te_Reason_update)"
    "find_field (event_fields parse_time) ''source'' = Some (j_string te_Source_update)"
proof -
  have low: "to_lower ''Timestamp'' = ''timestamp''" "to_lower ''Level'' = ''level''" "to_lower ''Stream'' = ''stream''"
    "to_lower ''Source'' = ''source''" "to_lower ''SourceType'' = ''sourcetype''" "to_lower ''IP'' = ''ip''"
    "to_lower ''Score'' = ''score''" "to_lower ''Modules'' = ''modules''" "to_lower ''Reason'' = ''reason''"
    "to_lower ''RawLine'' = ''rawline''" "to_lower ''ts'' = ''ts''" "to_lower ''ip'' = ''ip''" "to_lower ''score'' = ''score''"
    "to_lower ''level'' = ''level''" "to_lower ''modules'' = ''modules''" "to_lower ''reason'' = ''reason''"
    "to_lower ''source'' = ''source''" by code_simp+
  show "find_field (event_fields parse_time) ''ts'' = None"
    "find_field (event_fields parse_time) ''ip'' = Some (j_string te_IP_update)"
    "find_field (event_fields parse_time) ''score'' = Some (j_int te_Score_update)"
    "find_field (event_fields parse_time) ''level'' = Some (j_string te_Level_update)"
    "find_field (event_fields parse_time) ''modules'' = Some (j_strings te_Modules_update)"
    "find_field (event_fields parse_time) ''reason'' = Some (j_string te_Reason_update)"
    "find_field (event_fields parse_time) ''source'' = Some (j_string te_Source_update)"
    by (simp_all add: find_field_def event_fields_def low)
qed

lemma sentinel_decoded:
  "unmarshal_struct (event_fields parse_time) (FormatSentinelThreat te name) blank_event
    = (if in_int64 (te_Score te) then Some (received te name) else None)"
proof -
  have strings: "those (map (string_elem \<circ> json_string) ms) = Some (map json_text ms)" for ms
    by (induction ms) (simp_all add: string_elem_def json_string_def)
  show ?thesis
    by (simp add: FormatSentinelThreat_def unmarshal_struct_def wire_fields j_string_def j_int_def j_strings_def modules_json_def strings
        blank_event_def received_def json_string_def [of "te_IP _"] json_string_def [of "te_Level _"]
        json_string_def [of "te_Reason _"] json_string_def [of name])
qed

lemma json_text_ascii [simp]: "list_all (\<lambda>c. byte c < 128) s \<Longrightarrow> json_text s = s"
  by (induction s) (simp_all add: decode_rune_def)

lemma sentinel_document:
  "ev_Payload out = ThreatPayload te \<Longrightarrow> formatter_Format wp entry_doc (SentinelFormatter name) (Some out) = Inr (Doc (FormatSentinelThreat te name))"
  by (simp add: formatter_Format_def formatThreatPayload_def)

text \<open>C7: From a sentinel-threat sink through a queue to an executor: level, address, score, modules and
  reason arrive as valid UTF-8, the source is the name of the stream, and time, stream, source type
  and raw line are lost.\<close>

theorem queue_roundtrip:
  assumes "ev_Payload out = ThreatPayload te" "in_int64 (te_Score te)"
    and "formatter_Format wp entry_doc (SentinelFormatter name) (Some out) = Inr (Doc j)" "pop w = (Inr (Some j), w')"
  shows "map_sum id ev_Payload (fst (queue_Pop parse_time pop w)) = Inr (ThreatPayload
    (blank_event\<lparr>te_Level := json_text (te_Level te), te_IP := json_text (te_IP te), te_Score := te_Score te,
                 te_Modules := map json_text (te_Modules te), te_Reason := json_text (te_Reason te), te_Source := json_text name\<rparr>))"
proof -
  have "j = FormatSentinelThreat te name" using assms(3) by (simp add: sentinel_document [OF assms(1)])
  then show ?thesis using assms(2,4) by (simp add: queue_Pop_def sentinel_decoded flip: received_def)
qed

text \<open>A formatter fails on the events of a pipeline exactly when one of the two forwards raw lines and
  the other does not.\<close>

theorem format_total:
  assumes "fst (Process env st ctxDone clk evctx event w) = Some out"
  shows "(\<exists>x. formatter_Format wp entry_doc f (Some out) = Inr x) \<longleftrightarrow> (f = RawLineFormatter \<longleftrightarrow> RawForward st)"
proof -
  have raw: "ev_Payload out = LogPayload (pe_unwrap env event)" if "RawForward st"
    using assms that by (auto simp: Process_def Let_def)
  have scored: "\<exists>te. ev_Payload out = ThreatPayload te" if "\<not> RawForward st"
    using assms that
    by (auto simp: Process_def score_step_def Let_def split_beta split: if_splits prod.splits bool.splits bot_verdict.splits)
  show ?thesis
    using raw scored
    by (cases "RawForward st"; cases f) (auto simp: formatter_Format_def raw_line_def formatThreatPayload_def)
qed

section \<open>Witnesses\<close>


definition demo_sent :: Event where
  "demo_sent = \<lparr>ev_Envelope = \<lparr>env_Source = [], env_SourceType = [], env_Stream = [], env_Level = ''THREAT'', env_Timestamp = 7\<rparr>,
     ev_Payload = ThreatPayload (blank_event\<lparr>te_Timestamp := 7, te_IP := ''192.0.2.7'', te_Level := ''THREAT'', te_Score := 90,
                                              te_Modules := [''probe'']\<rparr>)\<rparr>"

theorem queue_roundtrip_witness:
  "map_sum id ev_Payload (fst (queue_Pop (\<lambda>_. None)
      (\<lambda>_. (Inr (Some (FormatSentinelThreat (blank_event\<lparr>te_Timestamp := 7, te_IP := ''192.0.2.7'', te_Level := ''THREAT'',
               te_Score := 90, te_Modules := [''probe'']\<rparr>) ''web'')), ())) ()))
    = Inr (ThreatPayload (blank_event\<lparr>te_Level := ''THREAT'', te_IP := ''192.0.2.7'', te_Score := 90, te_Modules := [''probe''],
                                       te_Source := ''web''\<rparr>))"
  using queue_roundtrip [of demo_sent
      "blank_event\<lparr>te_Timestamp := 7, te_IP := ''192.0.2.7'', te_Level := ''THREAT'', te_Score := 90, te_Modules := [''probe'']\<rparr>"
      "\<lambda>_. False" "\<lambda>_. JNull" "''web''"
      "FormatSentinelThreat (blank_event\<lparr>te_Timestamp := 7, te_IP := ''192.0.2.7'', te_Level := ''THREAT'', te_Score := 90, te_Modules := [''probe'']\<rparr>) ''web''"
      "\<lambda>_. (Inr (Some (FormatSentinelThreat (blank_event\<lparr>te_Timestamp := 7, te_IP := ''192.0.2.7'', te_Level := ''THREAT'',
               te_Score := 90, te_Modules := [''probe'']\<rparr>) ''web'')), ())" "()" "()" "\<lambda>_. None"]
  by (simp add: demo_sent_def formatter_Format_def formatThreatPayload_def in_int64_def blank_event_def byte_def
      del: json_text.simps)

theorem format_total_witness:
  "\<not> (\<exists>out x. fst (Process demo_env demo_state False demo_clock demo_ctx (demo_request ''/index'') demo_world) = Some out
     \<and> formatter_Format (\<lambda>_. False) (\<lambda>_. JNull) RawLineFormatter (Some out) = Inr x)"
proof -
  have "\<not> RawForward demo_state" by (simp add: demo_state_def)
  then show ?thesis
    using format_total [of demo_env demo_state False demo_clock demo_ctx "demo_request ''/index''" demo_world _ "\<lambda>_. False" "\<lambda>_. JNull"
        RawLineFormatter] by blast
qed

end
