(* ===== verification/Channels.thy ===== *)
theory Channels
  imports Wire
begin

text \<open>
  The named channels between pipelines and executors: \<open>cmd/arxsentinel/executors.go\<close>, the queue
  part of \<open>transport_bootstrap.go\<close> and the semantic validation of \<open>validate.go\<close>.

  The channel switch, the transport, the plugin registries and the two validators belong to
  arx-core and are arguments: functions on the outside world \<open>'w\<close> that succeed (\<open>None\<close>) or fail.

  Shown: queues are registered in the order of the configuration, each with the namespace of the
  product where it has none, and not a single one when an executor source with a queue has no
  output that feeds it (\<open>queues_registered\<close>); a configuration that passes the validation is wired
  (\<open>validated_wired\<close>); the executors that run after a start are those before the first that failed
  (\<open>executors_started\<close>).
\<close>

section \<open>Registration of queues\<close>

type_synonym 'w register = "string \<Rightarrow> QueueConfig \<Rightarrow> 'w \<Rightarrow> string option \<times> 'w"

text \<open>What a loop over the configuration has to register, with its location: a queue, or an error
  of the configuration that ends the loop.\<close>

type_synonym item = "string \<times> (string + string \<times> QueueConfig)"

fun register_loop :: "'w register \<Rightarrow> item list \<Rightarrow> 'w \<Rightarrow> string option \<times> 'w" where
  "register_loop register [] w = (None, w)"
| "register_loop register ((loc, Inl err) # items) w = (Some (loc @ '': '' @ err), w)"
| "register_loop register ((loc, Inr (name, q)) # items) w =
    (case register name q w of
       (Some err, w) \<Rightarrow> (Some (loc @ '' '' @ name @ '': '' @ err), w)
     | (None, w) \<Rightarrow> register_loop register items w)"

definition indexed :: "string \<Rightarrow> nat \<Rightarrow> string" where
  "indexed loc i = loc @ ''['' @ show_nat i @ '']''"

definition sink_items :: "string \<Rightarrow> SinkConfig list \<Rightarrow> item list" where
  "sink_items loc outs = concat (map (\<lambda>(i, o').
     if sk_Type o' \<noteq> ''sentinel-threat'' then []
     else case sk_Queue o' of
         None \<Rightarrow> []
       | Some q \<Rightarrow> [(indexed loc i, if sk_Name o' = [] then Inl ''sentinel-threat output with queue: must set name''
                                    else Inr (sk_Name o', q))]) (enumerate 0 outs))"

definition sentinelQueueName :: "string \<Rightarrow> string + string" where
  "sentinelQueueName addr =
    (if \<not> has_prefix addr ''ncs://'' then Inl ''invalid sentinel address: expected ncs:// scheme''
     else let name = trim_prefix addr ''ncs://''
       in if name = [] then Inl ''invalid sentinel address: queue name is empty'' else Inr name)"

definition input_items :: "string \<Rightarrow> InputConfig list \<Rightarrow> item list" where
  "input_items loc ins = concat (map (\<lambda>(i, inp).
     if in_Type inp \<noteq> ''sentinel'' then []
     else case in_Queue inp of
         None \<Rightarrow> []
       | Some q \<Rightarrow> [(indexed loc i, case sentinelQueueName (in_Addr inp) of Inl e \<Rightarrow> Inl e | Inr name \<Rightarrow> Inr (name, q))])
     (enumerate 0 ins))"

text \<open>The three places of a section: the top level, each stream, each pipeline.\<close>

definition walk :: "(string \<Rightarrow> 'a list \<Rightarrow> item list) \<Rightarrow> string \<Rightarrow> 'a list \<Rightarrow> ('y StreamConfig \<Rightarrow> 'a list)
    \<Rightarrow> ('y PipelineConfig \<Rightarrow> 'a list) \<Rightarrow> 'y StreamConfig list \<Rightarrow> item list" where
  "walk items kind top_level of_stream of_pipeline streams =
    items kind top_level
    @ concat (map (\<lambda>(i, s).
        items (indexed ''streams'' i @ ''.'' @ kind) (of_stream s)
        @ concat (map (\<lambda>(j, p). items (indexed ''streams'' i @ ''.'' @ indexed ''pipelines'' j @ ''.'' @ kind) (of_pipeline p))
            (enumerate 0 (sm_Pipelines s)))) (enumerate 0 streams))"

definition preRegisterSinkQueues :: "'w register \<Rightarrow> 'y Config \<Rightarrow> 'w \<Rightarrow> string option \<times> 'w" where
  "preRegisterSinkQueues register cfg w =
    register_loop register (walk sink_items ''outputs'' (cfg_Outputs cfg) sm_Outputs pl_Outputs (cfg_Streams cfg)) w"

definition preRegisterInboundTransportQueues :: "'w register \<Rightarrow> 'y Config \<Rightarrow> 'w \<Rightarrow> string option \<times> 'w" where
  "preRegisterInboundTransportQueues register cfg w =
    register_loop register (walk input_items ''inputs'' (cfg_Inputs cfg) sm_Inputs pl_Inputs (cfg_Streams cfg)) w"

section \<open>Queues of executors\<close>

definition productQueueNamespace :: string where
  "productQueueNamespace = ''arxsentinel''"

definition sentinel_names :: "SinkConfig list \<Rightarrow> string list" where
  "sentinel_names outs = map sk_Name (filter (\<lambda>o'. sk_Type o' = ''sentinel-threat'' \<and> sk_Name o' \<noteq> []) outs)"

definition collectSentinelSinkNames :: "'y Config \<Rightarrow> string list" where
  "collectSentinelSinkNames cfg =
    remdups (sentinel_names (cfg_Outputs cfg)
      @ concat (map (\<lambda>s. sentinel_names (sm_Outputs s) @ concat (map (\<lambda>p. sentinel_names (pl_Outputs p)) (sm_Pipelines s)))
          (cfg_Streams cfg)))"

definition sortedKeys :: "string list \<Rightarrow> string list" where
  "sortedKeys m = sort m"

text \<open>The reader or the writer of a transport queue can be on another node.\<close>

definition remote :: "(QueueConfig \<Rightarrow> string) \<Rightarrow> string \<Rightarrow> QueueConfig option \<Rightarrow> bool" where
  "remote mode m q = (case q of None \<Rightarrow> False | Some q \<Rightarrow> q_Type q = ''transport'' \<and> mode q = m)"

definition executor_sources :: "'y Config \<Rightarrow> ('y ExecutorTopConfig \<times> ExecutorSourceRef) list" where
  "executor_sources cfg = concat (map (\<lambda>ec. map (\<lambda>src. (ec, src)) (ex_Sources ec)) (cfg_Executors cfg))"

definition unwired :: "(QueueConfig \<Rightarrow> string) \<Rightarrow> string list \<Rightarrow> 'y ExecutorTopConfig \<times> ExecutorSourceRef \<Rightarrow> bool" where
  "unwired mode available es =
    (let src = snd es
     in es_Queue src \<noteq> None \<and> \<not> remote mode ''recv'' (es_Queue src) \<and> es_Name src \<notin> set available)"

definition own_namespace :: "string \<Rightarrow> QueueConfig \<Rightarrow> QueueConfig" where
  "own_namespace name q =
    (let q = (if q_Type q = ''bbolt'' \<and> q_Bucket q = [] then q\<lparr>q_Bucket := productQueueNamespace\<rparr> else q)
     in if q_Type q = ''redis'' \<and> q_Key q = [] then q\<lparr>q_Key := productQueueNamespace @ '':queue:'' @ name\<rparr> else q)"

definition executor_items :: "'y Config \<Rightarrow> item list" where
  "executor_items cfg = concat (map (\<lambda>(ec, src).
     case es_Queue src of
       None \<Rightarrow> []
     | Some q \<Rightarrow> [(''executor '' @ ex_Name ec @ '' source'', Inr (es_Name src, own_namespace (es_Name src) q))]) (executor_sources cfg))"

definition preRegisterExecutorQueues :: "(QueueConfig \<Rightarrow> string) \<Rightarrow> 'w register \<Rightarrow> 'y Config \<Rightarrow> 'w \<Rightarrow> string option \<times> 'w" where
  "preRegisterExecutorQueues mode register cfg w =
    (let available = collectSentinelSinkNames cfg
     in case find (unwired mode available) (executor_sources cfg) of
          Some (ec, src) \<Rightarrow>
            (Some (''executor '' @ ex_Name ec @ '' source '' @ es_Name src
               @ '' is not referenced by any sentinel-threat output; available sink names: ''
               @ str_join (sortedKeys available) '', ''), w)
        | None \<Rightarrow> register_loop register (executor_items cfg) w)"

section \<open>Start of the executors\<close>

text \<open>The goroutines that run, as pairs of an executor and the channel it reads.\<close>

fun attach_sources :: "(string \<Rightarrow> 'w \<Rightarrow> string option \<times> 'w) \<Rightarrow> 'e \<Rightarrow> ExecutorSourceRef list \<Rightarrow> ('e \<times> string) list \<Rightarrow> 'w
    \<Rightarrow> string option \<times> ('e \<times> string) list \<times> 'w" where
  "attach_sources attach ex [] running w = (None, running, w)"
| "attach_sources attach ex (src # srcs) running w =
    (case attach (es_Name src) w of
       (Some err, w) \<Rightarrow> (Some (''source '' @ es_Name src @ '': '' @ err), running, w)
     | (None, w) \<Rightarrow> attach_sources attach ex srcs (running @ [(ex, es_Name src)]) w)"

fun start_loop :: "('y ExecutorTopConfig \<Rightarrow> string + 'e) \<Rightarrow> (string \<Rightarrow> 'w \<Rightarrow> string option \<times> 'w) \<Rightarrow> 'y ExecutorTopConfig list
    \<Rightarrow> ('e \<times> string) list \<Rightarrow> 'w \<Rightarrow> string option \<times> ('e \<times> string) list \<times> 'w" where
  "start_loop build attach [] running w = (None, running, w)"
| "start_loop build attach (ec # ecs) running w =
    (case build ec of
       Inl err \<Rightarrow> (Some (''executor '' @ ex_Name ec @ '': build: '' @ err), running, w)
     | Inr ex \<Rightarrow>
         (case attach_sources attach ex (ex_Sources ec) running w of
            (Some err, running, w) \<Rightarrow> (Some (''executor '' @ ex_Name ec @ '': '' @ err), running, w)
          | (None, running, w) \<Rightarrow> start_loop build attach ecs running w))"

definition startExecutors :: "('y ExecutorTopConfig \<Rightarrow> string + 'e) \<Rightarrow> (string \<Rightarrow> 'w \<Rightarrow> string option \<times> 'w) \<Rightarrow> 'y Config \<Rightarrow> 'w
    \<Rightarrow> string option \<times> ('e \<times> string) list \<times> 'w" where
  "startExecutors build attach cfg w = start_loop build attach (cfg_Executors cfg) [] w"

section \<open>Semantic validation\<close>

datatype DataType = TypeAny | TypeStructured | TypeScoredEvent | OtherType string

record Manifest =
  PluginID :: string
  Role :: string
  InputType :: DataType
  OutputType :: DataType

record PipelineContext =
  pc_StreamName :: string
  pc_PipelineName :: string
  Spine :: "Manifest list"
  Sinks :: "Manifest list"

datatype sem_error = UnknownExecutorType string string | Mismatch string

record PipelineResult =
  ProducedType :: DataType
  Errors :: "sem_error list"

record ExecutorBinding =
  eb_Name :: string
  eb_InputType :: DataType
  SourceNames :: "string list"

text \<open>The registries and the two validators of the core.\<close>

record plugin_env =
  source_manifest :: "string \<Rightarrow> Manifest option"
  sink_manifest :: "string \<Rightarrow> Manifest option"
  executor_manifest :: "string \<Rightarrow> Manifest option"
  detector_names :: "string list"
  detector_manifest :: "string \<Rightarrow> Manifest option"
  ValidatePipelines :: "PipelineContext list \<Rightarrow> PipelineResult list"
  ValidateExecutorWiring :: "ExecutorBinding list \<Rightarrow> (string, DataType) gomap \<Rightarrow> sem_error list"
  queue_mode :: "QueueConfig \<Rightarrow> string"

definition scorerManifest :: Manifest where
  "scorerManifest = \<lparr>PluginID = ''scorer'', Role = ''processor'', InputType = TypeStructured, OutputType = TypeScoredEvent\<rparr>"

text \<open>The first detector that can be built and has a role stands for all of them.\<close>

definition detector_stage :: "plugin_env \<Rightarrow> Manifest list" where
  "detector_stage pe =
    (case find (\<lambda>n. case detector_manifest pe n of None \<Rightarrow> False | Some m \<Rightarrow> Role m \<noteq> []) (detector_names pe) of
       None \<Rightarrow> []
     | Some n \<Rightarrow> [the (detector_manifest pe n)])"

definition buildPipelineCtx :: "plugin_env \<Rightarrow> string \<Rightarrow> 'y PipelineConfig \<Rightarrow> PipelineContext" where
  "buildPipelineCtx pe streamName pl =
    (let spine = concat (map (\<lambda>inp. case source_manifest pe (in_Type inp) of
                                Some m \<Rightarrow> if Role m \<noteq> [] then [m] else [] | None \<Rightarrow> []) (pl_Inputs pl));
         hd = (case pl_Detectors pl of None \<Rightarrow> True | Some ds \<Rightarrow> ds \<noteq> []);
         spine = (if hd then spine @ detector_stage pe @ [scorerManifest] else spine);
         sinks = List.map_filter (\<lambda>out. sink_manifest pe (sk_Type out)) (pl_Outputs pl)
     in \<lparr>pc_StreamName = streamName, pc_PipelineName = pl_Name pl, Spine = spine, Sinks = sinks\<rparr>)"

definition sentinelChannelNames :: "(QueueConfig \<Rightarrow> string) \<Rightarrow> 'y PipelineConfig \<Rightarrow> string list" where
  "sentinelChannelNames mode pl =
    sentinel_names (filter (\<lambda>out. \<not> remote mode ''send'' (sk_Queue out)) (pl_Outputs pl))"

definition channel_types :: "PipelineResult list \<Rightarrow> string list list \<Rightarrow> (string, DataType) gomap" where
  "channel_types outcomes sinkChannels =
    fold (\<lambda>(r, names). fold (\<lambda>name. AList.update name (ProducedType r)) names) (zip outcomes sinkChannels) []"

definition remote_channel :: "(QueueConfig \<Rightarrow> string) \<Rightarrow> ExecutorSourceRef \<Rightarrow> (string, DataType) gomap \<Rightarrow> (string, DataType) gomap" where
  "remote_channel mode src ch =
    (if remote mode ''recv'' (es_Queue src) \<and> map_of ch (es_Name src) = None then AList.update (es_Name src) TypeAny ch else ch)"

definition executor_binding :: "plugin_env \<Rightarrow> 'y ExecutorTopConfig \<Rightarrow> sem_error + ExecutorBinding" where
  "executor_binding pe ex =
    (case executor_manifest pe (ex_Type ex) of
       None \<Rightarrow> Inl (UnknownExecutorType (ex_Name ex) (ex_Type ex))
     | Some m \<Rightarrow> Inr \<lparr>eb_Name = ex_Name ex, eb_InputType = InputType m, SourceNames = map es_Name (ex_Sources ex)\<rparr>)"

fun lefts :: "('a + 'b) list \<Rightarrow> 'a list" where
  "lefts [] = []" | "lefts (Inl a # xs) = a # lefts xs" | "lefts (Inr b # xs) = lefts xs"

fun rights :: "('a + 'b) list \<Rightarrow> 'b list" where
  "rights [] = []" | "rights (Inl a # xs) = rights xs" | "rights (Inr b # xs) = b # rights xs"

definition semantic_errors :: "plugin_env \<Rightarrow> 'y Config \<Rightarrow> sem_error list" where
  "semantic_errors pe cfg =
    (let pipes = concat (map (\<lambda>s. map (\<lambda>pl. (buildPipelineCtx pe (sm_Name s) pl, sentinelChannelNames (queue_mode pe) pl))
                                    (sm_Pipelines s)) (cfg_Streams cfg));
         outcomes = ValidatePipelines pe (map fst pipes);
         channelTypes = channel_types outcomes (map snd pipes);
         channelTypes = fold (remote_channel (queue_mode pe)) (map snd (executor_sources cfg)) channelTypes;
         bound = map (executor_binding pe) (cfg_Executors cfg);
         wiringErrs = ValidateExecutorWiring pe (rights bound) channelTypes
     in lefts bound @ concat (map Errors outcomes) @ wiringErrs)"

text \<open>The subcommand: the messages, and the exit status.\<close>

definition runValidateSubcommand :: "plugin_env \<Rightarrow> (string + 'y Config) \<Rightarrow> (string + sem_error list) \<times> int" where
  "runValidateSubcommand pe loaded =
    (case loaded of
       Inl err \<Rightarrow> (Inl err, 1)
     | Inr cfg \<Rightarrow> let errs = semantic_errors pe cfg in (Inr errs, if errs = [] then 0 else 1))"

section \<open>What is registered\<close>

lemma rights_length: "length (rights xs) \<le> length xs"
  by (induction xs rule: rights.induct) simp_all

text \<open>A registration of which every attempt leaves an entry in the state.\<close>

locale recorder =
  fixes reg :: "'s register" and obs :: "'s \<Rightarrow> 'e list" and entry :: "string \<times> QueueConfig \<Rightarrow> 'e"
  assumes attempt: "obs (snd (reg name q s)) = obs s @ [entry (name, q)]"
begin

lemma loop_recorded:
  "\<exists>k. obs (snd (register_loop reg items s)) = obs s @ map entry (take k (rights (map snd items)))
     \<and> (fst (register_loop reg items s) = None \<longrightarrow> lefts (map snd items) = [] \<and> length items \<le> k)"
proof (induction items arbitrary: s)
  case (Cons item items)
  obtain loc x where item: "item = (loc, x)" by fastforce
  show ?case
  proof (cases x)
    case (Inl err)
    then show ?thesis by (intro exI [of _ 0]) (simp add: item)
  next
    case (Inr nq)
    obtain name q where nq: "nq = (name, q)" by fastforce
    obtain r t where r: "reg name q s = (r, t)" by fastforce
    have t: "obs t = obs s @ [entry (name, q)]" using attempt [of name q s] r by simp
    have rights: "rights (map snd (item # items)) = (name, q) # rights (map snd items)"
      "lefts (map snd (item # items)) = lefts (map snd items)" by (simp_all add: item Inr nq)
    show ?thesis
    proof (cases r)
      case (Some err)
      then show ?thesis unfolding rights by (intro exI [of _ 1]) (simp add: item Inr nq r t)
    next
      case None
      have step: "register_loop reg (item # items) s = register_loop reg items t" by (simp add: item Inr nq r None)
      obtain k where "obs (snd (register_loop reg items t)) = obs t @ map entry (take k (rights (map snd items)))
        \<and> (fst (register_loop reg items t) = None \<longrightarrow> lefts (map snd items) = [] \<and> length items \<le> k)"
        using Cons.IH [of t] by (elim exE)
      then show ?thesis unfolding step rights by (intro exI [of _ "Suc k"]) (simp add: t)
    qed
  qed
qed simp

lemma loop_complete:
  assumes "register_loop reg items s = (None, t)"
  shows "obs t = obs s @ map entry (rights (map snd items))"
proof -
  obtain k where "obs t = obs s @ map entry (take k (rights (map snd items)))" "length items \<le> k"
    using loop_recorded [of items s] assms by auto
  then show ?thesis using rights_length [of "map snd items"] by simp
qed

end

definition noting :: "'w register \<Rightarrow> ((string \<times> QueueConfig) list \<times> 'w) register" where
  "noting register name q lw = (case register name q (snd lw) of (r, w) \<Rightarrow> (r, (fst lw @ [(name, q)], w)))"

interpretation noted: recorder "noting register" fst "\<lambda>nq. nq" for register :: "'w register"
  by unfold_locales (simp add: noting_def split: prod.split)

text \<open>Every executor queue of the configuration, with its namespace.\<close>

definition executor_queues :: "'y Config \<Rightarrow> (string \<times> QueueConfig) list" where
  "executor_queues cfg = List.map_filter (\<lambda>(ec, src). map_option (\<lambda>q. (es_Name src, own_namespace (es_Name src) q)) (es_Queue src))
     (executor_sources cfg)"

lemma executor_items_rights: "rights (map snd (executor_items cfg)) = executor_queues cfg"
proof -
  have "rights (map snd (concat (map (\<lambda>(ec, src). case es_Queue src of None \<Rightarrow> []
      | Some q \<Rightarrow> [(''executor '' @ ex_Name ec @ '' source'', Inr (es_Name src, own_namespace (es_Name src) q))]) es)))
    = List.map_filter (\<lambda>(ec, src). map_option (\<lambda>q. (es_Name src, own_namespace (es_Name src) q)) (es_Queue src)) es"
    for es :: "('y ExecutorTopConfig \<times> ExecutorSourceRef) list"
    by (induction es) (auto simp: List.map_filter_simps split: option.split)
  then show ?thesis by (simp add: executor_items_def executor_queues_def)
qed

lemma executor_items_length: "length (executor_queues cfg) \<le> length (executor_items cfg)"
  using rights_length [of "map snd (executor_items cfg)"] by (simp add: executor_items_rights)

text \<open>No queue carries the default name of another product or an empty one.\<close>

lemma own_namespace_named:
  "(q_Type q = ''bbolt'' \<longrightarrow> q_Bucket (own_namespace n q) \<noteq> []) \<and> (q_Type q = ''redis'' \<longrightarrow> q_Key (own_namespace n q) \<noteq> [])"
  by (simp add: own_namespace_def productQueueNamespace_def)


section \<open>A validated configuration is wired\<close>

lemma channel_types_dom:
  "gm_dom (fold (\<lambda>(r, names). fold (\<lambda>name. AList.update name (ProducedType r)) names) rs ch)
    = gm_dom ch \<union> (\<Union>(r, names) \<in> set rs. set names)"
proof (induction rs arbitrary: ch)
  case (Cons rn rs)
  obtain r names where rn: "rn = (r, names)" by fastforce
  have "gm_dom (fold (\<lambda>name. AList.update name (ProducedType r)) names ch) = gm_dom ch \<union> set names" for ch
    by (induction names arbitrary: ch) (auto simp: gm_dom_update)
  then show ?case using Cons.IH by (auto simp: rn)
qed simp

lemma remote_channels_dom:
  "n \<in> gm_dom (fold (remote_channel mode) srcs ch) \<Longrightarrow>
     n \<in> gm_dom ch \<or> (\<exists>src \<in> set srcs. es_Name src = n \<and> remote mode ''recv'' (es_Queue src))"
proof (induction srcs arbitrary: ch)
  case (Cons src srcs)
  then have "n \<in> gm_dom (remote_channel mode src ch) \<or> (\<exists>src \<in> set srcs. es_Name src = n \<and> remote mode ''recv'' (es_Queue src))"
    by simp
  then show ?case by (auto simp: remote_channel_def gm_dom_update split: if_splits)
qed simp

text \<open>What the wiring validation of the core documents: a reader of a channel without a writer is an
  error.\<close>

definition rejects_unknown :: "(ExecutorBinding list \<Rightarrow> (string, DataType) gomap \<Rightarrow> sem_error list) \<Rightarrow> bool" where
  "rejects_unknown validate \<longleftrightarrow> (\<forall>bs ch. validate bs ch = [] \<longrightarrow> list_all (\<lambda>b. set (SourceNames b) \<subseteq> gm_dom ch) bs)"

lemma rights_mem: "Inr b \<in> set xs \<Longrightarrow> b \<in> set (rights xs)"
  by (induction xs rule: rights.induct) auto

lemma lefts_none: "lefts xs = [] \<Longrightarrow> x \<in> set xs \<Longrightarrow> \<exists>b. x = Inr b"
  by (induction xs rule: lefts.induct) auto

text \<open>A configuration without semantic errors passes the wiring check that precedes the registration
  of queues, except where a source with a queue of its own shares its name with one that is fed
  from another node.\<close>

theorem validated_wired:
  assumes "rejects_unknown (ValidateExecutorWiring pe)" "semantic_errors pe cfg = []"
    and "(ec, src) \<in> set (executor_sources cfg)" "unwired (queue_mode pe) (collectSentinelSinkNames cfg) (ec, src)"
  shows "\<exists>(ec', src') \<in> set (executor_sources cfg). es_Name src' = es_Name src \<and> remote (queue_mode pe) ''recv'' (es_Queue src')"
proof -
  let ?n = "es_Name src"
  define pipes where "pipes = concat (map (\<lambda>s. map (\<lambda>pl. (buildPipelineCtx pe (sm_Name s) pl, sentinelChannelNames (queue_mode pe) pl))
    (sm_Pipelines s)) (cfg_Streams cfg))"
  define ch where "ch = channel_types (ValidatePipelines pe (map fst pipes)) (map snd pipes)"
  define srcs where "srcs = map snd (executor_sources cfg)"
  have none: "lefts (map (executor_binding pe) (cfg_Executors cfg)) = []"
    "ValidateExecutorWiring pe (rights (map (executor_binding pe) (cfg_Executors cfg))) (fold (remote_channel (queue_mode pe)) srcs ch) = []"
    using assms(2) by (simp_all add: semantic_errors_def Let_def pipes_def ch_def srcs_def)
  have ec: "ec \<in> set (cfg_Executors cfg)" "src \<in> set (ex_Sources ec)" using assms(3) by (auto simp: executor_sources_def)
  obtain b where b: "executor_binding pe ec = Inr b" using lefts_none [OF none(1)] ec(1) by fastforce
  then have "?n \<in> set (SourceNames b)" using ec(2) by (auto simp: executor_binding_def split: option.splits)
  moreover have "list_all (\<lambda>b. set (SourceNames b) \<subseteq> gm_dom (fold (remote_channel (queue_mode pe)) srcs ch))
      (rights (map (executor_binding pe) (cfg_Executors cfg)))"
    using assms(1) none(2) unfolding rejects_unknown_def by blast
  ultimately have "?n \<in> gm_dom (fold (remote_channel (queue_mode pe)) srcs ch)"
    using rights_mem [of b "map (executor_binding pe) (cfg_Executors cfg)"] b ec(1) by (force simp: list_all_iff)
  then consider "?n \<in> gm_dom ch" | "\<exists>src' \<in> set srcs. es_Name src' = ?n \<and> remote (queue_mode pe) ''recv'' (es_Queue src')"
    using remote_channels_dom by blast
  then show ?thesis
  proof cases
    case 1
    then have "\<exists>names \<in> set (map snd pipes). ?n \<in> set names"
      by (auto simp: ch_def channel_types_def channel_types_dom dest!: set_zip_rightD)
    then have "?n \<in> set (collectSentinelSinkNames cfg)"
      by (force simp: pipes_def collectSentinelSinkNames_def sentinelChannelNames_def sentinel_names_def)
    then show ?thesis using assms(4) by (simp add: unwired_def)
  next
    case 2
    then show ?thesis by (auto simp: srcs_def)
  qed
qed

section \<open>Executors after a start\<close>

definition goroutines :: "('y ExecutorTopConfig \<Rightarrow> string + 'e) \<Rightarrow> 'y ExecutorTopConfig list \<Rightarrow> ('e \<times> string) list" where
  "goroutines build ecs = concat (map (\<lambda>ec. case build ec of Inl err \<Rightarrow> [] | Inr ex \<Rightarrow> map (\<lambda>src. (ex, es_Name src)) (ex_Sources ec)) ecs)"

lemma attached:
  "\<exists>k. fst (snd (attach_sources attach ex srcs running w)) = running @ take k (map (\<lambda>src. (ex, es_Name src)) srcs)
     \<and> (fst (attach_sources attach ex srcs running w) = None \<longrightarrow> length srcs \<le> k)"
proof (induction srcs arbitrary: running w)
  case (Cons src srcs)
  obtain r w1 where r: "attach (es_Name src) w = (r, w1)" by fastforce
  show ?case
  proof (cases r)
    case None
    obtain k where "fst (snd (attach_sources attach ex srcs (running @ [(ex, es_Name src)]) w1))
        = (running @ [(ex, es_Name src)]) @ take k (map (\<lambda>src. (ex, es_Name src)) srcs)
      \<and> (fst (attach_sources attach ex srcs (running @ [(ex, es_Name src)]) w1) = None \<longrightarrow> length srcs \<le> k)"
      using Cons.IH [of "running @ [(ex, es_Name src)]" w1] by (elim exE)
    then show ?thesis using r None by (intro exI [of _ "Suc k"]) simp
  qed (use r in \<open>auto intro!: exI [of _ 0]\<close>)
qed simp

lemma started:
  "\<exists>k. fst (snd (start_loop build attach ecs running w)) = running @ take k (goroutines build ecs)
     \<and> (fst (start_loop build attach ecs running w) = None \<longrightarrow>
          length (goroutines build ecs) \<le> k \<and> list_all (\<lambda>ec. \<exists>ex. build ec = Inr ex) ecs)"
proof (induction ecs arbitrary: running w)
  case (Cons ec ecs)
  show ?case
  proof (cases "build ec")
    case (Inl err)
    then show ?thesis by (intro exI [of _ 0]) simp
  next
    case (Inr ex)
    let ?gs = "map (\<lambda>src. (ex, es_Name src)) (ex_Sources ec)"
    have gs: "goroutines build (ec # ecs) = ?gs @ goroutines build ecs" by (simp add: goroutines_def Inr)
    obtain r running' w1 where a: "attach_sources attach ex (ex_Sources ec) running w = (r, running', w1)" by (metis surj_pair)
    obtain k where k: "running' = running @ take k ?gs" "r = None \<longrightarrow> length (ex_Sources ec) \<le> k"
      using attached [of attach ex "ex_Sources ec" running w] a by auto
    show ?thesis
    proof (cases r)
      case (Some err)
      then show ?thesis using a Inr k(1) unfolding gs
        by (intro exI [of _ "min k (length ?gs)"]) (simp add: take_map min_def)
    next
      case None
      then have full: "running' = running @ ?gs" using k by simp
      have step: "start_loop build attach (ec # ecs) running w = start_loop build attach ecs (running @ ?gs) w1"
        using a Inr None full by simp
      obtain k' where "fst (snd (start_loop build attach ecs (running @ ?gs) w1)) = (running @ ?gs) @ take k' (goroutines build ecs)
         \<and> (fst (start_loop build attach ecs (running @ ?gs) w1) = None \<longrightarrow>
              length (goroutines build ecs) \<le> k' \<and> list_all (\<lambda>ec. \<exists>ex. build ec = Inr ex) ecs)"
        using Cons.IH [of "running @ ?gs" w1] by (elim exE)
      then show ?thesis unfolding step gs by (intro exI [of _ "length ?gs + k'"]) (simp add: Inr)
    qed
  qed
qed (simp add: goroutines_def)

text \<open>After a start one goroutine runs for every source of every executor when no error is reported,
  and else for those before the first that failed; none runs twice.\<close>

theorem executors_started:
  "let (err, running, w') = startExecutors build attach cfg w
   in if err = None
      then running = goroutines build (cfg_Executors cfg) \<and> list_all (\<lambda>ec. \<exists>ex. build ec = Inr ex) (cfg_Executors cfg)
      else (\<exists>k. running = take k (goroutines build (cfg_Executors cfg)))"
proof -
  obtain err running w' where s: "startExecutors build attach cfg w = (err, running, w')" by (metis surj_pair)
  obtain k where k: "running = take k (goroutines build (cfg_Executors cfg))"
    "err = None \<longrightarrow> length (goroutines build (cfg_Executors cfg)) \<le> k \<and> list_all (\<lambda>ec. \<exists>ex. build ec = Inr ex) (cfg_Executors cfg)"
    using started [of build attach "cfg_Executors cfg" "[]" w] s by (auto simp: startExecutors_def)
  then have "err = None \<longrightarrow> running = goroutines build (cfg_Executors cfg) \<and> list_all (\<lambda>ec. \<exists>ex. build ec = Inr ex) (cfg_Executors cfg)"
    by simp
  then show ?thesis using k(1) by (auto simp: s)
qed

section \<open>Names of channels\<close>

lemma sentinelQueueName_iff: "sentinelQueueName addr = Inr name \<longleftrightarrow> name \<noteq> [] \<and> addr = ''ncs://'' @ name"
  by (auto simp: sentinelQueueName_def trim_prefix_def Let_def prefix_def split: if_splits)

text \<open>The queue of an output is registered as it stands: a bbolt queue without a bucket keeps none,
  where the queue of an executor gets the namespace of the product.\<close>

lemma sink_queue_unnamed:
  assumes "sk_Type out = ''sentinel-threat''" "sk_Name out \<noteq> []" "sk_Queue out = Some q"
  shows "sink_items loc [out] = [(indexed loc 0, Inr (sk_Name out, q))]"
  using assms by (simp add: sink_items_def)

section \<open>Witnesses\<close>

definition demo_plugins :: plugin_env where
  "demo_plugins = \<lparr>source_manifest = (\<lambda>_. None), sink_manifest = (\<lambda>_. None),
     executor_manifest = (\<lambda>_. Some \<lparr>PluginID = ''nginx'', Role = ''executor'', InputType = TypeScoredEvent, OutputType = TypeAny\<rparr>),
     detector_names = [], detector_manifest = (\<lambda>_. None),
     ValidatePipelines = map (\<lambda>_. \<lparr>ProducedType = TypeScoredEvent, Errors = []\<rparr>),
     ValidateExecutorWiring = (\<lambda>bs ch. concat (map (\<lambda>b. map Mismatch (filter (\<lambda>n. map_of ch n = None) (SourceNames b))) bs)),
     queue_mode = q_Mode\<rparr>"

lemma demo_plugins_law: "rejects_unknown (ValidateExecutorWiring demo_plugins)"
  by (auto simp: rejects_unknown_def demo_plugins_def list_all_iff filter_empty_conv map_of_eq_None_iff)

definition demo_remote :: "unit Config" where
  "demo_remote = defaultConfig\<lparr>cfg_Executors :=
     [\<lparr>ex_Name = ''a'', ex_Type = ''nginx'', ex_Sources =
         [\<lparr>es_Name = ''bans'', es_Queue = Some \<lparr>q_Type = ''transport'', q_Mode = ''recv'', q_Peer = [], q_Bucket = [], q_Key = []\<rparr>\<rparr>], ex_Config = ()\<rparr>,
      \<lparr>ex_Name = ''b'', ex_Type = ''nginx'', ex_Sources =
         [\<lparr>es_Name = ''bans'', es_Queue = Some \<lparr>q_Type = ''bbolt'', q_Mode = [], q_Peer = [], q_Bucket = [], q_Key = []\<rparr>\<rparr>], ex_Config = ()\<rparr>]\<rparr>"

lemma demo_remote_fields:
  "semantic_errors demo_plugins demo_remote = []" "collectSentinelSinkNames demo_remote = []"
  by code_simp+

theorem validated_wired_witness:
  "list_ex (\<lambda>(ec, src). es_Name src = ''bans'' \<and> remote q_Mode ''recv'' (es_Queue src)) (executor_sources demo_remote)"
proof -
  let ?src = "\<lparr>es_Name = ''bans'', es_Queue = Some \<lparr>q_Type = ''bbolt'', q_Mode = [], q_Peer = [], q_Bucket = [], q_Key = []\<rparr>\<rparr>"
  let ?ec = "\<lparr>ex_Name = ''b'', ex_Type = ''nginx'', ex_Sources = [?src], ex_Config = ()\<rparr>"
  have mem: "(?ec, ?src) \<in> set (executor_sources demo_remote)" by (simp add: executor_sources_def demo_remote_def)
  moreover have "unwired (queue_mode demo_plugins) (collectSentinelSinkNames demo_remote) (?ec, ?src)"
    by (simp add: unwired_def demo_remote_fields remote_def demo_plugins_def)
  moreover have "queue_mode demo_plugins = q_Mode" by (simp add: demo_plugins_def)
  ultimately show ?thesis
    using validated_wired [OF demo_plugins_law demo_remote_fields(1), of ?ec ?src] by (auto simp: list_ex_iff)
qed

end
