(* ===== verification/Logging.thy ===== *)
theory Logging
  imports Wire
begin

text \<open>
  Operational output: the logger of \<open>internal/sys/utils/logging.go\<close>, the warnings file of
  \<open>internal/core/output/warnings.go\<close> and the counters of \<open>internal/sys/metrics/metrics.go\<close>.

  The state of the package is a record: the two flags, the two descriptors and the operating
  system's side of it, the open descriptors and what was written to them.  Whether a directory
  can be made and a file opened, and whether a write succeeds, are arguments; so are the colours of the
  terminal library and the text of the local time.  A lock makes each operation one step.

  Shown: the descriptors that are open are exactly those the logger holds, through every reload,
  failed or not (\<open>no_descriptor_leaks\<close>); a reload that fails changes nothing
  (\<open>reload_all_or_nothing\<close>); without colours the console shows the line of the file
  (\<open>plain_console\<close>); the counters count what was recorded (\<open>counters_exact\<close>).
\<close>

section \<open>Files\<close>

record fsys =
  fs_open :: "(nat \<times> string) list"
  fs_next :: nat
  fs_written :: "(string \<times> string) list"

definition fs_OpenFile :: "(string \<Rightarrow> bool) \<Rightarrow> string \<Rightarrow> fsys \<Rightarrow> nat option \<times> fsys" where
  "fs_OpenFile ok path fs =
    (if ok path then (Some (fs_next fs), fs\<lparr>fs_open := (fs_next fs, path) # fs_open fs, fs_next := fs_next fs + 1\<rparr>)
     else (None, fs))"

definition fs_Close :: "nat option \<Rightarrow> fsys \<Rightarrow> fsys" where
  "fs_Close fd fs = (case fd of None \<Rightarrow> fs | Some d \<Rightarrow> fs\<lparr>fs_open := filter (\<lambda>f. fst f \<noteq> d) (fs_open fs)\<rparr>)"

definition fs_Write :: "nat \<Rightarrow> string \<Rightarrow> fsys \<Rightarrow> fsys" where
  "fs_Write d text' fs =
    (case map_of (fs_open fs) d of None \<Rightarrow> fs | Some path \<Rightarrow> fs\<lparr>fs_written := fs_written fs @ [(path, text')]\<rparr>)"

section \<open>The logger\<close>

datatype colour = Blue | Red | Yellow | Magenta | Cyan | Green | Orange | NoColour

definition logColors :: "(string, colour) gomap" where
  "logColors =
    [(''STARTUP'', Green), (''SHUTDOWN'', Red), (''CONFIG'', Magenta), (''PARSER'', Cyan), (''DETECTOR'', Yellow),
     (''SCORER'', Cyan), (''WHITELIST'', Magenta), (''THREAT'', Red), (''STATS'', Green), (''GC'', Cyan), (''TAIL'', Cyan),
     (''ERROR'', Red), (''WARN'', Yellow), (''INFO'', Cyan), (''DEBUG'', Orange)]"

definition innerTagColors :: "(string, colour) gomap" where
  "innerTagColors =
    [(''PROBE'', Yellow), (''RATE'', Orange), (''UA'', Magenta), (''BRUTEFORCE'', Orange), (''CRAWLER'', Yellow),
     (''NOASSET'', Cyan), (''OVERFLOW'', Red), (''DNS'', Blue), (''GC'', Cyan)]"

definition debugOnlyTags :: "string list" where
  "debugOnlyTags = [''DEBUG'', ''PARSER'']"

definition quietTags :: "string list" where
  "quietTags = [''DETECTOR'', ''SCORER'', ''TAIL'']"

record log_state =
  debugEnabled :: bool
  colorEnabled :: bool
  operationalWriter :: "nat option"
  threatWriter :: "nat option"
  ls_fs :: fsys
  ls_console :: "string list"
  ls_stderr :: "string list"

definition log_fresh :: log_state where
  "log_fresh = \<lparr>debugEnabled = False, colorEnabled = True, operationalWriter = None, threatWriter = None,
     ls_fs = \<lparr>fs_open = [], fs_next = 3, fs_written = []\<rparr>, ls_console = [], ls_stderr = []\<rparr>"

text \<open>\<open>dir\<close>: the directory can be made; \<open>ok\<close>: the file can be opened.\<close>

definition Init :: "(string \<Rightarrow> bool) \<Rightarrow> (string \<Rightarrow> bool) \<Rightarrow> bool \<Rightarrow> bool \<Rightarrow> string \<Rightarrow> string \<Rightarrow> log_state \<Rightarrow> string option \<times> log_state" where
  "Init dir ok debug consoleColor operPath threatPath s =
    (let s = s\<lparr>debugEnabled := debug, colorEnabled := consoleColor\<rparr>;
         s = (if \<not> dir operPath then s\<lparr>ls_stderr := ls_stderr s @ [''failed to create directory for operational log'']\<rparr>
              else case fs_OpenFile ok operPath (ls_fs s) of
                  (None, fs) \<Rightarrow> s\<lparr>ls_fs := fs, ls_stderr := ls_stderr s @ [''operational log unavailable'']\<rparr>
                | (Some f, fs) \<Rightarrow> s\<lparr>ls_fs := fs, operationalWriter := Some f\<rparr>)
     in if threatPath = [] then (None, s)
        else if \<not> dir threatPath then (Some ''threat log directory'', s)
        else case fs_OpenFile ok threatPath (ls_fs s) of
            (None, fs) \<Rightarrow> (Some ''threat log unavailable'', s\<lparr>ls_fs := fs\<rparr>)
          | (Some f, fs) \<Rightarrow> (None, s\<lparr>ls_fs := fs, threatWriter := Some f\<rparr>))"

definition log_Reload :: "(string \<Rightarrow> bool) \<Rightarrow> (string \<Rightarrow> bool) \<Rightarrow> bool \<Rightarrow> bool \<Rightarrow> string \<Rightarrow> string \<Rightarrow> log_state \<Rightarrow> string option \<times> log_state" where
  "log_Reload dir ok debug consoleColor operPath threatPath s =
    (let (newOper, fs) = (if dir operPath then fs_OpenFile ok operPath (ls_fs s) else (None, ls_fs s));
         s = (if newOper = None then s\<lparr>ls_stderr := ls_stderr s @ [''Reload: operational log unavailable'']\<rparr> else s);
         finish = (\<lambda>newThreat fs.
           (None, s\<lparr>debugEnabled := debug, colorEnabled := consoleColor, operationalWriter := newOper, threatWriter := newThreat,
                    ls_fs := fs_Close (threatWriter s) (fs_Close (operationalWriter s) fs)\<rparr>))
     in if threatPath = [] then finish None fs
        else if \<not> dir threatPath then (Some ''Reload: threat log directory'', s\<lparr>ls_fs := fs_Close newOper fs\<rparr>)
        else case fs_OpenFile ok threatPath fs of
            (None, fs) \<Rightarrow> (Some ''Reload: threat log unavailable'', s\<lparr>ls_fs := fs_Close newOper fs\<rparr>)
          | (Some f, fs) \<Rightarrow> finish (Some f) fs)"

definition log_Close :: "log_state \<Rightarrow> log_state" where
  "log_Close s = s\<lparr>operationalWriter := None, threatWriter := None,
     ls_fs := fs_Close (threatWriter s) (fs_Close (operationalWriter s) (ls_fs s))\<rparr>"

text \<open>\<open>strings.Index\<close>.\<close>

fun str_index :: "string \<Rightarrow> string \<Rightarrow> nat option" where
  "str_index [] p = (if p = [] then Some 0 else None)"
| "str_index (c # cs) p = (if prefix p (c # cs) then Some 0 else map_option Suc (str_index cs p))"

text \<open>The inner tag of a message and the rest of it.\<close>

definition inner_tag :: "string \<Rightarrow> (string \<times> string) option" where
  "inner_tag message =
    (if length message > 2 \<and> hd message = CHR ''['' then
       (case str_index message ''] '' of
          Some e \<Rightarrow>
            if e > 0 \<and> map_of innerTagColors (take (e - 1) (drop 1 message)) \<noteq> None
            then Some (take (e - 1) (drop 1 message), drop (e + 2) message) else None
        | None \<Rightarrow> None)
     else None)"

definition suppressed :: "bool \<Rightarrow> string \<Rightarrow> string \<Rightarrow> bool" where
  "suppressed debug tag level \<longleftrightarrow>
     (tag \<in> set debugOnlyTags \<and> \<not> debug) \<or> (tag \<in> set quietTags \<and> \<not> debug \<and> level \<noteq> ''error'' \<and> level \<noteq> ''warning'')"

definition bracket :: "string \<Rightarrow> string" where
  "bracket tag = ''['' @ tag @ '']''"

definition Log :: "(colour \<Rightarrow> string \<Rightarrow> string) \<Rightarrow> string \<Rightarrow> string \<Rightarrow> string \<Rightarrow> string \<Rightarrow> log_state \<Rightarrow> log_state" where
  "Log paint timestamp tag message level s =
    (if suppressed (debugEnabled s) tag level then s
     else
       let s = (case operationalWriter s of
                  None \<Rightarrow> s
                | Some d \<Rightarrow> s\<lparr>ls_fs := fs_Write d (timestamp @ '' '' @ bracket tag @ '' '' @ message) (ls_fs s)\<rparr>);
           tagColor = (case map_of logColors tag of Some c \<Rightarrow> c | None \<Rightarrow> NoColour);
           line =
             (if colorEnabled s then
                (case inner_tag message of
                   Some (name, body) \<Rightarrow>
                     paint Blue timestamp @ '' '' @ paint tagColor (bracket tag) @ '' ''
                       @ paint (the (map_of innerTagColors name)) (bracket name) @ '' '' @ body
                 | None \<Rightarrow> paint Blue timestamp @ '' '' @ paint tagColor (bracket tag) @ '' '' @ message)
              else
                (case inner_tag message of
                   Some (name, body) \<Rightarrow> timestamp @ '' '' @ bracket tag @ '' '' @ bracket name @ '' '' @ body
                 | None \<Rightarrow> timestamp @ '' '' @ bracket tag @ '' '' @ message))
       in s\<lparr>ls_console := ls_console s @ [line]\<rparr>)"

text \<open>\<open>writes\<close>: the write to the threat log succeeds.\<close>

definition LogThreat :: "(colour \<Rightarrow> string \<Rightarrow> string) \<Rightarrow> (nat \<Rightarrow> bool) \<Rightarrow> bool \<Rightarrow> gotime \<Rightarrow> string \<Rightarrow> string \<Rightarrow> int \<Rightarrow> string
    \<Rightarrow> string list \<Rightarrow> string \<Rightarrow> log_state \<Rightarrow> log_state" where
  "LogThreat paint wide_print writes now timestamp ip score threatLevel modules reason s =
    (let modulesStr = str_join modules '','';
         line = FormatThreatLine wide_print now ip score threatLevel modules reason;
         s = (case threatWriter s of
                None \<Rightarrow> Log paint timestamp ''ERROR'' (''[THREAT] threatWriter=nil, threat lost: '' @ ip @ '' score='' @ show_int score
                          @ '' modules='' @ modulesStr) ''error'' s
              | Some d \<Rightarrow>
                  if writes then s\<lparr>ls_fs := fs_Write d line (ls_fs s)\<rparr>
                  else s\<lparr>ls_stderr := ls_stderr s @ [''threat record lost ('' @ ip @ '' score='' @ show_int score @ '')'']\<rparr>)
     in Log paint timestamp ''THREAT'' (ip @ '' score='' @ show_int score @ '' modules='' @ modulesStr @ '' reason='' @ Quote wide_print reason)
          ''warning'' s)"

definition OpenThreatLog :: "(string \<Rightarrow> bool) \<Rightarrow> (string \<Rightarrow> bool) \<Rightarrow> string \<Rightarrow> fsys \<Rightarrow> (string + nat) \<times> fsys" where
  "OpenThreatLog dir ok path fs =
    (if path = [] then (Inl ''threat log path is empty'', fs)
     else if \<not> dir path then (Inl ''threat log directory'', fs)
     else case fs_OpenFile ok path fs of
         (None, fs) \<Rightarrow> (Inl (''threat log unavailable ('' @ path @ '')''), fs)
       | (Some f, fs) \<Rightarrow> (Inr f, fs))"

section \<open>Descriptors\<close>

definition log_inv :: "log_state \<Rightarrow> bool" where
  "log_inv s \<longleftrightarrow> fst ` set (fs_open (ls_fs s)) = set_option (operationalWriter s) \<union> set_option (threatWriter s)
     \<and> (\<forall>d \<in> fst ` set (fs_open (ls_fs s)). d < fs_next (ls_fs s))
     \<and> (\<forall>d. operationalWriter s = Some d \<longrightarrow> threatWriter s \<noteq> Some d)"

lemma fresh_inv: "log_inv log_fresh"
  by (simp add: log_inv_def log_fresh_def)

lemma OpenFile_facts:
  "fs_OpenFile ok path fs = (r, fs') \<Longrightarrow>
     fs_open fs' = (case r of None \<Rightarrow> fs_open fs | Some d \<Rightarrow> (d, path) # fs_open fs) \<and> fs_next fs \<le> fs_next fs'
     \<and> (\<forall>d. r = Some d \<longrightarrow> d = fs_next fs \<and> fs_next fs' = Suc d) \<and> fs_written fs' = fs_written fs"
  by (auto simp: fs_OpenFile_def split: if_splits)

lemma Close_facts:
  "fst ` set (fs_open (fs_Close fd fs)) = fst ` set (fs_open fs) - set_option fd" "fs_next (fs_Close fd fs) = fs_next fs"
  "fs_written (fs_Close fd fs) = fs_written fs"
  by (auto simp: fs_Close_def image_iff split: option.split)

lemma Write_facts [simp]: "fs_open (fs_Write d t fs) = fs_open fs" "fs_next (fs_Write d t fs) = fs_next fs"
  by (simp_all add: fs_Write_def split: option.split)

lemma Close_new: "\<forall>f \<in> set (fs_open fs). fst f \<noteq> d \<Longrightarrow> fs_open (fs_Close (Some d) (fs\<lparr>fs_open := (d, p) # fs_open fs\<rparr>)) = fs_open fs"
  by (simp add: fs_Close_def)

lemma Init_inv: "log_inv (snd (Init dir ok debug col operPath threatPath log_fresh))"
  by (auto simp: Init_def Let_def log_inv_def log_fresh_def fs_OpenFile_def)

lemma Log_frame [simp]:
  "operationalWriter (Log paint ts tag msg level s) = operationalWriter s" "threatWriter (Log paint ts tag msg level s) = threatWriter s"
  "fs_open (ls_fs (Log paint ts tag msg level s)) = fs_open (ls_fs s)" "fs_next (ls_fs (Log paint ts tag msg level s)) = fs_next (ls_fs s)"
  by (simp_all add: Log_def Let_def split: option.split)

lemma LogThreat_frame [simp]:
  "operationalWriter (LogThreat paint wp writes now ts ip sc lv ms rs s) = operationalWriter s"
  "threatWriter (LogThreat paint wp writes now ts ip sc lv ms rs s) = threatWriter s"
  "fs_open (ls_fs (LogThreat paint wp writes now ts ip sc lv ms rs s)) = fs_open (ls_fs s)"
  "fs_next (ls_fs (LogThreat paint wp writes now ts ip sc lv ms rs s)) = fs_next (ls_fs s)"
  by (simp_all add: LogThreat_def Let_def split: option.split)

lemma log_inv_cong:
  "operationalWriter t = operationalWriter s \<Longrightarrow> threatWriter t = threatWriter s \<Longrightarrow> fs_open (ls_fs t) = fs_open (ls_fs s)
    \<Longrightarrow> fs_next (ls_fs s) \<le> fs_next (ls_fs t) \<Longrightarrow> log_inv s \<Longrightarrow> log_inv t"
  by (force simp: log_inv_def)

lemma Close_inv: "log_inv (log_Close s)" if "log_inv s"
  using that by (auto simp: log_inv_def log_Close_def Close_facts)

text \<open>The two outcomes of a reload.\<close>

lemma Reload_outcome:
  assumes inv: "log_inv s" and r: "log_Reload dir ok debug col operPath threatPath s = (err, s')"
  shows "log_inv s'"
    and "err = None \<Longrightarrow> debugEnabled s' = debug \<and> colorEnabled s' = col"
    and "err \<noteq> None \<Longrightarrow> debugEnabled s' = debugEnabled s \<and> colorEnabled s' = colorEnabled s
      \<and> operationalWriter s' = operationalWriter s \<and> threatWriter s' = threatWriter s \<and> fs_open (ls_fs s') = fs_open (ls_fs s)"
    and "fs_written (ls_fs s') = fs_written (ls_fs s)" "ls_console s' = ls_console s"
proof -
  define old where "old = fst ` set (fs_open (ls_fs s))"
  have old: "old = set_option (operationalWriter s) \<union> set_option (threatWriter s)" "\<And>d. d \<in> old \<Longrightarrow> d < fs_next (ls_fs s)"
    using inv unfolding log_inv_def old_def by blast+
  obtain newOper fs1 where n: "(if dir operPath then fs_OpenFile ok operPath (ls_fs s) else (None, ls_fs s)) = (newOper, fs1)" by fastforce
  have f1: "fs_open fs1 = (case newOper of None \<Rightarrow> fs_open (ls_fs s) | Some d \<Rightarrow> (d, operPath) # fs_open (ls_fs s))"
    "\<And>d. newOper = Some d \<Longrightarrow> d = fs_next (ls_fs s) \<and> fs_next fs1 = Suc d" "fs_next (ls_fs s) \<le> fs_next fs1"
    "fs_written fs1 = fs_written (ls_fs s)"
    using n OpenFile_facts [of ok operPath "ls_fs s" newOper fs1] by (auto split: if_splits)
  have dom1: "fst ` set (fs_open fs1) = old \<union> set_option newOper" by (auto simp: f1(1) old_def split: option.split)
  have undo: "fs_open (fs_Close newOper fs1) = fs_open (ls_fs s)"
  proof (cases newOper)
    case (Some d)
    then have "\<forall>f \<in> set (fs_open (ls_fs s)). fst f \<noteq> d" using f1(2) old(2) by (force simp: old_def)
    then show ?thesis using Some by (simp add: f1(1) fs_Close_def filter_id_conv)
  qed (simp add: f1(1) fs_Close_def)
  define s1 where "s1 = (if newOper = None then s\<lparr>ls_stderr := ls_stderr s @ [''Reload: operational log unavailable'']\<rparr> else s)"
  have s1: "operationalWriter s1 = operationalWriter s" "threatWriter s1 = threatWriter s" "debugEnabled s1 = debugEnabled s"
    "colorEnabled s1 = colorEnabled s" "ls_console s1 = ls_console s" by (simp_all add: s1_def)
  consider (fail) "err \<noteq> None" "s' = s1\<lparr>ls_fs := fs_Close newOper fs1\<rparr>"
    | (swap) f fs2 where "err = None" "s' = s1\<lparr>debugEnabled := debug, colorEnabled := col, operationalWriter := newOper, threatWriter := f,
                ls_fs := fs_Close (threatWriter s1) (fs_Close (operationalWriter s1) fs2)\<rparr>"
        "f = None \<and> fs2 = fs1 \<or> (\<exists>d. f = Some d \<and> fs_OpenFile ok threatPath fs1 = (f, fs2))"
    using r n by (auto simp: log_Reload_def Let_def s1_def fs_OpenFile_def split: if_splits)
  note outcome = this
  have "log_inv s' \<and> (err = None \<longrightarrow> debugEnabled s' = debug \<and> colorEnabled s' = col)
    \<and> (err \<noteq> None \<longrightarrow> debugEnabled s' = debugEnabled s \<and> colorEnabled s' = colorEnabled s
        \<and> operationalWriter s' = operationalWriter s \<and> threatWriter s' = threatWriter s \<and> fs_open (ls_fs s') = fs_open (ls_fs s))
    \<and> fs_written (ls_fs s') = fs_written (ls_fs s) \<and> ls_console s' = ls_console s"
    using outcome
  proof cases
    case fail
    have "log_inv s'" by (rule log_inv_cong [OF _ _ _ _ inv]) (simp_all add: fail s1 undo Close_facts f1(3))
    then show ?thesis using fail s1 by (auto simp: undo Close_facts f1(4))
  next
    case swap
    have open2: "fs_open fs2 = (case f of None \<Rightarrow> fs_open fs1 | Some d \<Rightarrow> (d, threatPath) # fs_open fs1)"
      "fs_next fs1 \<le> fs_next fs2" "fs_written fs2 = fs_written fs1" "\<And>d. f = Some d \<Longrightarrow> d = fs_next fs1 \<and> fs_next fs2 = Suc d"
      using swap(3) OpenFile_facts [of ok threatPath fs1 f fs2] by auto
    have f2: "fst ` set (fs_open fs2) = old \<union> set_option newOper \<union> set_option f" "fs_next fs1 \<le> fs_next fs2" "fs_written fs2 = fs_written fs1"
      "\<And>d. f = Some d \<Longrightarrow> d = fs_next fs1 \<and> fs_next fs2 = Suc d"
      using open2 by (cases f; simp add: dom1)+
    have "fst ` set (fs_open (ls_fs s')) = set_option newOper \<union> set_option f"
      using f2(1,4) f1(2,3) old by (force simp: swap(2) s1 Close_facts)
    moreover have "\<forall>d \<in> set_option newOper \<union> set_option f. d < fs_next fs2" using f2(2,4) f1(2) by fastforce
    moreover have "newOper = Some d \<Longrightarrow> f \<noteq> Some d" for d using f1(2) f2(4) by fastforce
    ultimately have "log_inv s'" by (simp add: log_inv_def swap(2) Close_facts)
    then show ?thesis using swap(1,2) s1 f2(3) f1(4) by (simp add: Close_facts)
  qed
  then show "log_inv s'" "err = None \<Longrightarrow> debugEnabled s' = debug \<and> colorEnabled s' = col"
    "err \<noteq> None \<Longrightarrow> debugEnabled s' = debugEnabled s \<and> colorEnabled s' = colorEnabled s
      \<and> operationalWriter s' = operationalWriter s \<and> threatWriter s' = threatWriter s \<and> fs_open (ls_fs s') = fs_open (ls_fs s)"
    "fs_written (ls_fs s') = fs_written (ls_fs s)" "ls_console s' = ls_console s" by simp_all
qed

text \<open>What the process does with the logger after its start.\<close>

datatype log_op =
    OpReload "string \<Rightarrow> bool" "string \<Rightarrow> bool" bool bool string string
  | OpLog "colour \<Rightarrow> string \<Rightarrow> string" string string string string
  | OpThreat "colour \<Rightarrow> string \<Rightarrow> string" "nat \<Rightarrow> bool" bool gotime string string int string "string list" string
  | OpClose

fun log_step :: "log_op \<Rightarrow> log_state \<Rightarrow> log_state" where
  "log_step (OpReload dir ok debug col operPath threatPath) s = snd (log_Reload dir ok debug col operPath threatPath s)"
| "log_step (OpLog paint ts tag msg level) s = Log paint ts tag msg level s"
| "log_step (OpThreat paint wp writes now ts ip score level modules reason) s = LogThreat paint wp writes now ts ip score level modules reason s"
| "log_step OpClose s = log_Close s"

lemma log_step_inv: "log_inv s \<Longrightarrow> log_inv (log_step op s)"
proof (cases op)
  case (OpReload dir ok debug col operPath threatPath)
  assume "log_inv s"
  then show ?thesis
    using Reload_outcome(1) [of s dir ok debug col operPath threatPath "fst (log_Reload dir ok debug col operPath threatPath s)"]
    by (simp add: OpReload)
qed (auto intro: Close_inv log_inv_cong)

lemma log_run_inv: "log_inv s \<Longrightarrow> log_inv (fold log_step ops s)"
  by (induction ops arbitrary: s) (simp_all add: log_step_inv)

text \<open>C12: Whatever is logged and however often the configuration is reloaded, with or without success, the
  open descriptors are exactly those the logger writes to.\<close>

theorem no_descriptor_leaks:
  "let s = fold log_step ops (snd (Init dir ok debug col operPath threatPath log_fresh))
   in fst ` set (fs_open (ls_fs s)) = set_option (operationalWriter s) \<union> set_option (threatWriter s)"
  using log_run_inv [OF Init_inv, of ops dir ok debug col operPath threatPath] by (simp add: log_inv_def Let_def)

text \<open>A reload either takes over all settings or none: after an error the flags, the descriptors and
  the files are those of before.\<close>

theorem reload_all_or_nothing:
  "let s = fold log_step ops (snd (Init dir0 ok0 debug0 col0 operPath0 threatPath0 log_fresh));
       (err, s') = log_Reload dir ok debug col operPath threatPath s
   in (if err = None then debugEnabled s' = debug \<and> colorEnabled s' = col
       else debugEnabled s' = debugEnabled s \<and> colorEnabled s' = colorEnabled s \<and> operationalWriter s' = operationalWriter s
         \<and> threatWriter s' = threatWriter s \<and> fs_open (ls_fs s') = fs_open (ls_fs s))
      \<and> fs_written (ls_fs s') = fs_written (ls_fs s)"
proof -
  let ?s = "fold log_step ops (snd (Init dir0 ok0 debug0 col0 operPath0 threatPath0 log_fresh))"
  obtain err s' where r: "log_Reload dir ok debug col operPath threatPath ?s = (err, s')" by fastforce
  note out = Reload_outcome [OF log_run_inv [OF Init_inv] r]
  show ?thesis using out(2,3,4) unfolding Let_def r by simp
qed

section \<open>The console without colours\<close>

lemma str_index_split: "str_index s p = Some e \<Longrightarrow> s = take e s @ p @ drop (e + length p) s"
proof (induction s p arbitrary: e rule: str_index.induct)
  case (2 c cs p)
  then show ?case by (auto simp: prefix_def split: if_splits)
qed (auto split: if_splits)

lemma inner_tag_split:
  assumes "inner_tag message = Some (name, body)"
  shows "message = bracket name @ '' '' @ body"
proof -
  obtain e where e: "length message > 2" "hd message = CHR ''[''" "str_index message ''] '' = Some e" "e > 0"
    "name = take (e - 1) (drop 1 message)" "body = drop (e + 2) message"
    using assms by (auto simp: inner_tag_def split: if_splits option.splits)
  obtain cs where m: "message = CHR ''['' # cs" using e(1,2) by (cases message) auto
  obtain k where k: "e = Suc k" using e(4) by (cases e) auto
  have "take e message = CHR ''['' # name" using e(5) by (simp add: m k)
  then show ?thesis using str_index_split [OF e(3)] e(6) by (simp add: bracket_def)
qed

text \<open>With colours switched off the line on the console is the line of the operational log, and every
  message is shown in full.\<close>

theorem plain_console:
  assumes "\<not> colorEnabled s" "\<not> suppressed (debugEnabled s) tag level"
    and "operationalWriter s = Some d" "map_of (fs_open (ls_fs s)) d = Some path"
  shows "let s' = Log paint timestamp tag message level s
    in \<exists>line. ls_console s' = ls_console s @ [line] \<and> fs_written (ls_fs s') = fs_written (ls_fs s) @ [(path, line)]
      \<and> suffix message line"
proof -
  let ?line = "timestamp @ '' '' @ bracket tag @ '' '' @ message"
  have "ls_console (Log paint timestamp tag message level s) = ls_console s @ [?line]"
    using assms inner_tag_split [of message] by (auto simp: Log_def Let_def split: option.split)
  moreover have "fs_written (ls_fs (Log paint timestamp tag message level s)) = fs_written (ls_fs s) @ [(path, ?line)]"
    using assms by (simp add: Log_def Let_def fs_Write_def)
  moreover have "suffix message ?line" by (simp add: suffix_def)
  ultimately show ?thesis by auto
qed

section \<open>The warnings file\<close>

record WarningsWriter =
  ww_file :: "nat option"
  ww_path :: string

definition NewWarningsWriter :: "(string \<Rightarrow> bool) \<Rightarrow> string \<Rightarrow> fsys \<Rightarrow> (string + WarningsWriter) \<times> fsys" where
  "NewWarningsWriter ok path fs =
    (case fs_OpenFile ok path fs of
       (None, fs) \<Rightarrow> (Inl (''warnings writer: open '' @ path), fs)
     | (Some d, fs) \<Rightarrow> (Inr \<lparr>ww_file = Some d, ww_path = path\<rparr>, fs))"

text \<open>A write to a closed file is an error.\<close>

definition WriteChainWarning :: "gotime \<Rightarrow> CheckResult \<Rightarrow> string \<Rightarrow> WarningsWriter \<Rightarrow> fsys \<Rightarrow> string option \<times> fsys" where
  "WriteChainWarning now result logFile w fs =
    (case ww_file w of
       None \<Rightarrow> (Some ''warnings writer: write: invalid argument'', fs)
     | Some d \<Rightarrow> (None, fs_Write d (formatChainWarningLine now result logFile) fs))"

definition Reopen :: "(string \<Rightarrow> bool) \<Rightarrow> WarningsWriter \<Rightarrow> fsys \<Rightarrow> string option \<times> WarningsWriter \<times> fsys" where
  "Reopen ok w fs =
    (let fs = fs_Close (ww_file w) fs; w = w\<lparr>ww_file := None\<rparr>
     in case fs_OpenFile ok (ww_path w) fs of
          (None, fs) \<Rightarrow> (Some (''warnings writer: reopen '' @ ww_path w), w, fs)
        | (Some d, fs) \<Rightarrow> (None, w\<lparr>ww_file := Some d\<rparr>, fs))"

definition ww_Close :: "WarningsWriter \<Rightarrow> fsys \<Rightarrow> WarningsWriter \<times> fsys" where
  "ww_Close w fs = (w\<lparr>ww_file := None\<rparr>, fs_Close (ww_file w) fs)"

text \<open>A reopening that fails leaves the writer without a file, and every warning up to the next one
  that succeeds is lost; unlike the logger it does not keep the old descriptor.\<close>

lemma failed_reopen_loses:
  assumes "\<not> ok (ww_path w)" "Reopen ok w fs = (err, w', fs')"
  shows "err \<noteq> None" "ww_file w' = None" "snd (WriteChainWarning now result logFile w' fs') = fs'"
    "fst (WriteChainWarning now result logFile w' fs') \<noteq> None" "ww_path w' = ww_path w"
  using assms by (auto simp: Reopen_def Let_def fs_OpenFile_def WriteChainWarning_def)

section \<open>Metrics\<close>

text \<open>A vector of counters or gauges by label values.\<close>

record Metrics =
  linesProcessed :: "(string list, nat) gomap"
  threats :: "(string list, nat) gomap"
  detectorHits :: "(string list, nat) gomap"
  trackedIPs :: "(string list, int) gomap"
  suspiciousIPs :: "(string list, int) gomap"
  inputLines :: "(string list, nat) gomap"
  outputEvents :: "(string list, nat) gomap"
  outputDropped :: "(string list, nat) gomap"
  blocklistLastRefresh :: "(string list, int) gomap"

definition metrics_New :: Metrics where
  "metrics_New = \<lparr>linesProcessed = [], threats = [], detectorHits = [], trackedIPs = [], suspiciousIPs = [], inputLines = [],
     outputEvents = [], outputDropped = [], blocklistLastRefresh = []\<rparr>"

definition count_of :: "(string list, nat) gomap \<Rightarrow> string list \<Rightarrow> nat" where
  "count_of m labels = (case map_of m labels of None \<Rightarrow> 0 | Some n \<Rightarrow> n)"

definition Inc :: "string list \<Rightarrow> (string list, nat) gomap \<Rightarrow> (string list, nat) gomap" where
  "Inc labels m = AList.update labels (count_of m labels + 1) m"

datatype metric_op =
    MLine string string
  | MThreat string string string
  | MHit string string string
  | MGauges string string int int
  | MInput string string string string
  | MOutput string string string string
  | MDropped string string string string
  | MRefresh string
  | MCleanSource string string string string
  | MCleanSink string string string string
  | MCleanDropped string string string string
  | MCleanList string

text \<open>Seconds since 1970, where a time counts from the year 1.\<close>

definition unix_time :: "gotime \<Rightarrow> int" where
  "unix_time t = t div second - 62135596800"

text \<open>The methods, and the functions of the package, which do nothing before \<open>Init\<close>.\<close>

fun metrics_step :: "gotime \<Rightarrow> metric_op \<Rightarrow> Metrics \<Rightarrow> Metrics" where
  "metrics_step now (MLine s p) m = m\<lparr>linesProcessed := Inc [s, p] (linesProcessed m)\<rparr>"
| "metrics_step now (MThreat s p l) m = m\<lparr>threats := Inc [s, p, l] (threats m)\<rparr>"
| "metrics_step now (MHit s p d) m = m\<lparr>detectorHits := Inc [s, p, d] (detectorHits m)\<rparr>"
| "metrics_step now (MGauges s p tracked suspicious) m =
    m\<lparr>trackedIPs := AList.update [s, p] tracked (trackedIPs m), suspiciousIPs := AList.update [s, p] suspicious (suspiciousIPs m)\<rparr>"
| "metrics_step now (MInput s p src t) m = m\<lparr>inputLines := Inc [s, p, src, t] (inputLines m)\<rparr>"
| "metrics_step now (MOutput s p snk t) m = m\<lparr>outputEvents := Inc [s, p, snk, t] (outputEvents m)\<rparr>"
| "metrics_step now (MDropped s p snk r) m = m\<lparr>outputDropped := Inc [s, p, snk, r] (outputDropped m)\<rparr>"
| "metrics_step now (MRefresh l) m = m\<lparr>blocklistLastRefresh := AList.update [l] (unix_time now) (blocklistLastRefresh m)\<rparr>"
| "metrics_step now (MCleanSource s p src t) m = m\<lparr>inputLines := AList.delete [s, p, src, t] (inputLines m)\<rparr>"
| "metrics_step now (MCleanSink s p snk t) m = m\<lparr>outputEvents := AList.delete [s, p, snk, t] (outputEvents m)\<rparr>"
| "metrics_step now (MCleanDropped s p snk r) m = m\<lparr>outputDropped := AList.delete [s, p, snk, r] (outputDropped m)\<rparr>"
| "metrics_step now (MCleanList l) m = m\<lparr>blocklistLastRefresh := AList.delete [l] (blocklistLastRefresh m)\<rparr>"

definition metrics_Init :: "Metrics option \<Rightarrow> Metrics option" where
  "metrics_Init d = (case d of None \<Rightarrow> Some metrics_New | Some m \<Rightarrow> Some m)"

definition metrics_record :: "gotime \<Rightarrow> metric_op \<Rightarrow> Metrics option \<Rightarrow> Metrics option" where
  "metrics_record now op d = map_option (metrics_step now op) d"

text \<open>The callbacks of \<open>main.go\<close>: the metric of a line is two counters, and the pipeline reports
  threats and detector hits.\<close>

fun callback :: "metric \<Rightarrow> metric_op" where
  "callback (RecordThreat s p l) = MThreat s p l"
| "callback (RecordDetectorHit s p d) = MHit s p d"

lemma count_Inc [simp]: "count_of (Inc k m) l = count_of m l + (if l = k then 1 else 0)"
  by (simp add: count_of_def Inc_def gm_get_update)

lemma threats_step: "count_of (threats (metrics_step now op m)) [s, p, l] = count_of (threats m) [s, p, l] + (if op = MThreat s p l then 1 else 0)"
  by (cases op) auto

lemma hits_step: "count_of (detectorHits (metrics_step now op m)) [s, p, d] = count_of (detectorHits m) [s, p, d] + (if op = MHit s p d then 1 else 0)"
  by (cases op) auto

lemma counted:
  "count_of (threats (fold (\<lambda>e. metrics_step now (callback e)) es m)) [s, p, l]
     = count_of (threats m) [s, p, l] + length (filter (\<lambda>e. e = RecordThreat s p l) es)"
  "count_of (detectorHits (fold (\<lambda>e. metrics_step now (callback e)) es m)) [s, p, l]
     = count_of (detectorHits m) [s, p, l] + length (filter (\<lambda>e. e = RecordDetectorHit s p l) es)"
proof -
  have c: "callback e = MThreat s p l \<longleftrightarrow> e = RecordThreat s p l" "callback e = MHit s p l \<longleftrightarrow> e = RecordDetectorHit s p l" for e
    by (cases e; simp)+
  show "count_of (threats (fold (\<lambda>e. metrics_step now (callback e)) es m)) [s, p, l]
     = count_of (threats m) [s, p, l] + length (filter (\<lambda>e. e = RecordThreat s p l) es)"
    by (induction es arbitrary: m) (auto simp: threats_step c)
  show "count_of (detectorHits (fold (\<lambda>e. metrics_step now (callback e)) es m)) [s, p, l]
     = count_of (detectorHits m) [s, p, l] + length (filter (\<lambda>e. e = RecordDetectorHit s p l) es)"
    by (induction es arbitrary: m) (auto simp: hits_step c)
qed

text \<open>The threats a line emits, with the names of their stream and pipeline.\<close>

definition threat_out :: "'rs line \<Rightarrow> Event option \<Rightarrow> (string \<times> string \<times> ThreatEvent) list" where
  "threat_out l out =
    (case out of
       None \<Rightarrow> []
     | Some ev \<Rightarrow>
         (case ev_Payload ev of ThreatPayload te \<Rightarrow> [(StreamName (fst l), PipelineName (fst l), te)] | _ \<Rightarrow> []))"

fun reported :: "'rs proc_env \<Rightarrow> 'rs line list \<Rightarrow> world \<Rightarrow> (string \<times> string \<times> ThreatEvent) list" where
  "reported env [] w = []"
| "reported env (l # ls) w = threat_out l (fst (process_line env l w)) @ reported env ls (snd (process_line env l w))"

definition metrics_out :: "'rs proc_env \<Rightarrow> string \<times> string \<times> ThreatEvent \<Rightarrow> metric list" where
  "metrics_out env spt =
    (case spt of (s, p, te) \<Rightarrow> (if pe_recordThreat env then [RecordThreat s p (te_Level te)] else [])
       @ (if pe_recordHit env then map (RecordDetectorHit s p) (te_Modules te) else []))"

lemma gate_metrics: "w_metrics (snd (waf_gate env st ctxDone now event w)) = w_metrics w"
  by (auto simp: waf_gate_def Let_def split_beta split: option.split sum.split)

lemma chain_metrics: "w_metrics (chain_step env evctx entry w) = w_metrics w"
  by (auto simp: chain_step_def split: option.split)

lemma bot_metrics: "w_metrics (snd (bot_step env st now entry w)) = w_metrics w"
  by (auto simp: bot_step_def Let_def split_beta split: option.split)

lemma score_step_metrics:
  "w_metrics (snd (score_step env st clk evctx entry fake ex w))
    = w_metrics w @ concat (map (metrics_out env) (threat_out (st, l) (fst (score_step env st clk evctx entry fake ex w))))"
  by (simp add: score_step_def Let_def split_beta record_metrics_def threat_out_def metrics_out_def threat_of_def)

lemma line_metrics:
  "w_metrics (snd (process_line env l w)) = w_metrics w @ concat (map (metrics_out env) (threat_out l (fst (process_line env l w))))"
proof -
  obtain st ctxDone clk evctx event where l: "l = (st, ctxDone, clk, evctx, event)" by (cases l) auto
  let ?e = "pe_unwrap env event" and ?w = "chain_step env evctx (pe_unwrap env event) w"
  obtain pass w1 where g: "waf_gate env st ctxDone (c_waf clk) event ?w = (pass, w1)" by fastforce
  obtain bv w2 where b: "bot_step env st (c_verify clk) ?e w1 = (bv, w2)" by fastforce
  have m: "w_metrics w1 = w_metrics w" "w_metrics w2 = w_metrics w"
    using gate_metrics [of env st ctxDone "c_waf clk" event ?w] bot_metrics [of env st "c_verify clk" ?e w1]
    by (simp_all add: g b chain_metrics)
  show ?thesis
    using m score_step_metrics [of env st clk evctx ?e _ _ w2 "(ctxDone, clk, evctx, event)"]
    by (auto simp: process_line_def l Process_def Let_def g b threat_out_def chain_metrics split: bool.split bot_verdict.split)
qed

lemma run_metrics:
  "w_metrics (run_lines env ls w) = w_metrics w @ concat (map (metrics_out env) (reported env ls w))"
  by (induction ls arbitrary: w) (simp_all add: run_lines_def line_metrics)

text \<open>C11: The threat counter of a stream, pipeline and level is the number of threats of that level the
  pipeline has emitted, and the counter of a detector the number of those in which it fired.\<close>

theorem counters_exact:
  assumes "pe_recordThreat env" "pe_recordHit env" "w_metrics w = []"
  shows "let m = fold (\<lambda>e. metrics_step now (callback e)) (w_metrics (run_lines env ls w)) metrics_New
    in count_of (threats m) [s, p, l] = length (filter (\<lambda>(s', p', te). s' = s \<and> p' = p \<and> te_Level te = l) (reported env ls w))
     \<and> count_of (detectorHits m) [s, p, d]
         = sum_list (map (\<lambda>(s', p', te). if s' = s \<and> p' = p then length (filter (\<lambda>x. x = d) (te_Modules te)) else 0) (reported env ls w))"
proof -
  have t: "length (filter (\<lambda>e. e = RecordThreat s p l) (concat (map (metrics_out env) es)))
      = length (filter (\<lambda>(s', p', te). s' = s \<and> p' = p \<and> te_Level te = l) es)" for es
  proof (induction es)
    case (Cons e es)
    obtain a b te where e: "e = (a, b, te)" by (cases e) auto
    show ?case using Cons assms(1,2) by (simp add: e metrics_out_def comp_def)
  qed simp
  have h: "length (filter (\<lambda>e. e = RecordDetectorHit s p d) (concat (map (metrics_out env) es)))
      = sum_list (map (\<lambda>(s', p', te). if s' = s \<and> p' = p then length (filter (\<lambda>x. x = d) (te_Modules te)) else 0) es)" for es
  proof (induction es)
    case (Cons e es)
    obtain a b te where e: "e = (a, b, te)" by (cases e) auto
    show ?case using Cons assms(1,2) by (auto simp: e metrics_out_def comp_def)
  qed simp
  show ?thesis
    unfolding Let_def counted run_metrics assms(3) using t h by (simp add: metrics_New_def count_of_def)
qed

section \<open>Witnesses\<close>

theorem plain_console_witness:
  "ls_console (Log (\<lambda>_ t. t) ''12:00'' ''THREAT'' ''[PROBE] 192.0.2.7'' ''warning''
      (snd (Init (\<lambda>_. True) (\<lambda>_. True) False False ''/var/log/s.log'' [] log_fresh))) = [''12:00 [THREAT] [PROBE] 192.0.2.7'']"
proof -
  let ?s = "snd (Init (\<lambda>_. True) (\<lambda>_. True) False False ''/var/log/s.log'' [] log_fresh)"
  have s: "\<not> colorEnabled ?s" "debugEnabled ?s = False" "operationalWriter ?s = Some 3" "map_of (fs_open (ls_fs ?s)) 3 = Some ''/var/log/s.log''"
    "ls_console ?s = []" "fs_written (ls_fs ?s) = []"
    by (simp_all add: Init_def Let_def fs_OpenFile_def log_fresh_def)
  have "\<not> suppressed (debugEnabled ?s) ''THREAT'' ''warning''" by (simp add: suppressed_def s(2) debugOnlyTags_def quietTags_def)
  note w = plain_console [OF s(1) this s(3,4), of "\<lambda>_ t. t" "''12:00''" "''[PROBE] 192.0.2.7''"]
  have "fs_written (ls_fs (Log (\<lambda>_ t. t) ''12:00'' ''THREAT'' ''[PROBE] 192.0.2.7'' ''warning'' ?s))
      = [(''/var/log/s.log'', ''12:00 [THREAT] [PROBE] 192.0.2.7'')]" by code_simp
  then show ?thesis using w by (auto simp: Let_def s(5,6))
qed

theorem counters_exact_witness:
  "count_of (threats (fold (\<lambda>e. metrics_step 0 (callback e)) (w_metrics (run_lines demo_env [demo_line ''/index''] demo_world)) metrics_New))
     [''web'', [], ''THREAT''] = 1"
proof -
  have "length (filter (\<lambda>(s', p', te). s' = ''web'' \<and> p' = [] \<and> te_Level te = ''THREAT'') (reported demo_env [demo_line ''/index''] demo_world)) = 1"
    by code_simp
  then show ?thesis
    using counters_exact [of demo_env demo_world 0 "[demo_line ''/index'']" "''web''" "[]" "''THREAT''" "''ua''"]
    by (simp add: Let_def demo_env_def demo_world_def)
qed

end
