(* ===== verification/Plugins.thy ===== *)
theory Plugins
  imports Json
begin

text \<open>
  The processor plugins \<open>pkg/processorplugins/whitelist\<close> and \<open>pkg/processorplugins/chaincheck\<close> with
  their factories, and the factory of the WAF plugin: the whitelist and the chain check as stages a
  pipeline of arx-core can name.  Also the health probe, \<open>cmd/healthcheck\<close>.

  A log entry is the payload the event carries.  An untyped parameter of a factory is a decoded
  YAML value, or a value of the Go type the factory asks for.

  Shown: the whitelist stage drops exactly the entries of a whitelisted address or user agent and
  changes no entry, whatever DNS answers (\<open>whitelist_stage\<close>); the chain stage drops nothing and marks
  exactly the entries whose address lies in a checked range (\<open>chain_stage\<close>).
\<close>

section \<open>The whitelist stage\<close>

record WhitelistProcessor =
  wp_matcher :: Matcher
  wp_dnsTimeout :: duration

definition NewWhitelistProcessor :: "WhitelistSection \<Rightarrow> string + WhitelistProcessor \<times> IPCache" where
  "NewWhitelistProcessor cfg =
    (case NewMatcher (WhitelistConfig.truncate cfg) of
       Inl err \<Rightarrow> Inl (''whitelist: create matcher: '' @ err)
     | Inr m \<Rightarrow> Inr (\<lparr>wp_matcher = m, wp_dnsTimeout = wl_DNSVerifyTimeout cfg\<rparr>,
                     NewIPCache (dn_PositiveTTL (wl_DNSCache cfg)) (dn_NegativeTTL (wl_DNSCache cfg))))"

text \<open>The result: an error of the context, or the entry, or nothing for a dropped one.\<close>

definition wp_Process :: "(duration \<Rightarrow> Resolver) \<Rightarrow> WhitelistProcessor \<Rightarrow> bool \<Rightarrow> gotime \<Rightarrow> LogEntry \<Rightarrow> IPCache
    \<Rightarrow> (string + LogEntry option) \<times> IPCache" where
  "wp_Process resolver p ctxDone now entry cache =
    (if ctxDone then (Inl ''context canceled'', cache)
     else if IsWhitelistedIP (wp_matcher p) (RealIP entry) then (Inr None, cache)
     else if IsWhitelistedUA (wp_matcher p) (UserAgent entry) then (Inr None, cache)
     else
       let cache = (case MatchBot (wp_matcher p) (UserAgent entry) of
                      None \<Rightarrow> cache
                    | Some botCfg \<Rightarrow> snd (Verify (resolver (wp_dnsTimeout p)) now (RealIP entry) botCfg cache))
       in (Inr (Some entry), cache))"

datatype 'a go_value = Typed 'a | Untyped yaml

text \<open>A parameter that is absent or of another type is an error.  The recovered panic has no source in
  the constructor.\<close>

definition wp_factory :: "WhitelistSection go_value option \<Rightarrow> 'r go_value option \<Rightarrow> string + (WhitelistProcessor \<times> IPCache) \<times> 'r" where
  "wp_factory whitelist_config resolver =
    (case whitelist_config of
       Some (Typed wc) \<Rightarrow>
         (case resolver of
            Some (Typed r) \<Rightarrow> (case NewWhitelistProcessor wc of Inl e \<Rightarrow> Inl e | Inr p \<Rightarrow> Inr (p, r))
          | _ \<Rightarrow> Inl ''whitelist: param resolver missing or type-assert fails'')
     | _ \<Rightarrow> Inl ''whitelist: param whitelist_config missing or type-assert fails'')"

section \<open>The chain stage\<close>

definition chain_issue :: "CheckResult \<Rightarrow> string \<Rightarrow> string" where
  "chain_issue result old =
    (if Kind result = ''cloudflare'' then Kind result @ '':'' @ cr_IP result @ ''/'' @ MatchedCIDR result
     else if Kind result = ''bogon'' then Kind result @ '':'' @ cr_IP result
     else old)"

definition cp_Process :: "Checker \<Rightarrow> LogEntry \<Rightarrow> LogEntry" where
  "cp_Process checker entry =
    (let ip = (if RealIP entry = [] then RemoteAddr entry else RealIP entry)
     in case Check checker ip of
          None \<Rightarrow> entry
        | Some result \<Rightarrow> entry\<lparr>ChainIssue := chain_issue result (ChainIssue entry)\<rparr>)"

text \<open>Readers of untyped parameters with a fallback.\<close>

definition boolParam :: "raw_config option \<Rightarrow> string \<Rightarrow> bool \<Rightarrow> bool" where
  "boolParam params key fallback =
    (case Option.bind params (\<lambda>m. map_of m key) of Some (YBool b) \<Rightarrow> b | _ \<Rightarrow> fallback)"

definition durationParam :: "raw_config option \<Rightarrow> string \<Rightarrow> duration \<Rightarrow> duration" where
  "durationParam params key fallback =
    (case Option.bind params (\<lambda>m. map_of m key) of
       Some (YStr s) \<Rightarrow> (case ParseDuration s of Some d \<Rightarrow> d | None \<Rightarrow> fallback)
     | _ \<Rightarrow> fallback)"

definition stringSliceParam :: "raw_config option \<Rightarrow> string \<Rightarrow> string list \<Rightarrow> string list" where
  "stringSliceParam params key fallback =
    (case Option.bind params (\<lambda>m. map_of m key) of
       Some (YSeq ys) \<Rightarrow>
         let out = List.map_filter (\<lambda>y. case y of YStr s \<Rightarrow> Some s | _ \<Rightarrow> None) ys
         in if out = [] then fallback else out
     | _ \<Rightarrow> fallback)"

definition cp_config :: "raw_config option \<Rightarrow> CheckerConfig" where
  "cp_config params =
    \<lparr>cc_Cloudflare = \<lparr>cf_Enabled = boolParam params ''cloudflare_enabled'' False,
       cf_RefreshInterval = durationParam params ''cloudflare_refresh_interval'' (24 * 3600 * second),
       cf_Sources = stringSliceParam params ''cloudflare_sources''
         [''https://www.cloudflare.com/ips-v4/'', ''https://www.cloudflare.com/ips-v6/'']\<rparr>,
     cc_BogonEnabled = boolParam params ''bogon_enabled'' True\<rparr>"

definition cp_factory :: "http \<Rightarrow> raw_config option \<Rightarrow> string + Checker" where
  "cp_factory http params = Inr (NewChecker http (cp_config params))"

section \<open>The factory of the WAF plugin\<close>

definition waf_factory :: "'rs rule_engine \<Rightarrow> 'w waf_Config go_value option \<Rightarrow> int go_value option
    \<Rightarrow> (string, int) gomap go_value option \<Rightarrow> (string + waf_error) + ('rs, 'w) WafProcessor" where
  "waf_factory eng wafConfig waf_drop_score waf_tag_weights =
    (case wafConfig of
       Some (Typed wc) \<Rightarrow>
         let wc = (case waf_drop_score of Some (Typed ds) \<Rightarrow> wc\<lparr>wc_DropScore := ds\<rparr> | _ \<Rightarrow> wc);
             wc = (case waf_tag_weights of Some (Typed tw) \<Rightarrow> wc\<lparr>wc_TagWeights := tw\<rparr> | _ \<Rightarrow> wc)
         in (case NewWafProcessor eng wc of Inl e \<Rightarrow> Inl (Inr e) | Inr p \<Rightarrow> Inr p)
     | _ \<Rightarrow> Inl (Inl ''waf: param waf_config missing or type-assert fails''))"

section \<open>The health probe\<close>

text \<open>The exit status, from the TCP connection and the answer to the request.\<close>

definition healthcheck :: "bool \<Rightarrow> (int \<times> string) option \<Rightarrow> int" where
  "healthcheck tcp answer =
    (if \<not> tcp then 1
     else case answer of
         None \<Rightarrow> 1
       | Some (status, body) \<Rightarrow>
           if status \<noteq> 200 \<or> trim_space body \<noteq> ''{'' @ [char_of (34 :: nat)] @ ''status'' @ [char_of (34 :: nat)] @ '':''
              @ [char_of (34 :: nat)] @ ''ok'' @ [char_of (34 :: nat)] @ ''}'' then 1 else 0)"

section \<open>Properties\<close>

text \<open>The whitelist stage drops an entry exactly when the context is live and its address or its user
  agent is whitelisted; every other entry passes unchanged, also one of a bot that DNS refutes.\<close>

theorem whitelist_stage:
  "fst (wp_Process resolver p ctxDone now entry cache) =
    (if ctxDone then Inl ''context canceled''
     else if IsWhitelistedIP (wp_matcher p) (RealIP entry) \<or> IsWhitelistedUA (wp_matcher p) (UserAgent entry)
     then Inr None else Inr (Some entry))"
  by (simp add: wp_Process_def Let_def)

text \<open>The chain stage marks an entry exactly when its address, or the remote address where the entry
  has no other, parses and lies in a range of an enabled checker; nothing else of it changes.\<close>

theorem chain_stage:
  assumes "ChainIssue entry = []"
  shows "let ip = (if RealIP entry = [] then RemoteAddr entry else RealIP entry); out = cp_Process c entry
    in out\<lparr>ChainIssue := []\<rparr> = entry
      \<and> (ChainIssue out \<noteq> [] \<longleftrightarrow>
           (case (if ip = [] then None else ParseIP ip) of
              None \<Rightarrow> False
            | Some a \<Rightarrow> covered_by (map_option cf_nets (ck_cf c)) a \<or> covered_by (ck_bogon c) a))"
proof -
  define ip where "ip = (if RealIP entry = [] then RemoteAddr entry else RealIP entry)"
  define hit where "hit = (case (if ip = [] then None else ParseIP ip) of
      None \<Rightarrow> False | Some a \<Rightarrow> covered_by (map_option cf_nets (ck_cf c)) a \<or> covered_by (ck_bogon c) a)"
  have found: "Check c ip \<noteq> None \<longleftrightarrow> hit" and kind: "\<And>r. Check c ip = Some r \<Longrightarrow> Kind r = ''cloudflare'' \<or> Kind r = ''bogon''"
    using Check_verdict [of c ip] by (auto simp: hit_def split: option.splits if_splits)
  have "ChainIssue (cp_Process c entry) \<noteq> [] \<longleftrightarrow> hit"
  proof (cases "Check c ip")
    case None
    then show ?thesis using assms found by (simp add: cp_Process_def flip: ip_def)
  next
    case (Some r)
    then show ?thesis using kind [OF Some] found by (auto simp: cp_Process_def chain_issue_def simp flip: ip_def)
  qed
  moreover have "(cp_Process c entry)\<lparr>ChainIssue := []\<rparr> = entry"
    using assms by (simp add: cp_Process_def Let_def split: option.split)
  ultimately show ?thesis by (simp add: Let_def hit_def flip: ip_def)
qed

theorem chain_stage_witness:
  "ChainIssue (cp_Process (NewChecker (\<lambda>_. TransportError []) (cp_config None)) (blank_entry\<lparr>RemoteAddr := ''172.31.0.9''\<rparr>))
     = ''bogon:172.31.0.9''"
proof -
  let ?c = "NewChecker (\<lambda>_. TransportError []) (cp_config None)" and ?e = "blank_entry\<lparr>RemoteAddr := ''172.31.0.9''\<rparr>"
  have "(cp_Process ?c ?e)\<lparr>ChainIssue := []\<rparr> = ?e" using chain_stage [of ?e ?c] by (simp add: Let_def blank_entry_def)
  moreover have "ChainIssue (cp_Process ?c ?e) = ''bogon:172.31.0.9''" by code_simp
  ultimately show ?thesis by simp
qed

end
