(* ===== verification/Daemon.thy ===== *)
theory Daemon
  imports Channels Logging Plugins
begin

text \<open>
  The process, \<open>cmd/arxsentinel/main.go\<close>: the choice of the subcommand and of the configuration file,
  the overriding of inputs and outputs by flags, the start in its order, the reaction to SIGHUP and
  the shutdown of the executors; with the helpers of \<open>helpers.go\<close> and \<open>startTransport\<close> of
  \<open>transport_bootstrap.go\<close>.

  The start is a function on the state of the process that records what it does.  A failing stage
  ends it: by \<open>os.Exit\<close>, which skips the deferred actions, or by returning from \<open>main\<close>.  The
  operating system, the channel switch, the transport and the stream runtime are arguments.

  Shown: the stages follow each other in the order the code relies on, the transport before every
  queue, every queue of the configuration before the first stream, and no stream runs unless every
  stage before succeeded (\<open>start_order\<close>); a reload with an unreadable configuration changes
  nothing, and every stream is told of a reload (\<open>sighup_effect\<close>).
\<close>

section \<open>Command line\<close>

datatype command = Cleanup "string list" | License | Validate string | Version | RunDaemon string

definition configPath :: string where
  "configPath = ''/etc/arxsentinel/config.yaml''"

fun validate_path :: "string \<Rightarrow> string list \<Rightarrow> string" where
  "validate_path path [] = path"
| "validate_path path (a # args) =
    (if has_prefix a ''--config='' then validate_path (drop (length ''--config='') a) args
     else if a = ''--config'' \<and> args \<noteq> [] then validate_path (hd args) (tl args)
     else validate_path path args)"

record flags =
  fl_version :: bool
  fl_input :: string
  fl_output :: string
  fl_config :: string

text \<open>\<open>args\<close> are the arguments after the program name; \<open>fl\<close> is what the flag package makes of them.\<close>

definition dispatch :: "(string \<Rightarrow> string) \<Rightarrow> string list \<Rightarrow> flags \<Rightarrow> command" where
  "dispatch lookup args fl =
    (if args \<noteq> [] \<and> hd args = ''cleanup'' then Cleanup (tl args)
     else if args \<noteq> [] \<and> hd args = ''license'' then License
     else if args \<noteq> [] \<and> hd args = ''validate'' then Validate (validate_path configPath (tl args))
     else if fl_version fl then Version
     else if fl_config fl \<noteq> [] then RunDaemon (fl_config fl)
     else if lookup ''ARXSENTINEL_CONFIG'' \<noteq> [] then RunDaemon (lookup ''ARXSENTINEL_CONFIG'')
     else RunDaemon configPath)"

definition override_io :: "flags \<Rightarrow> 'y Config \<Rightarrow> string + 'y Config" where
  "override_io fl cfg =
    (if fl_input fl = [] \<and> fl_output fl = [] then Inr cfg
     else
       let inputs = (if fl_input fl \<noteq> [] then parseFlagInputs (fl_input fl) cfg else cfg_Inputs cfg)
       in case (if fl_output fl \<noteq> [] then parseFlagOutputs (fl_output fl) else Inr (cfg_Outputs cfg)) of
            Inl e \<Rightarrow> Inl e
          | Inr outputs \<Rightarrow>
              Inr (cfg\<lparr>cfg_Inputs := inputs, cfg_Outputs := outputs,
                       cfg_Streams := [zero_stream\<lparr>sm_Pipelines :=
                         [zero_pipeline\<lparr>pl_Inputs := inputs, pl_Outputs := outputs, pl_Pipeline := cfg_Pipeline cfg\<rparr>]\<rparr>]\<rparr>))"

section \<open>Helpers\<close>

definition pipelineLogTag :: "(nat \<Rightarrow> bool) \<Rightarrow> string \<Rightarrow> string \<Rightarrow> string" where
  "pipelineLogTag wide_print streamName pipelineName =
    (if streamName = [] \<and> pipelineName = [] then ''(default)''
     else if pipelineName = [] then ''stream '' @ Quote wide_print streamName
     else ''stream '' @ Quote wide_print streamName @ '' pipeline '' @ Quote wide_print pipelineName)"

text \<open>The environment is a list of \<open>name=value\<close>.\<close>

definition activeEnvOverrides :: "string list \<Rightarrow> string list" where
  "activeEnvOverrides environ =
    sort (List.map_filter (\<lambda>e.
      if has_prefix e ''ARXSENTINEL_'' \<and> CHR ''='' \<in> set e \<and> hd e \<noteq> CHR ''=''
      then Some (takeWhile (\<lambda>c. c \<noteq> CHR ''='') e) else None) environ)"

text \<open>The request carries the result of \<open>BasicAuth\<close>; \<open>matches\<close> is the comparison with the bcrypt hash.\<close>

datatype http_reply = Served | Unauthorized

definition metricsHandler :: "(string \<Rightarrow> string \<Rightarrow> bool) \<Rightarrow> string \<Rightarrow> string \<Rightarrow> (string \<times> string) option \<Rightarrow> http_reply" where
  "metricsHandler matches username passwordHash auth =
    (if username = [] then Served
     else
       let (u, p, ok) = (case auth of Some (u, p) \<Rightarrow> (u, p, True) | None \<Rightarrow> ([], [], False));
           userOK = (u = username); passOK = matches passwordHash p
       in if \<not> ok \<or> \<not> userOK \<or> \<not> passOK then Unauthorized else Served)"

text \<open>The paths of the metrics server: the protected metrics and the health probe.\<close>

definition health_body :: string where
  "health_body = ''{'' @ [char_of (34 :: nat)] @ ''status'' @ [char_of (34 :: nat)] @ '':'' @ [char_of (34 :: nat)] @ ''ok''
     @ [char_of (34 :: nat)] @ ''}''"

definition metrics_mux :: "(string \<Rightarrow> string \<Rightarrow> bool) \<Rightarrow> (unit \<Rightarrow> string) \<Rightarrow> MetricsConfig \<Rightarrow> string \<Rightarrow> (string \<times> string) option \<Rightarrow> int \<times> string" where
  "metrics_mux matches exposition cfg path auth =
    (if path = ''/metrics'' then
       (case metricsHandler matches (me_Username cfg) (me_PasswordHash cfg) auth of
          Served \<Rightarrow> (200, exposition ()) | Unauthorized \<Rightarrow> (401, ''Unauthorized''))
     else if path = ''/health'' then (200, health_body)
     else (404, ''404 page not found''))"

text \<open>The probe of the container image accepts what the server answers, whatever the credentials are.\<close>

lemma probe_healthy: "healthcheck True (Some (metrics_mux matches exposition cfg ''/health'' auth)) = 0"
proof -
  have "trim_space health_body = health_body" by code_simp
  then show ?thesis by (simp add: healthcheck_def metrics_mux_def health_body_def)
qed

lemma metrics_protected:
  "me_Username cfg \<noteq> [] \<Longrightarrow> fst (metrics_mux matches exposition cfg ''/metrics'' auth) = 200 \<longleftrightarrow>
     (\<exists>p. auth = Some (me_Username cfg, p) \<and> matches (me_PasswordHash cfg) p)"
  by (auto simp: metrics_mux_def metricsHandler_def split: option.splits)

definition sd_address :: "string \<Rightarrow> string option" where
  "sd_address socket =
    (case socket of
       [] \<Rightarrow> None
     | c # cs \<Rightarrow> Some ((if c = CHR ''@'' then char_of (0 :: nat) else c) # cs))"

section \<open>The start\<close>

datatype action =
    ALogger | APid | AMetrics | ABlocklist | AWarnings | AChain | ATransport | AQueue string QueueConfig
  | AStream string | AExecutors | AReady

datatype outcome = Exited int | Returned int | Serving

record 'w process =
  pr_world :: 'w
  pr_log :: log_state
  pr_pidfile :: bool
  pr_actions :: "action list"

record ('y, 'w) system =
  sy_dir :: "string \<Rightarrow> bool"
  sy_open :: "string \<Rightarrow> bool"
  sy_pid :: "string \<Rightarrow> bool"
  sy_plugins :: plugin_env
  sy_transport :: "TransportConfig \<Rightarrow> string option"
  sy_register :: "'w register"
  sy_adapt :: "'y Config \<Rightarrow> wiring_error + string list"

definition act :: "action \<Rightarrow> 'w process \<Rightarrow> 'w process" where
  "act a s = s\<lparr>pr_actions := pr_actions s @ [a]\<rparr>"

definition sys_register :: "('y, 'w) system \<Rightarrow> 'w process register" where
  "sys_register sys name q s =
    (case sy_register sys name q (pr_world s) of (r, w) \<Rightarrow> (r, act (AQueue name q) s\<lparr>pr_world := w\<rparr>))"

definition startTransport :: "('y, 'w) system \<Rightarrow> 'y Config \<Rightarrow> 'w process \<Rightarrow> string option \<times> 'w process" where
  "startTransport sys cfg s =
    (if \<not> tr_Enabled (cfg_Transport cfg) then (None, s)
     else case sy_transport sys (cfg_Transport cfg) of
         Some e \<Rightarrow> (Some (''transport: '' @ e), s)
       | None \<Rightarrow> (None, act ATransport s))"

text \<open>The deferred actions of a return from \<open>main\<close>.\<close>

definition deferred :: "'w process \<Rightarrow> 'w process" where
  "deferred s = s\<lparr>pr_log := log_Close (pr_log s), pr_pidfile := False\<rparr>"

definition stop :: "'w process \<Rightarrow> outcome \<times> 'w process" where
  "stop s = (Exited 1, s)"

text \<open>The stages before the queues: log and PID file, metrics server, chain check; the blocklist comes
  before the last.\<close>

definition start_log :: "('y, 'w) system \<Rightarrow> 'y Config \<Rightarrow> 'w process \<Rightarrow> 'w process" where
  "start_log sys cfg s =
    (let s = act ALogger s\<lparr>pr_log := snd (Init (sy_dir sys) (sy_open sys) (lg_Debug (cfg_Logging cfg))
                                    (lg_ConsoleColor (cfg_Logging cfg)) (ou_OperationalLog (cfg_Output cfg)) [] (pr_log s))\<rparr>
     in if sy_pid sys (ge_PIDFile (cfg_General cfg)) then act APid s\<lparr>pr_pidfile := True\<rparr> else s)"

definition start_metrics :: "'y Config \<Rightarrow> 'w process \<Rightarrow> 'w process" where
  "start_metrics cfg s = (if me_Enabled (cfg_Metrics cfg) then act AMetrics s else s)"

definition start_guard :: "('y, 'w) system \<Rightarrow> 'y Config \<Rightarrow> 'w process \<Rightarrow> bool \<times> 'w process" where
  "start_guard sys cfg s =
    (if \<not> cg_Enabled (cfg_ChainGuard cfg) then (True, s)
     else if \<not> sy_open sys (cg_WarningsLog (cfg_ChainGuard cfg)) then (False, s)
     else (True, act AChain (act AWarnings s)))"

definition start_resources :: "('y, 'w) system \<Rightarrow> 'y Config \<Rightarrow> 'w process \<Rightarrow> bool \<times> 'w process" where
  "start_resources sys cfg s = start_guard sys cfg (act ABlocklist (start_metrics cfg (start_log sys cfg s)))"

definition start_streams :: "('y, 'w) system \<Rightarrow> 'y Config \<Rightarrow> 'w process \<Rightarrow> outcome \<times> 'w process" where
  "start_streams sys cfg s =
    (case sy_adapt sys cfg of
       Inl e \<Rightarrow> stop s
     | Inr names \<Rightarrow>
         (Serving, act AReady ((if cfg_Executors cfg \<noteq> [] then act AExecutors else id) (fold (\<lambda>n. act (AStream n)) names s))))"

definition start :: "('y, 'w) system \<Rightarrow> 'y Config \<Rightarrow> 'w process \<Rightarrow> outcome \<times> 'w process" where
  "start sys cfg s =
    (case start_resources sys cfg s of
       (False, s) \<Rightarrow> (Returned 0, deferred s)
     | (True, s) \<Rightarrow>
         (case startTransport sys cfg s of
            (Some e, s) \<Rightarrow> stop s
          | (None, s) \<Rightarrow>
              (case preRegisterExecutorQueues (queue_mode (sy_plugins sys)) (sys_register sys) cfg s of
                 (Some e, s) \<Rightarrow> stop s
               | (None, s) \<Rightarrow>
                   (case preRegisterSinkQueues (sys_register sys) cfg s of
                      (Some e, s) \<Rightarrow> stop s
                    | (None, s) \<Rightarrow>
                        (case preRegisterInboundTransportQueues (sys_register sys) cfg s of
                           (Some e, s) \<Rightarrow> stop s
                         | (None, s) \<Rightarrow> start_streams sys cfg s)))))"

text \<open>The configuration is loaded and validated as it stands in the file; the flags come after.\<close>

definition run_daemon :: "('y, 'w) system \<Rightarrow> (string \<Rightarrow> string + 'y Config) \<Rightarrow> flags \<Rightarrow> string \<Rightarrow> 'w process \<Rightarrow> outcome \<times> 'w process" where
  "run_daemon sys load fl path s =
    (case load path of
       Inl e \<Rightarrow> stop s
     | Inr cfg \<Rightarrow>
         if semantic_errors (sy_plugins sys) cfg \<noteq> [] then stop s
         else case override_io fl cfg of Inl e \<Rightarrow> stop s | Inr cfg \<Rightarrow> start sys cfg s)"

definition shutdown_executors :: "(string \<Rightarrow> 'w \<Rightarrow> 'w) \<Rightarrow> 'y Config \<Rightarrow> 'w \<Rightarrow> 'w" where
  "shutdown_executors detach cfg w = fold (\<lambda>(ec, src). detach (es_Name src)) (executor_sources cfg) w"

interpretation daemon_queues: recorder "sys_register sys" pr_actions "\<lambda>nq. AQueue (fst nq) (snd nq)" for sys :: "('y, 'w) system"
  by unfold_locales (simp add: sys_register_def act_def split: prod.split)

section \<open>The order of the start\<close>

lemmas resource_stages = start_resources_def start_log_def start_metrics_def start_guard_def

definition resource_actions :: "('y, 'w) system \<Rightarrow> 'y Config \<Rightarrow> action list" where
  "resource_actions sys cfg =
    [ALogger] @ (if sy_pid sys (ge_PIDFile (cfg_General cfg)) then [APid] else [])
      @ (if me_Enabled (cfg_Metrics cfg) then [AMetrics] else []) @ [ABlocklist]
      @ (if cg_Enabled (cfg_ChainGuard cfg) \<and> sy_open sys (cg_WarningsLog (cfg_ChainGuard cfg)) then [AWarnings, AChain] else [])"

definition configured_queues :: "'y Config \<Rightarrow> (string \<times> QueueConfig) list" where
  "configured_queues cfg = executor_queues cfg
     @ rights (map snd (walk sink_items ''outputs'' (cfg_Outputs cfg) sm_Outputs pl_Outputs (cfg_Streams cfg)))
     @ rights (map snd (walk input_items ''inputs'' (cfg_Inputs cfg) sm_Inputs pl_Inputs (cfg_Streams cfg)))"

definition queue_actions :: "(string \<times> QueueConfig) list \<Rightarrow> action list" where
  "queue_actions qs = map (\<lambda>nq. AQueue (fst nq) (snd nq)) qs"

lemma resources_recorded:
  "pr_actions (snd (start_resources sys cfg s)) = pr_actions s @ resource_actions sys cfg"
  by (simp add: resource_stages Let_def act_def resource_actions_def)

lemma streams_recorded: "pr_actions (fold (\<lambda>n. act (AStream n)) names s) = pr_actions s @ map AStream names"
  by (induction names arbitrary: s) (simp_all add: act_def)

lemma loop_prefix:
  assumes "register_loop (sys_register sys) items s = (r, t)"
  shows "\<exists>qs. prefix qs (rights (map snd items)) \<and> pr_actions t = pr_actions s @ queue_actions qs
    \<and> (r = None \<longrightarrow> qs = rights (map snd items))"
proof -
  obtain k where k: "pr_actions t = pr_actions s @ map (\<lambda>nq. AQueue (fst nq) (snd nq)) (take k (rights (map snd items)))"
    using daemon_queues.loop_recorded [of sys items s] assms by auto
  show ?thesis
  proof (cases r)
    case None
    then show ?thesis using daemon_queues.loop_complete [of sys items s t] assms by (auto simp: queue_actions_def)
  next
    case (Some e)
    then show ?thesis using k by (intro exI [of _ "take k (rights (map snd items))"]) (simp add: queue_actions_def take_is_prefix)
  qed
qed

lemma executor_phase:
  assumes "preRegisterExecutorQueues mode (sys_register sys) cfg s = (r, t)"
  shows "\<exists>qs. prefix qs (executor_queues cfg) \<and> pr_actions t = pr_actions s @ queue_actions qs \<and> (r = None \<longrightarrow> qs = executor_queues cfg)"
proof (cases "find (unwired mode (collectSentinelSinkNames cfg)) (executor_sources cfg)")
  case None
  then show ?thesis using assms loop_prefix [of sys "executor_items cfg" s r t]
    by (simp add: preRegisterExecutorQueues_def Let_def executor_items_rights)
next
  case (Some es)
  then show ?thesis using assms
    by (cases es) (auto simp: preRegisterExecutorQueues_def Let_def queue_actions_def)
qed

text \<open>The queues registered and the streams started, as one function of the outcome.\<close>

definition started_as :: "('y, 'w) system \<Rightarrow> 'y Config \<Rightarrow> outcome \<Rightarrow> (string \<times> QueueConfig) list \<Rightarrow> action list \<Rightarrow> bool" where
  "started_as sys cfg out qs rest \<longleftrightarrow>
    (if out = Serving
     then qs = configured_queues cfg \<and> (\<exists>names. sy_adapt sys cfg = Inr names
            \<and> rest = map AStream names @ (if cfg_Executors cfg \<noteq> [] then [AExecutors] else []) @ [AReady])
     else prefix qs (configured_queues cfg) \<and> rest = [])"

lemma queue_phases:
  assumes "(case preRegisterExecutorQueues mode (sys_register sys) cfg t of
       (Some e, s) \<Rightarrow> stop s
     | (None, s) \<Rightarrow>
         (case preRegisterSinkQueues (sys_register sys) cfg s of
            (Some e, s) \<Rightarrow> stop s
          | (None, s) \<Rightarrow>
              (case preRegisterInboundTransportQueues (sys_register sys) cfg s of
                 (Some e, s) \<Rightarrow> stop s
               | (None, s) \<Rightarrow> start_streams sys cfg s))) = (out, s')"
  shows "\<exists>qs rest. started_as sys cfg out qs rest \<and> pr_actions s' = pr_actions t @ queue_actions qs @ rest"
proof -
  obtain r1 t1 where p1: "preRegisterExecutorQueues mode (sys_register sys) cfg t = (r1, t1)" by fastforce
  obtain r2 t2 where p2: "preRegisterSinkQueues (sys_register sys) cfg t1 = (r2, t2)" by fastforce
  obtain r3 t3 where p3: "preRegisterInboundTransportQueues (sys_register sys) cfg t2 = (r3, t3)" by fastforce
  obtain q1 where q1: "prefix q1 (executor_queues cfg)" "pr_actions t1 = pr_actions t @ queue_actions q1" "r1 = None \<longrightarrow> q1 = executor_queues cfg"
    using executor_phase [OF p1] by blast
  let ?sinks = "rights (map snd (walk sink_items ''outputs'' (cfg_Outputs cfg) sm_Outputs pl_Outputs (cfg_Streams cfg)))"
  let ?ins = "rights (map snd (walk input_items ''inputs'' (cfg_Inputs cfg) sm_Inputs pl_Inputs (cfg_Streams cfg)))"
  obtain q2 where q2: "prefix q2 ?sinks" "pr_actions t2 = pr_actions t1 @ queue_actions q2" "r2 = None \<longrightarrow> q2 = ?sinks"
    using loop_prefix [OF p2 [unfolded preRegisterSinkQueues_def]] by blast
  obtain q3 where q3: "prefix q3 ?ins" "pr_actions t3 = pr_actions t2 @ queue_actions q3" "r3 = None \<longrightarrow> q3 = ?ins"
    using loop_prefix [OF p3 [unfolded preRegisterInboundTransportQueues_def]] by blast
  consider "r1 \<noteq> None" | "r1 = None" "r2 \<noteq> None" | "r1 = None" "r2 = None" "r3 \<noteq> None" | "r1 = None" "r2 = None" "r3 = None" by blast
  then show ?thesis
  proof cases
    case 1
    then have "out = Exited 1" "s' = t1" using assms p1 by (auto simp: stop_def)
    then show ?thesis using q1(1,2) by (intro exI [of _ q1] exI [of _ "[]"]) (auto simp: started_as_def configured_queues_def prefix_def)
  next
    case 2
    then have "out = Exited 1" "s' = t2" using assms p1 p2 by (auto simp: stop_def)
    then show ?thesis using 2 q1 q2(1,2)
      by (intro exI [of _ "q1 @ q2"] exI [of _ "[]"]) (auto simp: started_as_def configured_queues_def prefix_def queue_actions_def)
  next
    case 3
    then have "out = Exited 1" "s' = t3" using assms p1 p2 p3 by (auto simp: stop_def)
    then show ?thesis using 3 q1 q2 q3(1,2)
      by (intro exI [of _ "q1 @ q2 @ q3"] exI [of _ "[]"]) (auto simp: started_as_def configured_queues_def prefix_def queue_actions_def)
  next
    case 4
    have all: "pr_actions t3 = pr_actions t @ queue_actions (configured_queues cfg)"
      using 4 q1 q2 q3 by (simp add: configured_queues_def queue_actions_def)
    have st: "start_streams sys cfg t3 = (out, s')" using 4 assms p1 p2 p3 by simp
    show ?thesis
    proof (cases "sy_adapt sys cfg")
      case (Inl e)
      then have "out = Exited 1" "s' = t3" using st by (simp_all add: start_streams_def stop_def)
      then show ?thesis using all by (intro exI [of _ "configured_queues cfg"] exI [of _ "[]"]) (simp add: started_as_def)
    next
      case (Inr names)
      then have "out = Serving" "pr_actions s' = pr_actions t3 @ map AStream names @ (if cfg_Executors cfg \<noteq> [] then [AExecutors] else []) @ [AReady]"
        using st by (auto simp: start_streams_def act_def streams_recorded)
      then show ?thesis using all Inr unfolding started_as_def by (intro exI [of _ "configured_queues cfg"] exI) simp
    qed
  qed
qed

text \<open>Whether the start gets as far as the queues.\<close>

definition ready_for_queues :: "('y, 'w) system \<Rightarrow> 'y Config \<Rightarrow> bool" where
  "ready_for_queues sys cfg \<longleftrightarrow>
    (\<not> cg_Enabled (cfg_ChainGuard cfg) \<or> sy_open sys (cg_WarningsLog (cfg_ChainGuard cfg)))
    \<and> (\<not> tr_Enabled (cfg_Transport cfg) \<or> sy_transport sys (cfg_Transport cfg) = None)"

lemma resources_ok: "fst (start_resources sys cfg s) \<longleftrightarrow> \<not> cg_Enabled (cfg_ChainGuard cfg) \<or> sy_open sys (cg_WarningsLog (cfg_ChainGuard cfg))"
  by (simp add: resource_stages)


section \<open>Failures of the start\<close>

text \<open>A start that \<open>os.Exit\<close> ends leaves the PID file behind: deferred actions are skipped.\<close>

lemma failed_start_leaves_pidfile:
  assumes "sy_pid sys (ge_PIDFile (cfg_General cfg))" "\<not> cg_Enabled (cfg_ChainGuard cfg)"
    and "tr_Enabled (cfg_Transport cfg)" "sy_transport sys (cfg_Transport cfg) = Some e"
  shows "fst (start sys cfg s) = Exited 1 \<and> pr_pidfile (snd (start sys cfg s))"
  using assms by (simp add: start_def resource_stages Let_def startTransport_def stop_def act_def)

text \<open>A warnings log that cannot be opened ends the process with the status of success.\<close>

lemma warnings_failure_is_success:
  assumes "cg_Enabled (cfg_ChainGuard cfg)" "\<not> sy_open sys (cg_WarningsLog (cfg_ChainGuard cfg))"
  shows "fst (start sys cfg s) = Returned 0"
  using assms by (simp add: start_def resource_stages)

text \<open>Flags are applied after the validation: an output flag removes every channel an executor could
  read, and an executor source with a queue then ends the start.\<close>

lemma output_flag_unwires:
  assumes "fl_output fl \<noteq> []" "override_io fl cfg = Inr cfg'"
  shows "collectSentinelSinkNames cfg' = []"
proof -
  obtain outs where outs: "parseFlagOutputs (fl_output fl) = Inr outs"
    using assms by (auto simp: override_io_def Let_def split: sum.splits)
  have "parseFlagOutputs v = Inr outs \<Longrightarrow> \<exists>f. outs = [zero_sink\<lparr>sk_Type := ''stdout'', sk_Format := f\<rparr>]" for v
    unfolding parseFlagOutputs_def Let_def by (split if_split_asm) blast+
  then obtain f where "outs = [zero_sink\<lparr>sk_Type := ''stdout'', sk_Format := f\<rparr>]" using outs by blast
  then have none: "sentinel_names outs = []" by (simp add: sentinel_names_def)
  have "cfg_Outputs cfg' = outs" "\<exists>p s. pl_Outputs p = outs \<and> sm_Outputs s = [] \<and> sm_Pipelines s = [p] \<and> cfg_Streams cfg' = [s]"
    using assms outs by (auto simp: override_io_def Let_def zero_stream_def)
  then show ?thesis using none by (auto simp: collectSentinelSinkNames_def sentinel_names_def)
qed

lemma output_flag_stops:
  assumes "fl_output fl \<noteq> []" "override_io fl cfg = Inr cfg'"
    and "(ec, src) \<in> set (executor_sources cfg)" "es_Queue src \<noteq> None" "\<not> remote mode ''recv'' (es_Queue src)"
  shows "fst (preRegisterExecutorQueues mode register cfg' w) \<noteq> None"
proof -
  have "executor_sources cfg' = executor_sources cfg"
    using assms(2) by (auto simp: override_io_def executor_sources_def Let_def split: if_splits sum.splits)
  then have "find (unwired mode (collectSentinelSinkNames cfg')) (executor_sources cfg') \<noteq> None"
    using assms output_flag_unwires [OF assms(1,2)] by (auto simp: find_None_iff unwired_def)
  then show ?thesis by (auto simp: preRegisterExecutorQueues_def Let_def split: option.splits)
qed

section \<open>SIGHUP\<close>

record ('m, 'db) shared =
  sh_log :: log_state
  sh_blocklist :: "('m, 'db) Manager"
  sh_chain :: "Checker option"
  sh_warnings :: "WarningsWriter option"
  sh_fs :: fsys
  sh_pending :: "bool list"

text \<open>A reload channel has room for one notification, which is not sent twice.\<close>

definition sighup :: "(string \<Rightarrow> bool) \<Rightarrow> (string \<Rightarrow> bool) \<Rightarrow> 'db bolt_api \<Rightarrow> http \<Rightarrow> bool \<Rightarrow> (string + 'y Config)
    \<Rightarrow> ('m, 'db) shared \<Rightarrow> ('m, 'db) shared" where
  "sighup dir ok bolt http ctxDone loaded sh =
    (let sh = (case loaded of
           Inl e \<Rightarrow> sh
         | Inr cfg \<Rightarrow>
             let sh = sh\<lparr>sh_log := snd (log_Reload dir ok (lg_Debug (cfg_Logging cfg)) (lg_ConsoleColor (cfg_Logging cfg))
                           (ou_OperationalLog (cfg_Output cfg)) [] (sh_log sh))\<rparr>;
                 sh = (if ctxDone then sh
                       else sh\<lparr>sh_blocklist := manager_Update bolt (cfg_Blocklist cfg) (sh_blocklist sh),
                               sh_chain := map_option (checker_Update http (ToChainCheckConfig (cfg_ChainGuard cfg))) (sh_chain sh)\<rparr>)
             in case sh_warnings sh of
                  None \<Rightarrow> sh
                | Some w \<Rightarrow> (case Reopen ok w (sh_fs sh) of (err, w, fs) \<Rightarrow> sh\<lparr>sh_warnings := Some w, sh_fs := fs\<rparr>))
     in sh\<lparr>sh_pending := map (\<lambda>_. True) (sh_pending sh)\<rparr>)"

text \<open>Every stream is notified; an unreadable configuration changes nothing else; the logger keeps its
  descriptors consistent; a chain check that was off at the start stays off.\<close>

theorem sighup_effect:
  "let sh' = sighup dir ok bolt http ctxDone loaded sh
   in list_all id (sh_pending sh') \<and> length (sh_pending sh') = length (sh_pending sh)
     \<and> (case loaded of
          Inl e \<Rightarrow> sh' = sh\<lparr>sh_pending := replicate (length (sh_pending sh)) True\<rparr>
        | Inr cfg \<Rightarrow> (sh_chain sh' = None \<longleftrightarrow> sh_chain sh = None) \<and> (sh_warnings sh' = None \<longleftrightarrow> sh_warnings sh = None))"
proof -
  have pend: "sh_pending (sighup dir ok bolt http ctxDone loaded sh) = replicate (length (sh_pending sh)) True"
    by (auto simp: sighup_def Let_def map_replicate_const split: sum.split option.split prod.split)
  have "loaded = Inl e \<Longrightarrow> sighup dir ok bolt http ctxDone loaded sh = sh\<lparr>sh_pending := replicate (length (sh_pending sh)) True\<rparr>" for e
    by (simp add: sighup_def map_replicate_const)
  moreover have "loaded = Inr cfg \<Longrightarrow> sh_chain (sighup dir ok bolt http ctxDone loaded sh) = None \<longleftrightarrow> sh_chain sh = None" for cfg
    by (auto simp: sighup_def Let_def split: option.split prod.split)
  moreover have "loaded = Inr cfg \<Longrightarrow> sh_warnings (sighup dir ok bolt http ctxDone loaded sh) = None \<longleftrightarrow> sh_warnings sh = None" for cfg
    by (auto simp: sighup_def Let_def split: option.split prod.split)
  ultimately show ?thesis by (auto simp: Let_def pend list_all_iff split: sum.split)
qed

end
