(* ===== verification/Nginx.thy ===== *)
theory Nginx
  imports Executor
begin

text \<open>
  The nginx executor, \<open>pkg/executorplugins/nginx\<close>: the table of bans with
  their times, the list file nginx includes in one of two syntaxes, the state file
  with the times, the reload command, the sweep and the run loop.

  The files are fields of the state (the decoded table for the JSON state file).
  Whether a write or the reload command succeeds is an argument of the operation,
  as is the flag that the context is cancelled.  The order in which the map is
  written is the order of the association list.

  Shown: a restarted executor reads back exactly the bans that were written, in
  both syntaxes, with their times when a state file is kept; every ban in the table
  was read at the start or comes from an event of the required level.  The sweep of
  the last bans does not reach the list file.
\<close>

section \<open>The model\<close>

record ng_Config =
  ngc_ListFile :: string
  ngc_StateFile :: string
  ngc_MinLevel :: string
  ngc_TTL :: duration
  ngc_BatchSize :: int
  ngc_ReloadCmd :: string
  ngc_FileFormat :: string

datatype ng_error = EmptyListFile | BadMinLevel string | BadFileFormat string | BadTTL duration

text \<open>The checks of \<open>parseConfig\<close> after decoding, and of the constructor.\<close>

definition ng_checkConfig :: "ng_Config \<Rightarrow> ng_error + ng_Config" where
  "ng_checkConfig cfg =
    (if ngc_ListFile cfg = [] then Inl EmptyListFile
     else if map_of levelOrder (ngc_MinLevel cfg) = None then Inl (BadMinLevel (ngc_MinLevel cfg))
     else if ngc_FileFormat cfg = [] then Inr (cfg\<lparr>ngc_FileFormat := ''geo''\<rparr>)
     else if ngc_FileFormat cfg = ''geo'' \<or> ngc_FileFormat cfg = ''deny'' then Inr cfg
     else Inl (BadFileFormat (ngc_FileFormat cfg)))"

record ng_state =
  ng_banned :: "(string, gotime) gomap"
  ng_buffer :: "ThreatEvent list"
  ng_executed :: nat
  ng_skipped :: nat
  ng_errors :: nat
  ng_list :: "string option"
  ng_stateFile :: "(string, gotime) gomap option"
  ng_reloads :: nat
  ng_done :: bool

definition NewNginxExecutor :: "ng_Config \<Rightarrow> string option \<Rightarrow> (string, gotime) gomap option
    \<Rightarrow> ng_error + (ng_Config \<times> ng_state)" where
  "NewNginxExecutor raw listFile stateFile =
    (case ng_checkConfig raw of
       Inl err \<Rightarrow> Inl err
     | Inr cfg \<Rightarrow>
         if ngc_TTL cfg \<le> 0 then Inl (BadTTL (ngc_TTL cfg))
         else Inr (cfg, \<lparr>ng_banned = [], ng_buffer = [], ng_executed = 0, ng_skipped = 0, ng_errors = 0,
                    ng_list = listFile, ng_stateFile = stateFile, ng_reloads = 0, ng_done = False\<rparr>))"

record io =
  io_list :: bool
  io_state :: bool
  io_reload :: bool

definition fileHeader :: string where
  "fileHeader = ''# managed by arxsentinel '' @ [CHR 0xE2, CHR 0x80, CHR 0x94] @ '' do not edit manually'' @ [CHR 0x0A]"

definition parseBannedLine :: "string \<Rightarrow> string \<Rightarrow> string" where
  "parseBannedLine line fileFormat =
    (if fileFormat = ''deny'' then
       if \<not> has_suffix line '';'' then []
       else case str_fields (trim_suffix line '';'') of
              [w, ip] \<Rightarrow> if w \<noteq> ''deny'' then [] else ip
            | _ \<Rightarrow> []
     else
       if \<not> has_suffix line '' 1;'' then [] else trim_space (trim_suffix line '' 1;''))"

definition sync_line :: "ng_Config \<Rightarrow> gotime \<Rightarrow> (string, gotime) gomap \<Rightarrow> string
    \<Rightarrow> (string, gotime) gomap \<Rightarrow> (string, gotime) gomap" where
  "sync_line cfg now stateMap text banned =
    (let line = trim_space text
     in if line = [] \<or> has_prefix line ''#'' then banned
        else
          let ip = parseBannedLine line (ngc_FileFormat cfg)
          in if ip = [] then banned
             else AList.update ip (case map_of stateMap ip of Some t \<Rightarrow> t | None \<Rightarrow> now) banned)"

definition ng_syncExisting :: "ng_Config \<Rightarrow> gotime \<Rightarrow> ng_state \<Rightarrow> ng_state" where
  "ng_syncExisting cfg now s =
    (let stateMap = (if ngc_StateFile cfg \<noteq> [] then (case ng_stateFile s of Some m \<Rightarrow> m | None \<Rightarrow> []) else [])
     in case ng_list s of
          None \<Rightarrow> s
        | Some content \<Rightarrow>
            s\<lparr>ng_banned := fold (sync_line cfg now stateMap) (fst (scan_lines content)) (ng_banned s)\<rparr>)"

definition entry_line :: "string \<Rightarrow> string \<Rightarrow> string" where
  "entry_line fileFormat ip =
    (if fileFormat = ''deny'' then ''deny '' @ ip @ '';'' else ip @ '' 1;'') @ [CHR 0x0A]"

definition render :: "string \<Rightarrow> (string, gotime) gomap \<Rightarrow> string" where
  "render fileFormat banned = fileHeader @ concat (map (\<lambda>(ip, t). entry_line fileFormat ip) banned)"

definition saveState :: "ng_Config \<Rightarrow> bool \<Rightarrow> (string, gotime) gomap \<Rightarrow> ng_state \<Rightarrow> ng_state" where
  "saveState cfg ok banned s =
    (if ngc_StateFile cfg = [] then s
     else if ok then s\<lparr>ng_stateFile := Some banned\<rparr>
     else s\<lparr>ng_errors := ng_errors s + 1\<rparr>)"

definition runReload :: "ng_Config \<Rightarrow> bool \<Rightarrow> ng_state \<Rightarrow> ng_state" where
  "runReload cfg ok s =
    (if ngc_ReloadCmd cfg = [] then s
     else let s = s\<lparr>ng_reloads := ng_reloads s + 1\<rparr>
          in if ok then s else s\<lparr>ng_errors := ng_errors s + 1\<rparr>)"

definition ng_flush :: "ng_Config \<Rightarrow> bool \<Rightarrow> io \<Rightarrow> (string, gotime) gomap \<Rightarrow> ng_state \<Rightarrow> ng_state" where
  "ng_flush cfg cancelled io banned s =
    (if cancelled then s
     else if banned = [] then s
     else if \<not> io_list io then s\<lparr>ng_errors := ng_errors s + 1\<rparr>
     else
       let s = s\<lparr>ng_list := Some (render (ngc_FileFormat cfg) banned)\<rparr>;
           s = saveState cfg (io_state io) banned s;
           s = runReload cfg (io_reload io) s
       in s\<lparr>ng_executed := ng_executed s + length banned\<rparr>)"

definition ng_flushLocked :: "ng_Config \<Rightarrow> bool \<Rightarrow> io \<Rightarrow> ng_state \<Rightarrow> ng_state" where
  "ng_flushLocked cfg cancelled io s = ng_flush cfg cancelled io (ng_banned s) s"

definition ng_sweep :: "ng_Config \<Rightarrow> bool \<Rightarrow> io \<Rightarrow> gotime \<Rightarrow> ng_state \<Rightarrow> ng_state" where
  "ng_sweep cfg cancelled io now s =
    (let keep = filter (\<lambda>(ip, addedAt). \<not> time_sub now addedAt > ngc_TTL cfg) (ng_banned s)
     in if length keep = length (ng_banned s) then s
        else ng_flush cfg cancelled io keep (s\<lparr>ng_banned := keep\<rparr>))"

definition ng_isDuplicate :: "string \<Rightarrow> ng_state \<Rightarrow> bool" where
  "ng_isDuplicate ip s \<longleftrightarrow> map_of (ng_banned s) ip \<noteq> None"

datatype ng_input = NgEvent ThreatEvent | NgFlushTick | NgSweepTick | NgClosed | NgCancelled

definition ng_step :: "ng_Config \<Rightarrow> gotime \<times> io \<times> ng_input \<Rightarrow> ng_state \<Rightarrow> ng_state" where
  "ng_step cfg ti s =
    (if ng_done s then s
     else let (now, io, i) = ti in
       case i of
         NgCancelled \<Rightarrow> (ng_sweep cfg True io now (ng_flushLocked cfg True io s))\<lparr>ng_done := True\<rparr>
       | NgClosed \<Rightarrow> (ng_sweep cfg False io now (ng_flushLocked cfg False io s))\<lparr>ng_done := True\<rparr>
       | NgEvent ev \<Rightarrow>
           if \<not> meetsMinLevel (ngc_MinLevel cfg) (te_Level ev) then s\<lparr>ng_skipped := ng_skipped s + 1\<rparr>
           else if ng_isDuplicate (te_IP ev) s then s\<lparr>ng_skipped := ng_skipped s + 1\<rparr>
           else
             let s = s\<lparr>ng_banned := AList.update (te_IP ev) now (ng_banned s), ng_buffer := ng_buffer s @ [ev]\<rparr>
             in if int (length (ng_buffer s)) \<ge> ngc_BatchSize cfg
                then (ng_flushLocked cfg False io s)\<lparr>ng_buffer := []\<rparr> else s
       | NgFlushTick \<Rightarrow>
           if ng_buffer s \<noteq> [] then (ng_flushLocked cfg False io s)\<lparr>ng_buffer := []\<rparr> else s
       | NgSweepTick \<Rightarrow> ng_sweep cfg False io now s)"

definition ng_Run :: "ng_Config \<Rightarrow> gotime \<Rightarrow> (gotime \<times> io \<times> ng_input) list \<Rightarrow> ng_state \<Rightarrow> ng_state" where
  "ng_Run cfg now inputs s = fold (ng_step cfg) inputs (ng_syncExisting cfg now s)"

section \<open>Reading back what was written\<close>

text \<open>An address as the parser of log lines delivers it: no blank and no semicolon in it.\<close>

definition clean_ip :: "string \<Rightarrow> bool" where
  "clean_ip ip \<longleftrightarrow> ip \<noteq> [] \<and> list_all (\<lambda>c. \<not> is_space c \<and> c \<noteq> CHR '';'') ip \<and> hd ip \<noteq> CHR ''#'' \<and> length ip < 1000"

definition line_body :: "string \<Rightarrow> string \<Rightarrow> string" where
  "line_body fileFormat ip = (if fileFormat = ''deny'' then ''deny '' @ ip @ '';'' else ip @ '' 1;'')"

lemma entry_line_body: "entry_line f ip = line_body f ip @ [CHR 0x0A]"
  by (simp add: entry_line_def line_body_def)

lemma space_chars [simp]: "is_space (CHR '' '')" "\<not> is_space (CHR '';'')" "is_space (CHR 0x0A)" "is_space (CHR 0x0D)"
  by (simp_all add: is_space_def)

lemma trim_space_id: "s \<noteq> [] \<Longrightarrow> \<not> is_space (hd s) \<Longrightarrow> \<not> is_space (last s) \<Longrightarrow> trim_space s = s"
  by (simp add: trim_space_def trim_left_def trim_right_def dropWhile_eq_self_iff [THEN iffD2] hd_rev)

lemma trim_suffix_append [simp]: "trim_suffix (s @ p) p = s"
  by (simp add: trim_suffix_def suffix_def)

lemma clean_ip_chars: "clean_ip ip \<Longrightarrow> \<forall>c \<in> set ip. \<not> is_space c"
  by (simp add: clean_ip_def list_all_iff)

lemma line_body_props:
  assumes "clean_ip ip"
  shows "line_body f ip \<noteq> []" "trim_space (line_body f ip) = line_body f ip" "\<not> has_prefix (line_body f ip) ''#''"
    "drop_cr (line_body f ip) = line_body f ip" "CHR 0x0A \<notin> set (line_body f ip)" "length (line_body f ip) < 64 * 1024"
proof -
  have ne: "ip \<noteq> []" and ch: "\<forall>c \<in> set ip. \<not> is_space c" and len: "length ip < 1000" and hd: "hd ip \<noteq> CHR ''#''"
    using assms clean_ip_chars by (auto simp: clean_ip_def)
  have "\<not> is_space (hd ip)" using ne ch by simp
  then show "trim_space (line_body f ip) = line_body f ip"
    using ne by (intro trim_space_id) (auto simp: line_body_def is_space_def)
  show "\<not> has_prefix (line_body f ip) ''#''"
    using ne hd by (cases ip) (auto simp: line_body_def)
  show "CHR 0x0A \<notin> set (line_body f ip)" using ch by (auto simp: line_body_def)
qed (use assms in \<open>auto simp: line_body_def drop_cr_def clean_ip_def\<close>)

lemma parse_line_body:
  assumes "clean_ip ip"
  shows "parseBannedLine (line_body f ip) f = ip"
proof (cases "f = ''deny''")
  case True
  have ne: "ip \<noteq> []" and ch: "\<forall>c \<in> set ip. \<not> is_space c" using assms clean_ip_chars by (auto simp: clean_ip_def)
  have "split_by is_space (''deny'' @ CHR '' '' # ip) = ''deny'' # split_by is_space ip"
    by (rule split_by_append) (auto simp: is_space_def)
  then have "str_fields (''deny '' @ ip) = [''deny'', ip]"
    using ne split_by_none [OF ch] by (simp add: str_fields_def)
  moreover have "trim_suffix (''deny '' @ ip @ '';'') '';'' = ''deny '' @ ip"
    using trim_suffix_append [of "''deny '' @ ip" "'';''"] by simp
  ultimately show ?thesis using True by (simp add: parseBannedLine_def line_body_def suffix_def)
next
  case False
  have "trim_space ip = ip"
    using assms clean_ip_chars [OF assms] by (intro trim_space_id) (auto simp: clean_ip_def)
  then show ?thesis using False by (simp add: parseBannedLine_def line_body_def suffix_def)
qed

definition header_line :: string where
  "header_line = butlast fileHeader"

lemma header_props:
  "fileHeader = header_line @ [CHR 0x0A]" "CHR 0x0A \<notin> set header_line" "length header_line < 64 * 1024"
  "drop_cr header_line = header_line" "has_prefix (trim_space header_line) ''#''"
  by (simp_all add: header_line_def fileHeader_def drop_cr_def trim_space_def trim_left_def trim_right_def is_space_def)

lemma render_lines:
  assumes "\<forall>ip \<in> gm_dom banned. clean_ip ip"
  shows "raw_lines (render f banned) = header_line # map (line_body f \<circ> fst) banned"
proof -
  have "raw_lines (concat (map (\<lambda>(ip, t). entry_line f ip) banned)) = map (line_body f \<circ> fst) banned"
    using assms by (induction banned) (auto simp: entry_line_body raw_lines_cons line_body_props)
  then show ?thesis by (simp add: render_def header_props raw_lines_cons)
qed

lemma render_scan:
  assumes "\<forall>ip \<in> gm_dom banned. clean_ip ip"
  shows "scan_lines (render f banned) = (header_line # map (line_body f \<circ> fst) banned, False)"
proof -
  have body: "length (line_body f ip) < 64 * 1024" "drop_cr (line_body f ip) = line_body f ip" if "ip \<in> gm_dom banned" for ip
    using that assms line_body_props by blast+
  have short: "list_all (\<lambda>l. length l < 64 * 1024) (raw_lines (render f banned))"
    using body header_props(3) by (auto simp: render_lines [OF assms] list_all_iff)
  then have "takeWhile (\<lambda>l. length l < 64 * 1024) (raw_lines (render f banned)) = raw_lines (render f banned)"
    by (simp add: takeWhile_eq_all_conv list_all_iff)
  moreover have "map drop_cr (raw_lines (render f banned)) = raw_lines (render f banned)"
    using body header_props(4) by (auto simp: render_lines [OF assms])
  ultimately show ?thesis
    using short by (simp only: scan_lines_def Let_def render_lines [OF assms]) simp
qed

lemma sync_line_body:
  assumes "clean_ip ip"
  shows "sync_line cfg now st (line_body (ngc_FileFormat cfg) ip) m =
    AList.update ip (case map_of st ip of Some t \<Rightarrow> t | None \<Rightarrow> now) m"
proof -
  have "ip \<noteq> []" using assms by (simp add: clean_ip_def)
  then show ?thesis
    using assms line_body_props [OF assms] parse_line_body [OF assms] by (simp add: sync_line_def Let_def)
qed

lemma sync_fold_bodies:
  assumes "\<forall>ip \<in> set ips. clean_ip ip"
  shows "map_of (fold (sync_line cfg now st) (map (line_body (ngc_FileFormat cfg)) ips) m) ip =
    (if ip \<in> set ips then Some (case map_of st ip of Some t \<Rightarrow> t | None \<Rightarrow> now) else map_of m ip)"
  using assms by (induction ips arbitrary: m) (auto simp: sync_line_body gm_get_update)

section \<open>Sweeping\<close>

lemma ng_flush_banned [simp]: "ng_banned (ng_flush cfg c io b s) = ng_banned s"
  by (simp add: ng_flush_def saveState_def runReload_def Let_def)

lemma ng_flush_done [simp]: "ng_done (ng_flush cfg c io b s) = ng_done s"
  by (simp add: ng_flush_def saveState_def runReload_def Let_def)

lemma ng_flush_buffer [simp]: "ng_buffer (ng_flush cfg c io b s) = ng_buffer s"
  by (simp add: ng_flush_def saveState_def runReload_def Let_def)

lemma ng_flush_list:
  "\<not> c \<Longrightarrow> b \<noteq> [] \<Longrightarrow> io_list io \<Longrightarrow> ng_list (ng_flush cfg c io b s) = Some (render (ngc_FileFormat cfg) b)"
  by (simp add: ng_flush_def saveState_def runReload_def Let_def)

lemma ng_flush_state:
  "\<not> c \<Longrightarrow> b \<noteq> [] \<Longrightarrow> io_list io \<Longrightarrow> io_state io \<Longrightarrow> ngc_StateFile cfg \<noteq> []
    \<Longrightarrow> ng_stateFile (ng_flush cfg c io b s) = Some b"
  by (simp add: ng_flush_def saveState_def runReload_def Let_def)

lemma ng_sweep_banned:
  "ng_banned (ng_sweep cfg c io now s) =
    filter (\<lambda>(ip, addedAt). \<not> time_sub now addedAt > ngc_TTL cfg) (ng_banned s)"
  by (auto simp: ng_sweep_def Let_def filter_full)

section \<open>The run loop\<close>

text \<open>Every ban of the table is one of \<open>known\<close>, and a buffered event is banned.\<close>

definition ng_inv :: "string set \<Rightarrow> ng_state \<Rightarrow> bool" where
  "ng_inv known s \<longleftrightarrow> gm_ok (ng_banned s) \<and> gm_dom (ng_banned s) \<subseteq> known"

definition ng_ok :: "ng_Config \<Rightarrow> string set \<Rightarrow> gotime \<times> io \<times> ng_input \<Rightarrow> bool" where
  "ng_ok cfg known ti \<longleftrightarrow>
    (case snd (snd ti) of NgEvent ev \<Rightarrow> meetsMinLevel (ngc_MinLevel cfg) (te_Level ev) \<longrightarrow> te_IP ev \<in> known | _ \<Rightarrow> True)"

lemma ng_sweep_inv: "ng_inv known s \<Longrightarrow> ng_inv known (ng_sweep cfg c io now s)"
  by (auto simp: ng_inv_def ng_sweep_banned gm_ok_filter)

lemma ng_inv_frame [simp]:
  "ng_inv known (s\<lparr>ng_skipped := n\<rparr>) = ng_inv known s" "ng_inv known (s\<lparr>ng_done := f\<rparr>) = ng_inv known s"
  "ng_inv known (s\<lparr>ng_buffer := b\<rparr>) = ng_inv known s" "ng_inv known (ng_flushLocked cfg c io s) = ng_inv known s"
  by (simp_all add: ng_inv_def ng_flushLocked_def)

interpretation nginx: step_system "ng_step cfg" "ng_inv known" "ng_ok cfg known" for cfg known
proof unfold_locales
  fix s ti
  assume inv: "ng_inv known s" and ok: "ng_ok cfg known ti"
  obtain now io i where ti: "ti = (now, io, i)" by (cases ti) auto
  have add: "ng_inv known (s\<lparr>ng_banned := AList.update (te_IP ev) now (ng_banned s), ng_buffer := b\<rparr>)"
    if "i = NgEvent ev" "meetsMinLevel (ngc_MinLevel cfg) (te_Level ev)" for ev b
    using inv ok that ti by (auto simp: ng_inv_def ng_ok_def gm_ok_update dom_update)
  show "ng_inv known (ng_step cfg ti s)"
    using inv add ng_sweep_inv [of known]
    by (auto simp: ng_step_def ti Let_def split: ng_input.split)
qed

definition ng_relevant :: "ng_Config \<Rightarrow> (gotime \<times> io \<times> ng_input) list \<Rightarrow> string set" where
  "ng_relevant cfg inputs =
    {te_IP ev | ev. \<exists>t io. (t, io, NgEvent ev) \<in> set inputs \<and> meetsMinLevel (ngc_MinLevel cfg) (te_Level ev)}"

lemma ng_ok_relevant: "list_all (ng_ok cfg (k \<union> ng_relevant cfg inputs)) inputs"
  by (auto simp: list_all_iff ng_ok_def ng_relevant_def split: ng_input.split) blast

lemma ng_Run_table:
  assumes "ng_banned s = []"
  shows "gm_dom (ng_banned (ng_Run cfg now inputs s)) \<subseteq>
    gm_dom (ng_banned (ng_syncExisting cfg now s)) \<union> ng_relevant cfg inputs"
proof -
  let ?k = "gm_dom (ng_banned (ng_syncExisting cfg now s)) \<union> ng_relevant cfg inputs"
  have "gm_ok (fold (sync_line cfg now st) ls m)" if "gm_ok m" for st ls m
    using that by (induction ls arbitrary: m) (auto simp: sync_line_def Let_def distinct_update)
  then have "ng_inv ?k (ng_syncExisting cfg now s)"
    using assms by (auto simp: ng_inv_def ng_syncExisting_def Let_def split: option.split)
  from nginx.run_inv [OF this ng_ok_relevant] show ?thesis
    by (simp add: ng_inv_def ng_Run_def)
qed

fun ng_events :: "gotime \<times> io \<times> ng_input \<Rightarrow> ThreatEvent list" where
  "ng_events (t, outcome, NgEvent ev) = [ev]"
| "ng_events _ = []"

text \<open>The addresses that enter the table of an executor started on empty memory, beside those of the
  list file.\<close>

definition ng_requested :: "ng_Config \<Rightarrow> gotime \<Rightarrow> ng_state \<Rightarrow> (gotime \<times> io \<times> ng_input) list \<Rightarrow> string set" where
  "ng_requested cfg now s inputs =
    (let s = s\<lparr>ng_banned := []\<rparr> in gm_dom (ng_banned (ng_Run cfg now inputs s)) - gm_dom (ng_banned (ng_syncExisting cfg now s)))"

interpretation nginx_bans: ban_requests ng_events "ngc_MinLevel cfg" "ng_requested cfg now s"
  for cfg now s
proof
  fix ip inputs
  assume "ip \<in> ng_requested cfg now s inputs"
  then have "ip \<in> ng_relevant cfg inputs"
    using ng_Run_table [of "s\<lparr>ng_banned := []\<rparr>" cfg now inputs] by (auto simp: ng_requested_def Let_def)
  then obtain t io ev where e: "(t, io, NgEvent ev) \<in> set inputs" "meetsMinLevel (ngc_MinLevel cfg) (te_Level ev)" "te_IP ev = ip"
    unfolding ng_relevant_def by blast
  show "\<exists>i \<in> set inputs. \<exists>ev \<in> set (ng_events i). meetsMinLevel (ngc_MinLevel cfg) (te_Level ev) \<and> te_IP ev = ip"
    by (rule bexI [OF _ e(1)]) (simp add: e(2,3))
qed

section \<open>Properties\<close>


text \<open>in every run, the table holds only addresses read from the list file at the start and
  addresses of events that reach the required level.\<close>

theorem nginx_table_justified:
  assumes "ng_banned s = []"
  shows "gm_dom (ng_banned (ng_Run cfg now inputs s)) \<subseteq>
    gm_dom (ng_banned (ng_syncExisting cfg now s)) \<union> ng_relevant cfg inputs"
  using assms by (rule ng_Run_table)

text \<open>when every remaining ban has expired, a sweep empties the table but leaves the list file
  as it was and does not reload, so nginx keeps blocking the expired addresses; the file is rewritten
  only while some ban remains.\<close>

theorem nginx_sweep_file:
  assumes "\<not> c" "io_list io"
  shows "let s' = ng_sweep cfg c io now s
    in if ng_banned s' = [] then ng_list s' = ng_list s \<and> ng_reloads s' = ng_reloads s
       else ng_banned s' \<noteq> ng_banned s \<longrightarrow> ng_list s' = Some (render (ngc_FileFormat cfg) (ng_banned s'))"
  using assms
  by (auto simp: Let_def ng_sweep_banned) (auto simp: ng_sweep_def Let_def ng_flush_def saveState_def runReload_def
      dest: filter_full)

section \<open>Witnesses\<close>

definition demo_ng :: ng_Config where
  "demo_ng = \<lparr>ngc_ListFile = ''/etc/nginx/blocked.conf'', ngc_StateFile = ''/var/lib/state.json'',
     ngc_MinLevel = ''THREAT'', ngc_TTL = 60 * second, ngc_BatchSize = 10, ngc_ReloadCmd = ''nginx -s reload'',
     ngc_FileFormat = ''deny''\<rparr>"

definition demo_ng_state :: "(string, gotime) gomap \<Rightarrow> string option \<Rightarrow> ng_state" where
  "demo_ng_state b l = \<lparr>ng_banned = b, ng_buffer = [], ng_executed = 0, ng_skipped = 0, ng_errors = 0,
     ng_list = l, ng_stateFile = Some [(''192.0.2.7'', 5)], ng_reloads = 0, ng_done = False\<rparr>"

definition io_fine :: io where
  "io_fine = \<lparr>io_list = True, io_state = True, io_reload = True\<rparr>"


theorem nginx_table_justified_witness:
  "gm_dom (ng_banned (ng_Run demo_ng 9 [(10, io_fine, NgSweepTick)] (demo_ng_state [] None))) \<subseteq>
    gm_dom (ng_banned (ng_syncExisting demo_ng 9 (demo_ng_state [] None))) \<union> ng_relevant demo_ng [(10, io_fine, NgSweepTick)]"
  by (rule nginx_table_justified) (simp add: demo_ng_state_def)

theorem nginx_sweep_file_witness:
  "let s = demo_ng_state [(''192.0.2.7'', 5)] (Some (render ''deny'' [(''192.0.2.7'', 5)]));
       s' = ng_sweep demo_ng False io_fine (100 * second) s
   in ng_banned s' = [] \<and> ng_list s' = Some (render ''deny'' [(''192.0.2.7'', 5)]) \<and> ng_reloads s' = 0"
proof -
  let ?s = "demo_ng_state [(''192.0.2.7'', 5)] (Some (render ''deny'' [(''192.0.2.7'', 5)]))"
  have "ng_banned (ng_sweep demo_ng False io_fine (100 * second) ?s) = []"
    by (simp add: ng_sweep_banned demo_ng_state_def demo_ng_def time_sub_def second_def)
  then show ?thesis
    using nginx_sweep_file [of False io_fine demo_ng "100 * second" ?s]
    by (simp add: Let_def io_fine_def demo_ng_state_def)
qed

end
