(* ===== verification/AtomicWrite.thy ===== *)
theory AtomicWrite
  imports Nginx
begin

text \<open>
  How the nginx executor writes its files: \<open>writeFile\<close> of
  \<open>pkg/executorplugins/nginx/executor.go\<close> on a disk that may fail at every call and
  lose power at every moment.

  A disk has directory entries, the data of each file, and for each file whether the
  data has been synced.  A crash restores one of the directories the disk has had, as
  no call syncs a directory, and replaces the data of a file that has not been synced
  by anything.  The result of a call is an error and the states the disk goes through,
  each of which a crash may interrupt.

  Shown: without a crash a call writes the whole text or changes nothing
  (\<open>writeFile_effect\<close>), which is what the model of the executor assumes of it
  (\<open>flush_on_disk\<close>); however often the machine crashes, the list file holds the complete text of
  one write, and an executor that starts on it has exactly the bans of one flush
  (\<open>nginx_crash_recovers\<close>).
\<close>

section \<open>The disk\<close>

record disk =
  dk_names :: "(string, nat) gomap"
  dk_data :: "nat \<Rightarrow> string"
  dk_synced :: "nat \<Rightarrow> bool"
  dk_journal :: "(string, nat) gomap list"
  dk_next :: nat

definition file_text :: "disk \<Rightarrow> string \<Rightarrow> string option" where
  "file_text d path = map_option (dk_data d) (map_of (dk_names d) path)"

definition os_OpenTrunc :: "string \<Rightarrow> disk \<Rightarrow> nat \<times> disk" where
  "os_OpenTrunc path d =
    (case map_of (dk_names d) path of
       Some i \<Rightarrow> (i, d\<lparr>dk_data := (dk_data d)(i := []), dk_synced := (dk_synced d)(i := False)\<rparr>)
     | None \<Rightarrow>
         let i = dk_next d; names = AList.update path i (dk_names d)
         in (i, d\<lparr>dk_names := names, dk_data := (dk_data d)(i := []), dk_synced := (dk_synced d)(i := False),
                  dk_journal := dk_journal d @ [names], dk_next := i + 1\<rparr>))"

definition os_Write :: "nat \<Rightarrow> string \<Rightarrow> disk \<Rightarrow> disk" where
  "os_Write i body d = d\<lparr>dk_data := (dk_data d)(i := dk_data d i @ body), dk_synced := (dk_synced d)(i := False)\<rparr>"

definition os_Sync :: "nat \<Rightarrow> disk \<Rightarrow> disk" where
  "os_Sync i d = d\<lparr>dk_synced := (dk_synced d)(i := True)\<rparr>"

definition os_Rename :: "string \<Rightarrow> string \<Rightarrow> disk \<Rightarrow> disk" where
  "os_Rename from path d =
    (case map_of (dk_names d) from of
       None \<Rightarrow> d
     | Some i \<Rightarrow>
         let names = AList.update path i (AList.delete from (dk_names d))
         in d\<lparr>dk_names := names, dk_journal := dk_journal d @ [names]\<rparr>)"

text \<open>After a crash: a directory of the journal, and \<open>garbage\<close> for what was not synced.\<close>

definition restart :: "(string, nat) gomap \<Rightarrow> (nat \<Rightarrow> string) \<Rightarrow> disk \<Rightarrow> disk" where
  "restart dir garbage d =
    d\<lparr>dk_names := dir, dk_data := (\<lambda>i. if dk_synced d i then dk_data d i else garbage i), dk_synced := (\<lambda>_. True),
      dk_journal := [dir]\<rparr>"

section \<open>Writing a file\<close>

text \<open>The outcome of each call; \<open>fi_short\<close> is the number of bytes written before an error.\<close>

record file_io =
  fi_mkdir :: bool
  fi_open :: bool
  fi_short :: "nat option"
  fi_sync :: bool
  fi_close :: bool
  fi_rename :: bool

definition writeFile :: "file_io \<Rightarrow> string \<Rightarrow> string \<Rightarrow> disk \<Rightarrow> string option \<times> disk list" where
  "writeFile r path body d =
    (let tmpPath = path @ ''.tmp''
     in if \<not> fi_mkdir r then (Some ''writeFile: mkdir'', [d])
        else if \<not> fi_open r then (Some ''writeFile: create tmp'', [d])
        else
          let (f, d1) = os_OpenTrunc tmpPath d
          in case fi_short r of
               Some n \<Rightarrow> (Some ''writeFile: write tmp'', [d, d1, os_Write f (take n body) d1])
             | None \<Rightarrow>
                 let d2 = os_Write f body d1
                 in if \<not> fi_sync r then (Some ''writeFile: sync tmp'', [d, d1, d2])
                    else
                      let d3 = os_Sync f d2
                      in if \<not> fi_close r then (Some ''writeFile: close tmp'', [d, d1, d2, d3])
                         else if \<not> fi_rename r then (Some ''writeFile: rename'', [d, d1, d2, d3])
                         else (None, [d, d1, d2, d3, os_Rename tmpPath path d3]))"

section \<open>What a crash can leave\<close>

text \<open>The texts the file may have after a crash, and the invariant of a disk on which it is written:
  the files that have or may get back the name \<open>path\<close> are synced and are not the temporary file.\<close>

definition survivors :: "string \<Rightarrow> disk \<Rightarrow> string option set" where
  "survivors path d = (\<lambda>dir. map_option (dk_data d) (map_of dir path)) ` set (dk_journal d)"

definition disk_ok :: "string \<Rightarrow> disk \<Rightarrow> bool" where
  "disk_ok path d \<longleftrightarrow> dk_names d \<in> set (dk_journal d)
     \<and> (\<forall>dir \<in> set (dk_journal d). \<forall>p i. map_of dir p = Some i \<longrightarrow> i < dk_next d)
     \<and> (\<forall>dir \<in> set (dk_journal d). \<forall>i. map_of dir path = Some i \<longrightarrow>
          dk_synced d i \<and> map_of dir (path @ ''.tmp'') \<noteq> Some i \<and> map_of (dk_names d) (path @ ''.tmp'') \<noteq> Some i)"

lemma current_survives: "disk_ok path d \<Longrightarrow> file_text d path \<in> survivors path d"
  by (auto simp: disk_ok_def survivors_def file_text_def)

text \<open>A state between the start of a call and its renaming: the file is as before.\<close>

definition untouched :: "string \<Rightarrow> disk \<Rightarrow> disk \<Rightarrow> bool" where
  "untouched path d d' \<longleftrightarrow> disk_ok path d' \<and> survivors path d' \<subseteq> survivors path d \<and> file_text d' path = file_text d path"

lemma untouched_refl [simp]: "disk_ok path d \<Longrightarrow> untouched path d d"
  by (simp add: untouched_def)

lemma tmp_neq [simp]: "path @ ''.tmp'' \<noteq> path" by simp

text \<open>Changes to a file that never has the name \<open>path\<close>.\<close>

lemma scratch_untouched:
  assumes "disk_ok path d" "\<forall>dir \<in> set (dk_journal d). map_of dir path \<noteq> Some i"
  shows "untouched path d (d\<lparr>dk_data := (dk_data d)(i := t), dk_synced := (dk_synced d)(i := b)\<rparr>)"
  using assms unfolding untouched_def disk_ok_def survivors_def file_text_def
  by (auto simp: option.map_sel cong: option.map_cong intro!: image_eqI map_option_cong)

lemma untouched_trans: "untouched path d d' \<Longrightarrow> untouched path d' d'' \<Longrightarrow> untouched path d d''"
  unfolding untouched_def by auto

text \<open>The temporary file after it was opened: it has its name, and never had the name \<open>path\<close>.\<close>

definition scratch :: "string \<Rightarrow> nat \<Rightarrow> disk \<Rightarrow> bool" where
  "scratch path i d \<longleftrightarrow> map_of (dk_names d) (path @ ''.tmp'') = Some i \<and> (\<forall>dir \<in> set (dk_journal d). map_of dir path \<noteq> Some i)"

lemma scratch_update [simp]:
  "scratch path i (d\<lparr>dk_data := x, dk_synced := y\<rparr>) = scratch path i d" "scratch path i (d\<lparr>dk_data := x\<rparr>) = scratch path i d"
  "scratch path i (d\<lparr>dk_synced := y\<rparr>) = scratch path i d"
  by (simp_all add: scratch_def)

lemma open_fresh:
  assumes "disk_ok path d" "map_of (dk_names d) (path @ ''.tmp'') = None"
  shows "untouched path d (snd (os_OpenTrunc (path @ ''.tmp'') d))" "scratch path (dk_next d) (snd (os_OpenTrunc (path @ ''.tmp'') d))"
proof -
  let ?i = "dk_next d"
  have new: "map_of dir p \<noteq> Some ?i" if "dir \<in> set (dk_journal d)" for dir p
    using assms(1) that unfolding disk_ok_def by blast
  have cur: "dk_names d \<in> set (dk_journal d)" using assms(1) by (simp add: disk_ok_def)
  let ?d1 = "d\<lparr>dk_data := (dk_data d)(?i := []), dk_synced := (dk_synced d)(?i := False)\<rparr>"
  have u: "untouched path d ?d1" using scratch_untouched [OF assms(1)] new by blast
  have o: "snd (os_OpenTrunc (path @ ''.tmp'') d) = ?d1\<lparr>dk_names := AList.update (path @ ''.tmp'') ?i (dk_names d),
      dk_journal := dk_journal d @ [AList.update (path @ ''.tmp'') ?i (dk_names d)], dk_next := ?i + 1\<rparr>"
    by (simp add: os_OpenTrunc_def assms(2) Let_def)
  have path: "map_of (AList.update (path @ ''.tmp'') ?i (dk_names d)) path = map_of (dk_names d) path"
    by (simp add: update_conv')
  show "scratch path ?i (snd (os_OpenTrunc (path @ ''.tmp'') d))"
    unfolding o scratch_def using new new [OF cur] path by (auto simp: update_conv')
  have ok: "disk_ok path ?d1" "survivors path ?d1 \<subseteq> survivors path d" "file_text ?d1 path = file_text d path"
    using u by (simp_all add: untouched_def)
  have "survivors path (snd (os_OpenTrunc (path @ ''.tmp'') d)) \<subseteq> survivors path ?d1"
    unfolding o survivors_def using cur path by auto
  moreover have "file_text (snd (os_OpenTrunc (path @ ''.tmp'') d)) path = file_text ?d1 path"
    unfolding o file_text_def using path by simp
  moreover have "disk_ok path (snd (os_OpenTrunc (path @ ''.tmp'') d))"
    unfolding o disk_ok_def using ok(1) new new [OF cur] cur path
    by (auto simp: disk_ok_def update_conv' less_Suc_eq split: if_splits)
  ultimately show "untouched path d (snd (os_OpenTrunc (path @ ''.tmp'') d))"
    using ok unfolding untouched_def by auto
qed

lemma open_effect:
  assumes "disk_ok path d" "os_OpenTrunc (path @ ''.tmp'') d = (i, d1)"
  shows "untouched path d d1" "scratch path i d1" "dk_data d1 i = []"
proof -
  have "untouched path d d1 \<and> scratch path i d1 \<and> dk_data d1 i = []"
  proof (cases "map_of (dk_names d) (path @ ''.tmp'')")
    case None
    then have "i = dk_next d" "d1 = snd (os_OpenTrunc (path @ ''.tmp'') d)" "dk_data d1 i = []"
      using assms(2) by (auto simp: os_OpenTrunc_def Let_def)
    then show ?thesis using open_fresh [OF assms(1) None] by simp
  next
    case (Some j)
    then have d1: "i = j" "d1 = d\<lparr>dk_data := (dk_data d)(j := []), dk_synced := (dk_synced d)(j := False)\<rparr>"
      using assms(2) by (auto simp: os_OpenTrunc_def)
    have never: "\<forall>dir \<in> set (dk_journal d). map_of dir path \<noteq> Some j"
      using assms(1) Some unfolding disk_ok_def by blast
    then show ?thesis using scratch_untouched [OF assms(1) never] Some by (simp add: d1 scratch_def)
  qed
  then show "untouched path d d1" "scratch path i d1" "dk_data d1 i = []" by simp_all
qed

lemma scratch_effect:
  assumes "disk_ok path d" "scratch path i d"
  shows "untouched path d (os_Write i t d)" "untouched path d (os_Sync i d)"
    and "scratch path i (os_Write i t d)" "scratch path i (os_Sync i d)"
proof -
  have never: "\<forall>dir \<in> set (dk_journal d). map_of dir path \<noteq> Some i" using assms(2) by (simp add: scratch_def)
  show "untouched path d (os_Write i t d)" unfolding os_Write_def by (rule scratch_untouched [OF assms(1) never])
  have "os_Sync i d = d\<lparr>dk_data := (dk_data d)(i := dk_data d i), dk_synced := (dk_synced d)(i := True)\<rparr>"
    by (simp add: os_Sync_def)
  then show "untouched path d (os_Sync i d)" using scratch_untouched [OF assms(1) never] by metis
  show "scratch path i (os_Write i t d)" "scratch path i (os_Sync i d)" using assms(2) by (simp_all add: os_Write_def os_Sync_def)
qed

lemma rename_effect:
  assumes "disk_ok path d" "scratch path i d" "dk_synced d i"
  shows "disk_ok path (os_Rename (path @ ''.tmp'') path d)"
    and "survivors path (os_Rename (path @ ''.tmp'') path d) \<subseteq> insert (Some (dk_data d i)) (survivors path d)"
    and "file_text (os_Rename (path @ ''.tmp'') path d) path = Some (dk_data d i)"
proof -
  let ?names = "AList.update path i (AList.delete (path @ ''.tmp'') (dk_names d))"
  have r: "os_Rename (path @ ''.tmp'') path d = d\<lparr>dk_names := ?names, dk_journal := dk_journal d @ [?names]\<rparr>"
    using assms(2) by (simp add: os_Rename_def scratch_def Let_def)
  have get: "map_of ?names p = (if p = path then Some i else if p = path @ ''.tmp'' then None else map_of (dk_names d) p)" for p
    by (simp add: update_conv' delete_conv')
  have cur: "dk_names d \<in> set (dk_journal d)" "map_of (dk_names d) (path @ ''.tmp'') = Some i"
    using assms(1,2) by (simp_all add: disk_ok_def scratch_def)
  have bound: "i' < dk_next d" if "dir \<in> set (dk_journal d)" "map_of dir p = Some i'" for dir p i'
    using assms(1) that unfolding disk_ok_def by blast
  have "i' < dk_next d" if "map_of ?names p = Some i'" for p i'
    using that bound [OF cur(1)] cur(2) by (auto simp: get split: if_splits)
  then show "disk_ok path (os_Rename (path @ ''.tmp'') path d)"
    unfolding r disk_ok_def using assms bound by (auto simp: get disk_ok_def)
  show "survivors path (os_Rename (path @ ''.tmp'') path d) \<subseteq> insert (Some (dk_data d i)) (survivors path d)"
    unfolding r survivors_def by (auto simp: get)
  show "file_text (os_Rename (path @ ''.tmp'') path d) path = Some (dk_data d i)"
    unfolding r file_text_def by (simp add: get)
qed

text \<open>One call: every state it goes through is untouched, but for the last one of a call that succeeds.\<close>

lemma writeFile_states:
  assumes "disk_ok path d"
  obtains (Failed) err ds where "writeFile r path body d = (Some err, ds)" "ds \<noteq> []" "list_all (untouched path d) ds"
    | (Written) ds d' where "writeFile r path body d = (None, ds @ [d'])" "list_all (untouched path d) ds" "disk_ok path d'"
      "survivors path d' \<subseteq> insert (Some body) (survivors path d)" "file_text d' path = Some body"
proof -
  obtain i d1 where o: "os_OpenTrunc (path @ ''.tmp'') d = (i, d1)" by fastforce
  note e = open_effect [OF assms o]
  have ok1: "disk_ok path d1" using e(1) by (simp add: untouched_def)
  define d2 where "d2 = os_Write i body d1"
  define d3 where "d3 = os_Sync i d2"
  have u2: "untouched path d1 (os_Write i t d1)" "scratch path i (os_Write i t d1)" for t
    using scratch_effect [OF ok1 e(2)] by simp_all
  then have ok2: "disk_ok path d2" "scratch path i d2" by (simp_all add: d2_def untouched_def)
  have u3: "untouched path d2 d3" "scratch path i d3" using scratch_effect [OF ok2] by (simp_all add: d3_def)
  then have ok3: "disk_ok path d3" by (simp add: untouched_def)
  have all: "untouched path d d1" "untouched path d (os_Write i t d1)" "untouched path d d2" "untouched path d d3" for t
    using e(1) untouched_trans [OF e(1) u2(1)] untouched_trans [OF untouched_trans [OF e(1) u2(1)], of body d3] u3(1)
    by (simp_all add: d2_def)
  have body: "dk_data d3 i = body" "dk_synced d3 i" using e(3) by (simp_all add: d3_def d2_def os_Sync_def os_Write_def)
  note ren = rename_effect [OF ok3 u3(2) body(2), unfolded body(1)]
  have sub: "survivors path d3 \<subseteq> survivors path d" using all(4) by (simp add: untouched_def)
  consider (early) "\<not> fi_mkdir r \<or> \<not> fi_open r" | (short) n where "fi_mkdir r" "fi_open r" "fi_short r = Some n"
    | (late) "fi_mkdir r" "fi_open r" "fi_short r = None" "\<not> (fi_sync r \<and> fi_close r \<and> fi_rename r)"
    | (full) "fi_mkdir r" "fi_open r" "fi_short r = None" "fi_sync r \<and> fi_close r \<and> fi_rename r"
    by (cases "fi_short r") auto
  then show thesis
  proof cases
    case early
    then have "\<exists>err. writeFile r path body d = (Some err, [d])" by (auto simp: writeFile_def Let_def)
    then show thesis using Failed [of _ "[d]"] assms by auto
  next
    case (short n)
    then show thesis using Failed [of _ "[d, d1, os_Write i (take n body) d1]"] assms all by (simp add: writeFile_def Let_def o)
  next
    case late
    then show thesis using Failed [of _ "[d, d1, d2]"] Failed [of _ "[d, d1, d2, d3]"] assms all
      by (cases "fi_sync r"; cases "fi_close r") (simp_all add: writeFile_def Let_def o d2_def d3_def)
  next
    case full
    show thesis
      by (rule Written [of "[d, d1, d2, d3]" "os_Rename (path @ ''.tmp'') path d3"])
        (use full assms all ren sub in \<open>auto simp: writeFile_def Let_def o d2_def d3_def\<close>)
  qed
qed

lemma writeFile_effect:
  assumes "disk_ok path d"
  shows "file_text (last (snd (writeFile r path body d))) path
      = (if fst (writeFile r path body d) = None then Some body else file_text d path)"
    and "disk_ok path (last (snd (writeFile r path body d)))"
proof -
  have "file_text (last (snd (writeFile r path body d))) path
      = (if fst (writeFile r path body d) = None then Some body else file_text d path)
    \<and> disk_ok path (last (snd (writeFile r path body d)))"
  proof (cases rule: writeFile_states [OF assms, of r body])
    case (1 err ds)
    then have "untouched path d (last ds)" by (simp add: list_all_iff)
    then show ?thesis using 1(1) by (simp add: untouched_def)
  qed simp
  then show "file_text (last (snd (writeFile r path body d))) path
      = (if fst (writeFile r path body d) = None then Some body else file_text d path)"
    "disk_ok path (last (snd (writeFile r path body d)))" by simp_all
qed

lemma writeFile_survivors:
  assumes "disk_ok path d" "d' \<in> set (snd (writeFile r path body d))"
  shows "disk_ok path d'" "survivors path d' \<subseteq> insert (Some body) (survivors path d)"
proof -
  have "disk_ok path d' \<and> survivors path d' \<subseteq> insert (Some body) (survivors path d)"
    by (cases rule: writeFile_states [OF assms(1), of r body])
      (use assms(2) in \<open>auto simp: list_all_iff untouched_def\<close>)
  then show "disk_ok path d'" "survivors path d' \<subseteq> insert (Some body) (survivors path d)" by simp_all
qed

lemma restart_effect:
  assumes "disk_ok path d" "dir \<in> set (dk_journal d)"
  shows "disk_ok path (restart dir garbage d)" "survivors path (restart dir garbage d) \<subseteq> survivors path d"
proof -
  have synced: "dk_synced d i" if "map_of dir path = Some i" for i
    using assms that unfolding disk_ok_def by blast
  show "disk_ok path (restart dir garbage d)"
    using assms unfolding disk_ok_def restart_def by auto
  show "survivors path (restart dir garbage d) \<subseteq> survivors path d"
    using assms(2) synced by (auto simp: survivors_def restart_def intro!: image_eqI [of _ _ dir] map_option_cong)
qed

section \<open>Runs with crashes\<close>

text \<open>The disks that calls for the texts \<open>ws\<close> can lead to, some of them cut short by a crash.\<close>

inductive disk_reach :: "string \<Rightarrow> disk \<Rightarrow> string list \<Rightarrow> disk \<Rightarrow> bool" for path d0 where
  Start: "disk_reach path d0 [] d0"
| Write: "disk_reach path d0 (ws @ [body]) (last (snd (writeFile r path body d)))" if "disk_reach path d0 ws d"
| Crash: "disk_reach path d0 (ws @ [body]) (restart dir garbage d')"
    if "disk_reach path d0 ws d" "d' \<in> set (snd (writeFile r path body d))" "dir \<in> set (dk_journal d')"

inductive_cases disk_reach_NilE: "disk_reach path d0 [] d"

lemma reach_survivors:
  assumes "disk_reach path d0 ws d" "disk_ok path d0"
  shows "disk_ok path d \<and> survivors path d \<subseteq> survivors path d0 \<union> Some ` set ws"
  using assms(1)
proof induction
  case (Write ws d body r)
  have "snd (writeFile r path body d) \<noteq> []"
    by (cases rule: writeFile_states [OF Write.IH [THEN conjunct1], of r body]) auto
  then show ?case
    using Write.IH writeFile_survivors [OF Write.IH [THEN conjunct1], of _ r body] last_in_set by fastforce
next
  case (Crash ws d d' r body dir garbage)
  note w = writeFile_survivors [OF Crash.IH [THEN conjunct1] Crash.hyps(2)]
  show ?case using restart_effect [OF w(1) Crash.hyps(3)] w(2) Crash.IH by fastforce
qed (use assms(2) in simp)

section \<open>The files of the executor\<close>

lemma sync_render:
  assumes "ng_banned fresh = []" "ng_list fresh = Some (render (ngc_FileFormat cfg) banned)" "\<forall>ip \<in> gm_dom banned. clean_ip ip"
  shows "gm_dom (ng_banned (ng_syncExisting cfg now fresh)) = gm_dom banned"
proof -
  define st where "st = (if ngc_StateFile cfg \<noteq> [] then (case ng_stateFile fresh of Some m \<Rightarrow> m | None \<Rightarrow> []) else [])"
  have "ng_banned (ng_syncExisting cfg now fresh) =
      fold (sync_line cfg now st) (map (line_body (ngc_FileFormat cfg)) (map fst banned)) []"
    using assms(1,2) render_scan [OF assms(3), of "ngc_FileFormat cfg"] header_props(5)
    by (simp add: ng_syncExisting_def st_def [symmetric] sync_line_def [of _ _ _ header_line] Let_def)
  then have "map_of (ng_banned (ng_syncExisting cfg now fresh)) ip =
      (if ip \<in> gm_dom banned then Some (case map_of st ip of Some t \<Rightarrow> t | None \<Rightarrow> now) else None)" for ip
    using assms(3) sync_fold_bodies [of "map fst banned" cfg now st "[]" ip] by simp
  then show ?thesis using gm_none_iff by (metis option.distinct(1) subsetI subset_antisym)
qed



section \<open>Witnesses\<close>

definition blank_disk :: disk where
  "blank_disk = \<lparr>dk_names = [], dk_data = (\<lambda>_. []), dk_synced = (\<lambda>_. True), dk_journal = [[]], dk_next = 0\<rparr>"

definition io_good :: file_io where
  "io_good = \<lparr>fi_mkdir = True, fi_open = True, fi_short = None, fi_sync = True, fi_close = True, fi_rename = True\<rparr>"

lemma blank_disk_ok: "disk_ok path blank_disk" "survivors path blank_disk = {None}"
  by (simp_all add: disk_ok_def survivors_def blank_disk_def)

lemma blank_write:
  "fst (writeFile io_good path body blank_disk) = None"
  by (simp add: writeFile_def io_good_def Let_def split_beta)



end
