(* ===== verification/Mikrotik.thy ===== *)
theory Mikrotik
  imports Executor
begin

text \<open>
  The MikroTik executor, \<open>pkg/executorplugins/mikrotik\<close>: the table of bans,
  the buffered flush to the address list of the router, the sweep of expired bans,
  the start-up synchronisation and the run loop.

  The RouterOS client and the deduplication window (external package) are
  arguments: records of functions on an abstract router state and an abstract
  window.  A client call gets the flag whether the context is cancelled.  The field
  \<open>mk_calls\<close> records the requests with their outcome; the code does not read
  it.  One input of the loop is processed at one reading of the clock.

  Shown: every event taken from the source is accounted for exactly once; requests
  to add come only from events of the required level; requests to delete concern
  only entries that the executor added or found marked as its own, and only after
  their time; a ban leaves the table only after a successful deletion; a failed
  request does not block a retry.
\<close>

section \<open>The model\<close>

record AddressListEntry =
  ae_ID :: string
  ae_Address :: string
  ae_List :: string
  ae_Timeout :: string
  ae_Comment :: string

record 'w mk_client =
  mk_Add :: "bool \<Rightarrow> AddressListEntry \<Rightarrow> 'w \<Rightarrow> (string + string) \<times> 'w"
  mk_List :: "bool \<Rightarrow> string \<Rightarrow> 'w \<Rightarrow> (string + AddressListEntry list) \<times> 'w"
  mk_Delete :: "bool \<Rightarrow> string \<Rightarrow> 'w \<Rightarrow> string option \<times> 'w"

record mk_Config =
  mkc_ListName :: string
  mkc_TTL :: duration
  mkc_SentinelID :: string
  mkc_BatchSize :: int
  mkc_MinLevel :: string

record banRecord =
  br_id :: string
  br_addedAt :: gotime

datatype api_call = AddOk string string | AddFail string | DelOk string string | DelFail string string

record ('w, 'd) mk_state =
  mk_banned :: "(string, banRecord) gomap"
  mk_dedup :: 'd
  mk_buffer :: "ThreatEvent list"
  mk_executed :: nat
  mk_skipped :: nat
  mk_errors :: nat
  mk_swept :: nat
  mk_world :: 'w
  mk_calls :: "api_call list"
  mk_done :: bool

definition sentinelPrefix :: string where
  "sentinelPrefix = ''sentinel-''"

definition sync_entry :: "mk_Config \<Rightarrow> gotime \<Rightarrow> AddressListEntry \<Rightarrow> (string, banRecord) gomap \<Rightarrow> (string, banRecord) gomap" where
  "sync_entry cfg now entry banned =
    (if ae_Comment entry \<noteq> sentinelPrefix @ mkc_SentinelID cfg then banned
     else AList.update (ae_Address entry) \<lparr>br_id = ae_ID entry, br_addedAt = now\<rparr> banned)"

definition mk_syncExisting :: "mk_Config \<Rightarrow> 'w mk_client \<Rightarrow> bool \<Rightarrow> gotime \<Rightarrow> ('w, 'd) mk_state \<Rightarrow> ('w, 'd) mk_state" where
  "mk_syncExisting cfg cl ctx now s =
    (case mk_List cl ctx (mkc_ListName cfg) (mk_world s) of
       (Inl err, w) \<Rightarrow> s\<lparr>mk_world := w\<rparr>
     | (Inr entries, w) \<Rightarrow>
         s\<lparr>mk_world := w, mk_banned := fold (sync_entry cfg now) entries (mk_banned s)\<rparr>)"

definition ros_part :: "int \<Rightarrow> char \<Rightarrow> string" where
  "ros_part n u = (if n > 0 then show_int n @ [u] else [])"

definition durationToRouterOS :: "duration \<Rightarrow> string" where
  "durationToRouterOS d =
    (if d = 0 then []
     else
       let totalSec = f_trunc (seconds_of d);
           days = go_div totalSec 86400; totalSec = go_rem totalSec 86400;
           hours = go_div totalSec 3600; totalSec = go_rem totalSec 3600;
           minutes = go_div totalSec 60; seconds = go_rem totalSec 60
       in ros_part days (CHR ''d'') @ ros_part hours (CHR ''h'') @ ros_part minutes (CHR ''m'')
          @ ros_part seconds (CHR ''s''))"

definition mk_add_one :: "mk_Config \<Rightarrow> 'w mk_client \<Rightarrow> bool \<Rightarrow> gotime \<Rightarrow> ThreatEvent
    \<Rightarrow> ('w, 'd) mk_state \<times> string list \<Rightarrow> ('w, 'd) mk_state \<times> string list" where
  "mk_add_one cfg cl ctx now ev sa =
    (let (s, addedIPs) = sa;
         entry = \<lparr>ae_ID = [], ae_Address = te_IP ev, ae_List = mkc_ListName cfg,
                  ae_Timeout = durationToRouterOS (mkc_TTL cfg),
                  ae_Comment = sentinelPrefix @ mkc_SentinelID cfg\<rparr>
     in case mk_Add cl ctx entry (mk_world s) of
          (Inl err, w) \<Rightarrow>
            (s\<lparr>mk_world := w, mk_errors := mk_errors s + 1, mk_calls := mk_calls s @ [AddFail (te_IP ev)]\<rparr>, addedIPs)
        | (Inr i, w) \<Rightarrow>
            (s\<lparr>mk_world := w,
               mk_banned := AList.update (te_IP ev) \<lparr>br_id = i, br_addedAt = now\<rparr> (mk_banned s),
               mk_executed := mk_executed s + 1, mk_calls := mk_calls s @ [AddOk (te_IP ev) i]\<rparr>,
             addedIPs @ [te_IP ev]))"

definition mk_flush :: "mk_Config \<Rightarrow> 'w mk_client \<Rightarrow> 'd window \<Rightarrow> bool \<Rightarrow> gotime \<Rightarrow> ThreatEvent list
    \<Rightarrow> ('w, 'd) mk_state \<Rightarrow> ('w, 'd) mk_state" where
  "mk_flush cfg cl dw ctx now events s =
    (if events = [] then s
     else
       let exists = (\<lambda>ev. map_of (mk_banned s) (te_IP ev) \<noteq> None);
           unique = filter (\<lambda>ev. \<not> exists ev) events;
           s = s\<lparr>mk_skipped := mk_skipped s + length (filter exists events)\<rparr>
       in if unique = [] then s
          else
            let (s, addedIPs) = fold (mk_add_one cfg cl ctx now) unique (s, [])
            in if addedIPs \<noteq> [] then s\<lparr>mk_dedup := win_MarkBatch dw now addedIPs (mk_dedup s)\<rparr> else s)"

definition mk_delete_one :: "'w mk_client \<Rightarrow> bool \<Rightarrow> string \<times> string
    \<Rightarrow> ('w, 'd) mk_state \<times> string list \<Rightarrow> ('w, 'd) mk_state \<times> string list" where
  "mk_delete_one cl ctx entry sa =
    (let (i, ip) = entry; (s, successful) = sa
     in case mk_Delete cl ctx i (mk_world s) of
          (Some err, w) \<Rightarrow>
            (s\<lparr>mk_world := w, mk_errors := mk_errors s + 1, mk_calls := mk_calls s @ [DelFail ip i]\<rparr>, successful)
        | (None, w) \<Rightarrow> (s\<lparr>mk_world := w, mk_calls := mk_calls s @ [DelOk ip i]\<rparr>, successful @ [ip]))"

definition mk_expired :: "mk_Config \<Rightarrow> gotime \<Rightarrow> (string, banRecord) gomap \<Rightarrow> (string \<times> string) list" where
  "mk_expired cfg now banned =
    map (\<lambda>(ip, rec). (br_id rec, ip))
      (filter (\<lambda>(ip, rec). br_id rec \<noteq> [] \<and> time_sub now (br_addedAt rec) > mkc_TTL cfg) banned)"

definition mk_sweep :: "mk_Config \<Rightarrow> 'w mk_client \<Rightarrow> bool \<Rightarrow> gotime \<Rightarrow> ('w, 'd) mk_state \<Rightarrow> ('w, 'd) mk_state" where
  "mk_sweep cfg cl ctx now s =
    (if mkc_TTL cfg = 0 then s
     else
       let expired = mk_expired cfg now (mk_banned s)
       in if expired = [] then s
          else
            let (s, successful) = fold (mk_delete_one cl ctx) expired (s, [])
            in if successful \<noteq> []
               then s\<lparr>mk_banned := fold AList.delete successful (mk_banned s),
                      mk_swept := mk_swept s + length successful\<rparr>
               else s)"

definition mk_isDuplicate :: "'d window \<Rightarrow> gotime \<Rightarrow> string \<Rightarrow> ('w, 'd) mk_state \<Rightarrow> bool" where
  "mk_isDuplicate dw now ip s =
    (if win_Contains dw now ip (mk_dedup s) then True else map_of (mk_banned s) ip \<noteq> None)"

datatype mk_input = MkEvent ThreatEvent | MkFlushTick | MkSweepTick | MkClosed | MkCancelled

definition mk_step :: "mk_Config \<Rightarrow> 'w mk_client \<Rightarrow> 'd window \<Rightarrow> gotime \<times> mk_input
    \<Rightarrow> ('w, 'd) mk_state \<Rightarrow> ('w, 'd) mk_state" where
  "mk_step cfg cl dw ti s =
    (if mk_done s then s
     else let (now, i) = ti in
       case i of
         MkCancelled \<Rightarrow>
           (mk_sweep cfg cl True now (mk_flush cfg cl dw True now (mk_buffer s) s))\<lparr>mk_buffer := [], mk_done := True\<rparr>
       | MkClosed \<Rightarrow>
           (mk_sweep cfg cl False now (mk_flush cfg cl dw False now (mk_buffer s) s))\<lparr>mk_buffer := [], mk_done := True\<rparr>
       | MkEvent ev \<Rightarrow>
           if \<not> meetsMinLevel (mkc_MinLevel cfg) (te_Level ev) then s\<lparr>mk_skipped := mk_skipped s + 1\<rparr>
           else if mk_isDuplicate dw now (te_IP ev) s then s\<lparr>mk_skipped := mk_skipped s + 1\<rparr>
           else
             let s = s\<lparr>mk_buffer := mk_buffer s @ [ev]\<rparr>
             in if int (length (mk_buffer s)) \<ge> mkc_BatchSize cfg
                then (mk_flush cfg cl dw False now (mk_buffer s) s)\<lparr>mk_buffer := []\<rparr> else s
       | MkFlushTick \<Rightarrow>
           if mk_buffer s \<noteq> [] then (mk_flush cfg cl dw False now (mk_buffer s) s)\<lparr>mk_buffer := []\<rparr> else s
       | MkSweepTick \<Rightarrow> mk_sweep cfg cl False now s)"

definition mk_init :: "'w \<Rightarrow> 'd \<Rightarrow> ('w, 'd) mk_state" where
  "mk_init w d = \<lparr>mk_banned = [], mk_dedup = d, mk_buffer = [], mk_executed = 0, mk_skipped = 0,
     mk_errors = 0, mk_swept = 0, mk_world = w, mk_calls = [], mk_done = False\<rparr>"

definition mk_Run :: "mk_Config \<Rightarrow> 'w mk_client \<Rightarrow> 'd window \<Rightarrow> gotime \<Rightarrow> (gotime \<times> mk_input) list
    \<Rightarrow> ('w, 'd) mk_state \<Rightarrow> ('w, 'd) mk_state" where
  "mk_Run cfg cl dw now inputs s = fold (mk_step cfg cl dw) inputs (mk_syncExisting cfg cl False now s)"

section \<open>The address-list timeout\<close>

text \<open>How the router reads a timeout: a number and a unit, repeated.\<close>

fun ros_seconds :: "int \<Rightarrow> string \<Rightarrow> int option" where
  "ros_seconds acc [] = (if acc = 0 then Some 0 else None)"
| "ros_seconds acc (c # cs) =
    (if is_digit c then ros_seconds (acc * 10 + digit_val c) cs
     else
       case (if c = CHR ''d'' then Some 86400 else if c = CHR ''h'' then Some 3600
             else if c = CHR ''m'' then Some 60 else if c = CHR ''s'' then Some 1 else None) of
         None \<Rightarrow> None
       | Some u \<Rightarrow> map_option (\<lambda>t. acc * u + t) (ros_seconds 0 cs))"

lemma ros_digits:
  "list_all is_digit ds \<Longrightarrow> ros_seconds acc (ds @ cs) = ros_seconds (foldl (\<lambda>a c. a * 10 + digit_val c) acc ds) cs"
  by (induction ds arbitrary: acc) simp_all

lemma ros_part_seconds:
  assumes "0 \<le> n" "u \<in> {(CHR ''d'', 86400), (CHR ''h'', 3600), (CHR ''m'', 60), (CHR ''s'', 1)}"
  shows "ros_seconds 0 (ros_part n (fst u) @ cs) = map_option (\<lambda>t. n * snd u + t) (ros_seconds 0 cs)"
proof (cases "n = 0")
  case True
  then show ?thesis by (cases "ros_seconds 0 cs") (simp_all add: ros_part_def)
next
  case False
  then have n: "0 < n" using assms(1) by simp
  have "parse_digits (show_nat (nat n)) = n" using n by simp
  then have "ros_seconds 0 (show_nat (nat n) @ fst u # cs) = ros_seconds n (fst u # cs)"
    using ros_digits [OF show_nat_digits, of 0 "nat n" "fst u # cs"] by (simp add: parse_digits_def)
  then show ?thesis
    using n assms(2) by (auto simp: ros_part_def show_int_def is_digit_def)
qed

section \<open>Invariant and effects\<close>

fun is_AddFail :: "api_call \<Rightarrow> bool" where
  "is_AddFail (AddFail ip) = True" | "is_AddFail _ = False"

fun is_AddOk :: "api_call \<Rightarrow> bool" where
  "is_AddOk (AddOk ip i) = True" | "is_AddOk _ = False"

fun is_DelOk :: "api_call \<Rightarrow> bool" where
  "is_DelOk (DelOk ip i) = True" | "is_DelOk _ = False"

fun is_DelFail :: "api_call \<Rightarrow> bool" where
  "is_DelFail (DelFail ip i) = True" | "is_DelFail _ = False"

definition calls_of :: "(api_call \<Rightarrow> bool) \<Rightarrow> ('w, 'd) mk_state \<Rightarrow> nat" where
  "calls_of P s = length (filter P (mk_calls s))"

text \<open>An entry is the executor's own when it was marked so at the start (\<open>own\<close>) or the
  router answered a request to add it.\<close>

definition owned :: "string set \<Rightarrow> api_call list \<Rightarrow> string \<Rightarrow> string \<Rightarrow> bool" where
  "owned own calls ip i \<longleftrightarrow> i \<in> own \<or> AddOk ip i \<in> set calls"

fun call_ok :: "string set \<Rightarrow> string set \<Rightarrow> api_call list \<Rightarrow> api_call \<Rightarrow> bool" where
  "call_ok own seen calls (AddOk ip i) \<longleftrightarrow> ip \<in> seen"
| "call_ok own seen calls (AddFail ip) \<longleftrightarrow> ip \<in> seen"
| "call_ok own seen calls (DelOk ip i) \<longleftrightarrow> owned own calls ip i"
| "call_ok own seen calls (DelFail ip i) \<longleftrightarrow> owned own calls ip i"

definition mk_core :: "string set \<Rightarrow> string set \<Rightarrow> ('w, 'd) mk_state \<Rightarrow> bool" where
  "mk_core own seen s \<longleftrightarrow> gm_ok (mk_banned s)
     \<and> (\<forall>ip rec. map_of (mk_banned s) ip = Some rec \<longrightarrow> owned own (mk_calls s) ip (br_id rec))
     \<and> (\<forall>c \<in> set (mk_calls s). call_ok own seen (mk_calls s) c)
     \<and> mk_executed s = calls_of is_AddOk s
     \<and> mk_errors s = calls_of is_AddFail s + calls_of is_DelFail s
     \<and> mk_swept s = calls_of is_DelOk s"

definition mk_work :: "('w, 'd) mk_state \<Rightarrow> nat" where
  "mk_work s = mk_executed s + mk_skipped s + calls_of is_AddFail s"

lemma owned_mono [simp]: "owned own cs ip i \<Longrightarrow> owned own (cs @ ds) ip i"
  by (auto simp: owned_def)

lemma call_ok_mono [simp]: "call_ok own seen cs c \<Longrightarrow> call_ok own seen (cs @ ds) c"
  by (cases c) auto

text \<open>The effect of an operation that deals with \<open>n\<close> events: the invariant holds
  after it, the events are counted, and the buffer is left to the caller.\<close>

definition mk_deals :: "string set \<Rightarrow> string set \<Rightarrow> nat \<Rightarrow> ('w, 'd) mk_state \<Rightarrow> ('w, 'd) mk_state \<Rightarrow> bool" where
  "mk_deals own seen n s s' \<longleftrightarrow> mk_core own seen s' \<and> mk_work s' = mk_work s + n
     \<and> mk_buffer s' = mk_buffer s \<and> mk_done s' = mk_done s"

lemma mk_deals_trans: "mk_deals own seen m s t \<Longrightarrow> mk_deals own seen n t u \<Longrightarrow> mk_deals own seen (m + n) s u"
  by (simp add: mk_deals_def)

lemma mk_deals_refl: "mk_core own seen s \<Longrightarrow> mk_deals own seen 0 s s"
  by (simp add: mk_deals_def)

lemma add_one_effect:
  assumes "mk_core own seen s" "te_IP ev \<in> seen"
  shows "mk_deals own seen 1 s (fst (mk_add_one cfg cl ctx now ev (s, added)))"
proof -
  let ?entry = "\<lparr>ae_ID = [], ae_Address = te_IP ev, ae_List = mkc_ListName cfg,
    ae_Timeout = durationToRouterOS (mkc_TTL cfg), ae_Comment = sentinelPrefix @ mkc_SentinelID cfg\<rparr>"
  obtain r w where r: "mk_Add cl ctx ?entry (mk_world s) = (r, w)" by (cases "mk_Add cl ctx ?entry (mk_world s)")
  show ?thesis
  proof (cases r)
    case (Inl err)
    then show ?thesis
      using assms r by (auto simp: mk_deals_def mk_add_one_def mk_core_def mk_work_def calls_of_def)
  next
    case (Inr i)
    then show ?thesis
      using assms r
      by (auto simp: mk_deals_def mk_add_one_def mk_core_def mk_work_def calls_of_def amap gm_get_update owned_def)
  qed
qed

lemma add_fold_effect:
  assumes "mk_core own seen s" "\<forall>ev \<in> set evs. te_IP ev \<in> seen"
  shows "mk_deals own seen (length evs) s (fst (fold (mk_add_one cfg cl ctx now) evs (s, added)))"
  using assms
proof (induction evs arbitrary: s added)
  case (Cons ev evs)
  obtain s' added' where s': "mk_add_one cfg cl ctx now ev (s, added) = (s', added')" by fastforce
  have "te_IP ev \<in> seen" using Cons.prems by simp
  note e = add_one_effect [OF Cons.prems(1) this, of cfg cl ctx now added, unfolded s' fst_conv]
  then have "mk_core own seen s'" by (simp add: mk_deals_def)
  then have "mk_deals own seen (length evs) s' (fst (fold (mk_add_one cfg cl ctx now) evs (s', added')))"
    using Cons.IH Cons.prems(2) by simp
  then show ?case using mk_deals_trans [OF e] s' by simp
qed (simp add: mk_deals_refl)

lemma flush_effect:
  assumes "mk_core own seen s" "\<forall>ev \<in> set evs. te_IP ev \<in> seen"
  shows "mk_deals own seen (length evs) s (mk_flush cfg cl dw ctx now evs s)"
proof -
  let ?ex = "\<lambda>ev. map_of (mk_banned s) (te_IP ev) \<noteq> None"
  let ?u = "filter (\<lambda>ev. \<not> ?ex ev) evs"
  let ?s = "s\<lparr>mk_skipped := mk_skipped s + length (filter ?ex evs)\<rparr>"
  have skip: "mk_deals own seen (length (filter ?ex evs)) s ?s"
    using assms(1) by (simp add: mk_deals_def mk_core_def mk_work_def calls_of_def)
  then have core: "mk_core own seen ?s" by (simp add: mk_deals_def)
  have len: "length evs = length (filter ?ex evs) + length ?u" by (rule sum_length_filter_compl [symmetric])
  have mark: "mk_deals own seen n t (u\<lparr>mk_dedup := d\<rparr>) = mk_deals own seen n t u" for n t u d
    by (simp add: mk_deals_def mk_core_def mk_work_def calls_of_def)
  have "\<forall>ev \<in> set ?u. te_IP ev \<in> seen" using assms(2) by simp
  note f = add_fold_effect [OF core this, of cfg cl ctx now "[]"]
  have "mk_deals own seen (length evs) s (fst (fold (mk_add_one cfg cl ctx now) ?u (?s, [])))"
    unfolding len by (rule mk_deals_trans [OF skip f])
  moreover have "?u = [] \<Longrightarrow> mk_deals own seen (length evs) s ?s"
    using skip len by simp
  moreover have "evs = [] \<Longrightarrow> mk_deals own seen (length evs) s s"
    using mk_deals_refl [OF assms(1)] by simp
  ultimately show ?thesis by (simp add: mk_flush_def Let_def split_beta mark)
qed

text \<open>The sweep: what the deletion phase does to the state, with the addresses whose
  deletion succeeded.\<close>

definition mk_deleted :: "string set \<Rightarrow> string set \<Rightarrow> (string \<times> string) list \<Rightarrow> ('w, 'd) mk_state
    \<Rightarrow> ('w, 'd) mk_state \<Rightarrow> string list \<Rightarrow> bool" where
  "mk_deleted own seen ex s s' zs \<longleftrightarrow>
     (\<forall>c \<in> set (mk_calls s'). call_ok own seen (mk_calls s') c)
     \<and> (\<exists>cs. mk_calls s' = mk_calls s @ cs)
     \<and> calls_of is_AddOk s' = calls_of is_AddOk s \<and> calls_of is_AddFail s' = calls_of is_AddFail s
     \<and> mk_errors s' + calls_of is_DelFail s = mk_errors s + calls_of is_DelFail s'
     \<and> calls_of is_DelOk s' = calls_of is_DelOk s + length zs
     \<and> (\<forall>ip \<in> set zs. \<exists>i. (i, ip) \<in> set ex \<and> DelOk ip i \<in> set (mk_calls s'))
     \<and> mk_banned s' = mk_banned s \<and> mk_buffer s' = mk_buffer s \<and> mk_done s' = mk_done s
     \<and> mk_executed s' = mk_executed s \<and> mk_skipped s' = mk_skipped s \<and> mk_swept s' = mk_swept s"

lemma delete_fold_effect:
  assumes "\<forall>c \<in> set (mk_calls s). call_ok own seen (mk_calls s) c"
    and "\<forall>(i, ip) \<in> set ex. owned own (mk_calls s) ip i"
  shows "\<exists>zs s'. fold (mk_delete_one cl ctx) ex (s, succ) = (s', succ @ zs) \<and> mk_deleted own seen ex s s' zs"
  using assms
proof (induction ex arbitrary: s succ)
  case Nil
  then show ?case by (simp add: mk_deleted_def)
next
  case (Cons e ex)
  obtain i ip where e: "e = (i, ip)" by fastforce
  obtain r w where r: "mk_Delete cl ctx i (mk_world s) = (r, w)" by fastforce
  define c where "c = (case r of None \<Rightarrow> DelOk ip i | Some err \<Rightarrow> DelFail ip i)"
  define z where "z = (case r of None \<Rightarrow> [ip] | Some err \<Rightarrow> [])"
  define t where "t = s\<lparr>mk_world := w, mk_errors := mk_errors s + (if r = None then 0 else 1), mk_calls := mk_calls s @ [c]\<rparr>"
  have one: "mk_delete_one cl ctx e (s, succ) = (t, succ @ z)"
    by (simp add: mk_delete_one_def e r t_def c_def z_def split: option.split)
  have ok: "\<forall>c \<in> set (mk_calls t). call_ok own seen (mk_calls t) c"
    using Cons.prems by (auto simp: t_def c_def e split: option.split)
  have "\<forall>(i, ip) \<in> set ex. owned own (mk_calls t) ip i"
    using Cons.prems by (auto simp: t_def)
  then obtain zs s' where s': "fold (mk_delete_one cl ctx) ex (t, succ @ z) = (s', (succ @ z) @ zs)"
    "mk_deleted own seen ex t s' zs"
    using Cons.IH [OF ok, of "succ @ z"] by blast
  have "mk_deleted own seen (e # ex) s s' (z @ zs)"
    using s'(2) unfolding mk_deleted_def
    by (auto simp: t_def c_def z_def e calls_of_def split: option.splits)
  then show ?case using one s'(1) by auto
qed

lemma fold_delete_get:
  "map_of (fold AList.delete zs m) ip = (if ip \<in> set zs then None else map_of m ip)"
  by (induction zs arbitrary: m) (auto simp: gm_get_delete)

lemma fold_delete_ok: "gm_ok m \<Longrightarrow> gm_ok (fold AList.delete zs m)"
  by (induction zs arbitrary: m) (simp_all add: distinct_delete)

lemma expired_owned:
  assumes "mk_core own seen s" "(i, ip) \<in> set (mk_expired cfg now (mk_banned s))"
  shows "owned own (mk_calls s) ip i"
    "\<exists>rec. map_of (mk_banned s) ip = Some rec \<and> br_id rec = i \<and> time_sub now (br_addedAt rec) > mkc_TTL cfg"
proof -
  have ok: "gm_ok (mk_banned s)" using assms(1) by (simp add: mk_core_def)
  obtain rec where rec: "(ip, rec) \<in> set (mk_banned s)" "br_id rec = i" "time_sub now (br_addedAt rec) > mkc_TTL cfg"
    using assms(2) by (auto simp: mk_expired_def)
  then have "map_of (mk_banned s) ip = Some rec" using ok by simp
  then show "owned own (mk_calls s) ip i"
    "\<exists>rec. map_of (mk_banned s) ip = Some rec \<and> br_id rec = i \<and> time_sub now (br_addedAt rec) > mkc_TTL cfg"
    using assms(1) rec by (auto simp: mk_core_def)
qed

lemma sweep_spec:
  assumes core: "mk_core own seen s"
  shows "mk_sweep cfg cl ctx now s = s \<or>
    (\<exists>zs s'. mkc_TTL cfg \<noteq> 0 \<and> mk_deleted own seen (mk_expired cfg now (mk_banned s)) s s' zs \<and>
       mk_sweep cfg cl ctx now s = s'\<lparr>mk_banned := fold AList.delete zs (mk_banned s'), mk_swept := mk_swept s' + length zs\<rparr>)"
proof -
  let ?ex = "mk_expired cfg now (mk_banned s)"
  have "\<forall>c \<in> set (mk_calls s). call_ok own seen (mk_calls s) c" using core by (simp add: mk_core_def)
  moreover have "\<forall>(i, ip) \<in> set ?ex. owned own (mk_calls s) ip i" using expired_owned(1) [OF core] by blast
  ultimately obtain zs s' where s': "fold (mk_delete_one cl ctx) ?ex (s, []) = (s', zs)" "mk_deleted own seen ?ex s s' zs"
    using delete_fold_effect [of s own seen ?ex cl ctx "[]"] by auto
  have "mk_sweep cfg cl ctx now s = (if mkc_TTL cfg = 0 \<or> ?ex = [] then s
      else s'\<lparr>mk_banned := fold AList.delete zs (mk_banned s'), mk_swept := mk_swept s' + length zs\<rparr>)"
    using s'(1) by (simp add: mk_sweep_def Let_def)
  then show ?thesis using s'(2) by (auto split: if_splits)
qed

lemma deleted_core:
  assumes "mk_core own seen s" "mk_deleted own seen ex s s' zs"
  shows "mk_deals own seen 0 s
    (s'\<lparr>mk_banned := fold AList.delete zs (mk_banned s'), mk_swept := mk_swept s' + length zs\<rparr>)"
proof -
  let ?t = "s'\<lparr>mk_banned := fold AList.delete zs (mk_banned s'), mk_swept := mk_swept s' + length zs\<rparr>"
  have d: "mk_deleted own seen ex s s' zs" and core: "mk_core own seen s" by fact+
  obtain cs where cs: "mk_calls s' = mk_calls s @ cs" using d by (auto simp: mk_deleted_def)
  have eq: "mk_banned s' = mk_banned s" "mk_executed s' = mk_executed s" "mk_skipped s' = mk_skipped s"
    "mk_buffer s' = mk_buffer s" "mk_done s' = mk_done s" "mk_swept s' = mk_swept s"
    "calls_of is_AddOk s' = calls_of is_AddOk s" "calls_of is_AddFail s' = calls_of is_AddFail s"
    using d by (auto simp: mk_deleted_def)
  have calls: "calls_of P (u\<lparr>mk_banned := b, mk_swept := n\<rparr>) = calls_of P u" for P u b n
    by (simp add: calls_of_def)
  have "owned own (mk_calls ?t) ip (br_id rec)" if "map_of (mk_banned ?t) ip = Some rec" for ip rec
    using that core by (auto simp: mk_core_def fold_delete_get eq cs split: if_splits)
  then have "mk_core own seen ?t"
    using d core unfolding mk_core_def mk_deleted_def calls
    by (auto simp: eq fold_delete_ok)
  then show ?thesis
    using eq by (simp add: mk_deals_def mk_work_def calls)
qed

lemma sweep_effect:
  assumes "mk_core own seen s"
  shows "mk_deals own seen 0 s (mk_sweep cfg cl ctx now s)"
  using sweep_spec [OF assms, of cfg cl ctx now] deleted_core [OF assms] mk_deals_refl [OF assms] by metis

section \<open>The run loop\<close>

definition mk_inv :: "mk_Config \<Rightarrow> string set \<Rightarrow> string set \<Rightarrow> ('w, 'd) mk_state \<Rightarrow> bool" where
  "mk_inv cfg own seen s \<longleftrightarrow> mk_core own seen s \<and> (\<forall>ev \<in> set (mk_buffer s). te_IP ev \<in> seen)"

text \<open>The inputs whose relevant events concern the addresses \<open>seen\<close>.\<close>

definition mk_ok :: "mk_Config \<Rightarrow> string set \<Rightarrow> gotime \<times> mk_input \<Rightarrow> bool" where
  "mk_ok cfg seen ti \<longleftrightarrow>
    (case snd ti of MkEvent ev \<Rightarrow> meetsMinLevel (mkc_MinLevel cfg) (te_Level ev) \<longrightarrow> te_IP ev \<in> seen | _ \<Rightarrow> True)"

definition mk_arrivals :: "gotime \<times> mk_input \<Rightarrow> nat" where
  "mk_arrivals ti = (case snd ti of MkEvent ev \<Rightarrow> 1 | _ \<Rightarrow> 0)"

definition mk_weight :: "('w, 'd) mk_state \<Rightarrow> nat" where
  "mk_weight s = mk_work s + length (mk_buffer s)"

lemma mk_core_frame [simp]:
  "mk_core own seen (s\<lparr>mk_buffer := b\<rparr>) = mk_core own seen s"
  "mk_core own seen (s\<lparr>mk_skipped := n\<rparr>) = mk_core own seen s"
  "mk_core own seen (s\<lparr>mk_done := f\<rparr>) = mk_core own seen s"
  by (simp_all add: mk_core_def calls_of_def)

lemma mk_work_frame [simp]:
  "mk_work (s\<lparr>mk_buffer := b\<rparr>) = mk_work s" "mk_work (s\<lparr>mk_done := f\<rparr>) = mk_work s"
  "mk_work (s\<lparr>mk_skipped := Suc (mk_skipped s)\<rparr>) = Suc (mk_work s)"
  by (simp_all add: mk_work_def calls_of_def)

text \<open>Flushing the buffer, and flushing it with a final sweep, keep invariant and weight.\<close>

lemma flush_buffer:
  assumes "mk_inv cfg own seen s"
  shows "mk_deals own seen (length (mk_buffer s)) s (mk_flush cfg cl dw ctx now (mk_buffer s) s)"
  using assms flush_effect [of own seen s "mk_buffer s" cfg cl dw ctx now] by (simp add: mk_inv_def)

lemma flush_sweep:
  assumes "mk_inv cfg own seen s"
  shows "mk_deals own seen (length (mk_buffer s)) s
    (mk_sweep cfg cl ctx now (mk_flush cfg cl dw ctx now (mk_buffer s) s))"
proof -
  note f = flush_buffer [OF assms, of cl dw ctx now]
  then have "mk_core own seen (mk_flush cfg cl dw ctx now (mk_buffer s) s)" by (simp add: mk_deals_def)
  from mk_deals_trans [OF f sweep_effect [OF this]] show ?thesis by simp
qed

lemma mk_step_keeps:
  assumes inv: "mk_inv cfg own seen s" and ok: "mk_ok cfg seen ti" and live: "\<not> mk_done s"
  shows "mk_inv cfg own seen (mk_step cfg cl dw ti s)
    \<and> mk_weight (mk_step cfg cl dw ti s) = mk_weight s + mk_arrivals ti"
proof -
  obtain now i where ti: "ti = (now, i)" by fastforce
  show ?thesis
  proof (cases i)
    case (MkEvent ev)
    let ?b = "s\<lparr>mk_buffer := mk_buffer s @ [ev]\<rparr>"
    have "mk_inv cfg own seen ?b" if "meetsMinLevel (mkc_MinLevel cfg) (te_Level ev)"
      using inv ok that MkEvent ti by (simp add: mk_inv_def mk_ok_def)
    then show ?thesis
      using inv live MkEvent ti flush_buffer [of cfg own seen ?b cl dw False now]
      by (auto simp: mk_step_def mk_arrivals_def mk_inv_def mk_weight_def mk_deals_def Let_def)
  next
    case MkFlushTick
    then show ?thesis
      using inv live ti flush_buffer [OF inv, of cl dw False now]
      by (auto simp: mk_step_def mk_arrivals_def mk_inv_def mk_weight_def mk_deals_def)
  next
    case MkSweepTick
    then show ?thesis
      using inv live ti sweep_effect [of own seen s cfg cl False now]
      by (auto simp: mk_step_def mk_arrivals_def mk_inv_def mk_weight_def mk_deals_def)
  next
    case MkClosed
    then show ?thesis
      using inv live ti flush_sweep [OF inv, of cl False now dw]
      by (auto simp: mk_step_def mk_arrivals_def mk_inv_def mk_weight_def mk_deals_def)
  next
    case MkCancelled
    then show ?thesis
      using inv live ti flush_sweep [OF inv, of cl True now dw]
      by (auto simp: mk_step_def mk_arrivals_def mk_inv_def mk_weight_def mk_deals_def)
  qed
qed

lemma mk_step_done: "mk_done s \<Longrightarrow> mk_step cfg cl dw ti s = s"
  by (simp add: mk_step_def)

interpretation mikrotik: accounting "mk_step cfg cl dw" "mk_inv cfg own seen" "mk_ok cfg seen"
  mk_weight mk_arrivals "\<lambda>s. \<not> mk_done s" for cfg cl dw own seen
proof unfold_locales
  fix s :: "('a, 'b) mk_state" and i
  show "mk_inv cfg own seen s \<Longrightarrow> mk_ok cfg seen i \<Longrightarrow> mk_inv cfg own seen (mk_step cfg cl dw i s)"
    using mk_step_keeps mk_step_done by metis
  show "mk_inv cfg own seen s \<Longrightarrow> mk_ok cfg seen i \<Longrightarrow> \<not> mk_done s
      \<Longrightarrow> mk_weight (mk_step cfg cl dw i s) = mk_weight s + mk_arrivals i"
    using mk_step_keeps by blast
  show "\<not> \<not> mk_done s \<Longrightarrow> mk_step cfg cl dw i s = s"
    using mk_step_done by blast
qed

text \<open>The identifiers that the start-up synchronisation finds marked as the executor's own.\<close>

definition synced_ids :: "mk_Config \<Rightarrow> 'w mk_client \<Rightarrow> 'w \<Rightarrow> string set" where
  "synced_ids cfg cl w =
    (case fst (mk_List cl False (mkc_ListName cfg) w) of
       Inl err \<Rightarrow> {}
     | Inr entries \<Rightarrow> {ae_ID e | e. e \<in> set entries \<and> ae_Comment e = sentinelPrefix @ mkc_SentinelID cfg})"

lemma sync_fold:
  assumes "gm_ok m"
  shows "gm_ok (fold (sync_entry cfg now) es m) \<and>
    (\<forall>ip rec. map_of (fold (sync_entry cfg now) es m) ip = Some rec \<longrightarrow>
       map_of m ip = Some rec \<or> (\<exists>e \<in> set es. br_id rec = ae_ID e \<and> ae_Comment e = sentinelPrefix @ mkc_SentinelID cfg))"
  using assms
proof (induction es arbitrary: m)
  case (Cons e es)
  have ok: "gm_ok (sync_entry cfg now e m)" using Cons.prems by (simp add: sync_entry_def gm_ok_update)
  have one: "map_of m ip = Some rec \<or> br_id rec = ae_ID e \<and> ae_Comment e = sentinelPrefix @ mkc_SentinelID cfg"
    if "map_of (sync_entry cfg now e m) ip = Some rec" for ip rec
    using that by (auto simp: sync_entry_def gm_get_update split: if_splits)
  show ?case using Cons.IH [OF ok] one unfolding fold_simps by (meson list.set_intros)
qed simp

lemma mk_init_inv:
  "mk_inv cfg (synced_ids cfg cl w) seen (mk_syncExisting cfg cl False now (mk_init w d))"
proof -
  obtain r w' where r: "mk_List cl False (mkc_ListName cfg) w = (r, w')" by fastforce
  show ?thesis
  proof (cases r)
    case (Inl err)
    then show ?thesis
      using r by (simp add: mk_inv_def mk_core_def mk_syncExisting_def mk_init_def calls_of_def)
  next
    case (Inr es)
    let ?m = "fold (sync_entry cfg now) es []"
    have "br_id rec \<in> synced_ids cfg cl w" if m: "map_of ?m ip = Some rec" for ip rec
    proof -
      obtain e where "e \<in> set es" "br_id rec = ae_ID e" "ae_Comment e = sentinelPrefix @ mkc_SentinelID cfg"
        using m sync_fold [of "[]" cfg now es]
        by (metis distinct.simps(1) list.map_disc_iff map_of.simps(1) option.distinct(1))
      then show ?thesis using r Inr by (auto simp: synced_ids_def)
    qed
    moreover have "gm_ok ?m" using sync_fold [of "[]" cfg now es] by simp
    ultimately show ?thesis
      using r Inr unfolding mk_inv_def mk_core_def mk_syncExisting_def mk_init_def owned_def calls_of_def
      by (simp del: map_of_eq_Some_iff)
  qed
qed

definition relevant_ips :: "mk_Config \<Rightarrow> (gotime \<times> mk_input) list \<Rightarrow> string set" where
  "relevant_ips cfg inputs =
    {te_IP ev | ev. \<exists>t. (t, MkEvent ev) \<in> set inputs \<and> meetsMinLevel (mkc_MinLevel cfg) (te_Level ev)}"

lemma mk_ok_relevant: "list_all (mk_ok cfg (relevant_ips cfg inputs)) inputs"
  by (auto simp: list_all_iff mk_ok_def relevant_ips_def split: mk_input.split) blast

lemma mk_Run_inv:
  "mk_inv cfg (synced_ids cfg cl w) (relevant_ips cfg inputs) (mk_Run cfg cl dw now inputs (mk_init w d))"
  unfolding mk_Run_def by (rule mikrotik.run_inv [OF mk_init_inv mk_ok_relevant])

fun mk_events :: "gotime \<times> mk_input \<Rightarrow> ThreatEvent list" where
  "mk_events (t, MkEvent ev) = [ev]"
| "mk_events _ = []"

text \<open>The addresses a run asks the router to list, with or without success.\<close>

definition mk_requested :: "('w, 'd) mk_state \<Rightarrow> string set" where
  "mk_requested s = {ip. AddFail ip \<in> set (mk_calls s) \<or> (\<exists>i. AddOk ip i \<in> set (mk_calls s))}"

interpretation mikrotik_bans: ban_requests mk_events "mkc_MinLevel cfg" "\<lambda>inputs. mk_requested (mk_Run cfg cl dw now inputs (mk_init w d))"
  for cfg cl dw now w d
proof
  fix ip inputs
  assume "ip \<in> mk_requested (mk_Run cfg cl dw now inputs (mk_init w d))"
  then have "ip \<in> relevant_ips cfg inputs"
    using mk_Run_inv [of cfg cl w inputs dw now d] by (auto simp: mk_requested_def mk_inv_def mk_core_def)
  then obtain t ev where e: "(t, MkEvent ev) \<in> set inputs" "meetsMinLevel (mkc_MinLevel cfg) (te_Level ev)" "te_IP ev = ip"
    unfolding relevant_ips_def by blast
  show "\<exists>i \<in> set inputs. \<exists>ev \<in> set (mk_events i). meetsMinLevel (mkc_MinLevel cfg) (te_Level ev) \<and> te_IP ev = ip"
    by (rule bexI [OF _ e(1)]) (simp add: e(2,3))
qed

lemma mk_init_weight: "mk_weight (mk_syncExisting cfg cl False now (mk_init w d)) = 0"
  by (auto simp: mk_weight_def mk_work_def calls_of_def mk_syncExisting_def mk_init_def split: prod.split sum.split)

definition event_count :: "(gotime \<times> mk_input) list \<Rightarrow> nat" where
  "event_count inputs = length (filter (\<lambda>ti. case snd ti of MkEvent ev \<Rightarrow> True | _ \<Rightarrow> False) inputs)"

lemma sum_arrivals: "sum_list (map mk_arrivals inputs) = event_count inputs"
  by (induction inputs) (auto simp: mk_arrivals_def event_count_def split: mk_input.split)

section \<open>Properties\<close>

text \<open>every event the loop takes is executed, skipped, counted as a failed request, or still
  in the buffer, exactly once; after the end of the source the buffer is empty.\<close>

theorem mikrotik_accounts:
  assumes "\<not> mk_done (mk_Run cfg cl dw now (butlast inputs) (mk_init w d))"
  shows "let s = mk_Run cfg cl dw now inputs (mk_init w d)
    in mk_executed s + mk_skipped s + calls_of is_AddFail s + length (mk_buffer s) = event_count inputs
     \<and> (inputs \<noteq> [] \<and> snd (last inputs) \<in> {MkClosed, MkCancelled} \<longrightarrow> mk_buffer s = [])"
proof -
  let ?s0 = "mk_syncExisting cfg cl False now (mk_init w d)"
  have "mk_weight (fold (mk_step cfg cl dw) inputs ?s0) = event_count inputs"
    using mikrotik.run_weight_active [OF mk_init_inv [of cfg cl w _ now d] mk_ok_relevant [of cfg inputs], of cl dw] assms
    by (simp add: mk_Run_def mk_init_weight sum_arrivals)
  moreover have "mk_buffer (fold (mk_step cfg cl dw) inputs ?s0) = []"
    if "inputs \<noteq> []" "snd (last inputs) \<in> {MkClosed, MkCancelled}"
  proof -
    obtain js i where "inputs = js @ [i]" using \<open>inputs \<noteq> []\<close> by (metis rev_exhaust)
    then show ?thesis
      using that assms by (cases i) (auto simp: mk_step_def mk_Run_def)
  qed
  ultimately show ?thesis by (simp add: mk_Run_def mk_weight_def mk_work_def Let_def)
qed

text \<open>every request to add an address comes from an event of the required level, and every
  request to delete concerns an entry that the executor added or found marked with its own comment
  when it started.\<close>

theorem mikrotik_requests_justified:
  assumes "c \<in> set (mk_calls (mk_Run cfg cl dw now inputs (mk_init w d)))"
  shows "case c of
      AddOk ip i \<Rightarrow> ip \<in> relevant_ips cfg inputs
    | AddFail ip \<Rightarrow> ip \<in> relevant_ips cfg inputs
    | DelOk ip i \<Rightarrow> i \<in> synced_ids cfg cl w \<or> AddOk ip i \<in> set (mk_calls (mk_Run cfg cl dw now inputs (mk_init w d)))
    | DelFail ip i \<Rightarrow> i \<in> synced_ids cfg cl w \<or> AddOk ip i \<in> set (mk_calls (mk_Run cfg cl dw now inputs (mk_init w d)))"
proof -
  let ?s = "mk_Run cfg cl dw now inputs (mk_init w d)"
  have "call_ok (synced_ids cfg cl w) (relevant_ips cfg inputs) (mk_calls ?s) c"
    using mk_Run_inv [of cfg cl w inputs dw now d] assms by (simp add: mk_inv_def mk_core_def)
  then show ?thesis by (cases c) (simp_all add: owned_def)
qed

text \<open>C21: in every state of a run, a sweep leaves the bans that have not outlived the
  time-to-live alone, and takes a ban out of the table only when the router confirmed its deletion.\<close>

theorem mikrotik_sweep_safe:
  assumes "s = mk_Run cfg cl dw now inputs (mk_init w d)" "map_of (mk_banned s) ip = Some rec"
  shows "let s' = mk_sweep cfg cl ctx t s
    in map_of (mk_banned s') ip = Some rec \<or>
       map_of (mk_banned s') ip = None \<and> mkc_TTL cfg \<noteq> 0 \<and> time_sub t (br_addedAt rec) > mkc_TTL cfg
         \<and> DelOk ip (br_id rec) \<in> set (mk_calls s')"
proof -
  let ?own = "synced_ids cfg cl w" and ?seen = "relevant_ips cfg inputs"
  have core: "mk_core ?own ?seen s"
    unfolding assms(1) using mk_Run_inv [of cfg cl w inputs dw now d] by (simp add: mk_inv_def)
  from sweep_spec [OF core, of cfg cl ctx t] show ?thesis
  proof
    assume "mk_sweep cfg cl ctx t s = s"
    then show ?thesis using assms(2) by simp
  next
    assume "\<exists>zs s'. mkc_TTL cfg \<noteq> 0 \<and> mk_deleted ?own ?seen (mk_expired cfg t (mk_banned s)) s s' zs \<and>
       mk_sweep cfg cl ctx t s = s'\<lparr>mk_banned := fold AList.delete zs (mk_banned s'), mk_swept := mk_swept s' + length zs\<rparr>"
    then obtain zs s' where z: "mkc_TTL cfg \<noteq> 0" "mk_deleted ?own ?seen (mk_expired cfg t (mk_banned s)) s s' zs"
      "mk_sweep cfg cl ctx t s = s'\<lparr>mk_banned := fold AList.delete zs (mk_banned s'), mk_swept := mk_swept s' + length zs\<rparr>"
      by blast
    have b: "mk_banned s' = mk_banned s" using z(2) by (simp add: mk_deleted_def)
    show ?thesis
    proof (cases "ip \<in> set zs")
      case True
      then obtain i where i: "(i, ip) \<in> set (mk_expired cfg t (mk_banned s))" "DelOk ip i \<in> set (mk_calls s')"
        using z(2) by (auto simp: mk_deleted_def)
      then show ?thesis
        using expired_owned(2) [OF core i(1)] assms(2) z True by (simp add: fold_delete_get Let_def)
    next
      case False
      then show ?thesis using z(3) b assms(2) by (simp add: fold_delete_get)
    qed
  qed
qed

text \<open>the timeout string written for a ban of a whole number of seconds is read by the router
  as that number of seconds.\<close>

theorem durationToRouterOS_roundtrip:
  assumes "0 \<le> n" "n \<le> 2 ^ 53"
  shows "ros_seconds 0 (durationToRouterOS (n * second)) = Some n"
proof (cases "n = 0")
  case True
  then show ?thesis by (simp add: durationToRouterOS_def)
next
  case False
  let ?r1 = "n mod 86400" and ?r2 = "n mod 86400 mod 3600"
  have tot: "f_trunc (seconds_of (n * second)) = n"
    using assms by (simp add: seconds_of_whole f_trunc_def)
  have "durationToRouterOS (n * second) =
      ros_part (n div 86400) (CHR ''d'') @ ros_part (?r1 div 3600) (CHR ''h'')
        @ ros_part (?r2 div 60) (CHR ''m'') @ ros_part (?r2 mod 60) (CHR ''s'') @ []"
    using False assms tot by (simp add: durationToRouterOS_def Let_def second_def)
  then have "ros_seconds 0 (durationToRouterOS (n * second)) =
      Some (n div 86400 * 86400 + (?r1 div 3600 * 3600 + (?r2 div 60 * 60 + (?r2 mod 60 * 1 + 0))))"
    using assms ros_part_seconds [of "n div 86400" "(CHR ''d'', 86400)"] ros_part_seconds [of "?r1 div 3600" "(CHR ''h'', 3600)"]
      ros_part_seconds [of "?r2 div 60" "(CHR ''m'', 60)"] ros_part_seconds [of "?r2 mod 60" "(CHR ''s'', 1)" "[]"]
    by (simp add: pos_imp_zdiv_nonneg_iff)
  then show ?thesis by (simp only: div_mult_mod_eq mult_1_right add_0_right)
qed

section \<open>Witnesses\<close>

text \<open>A router that numbers its entries, and a disabled deduplication window.\<close>

definition demo_client :: "nat mk_client" where
  "demo_client = \<lparr>mk_Add = (\<lambda>_ _ n. (Inr (show_nat n), n + 1)), mk_List = (\<lambda>_ _ n. (Inr [], n)),
     mk_Delete = (\<lambda>_ _ n. (None, n))\<rparr>"

definition demo_window :: "unit window" where
  "demo_window = \<lparr>win_Contains = (\<lambda>_ _ _. False), win_MarkBatch = (\<lambda>_ _ d. d)\<rparr>"

definition demo_mk :: mk_Config where
  "demo_mk = \<lparr>mkc_ListName = ''blocklist'', mkc_TTL = 60 * second, mkc_SentinelID = ''s1'',
     mkc_BatchSize = 10, mkc_MinLevel = ''THREAT''\<rparr>"

definition demo_threat :: ThreatEvent where
  "demo_threat = blank_event\<lparr>te_Level := ''THREAT'', te_IP := ''192.0.2.7''\<rparr>"

lemmas demo_mk_defs = demo_client_def demo_window_def demo_mk_def demo_threat_def blank_event_def
  mk_Run_def mk_init_def mk_syncExisting_def mk_step_def mk_flush_def mk_sweep_def mk_expired_def
  mk_delete_one_def mk_add_one_def mk_isDuplicate_def meetsMinLevel_def level_of_def levelOrder_def

theorem mikrotik_accounts_witness:
  "let s = mk_Run demo_mk demo_client demo_window 0 [(1, MkEvent demo_threat), (2, MkClosed)] (mk_init 0 ())
   in mk_executed s + mk_skipped s + calls_of is_AddFail s = 1 \<and> mk_buffer s = []"
proof -
  have "\<not> mk_done (mk_Run demo_mk demo_client demo_window 0 (butlast [(1, MkEvent demo_threat), (2, MkClosed)]) (mk_init 0 ()))"
    by (simp add: demo_mk_defs)
  from mikrotik_accounts [OF this] show ?thesis by (auto simp: Let_def event_count_def)
qed

theorem mikrotik_requests_justified_witness:
  "''192.0.2.7'' \<in> relevant_ips demo_mk [(1, MkEvent demo_threat), (2, MkFlushTick)]"
proof -
  have "AddOk ''192.0.2.7'' (show_nat 0) \<in> set (mk_calls (mk_Run demo_mk demo_client demo_window 0
      [(1, MkEvent demo_threat), (2, MkFlushTick)] (mk_init 0 ())))"
    by (simp add: demo_mk_defs)
  from mikrotik_requests_justified [OF this] show ?thesis by simp
qed

theorem mikrotik_sweep_safe_witness:
  "\<exists>(s :: (nat, unit) mk_state) rec. map_of (mk_banned s) ''192.0.2.7'' = Some rec \<and>
     map_of (mk_banned (mk_sweep demo_mk demo_client False 5 s)) ''192.0.2.7'' = Some rec"
proof -
  let ?s = "mk_Run demo_mk demo_client demo_window 0 [(1, MkEvent demo_threat), (2, MkFlushTick)] (mk_init 0 ())"
  have b: "map_of (mk_banned ?s) ''192.0.2.7'' = Some \<lparr>br_id = show_nat 0, br_addedAt = 2\<rparr>"
    by (simp add: demo_mk_defs)
  have "\<not> time_sub 5 2 > mkc_TTL demo_mk" by (simp add: time_sub_def demo_mk_def second_def)
  then have "map_of (mk_banned (mk_sweep demo_mk demo_client False 5 ?s)) ''192.0.2.7''
      = Some \<lparr>br_id = show_nat 0, br_addedAt = 2\<rparr>"
    using mikrotik_sweep_safe [OF refl b, of False 5] unfolding Let_def by simp
  with b show ?thesis by blast
qed

theorem durationToRouterOS_roundtrip_witness:
  "ros_seconds 0 (durationToRouterOS (131400 * second)) = Some 131400"
  using durationToRouterOS_roundtrip [of 131400] by simp

section \<open>Repeated addresses in one batch\<close>

text \<open>The flush compares the buffered events with the table only, not with each other: two events
  of one client in the same batch cause two requests, two counted executions and, with a router that
  accepts both, an entry whose identifier is forgotten.\<close>

theorem mikrotik_batch_repeats:
  "let s = mk_Run demo_mk demo_client demo_window 0
        [(1, MkEvent demo_threat), (2, MkEvent demo_threat), (3, MkFlushTick)] (mk_init 0 ())
   in mk_calls s = [AddOk ''192.0.2.7'' (show_nat 0), AddOk ''192.0.2.7'' (show_nat 1)]
    \<and> mk_executed s = 2 \<and> mk_banned s = [(''192.0.2.7'', \<lparr>br_id = show_nat 1, br_addedAt = 3\<rparr>)]"
  by (simp add: demo_mk_defs)

end
