(* ===== verification/Cloudflare.thy ===== *)
theory Cloudflare
  imports Executor
begin

text \<open>
  The Cloudflare executor, \<open>pkg/executorplugins/cloudflare/executor.go\<close>: the
  table of bans with the item identifiers of the list, the batched addition with
  retries and polling of the pending bulk operation, the sweep, the start-up
  synchronisation and the run loop.

  The API client is an argument, a record of functions on an abstract state of the
  service.  \<open>cf_wait\<close> is a wait on a timer and the context: it says whether the
  timer fired first.  \<open>cfx_calls\<close> records the batches with their outcome; the
  code does not read it.  One input of the loop is processed at one clock reading.

  Shown: events are accounted for; batches contain only addresses of relevant events
  and never the same address twice in a run; identifiers are removed only if they were
  listed at the start and their time is over; polling and retries are bounded.  An
  address the executor has tried to add stays in the table without an identifier: it
  is never tried again and never swept.
\<close>

section \<open>The model\<close>

record CFItem =
  cfi_ID :: string
  cfi_IP :: string
  cfi_Comment :: string

record CFBatchItem =
  cfb_IP :: string
  cfb_Comment :: string

record 'w CFClient =
  FindOrCreateList :: "string \<Rightarrow> 'w \<Rightarrow> (string + string) \<times> 'w"
  ListItems :: "string \<Rightarrow> 'w \<Rightarrow> (string + CFItem list) \<times> 'w"
  AddItems :: "string \<Rightarrow> CFBatchItem list \<Rightarrow> 'w \<Rightarrow> (string + string) \<times> 'w"
  RemoveItems :: "string \<Rightarrow> string list \<Rightarrow> 'w \<Rightarrow> (string + string) \<times> 'w"
  PollBulkOperation :: "string \<Rightarrow> 'w \<Rightarrow> (string + string) \<times> 'w"
  cf_wait :: "duration \<Rightarrow> 'w \<Rightarrow> bool \<times> 'w"

record cfx_Config =
  cfc_ListName :: string
  cfc_MinLevel :: string
  cfc_TTL :: duration
  cfc_BatchSize :: int
  cfc_CommentExtra :: string
  cfc_InstanceID :: string

record cf_banRecord =
  cfItemID :: string
  cf_addedAt :: gotime
  addedByExecutor :: bool

datatype cf_call = AddedBatch "string list" | FailedBatch "string list" | AbandonedBatch "string list"
  | RemovedIDs "string list" | FailedRemoval "string list"

record ('w, 'd) cfx_state =
  cfx_instanceID :: string
  cfx_listID :: string
  cfx_banned :: "(string, cf_banRecord) gomap"
  cfx_dedup :: 'd
  cfx_buffer :: "ThreatEvent list"
  cfx_executed :: nat
  cfx_skipped :: nat
  cfx_errors :: nat
  cfx_swept :: nat
  cfx_pendingOpID :: string
  cfx_pendingOpAt :: gotime
  cfx_world :: 'w
  cfx_calls :: "cf_call list"
  cfx_done :: bool

text \<open>The two identity files, and the random fallback, are arguments.\<close>

definition LoadInstanceID :: "cfx_Config \<Rightarrow> string option \<Rightarrow> string option \<Rightarrow> string \<Rightarrow> string" where
  "LoadInstanceID cfg instanceFile machineId uuid =
    (if cfc_InstanceID cfg \<noteq> [] then cfc_InstanceID cfg
     else case instanceFile of
         Some data \<Rightarrow> trim_space data
       | None \<Rightarrow> (case machineId of Some data \<Rightarrow> trim_space data | None \<Rightarrow> uuid))"

definition NewCloudflareExecutor :: "cfx_Config \<Rightarrow> string \<Rightarrow> 'w \<Rightarrow> 'd \<Rightarrow> duration + ('w, 'd) cfx_state" where
  "NewCloudflareExecutor cfg instanceID w d =
    (if cfc_TTL cfg \<le> 0 then Inl (cfc_TTL cfg)
     else Inr \<lparr>cfx_instanceID = instanceID, cfx_listID = [], cfx_banned = [], cfx_dedup = d, cfx_buffer = [],
       cfx_executed = 0, cfx_skipped = 0, cfx_errors = 0, cfx_swept = 0, cfx_pendingOpID = [], cfx_pendingOpAt = 0,
       cfx_world = w, cfx_calls = [], cfx_done = False\<rparr>)"

definition cfx_syncExisting :: "'w CFClient \<Rightarrow> gotime \<Rightarrow> ('w, 'd) cfx_state \<Rightarrow> ('w, 'd) cfx_state" where
  "cfx_syncExisting cl now s =
    (case ListItems cl (cfx_listID s) (cfx_world s) of
       (Inl err, w) \<Rightarrow> s\<lparr>cfx_world := w\<rparr>
     | (Inr items, w) \<Rightarrow>
         s\<lparr>cfx_world := w,
           cfx_banned := fold (\<lambda>item. AList.update (cfi_IP item)
             \<lparr>cfItemID = cfi_ID item, cf_addedAt = now, addedByExecutor = False\<rparr>) items (cfx_banned s)\<rparr>)"

definition pollDelays :: "duration list" where
  "pollDelays = [second div 2, 1 * second, 2 * second, 4 * second, 8 * second, 16 * second]"

fun poll_loop :: "'w CFClient \<Rightarrow> string \<Rightarrow> duration list \<Rightarrow> ('w, 'd) cfx_state \<Rightarrow> bool \<times> ('w, 'd) cfx_state" where
  "poll_loop cl opID [] s = (True, s\<lparr>cfx_pendingOpID := []\<rparr>)"
| "poll_loop cl opID (delay # delays) s =
    (case cf_wait cl delay (cfx_world s) of
       (False, w) \<Rightarrow> (False, s\<lparr>cfx_world := w, cfx_pendingOpID := []\<rparr>)
     | (True, w) \<Rightarrow>
         (case PollBulkOperation cl opID w of
            (Inl err, w) \<Rightarrow> poll_loop cl opID delays (s\<lparr>cfx_world := w\<rparr>)
          | (Inr status, w) \<Rightarrow>
              if status = ''completed'' then (True, s\<lparr>cfx_world := w, cfx_pendingOpID := []\<rparr>)
              else if status = ''failed''
              then (True, s\<lparr>cfx_world := w, cfx_errors := cfx_errors s + 1, cfx_pendingOpID := []\<rparr>)
              else poll_loop cl opID delays (s\<lparr>cfx_world := w\<rparr>)))"

definition waitForPendingOp :: "'w CFClient \<Rightarrow> ('w, 'd) cfx_state \<Rightarrow> bool \<times> ('w, 'd) cfx_state" where
  "waitForPendingOp cl s =
    (if cfx_pendingOpID s = [] then (True, s) else poll_loop cl (cfx_pendingOpID s) pollDelays s)"

definition max429Retries :: nat where
  "max429Retries = 3"

definition default429Backoff :: duration where
  "default429Backoff = 5 * second"

text \<open>\<open>n\<close> is the number of retries left; a context that ends during the back-off gives its
  own error.\<close>

fun retry_loop :: "'w CFClient \<Rightarrow> ('w \<Rightarrow> (string + string) \<times> 'w) \<Rightarrow> nat \<Rightarrow> 'w \<Rightarrow> (string + string) \<times> 'w" where
  "retry_loop cl fn n w =
    (case fn w of
       (Inr opID, w) \<Rightarrow> (Inr opID, w)
     | (Inl err, w) \<Rightarrow>
         if \<not> str_contains err ''429'' then (Inl err, w)
         else case n of
             0 \<Rightarrow> (Inl err, w)
           | Suc m \<Rightarrow>
               (case cf_wait cl default429Backoff w of
                  (False, w) \<Rightarrow> (Inl ''context canceled'', w)
                | (True, w) \<Rightarrow> retry_loop cl fn m w))"

definition doWithRetry :: "'w CFClient \<Rightarrow> ('w \<Rightarrow> (string + string) \<times> 'w) \<Rightarrow> 'w \<Rightarrow> (string + string) \<times> 'w" where
  "doWithRetry cl fn w = retry_loop cl fn max429Retries w"

definition buildComment :: "cfx_Config \<Rightarrow> string \<Rightarrow> string" where
  "buildComment cfg instanceID =
    (let base = ''sentinel-'' @ instanceID
     in if cfc_CommentExtra cfg = [] then base else base @ '' '' @ cfc_CommentExtra cfg)"

definition pre_register :: "gotime \<Rightarrow> string \<Rightarrow> (string, cf_banRecord) gomap \<Rightarrow> (string, cf_banRecord) gomap" where
  "pre_register now ip banned = AList.update ip \<lparr>cfItemID = [], cf_addedAt = now, addedByExecutor = True\<rparr> banned"

definition set_pending :: "gotime \<Rightarrow> string \<Rightarrow> ('w, 'd) cfx_state \<Rightarrow> ('w, 'd) cfx_state" where
  "set_pending now opID s = (if opID \<noteq> [] then s\<lparr>cfx_pendingOpID := opID, cfx_pendingOpAt := now\<rparr> else s)"

definition cfx_flush :: "cfx_Config \<Rightarrow> 'w CFClient \<Rightarrow> 'd window \<Rightarrow> gotime \<Rightarrow> ThreatEvent list
    \<Rightarrow> ('w, 'd) cfx_state \<Rightarrow> ('w, 'd) cfx_state" where
  "cfx_flush cfg cl dw now events s =
    (if events = [] then s
     else case waitForPendingOp cl s of
         (False, s) \<Rightarrow> s\<lparr>cfx_calls := cfx_calls s @ [AbandonedBatch (map te_IP events)]\<rparr>
       | (True, s) \<Rightarrow>
           (let items = map (\<lambda>ev. \<lparr>cfb_IP = te_IP ev, cfb_Comment = buildComment cfg (cfx_instanceID s)\<rparr>) events
            in case doWithRetry cl (AddItems cl (cfx_listID s) items) (cfx_world s) of
                 (Inl err, w) \<Rightarrow>
                   s\<lparr>cfx_world := w, cfx_errors := cfx_errors s + length events,
                     cfx_calls := cfx_calls s @ [FailedBatch (map te_IP events)]\<rparr>
               | (Inr opID, w) \<Rightarrow>
                   let s = set_pending now opID (s\<lparr>cfx_world := w\<rparr>)
                   in s\<lparr>cfx_executed := cfx_executed s + length events,
                        cfx_banned := fold (pre_register now) (map te_IP events) (cfx_banned s),
                        cfx_dedup := win_MarkBatch dw now (map te_IP events) (cfx_dedup s),
                        cfx_calls := cfx_calls s @ [AddedBatch (map te_IP events)]\<rparr>))"

definition cfx_expired :: "cfx_Config \<Rightarrow> gotime \<Rightarrow> (string, cf_banRecord) gomap \<Rightarrow> (string \<times> string) list" where
  "cfx_expired cfg now banned =
    map (\<lambda>(ip, rec). (cfItemID rec, ip))
      (filter (\<lambda>(ip, rec). cfItemID rec \<noteq> [] \<and> time_sub now (cf_addedAt rec) > cfc_TTL cfg) banned)"

definition cfx_sweep :: "cfx_Config \<Rightarrow> 'w CFClient \<Rightarrow> gotime \<Rightarrow> ('w, 'd) cfx_state \<Rightarrow> ('w, 'd) cfx_state" where
  "cfx_sweep cfg cl now s =
    (let expired = cfx_expired cfg now (cfx_banned s); itemIDs = map fst expired
     in if expired = [] then s
        else case waitForPendingOp cl s of
            (False, s) \<Rightarrow> s
          | (True, s) \<Rightarrow>
              (case doWithRetry cl (RemoveItems cl (cfx_listID s) itemIDs) (cfx_world s) of
                 (Inl err, w) \<Rightarrow>
                   s\<lparr>cfx_world := w, cfx_errors := cfx_errors s + length expired,
                     cfx_calls := cfx_calls s @ [FailedRemoval itemIDs]\<rparr>
               | (Inr opID, w) \<Rightarrow>
                   let s = set_pending now opID (s\<lparr>cfx_world := w\<rparr>)
                   in s\<lparr>cfx_banned := fold AList.delete (map snd expired) (cfx_banned s),
                        cfx_swept := cfx_swept s + length expired,
                        cfx_calls := cfx_calls s @ [RemovedIDs itemIDs]\<rparr>))"

definition cfx_isDuplicate :: "'d window \<Rightarrow> gotime \<Rightarrow> string \<Rightarrow> ('w, 'd) cfx_state \<Rightarrow> bool" where
  "cfx_isDuplicate dw now ip s =
    (if win_Contains dw now ip (cfx_dedup s) then True else map_of (cfx_banned s) ip \<noteq> None)"

datatype cfx_input = CfEvent ThreatEvent | CfFlushTick | CfSweepTick | CfClosed | CfCancelled

definition cfx_step :: "cfx_Config \<Rightarrow> 'w CFClient \<Rightarrow> 'd window \<Rightarrow> gotime \<times> cfx_input
    \<Rightarrow> ('w, 'd) cfx_state \<Rightarrow> ('w, 'd) cfx_state" where
  "cfx_step cfg cl dw ti s =
    (if cfx_done s then s
     else let (now, i) = ti in
       case i of
         CfCancelled \<Rightarrow>
           (cfx_sweep cfg cl now (cfx_flush cfg cl dw now (cfx_buffer s) s))\<lparr>cfx_buffer := [], cfx_done := True\<rparr>
       | CfClosed \<Rightarrow>
           (cfx_sweep cfg cl now (cfx_flush cfg cl dw now (cfx_buffer s) s))\<lparr>cfx_buffer := [], cfx_done := True\<rparr>
       | CfEvent ev \<Rightarrow>
           if \<not> meetsMinLevel (cfc_MinLevel cfg) (te_Level ev) then s\<lparr>cfx_skipped := cfx_skipped s + 1\<rparr>
           else if cfx_isDuplicate dw now (te_IP ev) s then s\<lparr>cfx_skipped := cfx_skipped s + 1\<rparr>
           else
             let s = s\<lparr>cfx_banned := pre_register now (te_IP ev) (cfx_banned s), cfx_buffer := cfx_buffer s @ [ev]\<rparr>
             in if int (length (cfx_buffer s)) \<ge> cfc_BatchSize cfg
                then (cfx_flush cfg cl dw now (cfx_buffer s) s)\<lparr>cfx_buffer := []\<rparr> else s
       | CfFlushTick \<Rightarrow>
           if cfx_buffer s \<noteq> [] then (cfx_flush cfg cl dw now (cfx_buffer s) s)\<lparr>cfx_buffer := []\<rparr> else s
       | CfSweepTick \<Rightarrow> cfx_sweep cfg cl now s)"

text \<open>\<open>Inl\<close> is the error of a failed look-up of the list, which ends the run.\<close>

definition cfx_start :: "cfx_Config \<Rightarrow> 'w CFClient \<Rightarrow> gotime \<Rightarrow> ('w, 'd) cfx_state \<Rightarrow> string + ('w, 'd) cfx_state" where
  "cfx_start cfg cl now s =
    (case FindOrCreateList cl (cfc_ListName cfg) (cfx_world s) of
       (Inl err, w) \<Rightarrow> Inl err
     | (Inr listID, w) \<Rightarrow> Inr (cfx_syncExisting cl now (s\<lparr>cfx_world := w, cfx_listID := listID\<rparr>)))"

definition cfx_Run :: "cfx_Config \<Rightarrow> 'w CFClient \<Rightarrow> 'd window \<Rightarrow> gotime \<Rightarrow> (gotime \<times> cfx_input) list
    \<Rightarrow> ('w, 'd) cfx_state \<Rightarrow> string + ('w, 'd) cfx_state" where
  "cfx_Run cfg cl dw now inputs s =
    (case cfx_start cfg cl now s of Inl err \<Rightarrow> Inl err | Inr s \<Rightarrow> Inr (fold (cfx_step cfg cl dw) inputs s))"

declare retry_loop.simps [simp del]

section \<open>Polling and retries\<close>

lemma poll_loop_frame:
  "cfx_banned (snd (poll_loop cl opID ds s)) = cfx_banned s" "cfx_buffer (snd (poll_loop cl opID ds s)) = cfx_buffer s"
  "cfx_calls (snd (poll_loop cl opID ds s)) = cfx_calls s" "cfx_executed (snd (poll_loop cl opID ds s)) = cfx_executed s"
  "cfx_skipped (snd (poll_loop cl opID ds s)) = cfx_skipped s" "cfx_done (snd (poll_loop cl opID ds s)) = cfx_done s"
  by (induction cl opID ds s rule: poll_loop.induct) (auto split: prod.split sum.split bool.split)

lemma poll_loop_clears: "cfx_pendingOpID (snd (poll_loop cl opID ds s)) = []"
  by (induction cl opID ds s rule: poll_loop.induct) (auto split: prod.split sum.split bool.split)

lemma wait_frame [simp]:
  "cfx_banned (snd (waitForPendingOp cl s)) = cfx_banned s" "cfx_buffer (snd (waitForPendingOp cl s)) = cfx_buffer s"
  "cfx_calls (snd (waitForPendingOp cl s)) = cfx_calls s" "cfx_executed (snd (waitForPendingOp cl s)) = cfx_executed s"
  "cfx_skipped (snd (waitForPendingOp cl s)) = cfx_skipped s" "cfx_done (snd (waitForPendingOp cl s)) = cfx_done s"
  by (simp_all add: waitForPendingOp_def poll_loop_frame)

lemma set_pending_frame [simp]:
  "cfx_banned (set_pending now op s) = cfx_banned s" "cfx_buffer (set_pending now op s) = cfx_buffer s"
  "cfx_calls (set_pending now op s) = cfx_calls s" "cfx_executed (set_pending now op s) = cfx_executed s"
  "cfx_skipped (set_pending now op s) = cfx_skipped s" "cfx_done (set_pending now op s) = cfx_done s"
  by (simp_all add: set_pending_def)

section \<open>Batches\<close>

text \<open>The addresses of the batches that were sent or given up, in order.\<close>

fun batch_of :: "cf_call \<Rightarrow> string list" where
  "batch_of (AddedBatch ips) = ips"
| "batch_of (FailedBatch ips) = ips"
| "batch_of (AbandonedBatch ips) = ips"
| "batch_of (RemovedIDs ids) = []"
| "batch_of (FailedRemoval ids) = []"

fun unsent_of :: "cf_call \<Rightarrow> string list" where
  "unsent_of (FailedBatch ips) = ips"
| "unsent_of (AbandonedBatch ips) = ips"
| "unsent_of _ = []"

fun removal_of :: "cf_call \<Rightarrow> string list" where
  "removal_of (RemovedIDs ids) = ids"
| "removal_of (FailedRemoval ids) = ids"
| "removal_of _ = []"

definition tried :: "('w, 'd) cfx_state \<Rightarrow> string list" where
  "tried s = concat (map batch_of (cfx_calls s))"

definition unsent :: "('w, 'd) cfx_state \<Rightarrow> nat" where
  "unsent s = length (concat (map unsent_of (cfx_calls s)))"

definition removal_ids :: "('w, 'd) cfx_state \<Rightarrow> string list" where
  "removal_ids s = concat (map removal_of (cfx_calls s))"

definition unlisted :: "(string, cf_banRecord) gomap \<Rightarrow> string \<Rightarrow> bool" where
  "unlisted banned ip \<longleftrightarrow> (case map_of banned ip of None \<Rightarrow> False | Some rec \<Rightarrow> cfItemID rec = [])"

text \<open>What the table holds: entries without identifier, and entries of items listed at the start.\<close>

definition cfx_table :: "string set \<Rightarrow> (string, cf_banRecord) gomap \<Rightarrow> bool" where
  "cfx_table listed banned \<longleftrightarrow> gm_ok banned
    \<and> (\<forall>ip rec. map_of banned ip = Some rec \<longrightarrow> cfItemID rec = [] \<or> cfItemID rec \<in> listed)"

lemma unlisted_pre_register: "unlisted (pre_register now ip m) k \<longleftrightarrow> k = ip \<or> unlisted m k"
  by (auto simp: unlisted_def pre_register_def gm_get_update)

lemma unlisted_pre_registers: "unlisted (fold (pre_register now) ips m) k \<longleftrightarrow> k \<in> set ips \<or> unlisted m k"
  by (induction ips arbitrary: m) (auto simp: unlisted_pre_register)

lemma table_update: "cfx_table L m \<Longrightarrow> cfItemID rec = [] \<or> cfItemID rec \<in> L \<Longrightarrow> cfx_table L (AList.update ip rec m)"
  by (auto simp: cfx_table_def gm_get_update gm_ok_update)

lemma table_pre_register: "cfx_table L m \<Longrightarrow> cfx_table L (pre_register now ip m)"
  by (simp add: pre_register_def table_update)

lemma table_pre_registers: "cfx_table L m \<Longrightarrow> cfx_table L (fold (pre_register now) ips m)"
  by (induction ips arbitrary: m) (auto simp: table_pre_register)

lemma expired_listed:
  assumes "cfx_table L banned" "(i, ip) \<in> set (cfx_expired cfg now banned)"
  shows "i \<in> L" "i \<noteq> []" "\<not> unlisted banned ip"
proof -
  obtain rec where rec: "(ip, rec) \<in> set banned" "i = cfItemID rec" "cfItemID rec \<noteq> []"
    using assms(2) by (auto simp: cfx_expired_def)
  then have m: "map_of banned ip = Some rec" using assms(1) by (simp add: cfx_table_def)
  show "i \<in> L" using m rec assms(1) unfolding cfx_table_def by blast
  show "i \<noteq> []" "\<not> unlisted banned ip" using m rec by (simp_all add: unlisted_def)
qed

lemma map_of_deletes: "map_of (fold AList.delete ips m) k = (if k \<in> set ips then None else map_of m k)"
  by (induction ips arbitrary: m) (auto simp: gm_get_delete)

lemma gm_ok_deletes: "gm_ok m \<Longrightarrow> gm_ok (fold AList.delete ips m)"
  by (induction ips arbitrary: m) (auto simp: gm_ok_delete)

lemma table_deletes: "cfx_table L m \<Longrightarrow> cfx_table L (fold AList.delete ips m)"
  by (auto simp: cfx_table_def map_of_deletes gm_ok_deletes split: if_splits)

lemma unlisted_sweep:
  assumes "cfx_table L banned" "unlisted banned ip"
  shows "unlisted (fold AList.delete (map snd (cfx_expired cfg now banned)) banned) ip"
proof -
  have "ip \<notin> set (map snd (cfx_expired cfg now banned))"
    using expired_listed(3) [OF assms(1)] assms(2) by fastforce
  then show ?thesis using assms(2) by (simp add: unlisted_def map_of_deletes)
qed

section \<open>The invariant\<close>

definition cfx_inv :: "string set \<Rightarrow> string set \<Rightarrow> ('w, 'd) cfx_state \<Rightarrow> bool" where
  "cfx_inv listed seen s \<longleftrightarrow> cfx_table listed (cfx_banned s)
    \<and> distinct (tried s @ map te_IP (cfx_buffer s))
    \<and> list_all (\<lambda>ip. unlisted (cfx_banned s) ip \<and> ip \<in> seen) (tried s @ map te_IP (cfx_buffer s))
    \<and> set (removal_ids s) \<subseteq> listed"

definition cfx_weight :: "('w, 'd) cfx_state \<Rightarrow> nat" where
  "cfx_weight s = cfx_executed s + cfx_skipped s + unsent s + length (cfx_buffer s)"

definition cfx_ok :: "cfx_Config \<Rightarrow> string set \<Rightarrow> gotime \<times> cfx_input \<Rightarrow> bool" where
  "cfx_ok cfg seen ti \<longleftrightarrow>
    (case snd ti of CfEvent ev \<Rightarrow> meetsMinLevel (cfc_MinLevel cfg) (te_Level ev) \<longrightarrow> te_IP ev \<in> seen | _ \<Rightarrow> True)"

definition cfx_arrivals :: "gotime \<times> cfx_input \<Rightarrow> nat" where
  "cfx_arrivals ti = (case snd ti of CfEvent ev \<Rightarrow> 1 | _ \<Rightarrow> 0)"

text \<open>The three outcomes of a flush of the whole buffer.\<close>

lemma flush_cases:
  obtains (Idle) "cfx_buffer s = []" "cfx_flush cfg cl dw now (cfx_buffer s) s = s"
  | (Sent) s' c where "cfx_flush cfg cl dw now (cfx_buffer s) s = s'" "cfx_calls s' = cfx_calls s @ [c]"
      "batch_of c = map te_IP (cfx_buffer s)" "removal_of c = []" "cfx_buffer s' = cfx_buffer s"
      "cfx_skipped s' = cfx_skipped s" "cfx_done s' = cfx_done s"
      "cfx_banned s' = cfx_banned s \<and> cfx_executed s' = cfx_executed s \<and> unsent_of c = map te_IP (cfx_buffer s)
       \<or> cfx_banned s' = fold (pre_register now) (map te_IP (cfx_buffer s)) (cfx_banned s)
         \<and> cfx_executed s' = cfx_executed s + length (cfx_buffer s) \<and> unsent_of c = []"
proof (cases "cfx_buffer s = []")
  case True
  then show thesis using Idle by (simp add: cfx_flush_def)
next
  case False
  let ?ips = "map te_IP (cfx_buffer s)"
  obtain b s1 where w: "waitForPendingOp cl s = (b, s1)" by fastforce
  note f = wait_frame [of cl s, unfolded w snd_conv]
  show thesis
  proof (cases b)
    case b: False
    show thesis by (rule Sent [OF refl, of "AbandonedBatch ?ips"]) (use False w b f in \<open>simp_all add: cfx_flush_def\<close>)
  next
    case True
    let ?items = "map (\<lambda>ev. \<lparr>cfb_IP = te_IP ev, cfb_Comment = buildComment cfg (cfx_instanceID s1)\<rparr>) (cfx_buffer s)"
    obtain r w' where r: "doWithRetry cl (AddItems cl (cfx_listID s1) ?items) (cfx_world s1) = (r, w')" by fastforce
    show thesis
    proof (cases r)
      case (Inl err)
      show thesis
        by (rule Sent [OF refl, of "FailedBatch ?ips"]) (use False w True f r Inl in \<open>simp_all add: cfx_flush_def\<close>)
    next
      case (Inr opID)
      show thesis
        by (rule Sent [OF refl, of "AddedBatch ?ips"]) (use False w True f r Inr in \<open>simp_all add: cfx_flush_def Let_def\<close>)
    qed
  qed
qed

lemma flush_keeps:
  assumes "cfx_inv L seen s"
  shows "cfx_inv L seen ((cfx_flush cfg cl dw now (cfx_buffer s) s)\<lparr>cfx_buffer := []\<rparr>)
    \<and> cfx_weight ((cfx_flush cfg cl dw now (cfx_buffer s) s)\<lparr>cfx_buffer := []\<rparr>) = cfx_weight s"
proof (rule flush_cases [of s cfg cl dw now])
  assume "cfx_buffer s = []" "cfx_flush cfg cl dw now (cfx_buffer s) s = s"
  then show ?thesis using assms by (simp add: cfx_inv_def cfx_weight_def tried_def removal_ids_def unsent_def)
next
  fix s' c
  assume f: "cfx_flush cfg cl dw now (cfx_buffer s) s = s'" "cfx_calls s' = cfx_calls s @ [c]"
    "batch_of c = map te_IP (cfx_buffer s)" "removal_of c = []" "cfx_buffer s' = cfx_buffer s" "cfx_skipped s' = cfx_skipped s"
    "cfx_done s' = cfx_done s"
    and d: "cfx_banned s' = cfx_banned s \<and> cfx_executed s' = cfx_executed s \<and> unsent_of c = map te_IP (cfx_buffer s)
      \<or> cfx_banned s' = fold (pre_register now) (map te_IP (cfx_buffer s)) (cfx_banned s)
         \<and> cfx_executed s' = cfx_executed s + length (cfx_buffer s) \<and> unsent_of c = []"
  have t: "tried (s'\<lparr>cfx_buffer := []\<rparr>) = tried s @ map te_IP (cfx_buffer s)"
    "removal_ids (s'\<lparr>cfx_buffer := []\<rparr>) = removal_ids s" "unsent (s'\<lparr>cfx_buffer := []\<rparr>) = unsent s + length (unsent_of c)"
    using f by (simp_all add: tried_def removal_ids_def unsent_def)
  have "cfx_table L (cfx_banned s')" "\<And>ip. unlisted (cfx_banned s) ip \<Longrightarrow> unlisted (cfx_banned s') ip"
    using d assms by (auto simp: cfx_inv_def table_pre_registers unlisted_pre_registers)
  then show ?thesis
    using assms d f t by (auto simp: cfx_inv_def cfx_weight_def list_all_iff)
qed

lemma sweep_keeps:
  assumes "cfx_inv L seen s"
  shows "cfx_inv L seen (cfx_sweep cfg cl now s) \<and> cfx_weight (cfx_sweep cfg cl now s) = cfx_weight s"
proof -
  let ?ex = "cfx_expired cfg now (cfx_banned s)"
  obtain b s1 where w: "waitForPendingOp cl s = (b, s1)" by fastforce
  note f = wait_frame [of cl s, unfolded w snd_conv]
  obtain r w' where r: "doWithRetry cl (RemoveItems cl (cfx_listID s1) (map fst ?ex)) (cfx_world s1) = (r, w')" by fastforce
  have tab: "cfx_table L (cfx_banned s)" using assms by (simp add: cfx_inv_def)
  have ids: "set (map fst ?ex) \<subseteq> L" using expired_listed(1) [OF tab] by fastforce
  note un = unlisted_sweep [OF tab, of _ cfg now]
  note defs = cfx_sweep_def Let_def w r cfx_inv_def cfx_weight_def tried_def removal_ids_def unsent_def f
  show ?thesis
  proof (cases "?ex = [] \<or> \<not> b")
    case True
    then show ?thesis using assms by (cases "?ex = []") (simp_all add: defs)
  next
    case False
    then show ?thesis
    proof (cases r)
      case (Inl err)
      then show ?thesis using False assms ids by (simp add: defs)
    next
      case (Inr opID)
      then show ?thesis using False assms ids un table_deletes [OF tab] by (auto simp: defs list_all_iff)
    qed
  qed
qed

section \<open>The run loop\<close>

lemma cfx_frame [simp]:
  "cfx_inv L seen (s\<lparr>cfx_skipped := n\<rparr>) = cfx_inv L seen s" "cfx_inv L seen (s\<lparr>cfx_done := f\<rparr>) = cfx_inv L seen s"
  "cfx_weight (s\<lparr>cfx_done := f\<rparr>) = cfx_weight s" "cfx_weight (s\<lparr>cfx_skipped := Suc (cfx_skipped s)\<rparr>) = Suc (cfx_weight s)"
  by (simp_all add: cfx_inv_def cfx_weight_def tried_def removal_ids_def unsent_def)

lemma buffer_world: "s\<lparr>cfx_buffer := b, cfx_world := w\<rparr> = s\<lparr>cfx_world := w, cfx_buffer := b\<rparr>"
  by simp

lemma poll_loop_buffer:
  "poll_loop cl opID ds (s\<lparr>cfx_buffer := b\<rparr>) = map_prod id (cfx_buffer_update (\<lambda>_. b)) (poll_loop cl opID ds s)"
  by (induction ds arbitrary: s) (auto simp: buffer_world split: prod.split sum.split bool.split)

lemma wait_buffer:
  "waitForPendingOp cl (s\<lparr>cfx_buffer := b\<rparr>) = map_prod id (cfx_buffer_update (\<lambda>_. b)) (waitForPendingOp cl s)"
  by (simp add: waitForPendingOp_def poll_loop_buffer)

text \<open>The sweep works on the table and does not see the buffer.\<close>

lemma sweep_buffer: "(cfx_sweep cfg cl now s)\<lparr>cfx_buffer := b\<rparr> = cfx_sweep cfg cl now (s\<lparr>cfx_buffer := b\<rparr>)"
  by (auto simp: cfx_sweep_def Let_def set_pending_def wait_buffer split: prod.split sum.split bool.split)

lemma flush_sweep_keeps:
  assumes "cfx_inv L seen s"
  shows "cfx_inv L seen ((cfx_sweep cfg cl now (cfx_flush cfg cl dw now (cfx_buffer s) s))\<lparr>cfx_buffer := []\<rparr>)
    \<and> cfx_weight ((cfx_sweep cfg cl now (cfx_flush cfg cl dw now (cfx_buffer s) s))\<lparr>cfx_buffer := []\<rparr>) = cfx_weight s"
  using flush_keeps [OF assms, of cfg cl dw now] sweep_keeps [of L seen _ cfg cl now] unfolding sweep_buffer by metis

lemma cfx_step_keeps:
  assumes inv: "cfx_inv L seen s" and ok: "cfx_ok cfg seen ti" and live: "\<not> cfx_done s"
  shows "cfx_inv L seen (cfx_step cfg cl dw ti s) \<and> cfx_weight (cfx_step cfg cl dw ti s) = cfx_weight s + cfx_arrivals ti"
proof -
  obtain now i where ti: "ti = (now, i)" by fastforce
  show ?thesis
  proof (cases i)
    case (CfEvent ev)
    let ?b = "s\<lparr>cfx_banned := pre_register now (te_IP ev) (cfx_banned s), cfx_buffer := cfx_buffer s @ [ev]\<rparr>"
    have b: "cfx_inv L seen ?b \<and> cfx_weight ?b = cfx_weight s + 1"
      if "meetsMinLevel (cfc_MinLevel cfg) (te_Level ev)" "map_of (cfx_banned s) (te_IP ev) = None"
    proof -
      have "te_IP ev \<notin> set (tried s @ map te_IP (cfx_buffer s))"
      proof
        assume "te_IP ev \<in> set (tried s @ map te_IP (cfx_buffer s))"
        then have "unlisted (cfx_banned s) (te_IP ev)" using inv unfolding cfx_inv_def list_all_iff by blast
        then show False using that(2) by (simp add: unlisted_def)
      qed
      then show ?thesis
        using inv ok that(1) CfEvent ti
        by (auto simp: cfx_inv_def cfx_ok_def cfx_weight_def list_all_iff unlisted_pre_register table_pre_register
            tried_def removal_ids_def unsent_def)
    qed
    then show ?thesis
      using inv live CfEvent ti flush_keeps [of L seen ?b cfg cl dw now]
      by (auto simp: cfx_step_def cfx_arrivals_def cfx_isDuplicate_def Let_def)
  next
    case CfFlushTick
    then show ?thesis
      using inv live ti flush_keeps [OF inv, of cfg cl dw now] by (auto simp: cfx_step_def cfx_arrivals_def)
  next
    case CfSweepTick
    then show ?thesis
      using inv live ti sweep_keeps [OF inv, of cfg cl now] by (auto simp: cfx_step_def cfx_arrivals_def)
  next
    case CfClosed
    then show ?thesis
      using inv live ti flush_sweep_keeps [OF inv, of cfg cl now dw] by (auto simp: cfx_step_def cfx_arrivals_def)
  next
    case CfCancelled
    then show ?thesis
      using inv live ti flush_sweep_keeps [OF inv, of cfg cl now dw] by (auto simp: cfx_step_def cfx_arrivals_def)
  qed
qed

lemma cfx_step_done: "cfx_done s \<Longrightarrow> cfx_step cfg cl dw ti s = s"
  by (simp add: cfx_step_def)

interpretation cloudflare: accounting "cfx_step cfg cl dw" "cfx_inv L seen" "cfx_ok cfg seen"
  cfx_weight cfx_arrivals "\<lambda>s. \<not> cfx_done s" for cfg cl dw L seen
proof unfold_locales
  fix s :: "('a, 'b) cfx_state" and i
  show "cfx_inv L seen s \<Longrightarrow> cfx_ok cfg seen i \<Longrightarrow> cfx_inv L seen (cfx_step cfg cl dw i s)"
    using cfx_step_keeps cfx_step_done by metis
  show "cfx_inv L seen s \<Longrightarrow> cfx_ok cfg seen i \<Longrightarrow> \<not> cfx_done s
      \<Longrightarrow> cfx_weight (cfx_step cfg cl dw i s) = cfx_weight s + cfx_arrivals i"
    using cfx_step_keeps by blast
  show "\<not> \<not> cfx_done s \<Longrightarrow> cfx_step cfg cl dw i s = s"
    using cfx_step_done by blast
qed

section \<open>The start\<close>

text \<open>The identifiers the service lists when the executor starts.\<close>

definition start_ids :: "cfx_Config \<Rightarrow> 'w CFClient \<Rightarrow> 'w \<Rightarrow> string set" where
  "start_ids cfg cl w =
    (case FindOrCreateList cl (cfc_ListName cfg) w of
       (Inl err, w) \<Rightarrow> {}
     | (Inr listID, w) \<Rightarrow> (case fst (ListItems cl listID w) of Inl err \<Rightarrow> {} | Inr items \<Rightarrow> cfi_ID ` set items))"

lemma sync_table:
  assumes "cfx_table L m" "cfi_ID ` set items \<subseteq> L"
  shows "cfx_table L (fold (\<lambda>item. AList.update (cfi_IP item)
    \<lparr>cfItemID = cfi_ID item, cf_addedAt = now, addedByExecutor = False\<rparr>) items m)"
  using assms by (induction items arbitrary: m) (simp_all add: table_update)

lemma start_inv:
  assumes "NewCloudflareExecutor cfg iid w d = Inr s0" "cfx_start cfg cl now s0 = Inr s"
  shows "cfx_inv (start_ids cfg cl w) seen s" "cfx_weight s = 0" "\<not> cfx_done s"
proof -
  have s0: "cfx_world s0 = w" "cfx_banned s0 = []" "cfx_calls s0 = []" "cfx_buffer s0 = []" "cfx_executed s0 = 0"
    "cfx_skipped s0 = 0" "\<not> cfx_done s0"
    using assms(1) by (auto simp: NewCloudflareExecutor_def split: if_splits)
  obtain listID w1 where l: "FindOrCreateList cl (cfc_ListName cfg) w = (Inr listID, w1)"
    and s: "s = cfx_syncExisting cl now (s0\<lparr>cfx_world := w1, cfx_listID := listID\<rparr>)"
    using assms(2) s0(1) by (auto simp: cfx_start_def split: prod.splits sum.splits)
  obtain r w2 where r: "ListItems cl listID w1 = (r, w2)" by fastforce
  have e: "cfx_table L []" for L by (simp add: cfx_table_def)
  note f = s cfx_syncExisting_def r start_ids_def l s0 cfx_inv_def cfx_weight_def tried_def removal_ids_def unsent_def
  have t: "cfx_table (start_ids cfg cl w) (cfx_banned s)"
    by (cases r) (simp_all add: f e sync_table)
  show "cfx_weight s = 0" "\<not> cfx_done s" by (cases r; simp add: f)+
  show "cfx_inv (start_ids cfg cl w) seen s" using t by (cases r) (simp_all add: f)
qed

definition cfx_relevant :: "cfx_Config \<Rightarrow> (gotime \<times> cfx_input) list \<Rightarrow> string set" where
  "cfx_relevant cfg inputs =
    {te_IP ev | ev. \<exists>t. (t, CfEvent ev) \<in> set inputs \<and> meetsMinLevel (cfc_MinLevel cfg) (te_Level ev)}"

lemma cfx_ok_relevant: "list_all (cfx_ok cfg (cfx_relevant cfg inputs)) inputs"
  by (auto simp: list_all_iff cfx_ok_def cfx_relevant_def split: cfx_input.split) blast

definition cfx_event_count :: "(gotime \<times> cfx_input) list \<Rightarrow> nat" where
  "cfx_event_count inputs = length (filter (\<lambda>ti. case snd ti of CfEvent ev \<Rightarrow> True | _ \<Rightarrow> False) inputs)"

lemma cfx_sum_arrivals: "sum_list (map cfx_arrivals inputs) = cfx_event_count inputs"
  by (induction inputs) (auto simp: cfx_arrivals_def cfx_event_count_def split: cfx_input.split)

lemma cfx_Run_inv:
  assumes "NewCloudflareExecutor cfg iid w d = Inr s0" "cfx_Run cfg cl dw now inputs s0 = Inr s"
  shows "cfx_inv (start_ids cfg cl w) (cfx_relevant cfg inputs) s"
proof -
  obtain s1 where s1: "cfx_start cfg cl now s0 = Inr s1" "s = fold (cfx_step cfg cl dw) inputs s1"
    using assms(2) by (auto simp: cfx_Run_def split: sum.splits)
  show ?thesis
    unfolding s1(2) by (rule cloudflare.run_inv [OF start_inv(1) [OF assms(1) s1(1)] cfx_ok_relevant])
qed

fun cfx_events :: "gotime \<times> cfx_input \<Rightarrow> ThreatEvent list" where
  "cfx_events (t, CfEvent ev) = [ev]"
| "cfx_events _ = []"

text \<open>The addresses a run sends to the service; none when the executor cannot be built or start.\<close>

definition cfx_requested :: "cfx_Config \<Rightarrow> string \<Rightarrow> 'w CFClient \<Rightarrow> 'd window \<Rightarrow> gotime \<Rightarrow> 'w \<Rightarrow> 'd
    \<Rightarrow> (gotime \<times> cfx_input) list \<Rightarrow> string set" where
  "cfx_requested cfg iid cl dw now w d inputs =
    (case NewCloudflareExecutor cfg iid w d of
       Inl e \<Rightarrow> {}
     | Inr s0 \<Rightarrow> (case cfx_Run cfg cl dw now inputs s0 of Inl e \<Rightarrow> {} | Inr s \<Rightarrow> set (tried s)))"

interpretation cloudflare_bans: ban_requests cfx_events "cfc_MinLevel cfg" "cfx_requested cfg iid cl dw now w d"
  for cfg iid cl dw now w d
proof
  fix ip inputs
  assume "ip \<in> cfx_requested cfg iid cl dw now w d inputs"
  then obtain s0 s where "NewCloudflareExecutor cfg iid w d = Inr s0" "cfx_Run cfg cl dw now inputs s0 = Inr s" "ip \<in> set (tried s)"
    by (auto simp: cfx_requested_def split: sum.splits)
  moreover from cfx_Run_inv [OF this(1,2)] have "set (tried s) \<subseteq> cfx_relevant cfg inputs" by (auto simp: cfx_inv_def list_all_iff)
  ultimately have "ip \<in> cfx_relevant cfg inputs" by blast
  then obtain t ev where e: "(t, CfEvent ev) \<in> set inputs" "meetsMinLevel (cfc_MinLevel cfg) (te_Level ev)" "te_IP ev = ip"
    unfolding cfx_relevant_def by blast
  show "\<exists>i \<in> set inputs. \<exists>ev \<in> set (cfx_events i). meetsMinLevel (cfc_MinLevel cfg) (te_Level ev) \<and> te_IP ev = ip"
    by (rule bexI [OF _ e(1)]) (simp add: e(2,3))
qed

section \<open>Counting the calls\<close>

definition counted :: "('w \<Rightarrow> 'r \<times> 'w) \<Rightarrow> nat \<times> 'w \<Rightarrow> 'r \<times> nat \<times> 'w" where
  "counted fn nw = (let (r, w) = fn (snd nw) in (r, (fst nw + 1, w)))"

definition uncounted :: "('w \<Rightarrow> 'r \<times> 'w) \<Rightarrow> nat \<times> 'w \<Rightarrow> 'r \<times> nat \<times> 'w" where
  "uncounted fn nw = (let (r, w) = fn (snd nw) in (r, (fst nw, w)))"

text \<open>The same service with a counter beside its state; only polls are counted.\<close>

definition counting_client :: "'w CFClient \<Rightarrow> (nat \<times> 'w) CFClient" where
  "counting_client cl = \<lparr>FindOrCreateList = (\<lambda>n. uncounted (FindOrCreateList cl n)),
     ListItems = (\<lambda>l. uncounted (ListItems cl l)), AddItems = (\<lambda>l xs. uncounted (AddItems cl l xs)),
     RemoveItems = (\<lambda>l xs. uncounted (RemoveItems cl l xs)),
     PollBulkOperation = (\<lambda>op. counted (PollBulkOperation cl op)), cf_wait = (\<lambda>d. uncounted (cf_wait cl d))\<rparr>"

lemma retry_loop_counted:
  "\<exists>k. fst (snd (retry_loop (counting_client cl) (counted fn) n (c, w))) = c + k \<and> 1 \<le> k \<and> k \<le> n + 1
    \<and> fst (retry_loop (counting_client cl) (counted fn) n (c, w)) = fst (retry_loop cl fn n w)
    \<and> snd (snd (retry_loop (counting_client cl) (counted fn) n (c, w))) = snd (retry_loop cl fn n w)"
proof (induction n arbitrary: c w)
  case 0
  then show ?case
    by (subst (1 2 3 4 5) retry_loop.simps) (auto simp: counted_def Let_def split: prod.split sum.split)
next
  case (Suc n)
  obtain r w1 where r: "fn w = (r, w1)" by fastforce
  obtain go w2 where g: "cf_wait cl default429Backoff w1 = (go, w2)" by fastforce
  obtain k where k: "fst (snd (retry_loop (counting_client cl) (counted fn) n (c + 1, w2))) = c + 1 + k" "1 \<le> k" "k \<le> n + 1"
    "fst (retry_loop (counting_client cl) (counted fn) n (c + 1, w2)) = fst (retry_loop cl fn n w2)"
    "snd (snd (retry_loop (counting_client cl) (counted fn) n (c + 1, w2))) = snd (retry_loop cl fn n w2)"
    using Suc.IH [of "c + 1" w2] by auto
  note unfold = retry_loop.simps [of _ _ "Suc n"] counting_client_def counted_def uncounted_def r g
  show ?case
  proof (cases "(\<exists>err. r = Inl err \<and> str_contains err ''429'') \<and> go")
    case True
    then obtain err where "r = Inl err" "str_contains err ''429''" by blast
    then have "retry_loop (counting_client cl) (counted fn) (Suc n) (c, w) = retry_loop (counting_client cl) (counted fn) n (c + 1, w2)"
      "retry_loop cl fn (Suc n) w = retry_loop cl fn n w2"
      using True by (simp_all add: retry_loop.simps [of _ _ "Suc n"] counted_def r g)
        (simp add: counting_client_def uncounted_def g)
    then show ?thesis using k by (intro exI [of _ "k + 1"]) simp
  next
    case False
    then show ?thesis
      by (intro exI [of _ 1]) (cases r; cases go; simp add: unfold)
  qed
qed

lemma poll_loop_counted:
  "cfx_world s = (c, w) \<Longrightarrow>
    fst (cfx_world (snd (poll_loop (counting_client cl) opID ds s))) \<le> c + length ds"
proof (induction ds arbitrary: s c w)
  case (Cons d ds)
  obtain go w1 where g: "cf_wait cl d w = (go, w1)" by fastforce
  obtain r w2 where r: "PollBulkOperation cl opID w1 = (r, w2)" by fastforce
  have "cfx_world (s\<lparr>cfx_world := (c + 1, w2)\<rparr>) = (c + 1, w2)" by simp
  from Cons.IH [OF this] show ?case
    using Cons.prems
    by (cases go; cases r) (auto simp: counting_client_def counted_def uncounted_def g r)
qed simp

section \<open>Properties\<close>


text \<open>every event the loop takes is executed, skipped, in a batch that failed or was given up, or
  still in the buffer, exactly once; after the end of the source the buffer is empty.\<close>

theorem cloudflare_accounts:
  assumes "NewCloudflareExecutor cfg iid w d = Inr s0" "cfx_Run cfg cl dw now inputs s0 = Inr s"
    and "cfx_Run cfg cl dw now (butlast inputs) s0 = Inr t" "\<not> cfx_done t"
  shows "cfx_executed s + cfx_skipped s + unsent s + length (cfx_buffer s) = cfx_event_count inputs
    \<and> (inputs \<noteq> [] \<and> snd (last inputs) \<in> {CfClosed, CfCancelled} \<longrightarrow> cfx_buffer s = [])"
proof -
  obtain s1 where s1: "cfx_start cfg cl now s0 = Inr s1" "s = fold (cfx_step cfg cl dw) inputs s1"
    "t = fold (cfx_step cfg cl dw) (butlast inputs) s1"
    using assms(2,3) by (auto simp: cfx_Run_def split: sum.splits)
  have "cfx_weight s = cfx_event_count inputs"
    using cloudflare.run_weight_active [OF start_inv(1) [OF assms(1) s1(1)] cfx_ok_relevant [of cfg inputs], of cl dw]
      start_inv(2) [OF assms(1) s1(1)] assms(4) s1 by (simp add: cfx_sum_arrivals)
  moreover have "cfx_buffer s = []" if e: "inputs \<noteq> []" "snd (last inputs) \<in> {CfClosed, CfCancelled}"
  proof -
    obtain js i where "inputs = js @ [i]" using e(1) by (metis rev_exhaust)
    then show ?thesis using e(2) assms(4) s1(2,3) by (cases i) (auto simp: cfx_step_def)
  qed
  ultimately show ?thesis by (simp add: cfx_weight_def)
qed

text \<open>an address that was once put in a batch, even one that failed, keeps a table entry without
  an item identifier through every continuation of the run: each later event of the address is
  skipped, and no sweep removes the entry.\<close>

theorem cloudflare_tried_stuck:
  assumes "NewCloudflareExecutor cfg iid w d = Inr s0" "cfx_Run cfg cl dw now inputs s0 = Inr s"
    and "ip \<in> set (tried s)" "\<not> cfx_done s" "te_IP ev = ip"
  shows "cfx_step cfg cl dw (t, CfEvent ev) s = s\<lparr>cfx_skipped := cfx_skipped s + 1\<rparr>
    \<and> unlisted (cfx_banned (cfx_sweep cfg cl t s)) ip"
proof -
  have inv: "cfx_inv (start_ids cfg cl w) (cfx_relevant cfg inputs) s" by (rule cfx_Run_inv [OF assms(1,2)])
  then have u: "unlisted (cfx_banned s) ip" using assms(3) by (simp add: cfx_inv_def list_all_iff)
  then have "map_of (cfx_banned s) ip \<noteq> None" by (auto simp: unlisted_def split: option.splits)
  moreover have "ip \<in> set (tried (cfx_sweep cfg cl t s))"
  proof -
    obtain b s1 where w: "waitForPendingOp cl s = (b, s1)" by fastforce
    show ?thesis
      using assms(3) wait_frame(3) [of cl s] w
      by (auto simp: cfx_sweep_def Let_def tried_def split: sum.split prod.split bool.split)
  qed
  moreover have "cfx_inv (start_ids cfg cl w) (cfx_relevant cfg inputs) (cfx_sweep cfg cl t s)"
    using sweep_keeps [OF inv] by blast
  ultimately show ?thesis
    using assms(4,5) by (auto simp: cfx_step_def cfx_isDuplicate_def cfx_inv_def list_all_iff)
qed

text \<open>C28: a request is made at least once and at most four times, whatever the service answers, and a
  wait for the pending operation polls at most six times.\<close>

theorem cloudflare_calls_bounded:
  "let n = fst (snd (doWithRetry (counting_client cl) (counted fn) (0, w)))
   in 1 \<le> n \<and> n \<le> 4 \<and> fst (doWithRetry (counting_client cl) (counted fn) (0, w)) = fst (doWithRetry cl fn w)
     \<and> fst (cfx_world (snd (waitForPendingOp (counting_client cl) (s\<lparr>cfx_world := (0, w)\<rparr>)))) \<le> 6"
proof -
  have "length pollDelays = 6" by (simp add: pollDelays_def)
  moreover have "fst (cfx_world (snd (poll_loop (counting_client cl) opID pollDelays (s\<lparr>cfx_world := (0, w)\<rparr>)))) \<le> 0 + length pollDelays"
    for opID by (rule poll_loop_counted) simp
  ultimately show ?thesis
    using retry_loop_counted [of cl fn 3 0 w]
    by (auto simp: doWithRetry_def max429Retries_def waitForPendingOp_def)
qed

section \<open>Witnesses\<close>

text \<open>A service that lists one item and refuses every batch.\<close>

definition refusing_client :: "nat CFClient" where
  "refusing_client = \<lparr>FindOrCreateList = (\<lambda>_ w. (Inr ''list'', w)),
     ListItems = (\<lambda>_ w. (Inr [\<lparr>cfi_ID = ''i1'', cfi_IP = ''192.0.2.1'', cfi_Comment = ''by hand''\<rparr>], w)),
     AddItems = (\<lambda>_ _ w. (Inl ''HTTP 500'', w + 1)), RemoveItems = (\<lambda>_ _ w. (Inr [], w + 1)),
     PollBulkOperation = (\<lambda>_ w. (Inr ''completed'', w)), cf_wait = (\<lambda>_ w. (True, w))\<rparr>"

definition no_window :: "unit window" where
  "no_window = \<lparr>win_Contains = (\<lambda>_ _ _. False), win_MarkBatch = (\<lambda>_ _ d. d)\<rparr>"

definition demo_cfx :: cfx_Config where
  "demo_cfx = \<lparr>cfc_ListName = ''blocklist'', cfc_MinLevel = ''THREAT'', cfc_TTL = 60 * second, cfc_BatchSize = 1,
     cfc_CommentExtra = [], cfc_InstanceID = ''a''\<rparr>"

definition demo_ban :: ThreatEvent where
  "demo_ban = blank_event\<lparr>te_Level := ''THREAT'', te_IP := ''192.0.2.7''\<rparr>"

definition demo_cf0 :: "(nat, unit) cfx_state" where
  "demo_cf0 = \<lparr>cfx_instanceID = ''a'', cfx_listID = [], cfx_banned = [], cfx_dedup = (), cfx_buffer = [],
       cfx_executed = 0, cfx_skipped = 0, cfx_errors = 0, cfx_swept = 0, cfx_pendingOpID = [], cfx_pendingOpAt = 0,
       cfx_world = 0, cfx_calls = [], cfx_done = False\<rparr>"

definition demo_cf1 :: "(nat, unit) cfx_state" where
  "demo_cf1 = demo_cf0\<lparr>cfx_listID := ''list'',
     cfx_banned := [(''192.0.2.1'', \<lparr>cfItemID = ''i1'', cf_addedAt = 5, addedByExecutor = False\<rparr>),
       (''192.0.2.7'', \<lparr>cfItemID = [], cf_addedAt = 10, addedByExecutor = True\<rparr>)],
     cfx_errors := 1, cfx_world := 1, cfx_calls := [FailedBatch [''192.0.2.7'']]\<rparr>"

lemma demo_cf_new: "NewCloudflareExecutor demo_cfx ''a'' 0 () = Inr demo_cf0"
  by (simp add: NewCloudflareExecutor_def demo_cfx_def demo_cf0_def second_def)

lemma demo_cf_run: "cfx_Run demo_cfx refusing_client no_window 5 [(10, CfEvent demo_ban)] demo_cf0 = Inr demo_cf1"
  by code_simp


theorem cloudflare_accounts_witness:
  "cfx_executed demo_cf1 + cfx_skipped demo_cf1 + unsent demo_cf1 + length (cfx_buffer demo_cf1) = 1"
proof -
  obtain t where "cfx_Run demo_cfx refusing_client no_window 5 (butlast [(10, CfEvent demo_ban)]) demo_cf0 = Inr t" "\<not> cfx_done t"
    by (simp add: cfx_Run_def cfx_start_def cfx_syncExisting_def refusing_client_def demo_cf0_def)
  from cloudflare_accounts [OF demo_cf_new demo_cf_run this] show ?thesis
    by (simp add: cfx_event_count_def)
qed

theorem cloudflare_tried_stuck_witness:
  "cfx_step demo_cfx refusing_client no_window (90 * second, CfEvent demo_ban) demo_cf1
    = demo_cf1\<lparr>cfx_skipped := cfx_skipped demo_cf1 + 1\<rparr>"
proof -
  have "''192.0.2.7'' \<in> set (tried demo_cf1)" "\<not> cfx_done demo_cf1" "te_IP demo_ban = ''192.0.2.7''"
    by (simp_all add: tried_def demo_cf1_def demo_cf0_def demo_ban_def)
  from cloudflare_tried_stuck [OF demo_cf_new demo_cf_run this] show ?thesis by blast
qed

end
