(* ===== verification/Openwrt.thy ===== *)
theory Openwrt
  imports Executor Json
begin

text \<open>
  The OpenWrt executor, \<open>pkg/executorplugins/openwrt\<close>: its configuration, the ubus client
  with its session, the batched flush (one transaction for the additions and the
  expired bans, one commit, one reload), the start-up synchronisation and the run loop.

  The executor works on the client interface, a record of functions on an abstract
  state; \<open>ow_HTTPClient\<close> is the implementation over HTTP, with the router's answers as an
  argument.  \<open>ow_calls\<close> and \<open>oh_log\<close> record the calls, and the requests and the sessions granted; the code does not
  read them.  One input of the loop, with all its requests, is processed at one reading
  of the clock.  The order in which a Go map is traversed is the order of the
  association list; no statement depends on it.
\<close>

section \<open>Configuration\<close>

record ow_Config =
  owc_Host :: string
  owc_Port :: int
  owc_Scheme :: string
  owc_Username :: string
  owc_Password :: string
  owc_IPSetName :: string
  owc_TTL :: duration
  owc_SessionTimeout :: duration
  owc_BatchSize :: int
  owc_FlushInterval :: duration
  owc_MinLevel :: string
  owc_DedupWindow :: duration

definition ow_defaultConfig :: ow_Config where
  "ow_defaultConfig = \<lparr>owc_Host = [], owc_Port = 80, owc_Scheme = ''http'', owc_Username = [], owc_Password = [],
     owc_IPSetName = [], owc_TTL = 0, owc_SessionTimeout = 300 * second, owc_BatchSize = 10,
     owc_FlushInterval = 30 * second, owc_MinLevel = ''THREAT'', owc_DedupWindow = 0\<rparr>"

definition ow_durations :: "(string \<times> (yaml \<Rightarrow> ow_Config \<Rightarrow> ow_Config option)) list" where
  "ow_durations =
    [(''ttl'', any_duration owc_TTL_update), (''session_timeout'', any_duration owc_SessionTimeout_update),
     (''flush_interval'', any_duration owc_FlushInterval_update), (''dedup_window'', any_duration owc_DedupWindow_update)]"

definition ow_fields :: "ow_Config fields" where
  "ow_fields =
    [(''host'', j_string owc_Host_update), (''port'', j_int owc_Port_update), (''scheme'', j_string owc_Scheme_update),
     (''username'', j_string owc_Username_update), (''password'', j_string owc_Password_update),
     (''ipset_name'', j_string owc_IPSetName_update), (''batch_size'', j_int owc_BatchSize_update),
     (''min_level'', j_string owc_MinLevel_update)]"

definition ow_checks :: "ow_Config \<Rightarrow> exec_error + unit" where
  "ow_checks cfg = first_error
    [guard (owc_Host cfg = []) (Rejected ''host''),
     guard (owc_Username cfg = []) (Rejected ''username''),
     guard (owc_Password cfg = []) (Rejected ''password''),
     guard (owc_IPSetName cfg = []) (Rejected ''ipset_name''),
     guard (owc_TTL cfg \<le> 0) (Rejected ''ttl''),
     guard (owc_SessionTimeout cfg \<le> 0) (Rejected ''session_timeout''),
     guard (owc_Scheme cfg \<noteq> ''http'' \<and> owc_Scheme cfg \<noteq> ''https'') (Rejected ''scheme''),
     guard (map_of levelOrder (owc_MinLevel cfg) = None) (Rejected ''min_level'')]"

definition ow_parseConfig :: "raw_config \<Rightarrow> exec_error + ow_Config" where
  "ow_parseConfig raw = decode_config ow_durations ow_fields ow_checks raw ow_defaultConfig"

section \<open>The ubus client\<close>

record rpc_request =
  rq_ID :: int
  rq_session :: string
  rq_object :: string
  rq_method :: string
  rq_args :: json

record rpc_response =
  rr_JSONRPC :: string
  rr_ID :: int
  rr_Result :: "json option"

definition rpc_fields :: "rpc_response fields" where
  "rpc_fields = [(''jsonrpc'', j_string rr_JSONRPC_update), (''id'', j_int rr_ID_update), (''result'', j_raw rr_Result_update)]"

type_synonym 'w ubus = "bool \<Rightarrow> rpc_request \<Rightarrow> 'w \<Rightarrow> http_answer \<times> 'w"

datatype ow_wire = Sent gotime rpc_request | Session gotime string

record 'w ow_http =
  oh_sessionID :: string
  oh_sessionAt :: gotime
  oh_reqCounter :: int
  oh_world :: 'w
  oh_log :: "ow_wire list"

definition nullSession :: string where
  "nullSession = replicate 32 (CHR ''0'')"

text \<open>The payload of an answer: the second element of the result array when the first, the
  return code, is zero.\<close>

definition ubus_result :: "http_answer \<Rightarrow> string + json" where
  "ubus_result a =
    (case a of
       NoAnswer e \<Rightarrow> Inl e
     | Answer status body \<Rightarrow>
         if status \<noteq> 200 then Inl ''http status''
         else
           (case body of
              None \<Rightarrow> Inl ''decode response''
            | Some j \<Rightarrow>
                (case unmarshal_struct rpc_fields j \<lparr>rr_JSONRPC = [], rr_ID = 0, rr_Result = None\<rparr> of
                   None \<Rightarrow> Inl ''decode response''
                 | Some rr \<Rightarrow>
                     (case rr_Result rr of
                        Some (JArr (code # rest)) \<Rightarrow>
                          (case code of
                             JInt n \<Rightarrow>
                               if \<not> in_int64 n then Inl ''decode return code''
                               else if n \<noteq> 0 then Inl ''ubus call failed''
                               else Inr (if rest = [] then JObj [] else hd rest)
                           | JNull \<Rightarrow> Inr (if rest = [] then JObj [] else hd rest)
                           | _ \<Rightarrow> Inl ''decode return code'')
                      | Some (JArr []) \<Rightarrow> Inl ''empty result''
                      | Some JNull \<Rightarrow> Inl ''empty result''
                      | _ \<Rightarrow> Inl ''decode result array''))))"

definition ubus_call :: "'w ubus \<Rightarrow> bool \<Rightarrow> gotime \<Rightarrow> string \<Rightarrow> string \<Rightarrow> string \<Rightarrow> json \<Rightarrow> 'w ow_http \<Rightarrow> (string + json) \<times> 'w ow_http" where
  "ubus_call ub ctx now session object meth args h =
    (let n = oh_reqCounter h + 1;
         req = \<lparr>rq_ID = n, rq_session = session, rq_object = object, rq_method = meth, rq_args = args\<rparr>;
         (a, w) = ub ctx req (oh_world h)
     in (ubus_result a, h\<lparr>oh_reqCounter := n, oh_world := w, oh_log := oh_log h @ [Sent now req]\<rparr>))"

definition session_fields :: "string fields" where
  "session_fields = [(''ubus_rpc_session'', j_string (\<lambda>f. f))]"

definition loginLocked :: "ow_Config \<Rightarrow> 'w ubus \<Rightarrow> bool \<Rightarrow> gotime \<Rightarrow> 'w ow_http \<Rightarrow> string option \<times> 'w ow_http" where
  "loginLocked cfg ub ctx now h =
    (case ubus_call ub ctx now nullSession ''session'' ''login''
            (JObj [(''username'', JStr (owc_Username cfg)), (''password'', JStr (owc_Password cfg))]) h of
       (Inl e, h) \<Rightarrow> (Some e, h)
     | (Inr data, h) \<Rightarrow>
         (case unmarshal_struct session_fields data [] of
            None \<Rightarrow> (Some ''decode session'', h)
          | Some sid \<Rightarrow> (None, h\<lparr>oh_sessionID := sid, oh_sessionAt := now, oh_log := oh_log h @ [Session now sid]\<rparr>)))"

definition ensureSessionLocked :: "ow_Config \<Rightarrow> 'w ubus \<Rightarrow> bool \<Rightarrow> gotime \<Rightarrow> 'w ow_http \<Rightarrow> string option \<times> 'w ow_http" where
  "ensureSessionLocked cfg ub ctx now h =
    (if oh_sessionID h = [] \<or> time_sub now (oh_sessionAt h) \<ge> owc_SessionTimeout cfg then loginLocked cfg ub ctx now h
     else (None, h))"

definition ow_doRequest :: "ow_Config \<Rightarrow> 'w ubus \<Rightarrow> bool \<Rightarrow> gotime \<Rightarrow> string \<Rightarrow> string \<Rightarrow> json \<Rightarrow> 'w ow_http \<Rightarrow> (string + json) \<times> 'w ow_http" where
  "ow_doRequest cfg ub ctx now object meth args h =
    (case ensureSessionLocked cfg ub ctx now h of
       (Some e, h) \<Rightarrow> (Inl e, h)
     | (None, h) \<Rightarrow> ubus_call ub ctx now (oh_sessionID h) object meth args h)"

definition entry_args :: "ow_Config \<Rightarrow> json" where
  "entry_args cfg = JObj [(''config'', JStr ''firewall''), (''section'', JStr (owc_IPSetName cfg)), (''option'', JStr ''entry'')]"

definition values_args :: "ow_Config \<Rightarrow> string list \<Rightarrow> json" where
  "values_args cfg ips =
    JObj [(''config'', JStr ''firewall''), (''section'', JStr (owc_IPSetName cfg)), (''option'', JStr ''entry''),
          (''values'', JArr (map JStr ips))]"

definition failed :: "(string + 'a) \<times> 'h \<Rightarrow> string option \<times> 'h" where
  "failed r = (case fst r of Inl e \<Rightarrow> Some e | Inr x \<Rightarrow> None, snd r)"

definition ow_AddEntries :: "ow_Config \<Rightarrow> 'w ubus \<Rightarrow> bool \<Rightarrow> gotime \<Rightarrow> string list \<Rightarrow> 'w ow_http \<Rightarrow> string option \<times> 'w ow_http" where
  "ow_AddEntries cfg ub ctx now ips h =
    (if ips = [] then (None, h) else failed (ow_doRequest cfg ub ctx now ''uci'' ''add_list'' (values_args cfg ips) h))"

definition ow_DeleteEntries :: "ow_Config \<Rightarrow> 'w ubus \<Rightarrow> bool \<Rightarrow> gotime \<Rightarrow> string list \<Rightarrow> 'w ow_http \<Rightarrow> string option \<times> 'w ow_http" where
  "ow_DeleteEntries cfg ub ctx now ips h =
    (if ips = [] then (None, h) else failed (ow_doRequest cfg ub ctx now ''uci'' ''del_list'' (values_args cfg ips) h))"

definition ow_Commit :: "ow_Config \<Rightarrow> 'w ubus \<Rightarrow> bool \<Rightarrow> gotime \<Rightarrow> 'w ow_http \<Rightarrow> string option \<times> 'w ow_http" where
  "ow_Commit cfg ub ctx now h = failed (ow_doRequest cfg ub ctx now ''uci'' ''commit'' (JObj [(''config'', JStr ''firewall'')]) h)"

definition ow_Reload :: "ow_Config \<Rightarrow> 'w ubus \<Rightarrow> bool \<Rightarrow> gotime \<Rightarrow> 'w ow_http \<Rightarrow> string option \<times> 'w ow_http" where
  "ow_Reload cfg ub ctx now h =
    failed (ow_doRequest cfg ub ctx now ''rc'' ''init'' (JObj [(''name'', JStr ''firewall''), (''action'', JStr ''reload'')]) h)"

definition value_fields :: "string list fields" where
  "value_fields = [(''value'', j_strings (\<lambda>f. f))]"

definition ow_ListEntries :: "ow_Config \<Rightarrow> 'w ubus \<Rightarrow> bool \<Rightarrow> gotime \<Rightarrow> 'w ow_http \<Rightarrow> (string + string list) \<times> 'w ow_http" where
  "ow_ListEntries cfg ub ctx now h =
    (case ow_doRequest cfg ub ctx now ''uci'' ''get'' (entry_args cfg) h of
       (Inl e, h) \<Rightarrow> (Inl e, h)
     | (Inr data, h) \<Rightarrow>
         (case unmarshal_struct value_fields data [] of None \<Rightarrow> Inl ''decode'' | Some v \<Rightarrow> Inr v, h))"

text \<open>The single-entry operations of the client commit at once; the executor does not use them.\<close>

definition ow_AddEntry :: "ow_Config \<Rightarrow> 'w ubus \<Rightarrow> bool \<Rightarrow> gotime \<Rightarrow> string \<Rightarrow> 'w ow_http \<Rightarrow> string option \<times> 'w ow_http" where
  "ow_AddEntry cfg ub ctx now ip h =
    (case ow_doRequest cfg ub ctx now ''uci'' ''add_list'' (values_args cfg [ip]) h of
       (Inl e, h) \<Rightarrow> (Some e, h)
     | (Inr data, h) \<Rightarrow> ow_Commit cfg ub ctx now h)"

definition ow_DeleteEntry :: "ow_Config \<Rightarrow> 'w ubus \<Rightarrow> bool \<Rightarrow> gotime \<Rightarrow> string \<Rightarrow> 'w ow_http \<Rightarrow> string option \<times> 'w ow_http" where
  "ow_DeleteEntry cfg ub ctx now ip h =
    (case ow_doRequest cfg ub ctx now ''uci'' ''del_list'' (values_args cfg [ip]) h of
       (Inl e, h) \<Rightarrow> (Some e, h)
     | (Inr data, h) \<Rightarrow> ow_Commit cfg ub ctx now h)"

section \<open>The executor\<close>

record 'w ow_client =
  cl_AddEntries :: "bool \<Rightarrow> gotime \<Rightarrow> string list \<Rightarrow> 'w \<Rightarrow> string option \<times> 'w"
  cl_DeleteEntries :: "bool \<Rightarrow> gotime \<Rightarrow> string list \<Rightarrow> 'w \<Rightarrow> string option \<times> 'w"
  cl_Commit :: "bool \<Rightarrow> gotime \<Rightarrow> 'w \<Rightarrow> string option \<times> 'w"
  cl_Reload :: "bool \<Rightarrow> gotime \<Rightarrow> 'w \<Rightarrow> string option \<times> 'w"
  cl_ListEntries :: "bool \<Rightarrow> gotime \<Rightarrow> 'w \<Rightarrow> (string + string list) \<times> 'w"

definition ow_HTTPClient :: "ow_Config \<Rightarrow> 'w ubus \<Rightarrow> 'w ow_http ow_client" where
  "ow_HTTPClient cfg ub = \<lparr>cl_AddEntries = ow_AddEntries cfg ub, cl_DeleteEntries = ow_DeleteEntries cfg ub,
     cl_Commit = ow_Commit cfg ub, cl_Reload = ow_Reload cfg ub, cl_ListEntries = ow_ListEntries cfg ub\<rparr>"

record ow_banRecord =
  ob_ip :: string
  ob_addedAt :: gotime
  ob_expireAt :: gotime

text \<open>A call of the executor with its outcome.\<close>

datatype ow_call = OwAdd "string list" bool | OwDel "string list" bool | OwCommit bool | OwReload bool

record ('w, 'd) ow_state =
  ow_banned :: "(string, ow_banRecord) gomap"
  ow_dedup :: 'd
  ow_pending :: "string list"
  ow_executed :: nat
  ow_skipped :: nat
  ow_errors :: nat
  ow_swept :: nat
  ow_world :: 'w
  ow_calls :: "ow_call list"
  ow_done :: bool

definition new_ban :: "ow_Config \<Rightarrow> gotime \<Rightarrow> string \<Rightarrow> (string, ow_banRecord) gomap \<Rightarrow> (string, ow_banRecord) gomap" where
  "new_ban cfg now ip m = AList.update ip \<lparr>ob_ip = ip, ob_addedAt = now, ob_expireAt = now + owc_TTL cfg\<rparr> m"

definition ow_syncExisting :: "ow_Config \<Rightarrow> 'w ow_client \<Rightarrow> bool \<Rightarrow> gotime \<Rightarrow> ('w, 'd) ow_state \<Rightarrow> ('w, 'd) ow_state" where
  "ow_syncExisting cfg cl ctx now s =
    (case cl_ListEntries cl ctx now (ow_world s) of
       (Inl e, w) \<Rightarrow> s\<lparr>ow_world := w\<rparr>
     | (Inr entries, w) \<Rightarrow> s\<lparr>ow_world := w, ow_banned := fold (new_ban cfg now) entries (ow_banned s)\<rparr>)"

text \<open>One call of the client: the outcome is recorded, a failure is counted.\<close>

definition issue :: "(bool \<Rightarrow> ow_call) \<Rightarrow> ('w \<Rightarrow> string option \<times> 'w) \<Rightarrow> ('w, 'd) ow_state \<Rightarrow> bool \<times> ('w, 'd) ow_state" where
  "issue c f s =
    (case f (ow_world s) of
       (None, w) \<Rightarrow> (True, s\<lparr>ow_world := w, ow_calls := ow_calls s @ [c True]\<rparr>)
     | (Some e, w) \<Rightarrow> (False, s\<lparr>ow_world := w, ow_calls := ow_calls s @ [c False], ow_errors := ow_errors s + 1\<rparr>))"

definition ow_expired :: "gotime \<Rightarrow> (string, ow_banRecord) gomap \<Rightarrow> string list" where
  "ow_expired now m = map fst (filter (\<lambda>(ip, rec). \<not> ob_expireAt rec > now) m)"

text \<open>Phase two of a flush: the two list operations, then one commit and one reload.\<close>

definition ow_transact :: "'w ow_client \<Rightarrow> bool \<Rightarrow> gotime \<Rightarrow> string list \<Rightarrow> string list \<Rightarrow> ('w, 'd) ow_state \<Rightarrow> (bool \<times> bool) \<times> ('w, 'd) ow_state" where
  "ow_transact cl ctx now uniquePending expired s =
    (let (addedOK, s) = (if uniquePending \<noteq> [] then issue (OwAdd uniquePending) (cl_AddEntries cl ctx now uniquePending) s else (False, s));
         (deletedOK, s) = (if expired \<noteq> [] then issue (OwDel expired) (cl_DeleteEntries cl ctx now expired) s else (False, s))
     in ((addedOK, deletedOK),
         if addedOK \<or> deletedOK
         then snd (issue OwReload (cl_Reload cl ctx now) (snd (issue OwCommit (cl_Commit cl ctx now) s)))
         else s))"

text \<open>Phase three: the local state follows the operations that succeeded.\<close>

definition ow_record :: "ow_Config \<Rightarrow> 'd window \<Rightarrow> gotime \<Rightarrow> string list \<Rightarrow> string list \<Rightarrow> bool \<Rightarrow> bool \<Rightarrow> ('w, 'd) ow_state \<Rightarrow> ('w, 'd) ow_state" where
  "ow_record cfg dw now uniquePending expired addedOK deletedOK s =
    (let s = (if addedOK
              then s\<lparr>ow_banned := fold (new_ban cfg now) uniquePending (ow_banned s),
                     ow_dedup := win_MarkBatch dw now uniquePending (ow_dedup s),
                     ow_executed := ow_executed s + length uniquePending\<rparr>
              else s)
     in if deletedOK
        then s\<lparr>ow_banned := fold AList.delete expired (ow_banned s), ow_swept := ow_swept s + length expired\<rparr>
        else s)"

definition ow_flush :: "ow_Config \<Rightarrow> 'w ow_client \<Rightarrow> 'd window \<Rightarrow> bool \<Rightarrow> gotime \<Rightarrow> string list \<Rightarrow> ('w, 'd) ow_state \<Rightarrow> ('w, 'd) ow_state" where
  "ow_flush cfg cl dw ctx now pending s =
    (let exists = (\<lambda>ip. map_of (ow_banned s) ip \<noteq> None);
         uniquePending = filter (\<lambda>ip. \<not> exists ip) pending;
         expired = ow_expired now (ow_banned s);
         s = s\<lparr>ow_skipped := ow_skipped s + length (filter exists pending)\<rparr>
     in if uniquePending = [] \<and> expired = [] then s
        else
          let ((addedOK, deletedOK), s) = ow_transact cl ctx now uniquePending expired s
          in ow_record cfg dw now uniquePending expired addedOK deletedOK s)"

definition ow_isDuplicate :: "'d window \<Rightarrow> gotime \<Rightarrow> string \<Rightarrow> ('w, 'd) ow_state \<Rightarrow> bool" where
  "ow_isDuplicate dw now ip s = (if win_Contains dw now ip (ow_dedup s) then True else map_of (ow_banned s) ip \<noteq> None)"

datatype ow_input = OwEvent ThreatEvent | OwFlushTick | OwSweepTick | OwClosed | OwCancelled

definition ow_step :: "ow_Config \<Rightarrow> 'w ow_client \<Rightarrow> 'd window \<Rightarrow> gotime \<times> ow_input \<Rightarrow> ('w, 'd) ow_state \<Rightarrow> ('w, 'd) ow_state" where
  "ow_step cfg cl dw ti s =
    (if ow_done s then s
     else let (now, i) = ti in
       case i of
         OwCancelled \<Rightarrow> (ow_flush cfg cl dw True now (ow_pending s) s)\<lparr>ow_pending := [], ow_done := True\<rparr>
       | OwClosed \<Rightarrow> (ow_flush cfg cl dw False now (ow_pending s) s)\<lparr>ow_pending := [], ow_done := True\<rparr>
       | OwEvent ev \<Rightarrow>
           if \<not> meetsMinLevel (owc_MinLevel cfg) (te_Level ev) then s\<lparr>ow_skipped := ow_skipped s + 1\<rparr>
           else if ow_isDuplicate dw now (te_IP ev) s then s\<lparr>ow_skipped := ow_skipped s + 1\<rparr>
           else
             let s = s\<lparr>ow_pending := ow_pending s @ [te_IP ev]\<rparr>
             in if int (length (ow_pending s)) \<ge> owc_BatchSize cfg
                then (ow_flush cfg cl dw False now (ow_pending s) s)\<lparr>ow_pending := []\<rparr> else s
       | OwFlushTick \<Rightarrow>
           if ow_pending s \<noteq> [] then (ow_flush cfg cl dw False now (ow_pending s) s)\<lparr>ow_pending := []\<rparr> else s
       | OwSweepTick \<Rightarrow> ow_flush cfg cl dw False now [] s)"

definition ow_init :: "'w \<Rightarrow> 'd \<Rightarrow> ('w, 'd) ow_state" where
  "ow_init w d = \<lparr>ow_banned = [], ow_dedup = d, ow_pending = [], ow_executed = 0, ow_skipped = 0,
     ow_errors = 0, ow_swept = 0, ow_world = w, ow_calls = [], ow_done = False\<rparr>"

definition ow_Run :: "ow_Config \<Rightarrow> 'w ow_client \<Rightarrow> 'd window \<Rightarrow> gotime \<Rightarrow> (gotime \<times> ow_input) list \<Rightarrow> ('w, 'd) ow_state \<Rightarrow> ('w, 'd) ow_state" where
  "ow_Run cfg cl dw now inputs s = fold (ow_step cfg cl dw) inputs (ow_syncExisting cfg cl False now s)"

section \<open>Invariant and effects\<close>

fun added_by :: "ow_call \<Rightarrow> nat" where
  "added_by (OwAdd ips True) = length ips" | "added_by _ = 0"

fun failed_by :: "ow_call \<Rightarrow> nat" where
  "failed_by (OwAdd ips False) = length ips" | "failed_by _ = 0"

fun deleted_by :: "ow_call \<Rightarrow> nat" where
  "deleted_by (OwDel ips True) = length ips" | "deleted_by _ = 0"

fun call_failed :: "ow_call \<Rightarrow> nat" where
  "call_failed (OwAdd ips b) = (if b then 0 else 1)"
| "call_failed (OwDel ips b) = (if b then 0 else 1)"
| "call_failed (OwCommit b) = (if b then 0 else 1)"
| "call_failed (OwReload b) = (if b then 0 else 1)"

definition tally :: "(ow_call \<Rightarrow> nat) \<Rightarrow> ow_call list \<Rightarrow> nat" where
  "tally f cs = sum_list (map f cs)"

lemma tally_simps [simp]: "tally f [] = 0" "tally f (cs @ ds) = tally f cs + tally f ds" "tally f (c # cs) = f c + tally f cs"
  by (simp_all add: tally_def)

text \<open>A request is justified when it adds addresses of relevant events (\<open>seen\<close>) or removes such
  addresses or ones listed at the start (\<open>own\<close>).\<close>

fun ow_call_ok :: "string set \<Rightarrow> string set \<Rightarrow> ow_call \<Rightarrow> bool" where
  "ow_call_ok own seen (OwAdd ips b) \<longleftrightarrow> ips \<noteq> [] \<and> set ips \<subseteq> seen"
| "ow_call_ok own seen (OwDel ips b) \<longleftrightarrow> ips \<noteq> [] \<and> set ips \<subseteq> own \<union> seen"
| "ow_call_ok own seen _ \<longleftrightarrow> True"

definition ow_core :: "string set \<Rightarrow> string set \<Rightarrow> ('w, 'd) ow_state \<Rightarrow> bool" where
  "ow_core own seen s \<longleftrightarrow> gm_ok (ow_banned s) \<and> gm_dom (ow_banned s) \<subseteq> own \<union> seen
     \<and> list_all (ow_call_ok own seen) (ow_calls s)
     \<and> ow_executed s = tally added_by (ow_calls s) \<and> ow_swept s = tally deleted_by (ow_calls s)
     \<and> ow_errors s = tally call_failed (ow_calls s)"

definition ow_work :: "('w, 'd) ow_state \<Rightarrow> nat" where
  "ow_work s = ow_executed s + ow_skipped s + tally failed_by (ow_calls s)"

text \<open>What one call does: the outcome is logged, nothing else that matters changes.\<close>

lemma issue_outcome:
  obtains b w where "issue c f s = (b, s\<lparr>ow_world := w, ow_calls := ow_calls s @ [c b], ow_errors := ow_errors s + (if b then 0 else 1)\<rparr>)"
proof -
  obtain r w where "f (ow_world s) = (r, w)" by fastforce
  then show thesis using that [of "r = None" w] by (cases r) (simp_all add: issue_def)
qed

lemma new_ban_get:
  "map_of (new_ban cfg now ip m) ip' = (if ip' = ip then Some \<lparr>ob_ip = ip, ob_addedAt = now, ob_expireAt = now + owc_TTL cfg\<rparr> else map_of m ip')"
  by (simp add: new_ban_def gm_get_update)

lemma new_bans:
  "gm_ok m \<Longrightarrow> gm_ok (fold (new_ban cfg now) ips m)"
  "gm_dom (fold (new_ban cfg now) ips m) = gm_dom m \<union> set ips"
  by (induction ips arbitrary: m) (auto simp: new_ban_def amap)

lemma new_bans_get:
  "map_of (fold (new_ban cfg now) ips m) ip
    = (if ip \<in> set ips then Some \<lparr>ob_ip = ip, ob_addedAt = now, ob_expireAt = now + owc_TTL cfg\<rparr> else map_of m ip)"
  by (induction ips arbitrary: m) (auto simp: new_ban_get)

lemma delete_all:
  "gm_ok m \<Longrightarrow> gm_ok (fold AList.delete ips m)"
  "gm_dom (fold AList.delete ips m) = gm_dom m - set ips"
  by (induction ips arbitrary: m) (auto simp: amap)

lemma delete_all_get: "map_of (fold AList.delete ips m) ip = (if ip \<in> set ips then None else map_of m ip)"
  by (induction ips arbitrary: m) (auto simp: gm_get_delete)

lemma expired_iff:
  assumes "gm_ok m"
  shows "ip \<in> set (ow_expired now m) \<longleftrightarrow> (\<exists>rec. map_of m ip = Some rec \<and> ob_expireAt rec \<le> now)"
  using assms by (force simp: ow_expired_def not_less)

text \<open>The calls of a flush: the additions, the deletions, and one commit with one reload when one
  of the two succeeded.\<close>

definition cycle :: "string list \<Rightarrow> string list \<Rightarrow> bool \<Rightarrow> bool \<Rightarrow> bool \<Rightarrow> bool \<Rightarrow> ow_call list" where
  "cycle ups exps a d c r =
    (if ups = [] then [] else [OwAdd ups a]) @ (if exps = [] then [] else [OwDel exps d])
    @ (if a \<or> d then [OwCommit c, OwReload r] else [])"

text \<open>The table after a flush, given the outcome of its calls.\<close>

definition ow_applied :: "ow_Config \<Rightarrow> gotime \<Rightarrow> string list \<Rightarrow> string list \<Rightarrow> bool \<Rightarrow> bool \<Rightarrow> (string, ow_banRecord) gomap \<Rightarrow> (string, ow_banRecord) gomap" where
  "ow_applied cfg now ups exps a d m =
    (let m = (if a then fold (new_ban cfg now) ups m else m) in if d then fold AList.delete exps m else m)"

lemma issue_if:
  obtains b w where "(if ok then issue c f s else (False, s)) = (b, s\<lparr>ow_world := w, ow_calls := ow_calls s @ (if ok then [c b] else []),
    ow_errors := ow_errors s + (if ok \<and> \<not> b then 1 else 0)\<rparr>)" "b \<longrightarrow> ok"
proof (cases ok)
  case True
  obtain b w where "issue c f s = (b, s\<lparr>ow_world := w, ow_calls := ow_calls s @ [c b], ow_errors := ow_errors s + (if b then 0 else 1)\<rparr>)"
    by (rule issue_outcome)
  then show thesis using True by (intro that [of b w]) simp_all
next
  case False
  then show thesis by (intro that [of False "ow_world s"]) simp_all
qed

lemma transact_outcome:
  obtains a d c r w where "ow_transact cl ctx now ups exps s = ((a, d), s\<lparr>ow_world := w,
      ow_calls := ow_calls s @ cycle ups exps a d c r, ow_errors := ow_errors s + tally call_failed (cycle ups exps a d c r)\<rparr>)"
    "a \<longrightarrow> ups \<noteq> []" "d \<longrightarrow> exps \<noteq> []"
proof -
  obtain a w1 where s1: "(if ups \<noteq> [] then issue (OwAdd ups) (cl_AddEntries cl ctx now ups) s else (False, s))
      = (a, s\<lparr>ow_world := w1, ow_calls := ow_calls s @ (if ups \<noteq> [] then [OwAdd ups a] else []),
          ow_errors := ow_errors s + (if ups \<noteq> [] \<and> \<not> a then 1 else 0)\<rparr>)" "a \<longrightarrow> ups \<noteq> []"
    by (rule issue_if)
  define t1 where "t1 = s\<lparr>ow_world := w1, ow_calls := ow_calls s @ (if ups \<noteq> [] then [OwAdd ups a] else []),
          ow_errors := ow_errors s + (if ups \<noteq> [] \<and> \<not> a then 1 else 0)\<rparr>"
  obtain d w2 where s2: "(if exps \<noteq> [] then issue (OwDel exps) (cl_DeleteEntries cl ctx now exps) t1 else (False, t1))
      = (d, t1\<lparr>ow_world := w2, ow_calls := ow_calls t1 @ (if exps \<noteq> [] then [OwDel exps d] else []),
          ow_errors := ow_errors t1 + (if exps \<noteq> [] \<and> \<not> d then 1 else 0)\<rparr>)" "d \<longrightarrow> exps \<noteq> []"
    by (rule issue_if)
  define t2 where "t2 = t1\<lparr>ow_world := w2, ow_calls := ow_calls t1 @ (if exps \<noteq> [] then [OwDel exps d] else []),
          ow_errors := ow_errors t1 + (if exps \<noteq> [] \<and> \<not> d then 1 else 0)\<rparr>"
  obtain c w3 where s3: "issue OwCommit (cl_Commit cl ctx now) t2
      = (c, t2\<lparr>ow_world := w3, ow_calls := ow_calls t2 @ [OwCommit c], ow_errors := ow_errors t2 + (if c then 0 else 1)\<rparr>)"
    by (rule issue_outcome)
  define t3 where "t3 = t2\<lparr>ow_world := w3, ow_calls := ow_calls t2 @ [OwCommit c], ow_errors := ow_errors t2 + (if c then 0 else 1)\<rparr>"
  obtain r w4 where s4: "issue OwReload (cl_Reload cl ctx now) t3
      = (r, t3\<lparr>ow_world := w4, ow_calls := ow_calls t3 @ [OwReload r], ow_errors := ow_errors t3 + (if r then 0 else 1)\<rparr>)"
    by (rule issue_outcome)
  have run: "ow_transact cl ctx now ups exps s = ((a, d), if a \<or> d then snd (issue OwReload (cl_Reload cl ctx now) t3) else t2)"
    using s1(1) s2(1) s3 by (simp add: ow_transact_def t1_def [symmetric] t2_def [symmetric] t3_def [symmetric])
  have eq: "(if a \<or> d then snd (issue OwReload (cl_Reload cl ctx now) t3) else t2)
      = s\<lparr>ow_world := (if a \<or> d then w4 else w2), ow_calls := ow_calls s @ cycle ups exps a d c r,
          ow_errors := ow_errors s + tally call_failed (cycle ups exps a d c r)\<rparr>"
    using s1(2) s2(2) unfolding s4 by (auto simp: t3_def t2_def t1_def cycle_def)
  show thesis by (rule that) (use run eq s1(2) s2(2) in simp_all)
qed

lemma record_fields:
  assumes t_def: "t = ow_record cfg dw now ups exps a d s"
  shows "ow_banned t = ow_applied cfg now ups exps a d (ow_banned s)" "ow_skipped t = ow_skipped s"
    "ow_executed t = ow_executed s + (if a then length ups else 0)" "ow_swept t = ow_swept s + (if d then length exps else 0)"
    "ow_errors t = ow_errors s" "ow_pending t = ow_pending s" "ow_done t = ow_done s" "ow_calls t = ow_calls s"
  by (simp_all add: t_def ow_record_def ow_applied_def Let_def)

lemma flush_outcome:
  fixes s t :: "('w, 'd) ow_state" and pending :: "string list" and now :: gotime
  defines "ex \<equiv> \<lambda>ip. map_of (ow_banned s) ip \<noteq> None"
  defines "ups \<equiv> filter (\<lambda>ip. \<not> ex ip) pending" and "exps \<equiv> ow_expired now (ow_banned s)"
  assumes t_def: "t = ow_flush cfg cl dw ctx now pending s"
  obtains a d c r where "ow_calls t = ow_calls s @ cycle ups exps a d c r" "a \<longrightarrow> ups \<noteq> []" "d \<longrightarrow> exps \<noteq> []"
    "ow_banned t = ow_applied cfg now ups exps a d (ow_banned s)"
    "ow_skipped t = ow_skipped s + length (filter ex pending)"
    "ow_executed t = ow_executed s + (if a then length ups else 0)"
    "ow_swept t = ow_swept s + (if d then length exps else 0)"
    "ow_errors t = ow_errors s + tally call_failed (cycle ups exps a d c r)"
    "ow_pending t = ow_pending s" "ow_done t = ow_done s"
proof -
  let ?s = "s\<lparr>ow_skipped := ow_skipped s + length (filter ex pending)\<rparr>"
  obtain a d c r w where tr: "ow_transact cl ctx now ups exps ?s = ((a, d), ?s\<lparr>ow_world := w,
      ow_calls := ow_calls ?s @ cycle ups exps a d c r, ow_errors := ow_errors ?s + tally call_failed (cycle ups exps a d c r)\<rparr>)"
    "a \<longrightarrow> ups \<noteq> []" "d \<longrightarrow> exps \<noteq> []"
    by (rule transact_outcome)
  have t: "t = (if ups = [] \<and> exps = [] then ?s else ow_record cfg dw now ups exps a d (snd (ow_transact cl ctx now ups exps ?s)))"
    unfolding t_def ow_flush_def Let_def ex_def [symmetric] ups_def [symmetric] exps_def [symmetric] tr(1) by simp
  show thesis
  proof (cases "ups = [] \<and> exps = []")
    case True
    then show thesis using t by (intro that [of False False]) (simp_all add: ow_applied_def cycle_def)
  next
    case False
    then have "t = ow_record cfg dw now ups exps a d (snd (ow_transact cl ctx now ups exps ?s))" using t by argo
    note f = record_fields [OF this]
    show thesis using tr by (intro that [of a d c r]) (simp_all add: f)
  qed
qed

lemma cycle_tally:
  assumes "a \<longrightarrow> ups \<noteq> []" "d \<longrightarrow> exps \<noteq> []"
  shows "tally added_by (cycle ups exps a d c r) = (if a then length ups else 0)"
    "tally failed_by (cycle ups exps a d c r) = (if a then 0 else length ups)"
    "tally deleted_by (cycle ups exps a d c r) = (if d then length exps else 0)"
  using assms by (cases a; cases d; simp add: cycle_def)+

lemma applied_ok:
  "gm_ok m \<Longrightarrow> gm_ok (ow_applied cfg now ups exps a d m)"
  "gm_dom (ow_applied cfg now ups exps a d m) \<subseteq> gm_dom m \<union> set ups"
  by (auto simp: ow_applied_def Let_def new_bans delete_all)

definition ow_deals :: "string set \<Rightarrow> string set \<Rightarrow> nat \<Rightarrow> ('w, 'd) ow_state \<Rightarrow> ('w, 'd) ow_state \<Rightarrow> bool" where
  "ow_deals own seen n s t \<longleftrightarrow> ow_core own seen t \<and> ow_work t = ow_work s + n
     \<and> ow_pending t = ow_pending s \<and> ow_done t = ow_done s"

lemma ow_flush_deals:
  assumes core: "ow_core own seen s" and pending: "set pending \<subseteq> seen"
  shows "ow_deals own seen (length pending) s (ow_flush cfg cl dw ctx now pending s)"
proof -
  define ex where "ex = (\<lambda>ip. map_of (ow_banned s) ip \<noteq> None)"
  define u where "u = filter (\<lambda>ip. \<not> map_of (ow_banned s) ip \<noteq> None) pending"
  define e where "e = ow_expired now (ow_banned s)"
  define t where "t = ow_flush cfg cl dw ctx now pending s"
  note frozen = ex_def [symmetric] u_def [symmetric] e_def [symmetric]
  obtain a d c r where t: "ow_calls t = ow_calls s @ cycle u e a d c r" "a \<longrightarrow> u \<noteq> []" "d \<longrightarrow> e \<noteq> []"
    "ow_banned t = ow_applied cfg now u e a d (ow_banned s)"
    "ow_skipped t = ow_skipped s + length (filter ex pending)"
    "ow_executed t = ow_executed s + (if a then length u else 0)"
    "ow_swept t = ow_swept s + (if d then length e else 0)"
    "ow_errors t = ow_errors s + tally call_failed (cycle u e a d c r)"
    "ow_pending t = ow_pending s" "ow_done t = ow_done s"
    by (rule flush_outcome [OF t_def, unfolded frozen])
  have sub: "set u \<subseteq> seen" "set e \<subseteq> own \<union> seen"
    using core pending by (auto simp: ow_core_def u_def e_def ow_expired_def)
  then have "gm_dom (ow_banned t) \<subseteq> own \<union> seen"
    using core applied_ok(2) [of cfg now u e a d "ow_banned s"] unfolding t(4) ow_core_def by blast
  moreover have "list_all (ow_call_ok own seen) (ow_calls t)"
    using core sub unfolding t(1) by (simp add: ow_core_def cycle_def)
  ultimately have "ow_core own seen t"
    using core by (simp add: ow_core_def t applied_ok cycle_tally [OF t(2,3)])
  moreover have "length pending = length (filter ex pending) + length u"
    unfolding u_def ex_def by (rule sum_length_filter_compl [symmetric])
  then have "ow_work t = ow_work s + length pending"
    by (simp add: ow_work_def t cycle_tally [OF t(2,3)])
  ultimately show ?thesis by (simp add: ow_deals_def t t_def [symmetric])
qed

section \<open>The run loop\<close>

definition ow_inv :: "string set \<Rightarrow> string set \<Rightarrow> ('w, 'd) ow_state \<Rightarrow> bool" where
  "ow_inv own seen s \<longleftrightarrow> ow_core own seen s \<and> set (ow_pending s) \<subseteq> seen"

definition ow_ok :: "ow_Config \<Rightarrow> string set \<Rightarrow> gotime \<times> ow_input \<Rightarrow> bool" where
  "ow_ok cfg seen ti \<longleftrightarrow>
    (case snd ti of OwEvent ev \<Rightarrow> meetsMinLevel (owc_MinLevel cfg) (te_Level ev) \<longrightarrow> te_IP ev \<in> seen | _ \<Rightarrow> True)"

definition ow_arrivals :: "gotime \<times> ow_input \<Rightarrow> nat" where
  "ow_arrivals ti = (case snd ti of OwEvent ev \<Rightarrow> 1 | _ \<Rightarrow> 0)"

definition ow_weight :: "('w, 'd) ow_state \<Rightarrow> nat" where
  "ow_weight s = ow_work s + length (ow_pending s)"

lemma ow_frame [simp]:
  "ow_core own seen (s\<lparr>ow_pending := b\<rparr>) = ow_core own seen s"
  "ow_core own seen (s\<lparr>ow_skipped := n\<rparr>) = ow_core own seen s"
  "ow_core own seen (s\<lparr>ow_done := f\<rparr>) = ow_core own seen s"
  "ow_work (s\<lparr>ow_pending := b\<rparr>) = ow_work s" "ow_work (s\<lparr>ow_done := f\<rparr>) = ow_work s"
  "ow_work (s\<lparr>ow_skipped := Suc (ow_skipped s)\<rparr>) = Suc (ow_work s)"
  by (simp_all add: ow_core_def ow_work_def)

text \<open>Flushing all that is pending and forgetting it.\<close>

lemma flush_pending:
  assumes "ow_inv own seen s"
  shows "ow_inv own seen ((ow_flush cfg cl dw ctx now (ow_pending s) s)\<lparr>ow_pending := []\<rparr>)"
    "ow_weight ((ow_flush cfg cl dw ctx now (ow_pending s) s)\<lparr>ow_pending := []\<rparr>) = ow_weight s"
  using assms ow_flush_deals [of own seen s "ow_pending s" cfg cl dw ctx now]
  by (simp_all add: ow_inv_def ow_deals_def ow_weight_def)

lemma ow_inv_done [simp]: "ow_inv own seen (s\<lparr>ow_done := f\<rparr>) = ow_inv own seen s" "ow_weight (s\<lparr>ow_done := f\<rparr>) = ow_weight s"
  by (simp_all add: ow_inv_def ow_weight_def)

lemma ow_step_keeps:
  assumes inv: "ow_inv own seen s" and ok: "ow_ok cfg seen ti" and live: "\<not> ow_done s"
  shows "ow_inv own seen (ow_step cfg cl dw ti s) \<and> ow_weight (ow_step cfg cl dw ti s) = ow_weight s + ow_arrivals ti"
proof -
  obtain now i where ti: "ti = (now, i)" by fastforce
  show ?thesis
  proof (cases i)
    case (OwEvent ev)
    let ?b = "s\<lparr>ow_pending := ow_pending s @ [te_IP ev]\<rparr>"
    have b: "ow_inv own seen ?b" "ow_weight ?b = ow_weight s + 1" if "meetsMinLevel (owc_MinLevel cfg) (te_Level ev)"
      using inv ok that OwEvent ti by (simp_all add: ow_inv_def ow_ok_def ow_weight_def)
    have skip: "ow_inv own seen (s\<lparr>ow_skipped := Suc (ow_skipped s)\<rparr>)" "ow_weight (s\<lparr>ow_skipped := Suc (ow_skipped s)\<rparr>) = Suc (ow_weight s)"
      using inv by (simp_all add: ow_inv_def ow_weight_def)
    show ?thesis
      using b skip flush_pending [of own seen ?b cfg cl dw False now] live OwEvent ti
      by (simp add: ow_step_def ow_arrivals_def Let_def)
  next
    case OwFlushTick
    then show ?thesis
      using inv live ti flush_pending [OF inv, of cfg cl dw False now] by (simp add: ow_step_def ow_arrivals_def)
  next
    case OwSweepTick
    then show ?thesis
      using inv live ti ow_flush_deals [of own seen s "[]" cfg cl dw False now]
      by (simp add: ow_step_def ow_arrivals_def ow_inv_def ow_weight_def ow_deals_def)
  next
    case OwClosed
    then show ?thesis
      using inv live ti flush_pending [OF inv, of cfg cl dw False now] by (simp add: ow_step_def ow_arrivals_def)
  next
    case OwCancelled
    then show ?thesis
      using inv live ti flush_pending [OF inv, of cfg cl dw True now] by (simp add: ow_step_def ow_arrivals_def)
  qed
qed

lemma ow_step_done: "ow_done s \<Longrightarrow> ow_step cfg cl dw ti s = s"
  by (simp add: ow_step_def)

interpretation openwrt: accounting "ow_step cfg cl dw" "ow_inv own seen" "ow_ok cfg seen"
  ow_weight ow_arrivals "\<lambda>s. \<not> ow_done s" for cfg cl dw own seen
proof unfold_locales
  fix s :: "('a, 'b) ow_state" and i
  show "ow_inv own seen s \<Longrightarrow> ow_ok cfg seen i \<Longrightarrow> ow_inv own seen (ow_step cfg cl dw i s)"
    using ow_step_keeps ow_step_done by metis
  show "ow_inv own seen s \<Longrightarrow> ow_ok cfg seen i \<Longrightarrow> \<not> ow_done s
      \<Longrightarrow> ow_weight (ow_step cfg cl dw i s) = ow_weight s + ow_arrivals i"
    using ow_step_keeps by blast
  show "\<not> \<not> ow_done s \<Longrightarrow> ow_step cfg cl dw i s = s"
    using ow_step_done by blast
qed

text \<open>The addresses listed at the start, and those of the relevant events.\<close>

definition ow_listed :: "'w ow_client \<Rightarrow> gotime \<Rightarrow> 'w \<Rightarrow> string set" where
  "ow_listed cl now w = (case fst (cl_ListEntries cl False now w) of Inl e \<Rightarrow> {} | Inr entries \<Rightarrow> set entries)"

definition ow_relevant :: "ow_Config \<Rightarrow> (gotime \<times> ow_input) list \<Rightarrow> string set" where
  "ow_relevant cfg inputs =
    {te_IP ev | ev. \<exists>t. (t, OwEvent ev) \<in> set inputs \<and> meetsMinLevel (owc_MinLevel cfg) (te_Level ev)}"

lemma ow_ok_relevant: "list_all (ow_ok cfg (ow_relevant cfg inputs)) inputs"
  by (auto simp: list_all_iff ow_ok_def ow_relevant_def split: ow_input.split) blast

lemma ow_start_inv:
  "ow_inv (ow_listed cl now w) seen (ow_syncExisting cfg cl False now (ow_init w d))"
  "ow_weight (ow_syncExisting cfg cl False now (ow_init w d)) = 0"
proof -
  obtain r w' where r: "cl_ListEntries cl False now w = (r, w')" by fastforce
  show "ow_inv (ow_listed cl now w) seen (ow_syncExisting cfg cl False now (ow_init w d))"
    "ow_weight (ow_syncExisting cfg cl False now (ow_init w d)) = 0"
    using r by (cases r; auto simp: ow_inv_def ow_core_def ow_weight_def ow_work_def ow_syncExisting_def ow_init_def
      ow_listed_def new_bans)+
qed

lemma ow_Run_inv:
  "ow_inv (ow_listed cl now w) (ow_relevant cfg inputs) (ow_Run cfg cl dw now inputs (ow_init w d))"
  unfolding ow_Run_def by (rule openwrt.run_inv [OF ow_start_inv(1) ow_ok_relevant])

fun ow_events :: "gotime \<times> ow_input \<Rightarrow> ThreatEvent list" where
  "ow_events (t, OwEvent ev) = [ev]"
| "ow_events _ = []"

definition ow_requested :: "('w, 'd) ow_state \<Rightarrow> string set" where
  "ow_requested s = {ip. \<exists>ips b. OwAdd ips b \<in> set (ow_calls s) \<and> ip \<in> set ips}"

interpretation openwrt_bans: ban_requests ow_events "owc_MinLevel cfg" "\<lambda>inputs. ow_requested (ow_Run cfg cl dw now inputs (ow_init w d))"
  for cfg cl dw now w d
proof
  fix ip inputs
  assume "ip \<in> ow_requested (ow_Run cfg cl dw now inputs (ow_init w d))"
  then obtain ips b where c: "OwAdd ips b \<in> set (ow_calls (ow_Run cfg cl dw now inputs (ow_init w d)))" "ip \<in> set ips"
    unfolding ow_requested_def by blast
  have "list_all (ow_call_ok (ow_listed cl now w) (ow_relevant cfg inputs)) (ow_calls (ow_Run cfg cl dw now inputs (ow_init w d)))"
    using ow_Run_inv [of cl now w cfg inputs dw d] by (simp add: ow_inv_def ow_core_def)
  then have "ow_call_ok (ow_listed cl now w) (ow_relevant cfg inputs) (OwAdd ips b)" unfolding list_all_iff by (rule bspec [OF _ c(1)])
  then have "ip \<in> ow_relevant cfg inputs" using c(2) by auto
  then obtain t ev where e: "(t, OwEvent ev) \<in> set inputs" "meetsMinLevel (owc_MinLevel cfg) (te_Level ev)" "te_IP ev = ip"
    unfolding ow_relevant_def by blast
  show "\<exists>i \<in> set inputs. \<exists>ev \<in> set (ow_events i). meetsMinLevel (owc_MinLevel cfg) (te_Level ev) \<and> te_IP ev = ip"
    by (rule bexI [OF _ e(1)]) (simp add: e(2,3))
qed

definition ow_event_count :: "(gotime \<times> ow_input) list \<Rightarrow> nat" where
  "ow_event_count inputs = length (filter (\<lambda>ti. case snd ti of OwEvent ev \<Rightarrow> True | _ \<Rightarrow> False) inputs)"

lemma ow_sum_arrivals: "sum_list (map ow_arrivals inputs) = ow_event_count inputs"
  by (induction inputs) (auto simp: ow_arrivals_def ow_event_count_def split: ow_input.split)

section \<open>What the loop does to the state of the client\<close>

text \<open>The executor changes the state of its client only through the five operations: what they all
  keep, every run keeps.\<close>

lemma record_world [simp]: "ow_world (ow_record cfg dw now u e a d t) = ow_world t"
  by (simp add: ow_record_def Let_def)

locale client_invariant =
  fixes cl :: "'w ow_client" and ok :: "'w \<Rightarrow> bool"
  assumes keeps_add: "ok w \<Longrightarrow> ok (snd (cl_AddEntries cl ctx now ips w))"
    and keeps_delete: "ok w \<Longrightarrow> ok (snd (cl_DeleteEntries cl ctx now ips w))"
    and keeps_commit: "ok w \<Longrightarrow> ok (snd (cl_Commit cl ctx now w))"
    and keeps_reload: "ok w \<Longrightarrow> ok (snd (cl_Reload cl ctx now w))"
    and keeps_list: "ok w \<Longrightarrow> ok (snd (cl_ListEntries cl ctx now w))"
begin

lemma issue_keeps:
  assumes "\<And>w. ok w \<Longrightarrow> ok (snd (f w))" "ok (ow_world s)"
  shows "ok (ow_world (snd (issue c f s)))"
  using assms by (cases "f (ow_world s)") (force simp: issue_def split: option.split)

lemma transact_keeps:
  assumes "ok (ow_world s)"
  shows "ok (ow_world (snd (ow_transact cl ctx now ups exps s)))"
  using assms
  by (auto simp: ow_transact_def Let_def split_beta
      intro!: issue_keeps keeps_add keeps_delete keeps_commit keeps_reload)

lemma client_flush_keeps:
  assumes "ok (ow_world s)"
  shows "ok (ow_world (ow_flush cfg cl dw ctx now pending s))"
  using assms by (simp add: ow_flush_def Let_def split_beta transact_keeps)

lemma step_keeps: "ok (ow_world s) \<Longrightarrow> ok (ow_world (ow_step cfg cl dw ti s))"
  by (cases ti) (simp add: ow_step_def Let_def client_flush_keeps split: ow_input.split)

lemma sync_keeps: "ok (ow_world s) \<Longrightarrow> ok (ow_world (ow_syncExisting cfg cl ctx now s))"
  using keeps_list [of "ow_world s" ctx now] by (auto simp: ow_syncExisting_def split: prod.split sum.split)

lemma client_run: "ok w \<Longrightarrow> ok (ow_world (ow_Run cfg cl dw now inputs (ow_init w d)))"
proof -
  have "ok (ow_world s) \<Longrightarrow> ok (ow_world (fold (ow_step cfg cl dw) inputs s))" for s
    by (induction inputs arbitrary: s) (simp_all add: step_keeps)
  moreover have "ow_world (ow_init w d) = w" by (simp add: ow_init_def)
  ultimately show "ok w \<Longrightarrow> ok (ow_world (ow_Run cfg cl dw now inputs (ow_init w d)))"
    by (simp add: ow_Run_def sync_keeps)
qed

end

section \<open>Sessions of the HTTP client\<close>

text \<open>A log is in order when every request but a login carries the session granted last, and that
  was less than the time-out ago.\<close>

fun granted :: "(gotime \<times> string) option \<Rightarrow> ow_wire list \<Rightarrow> (gotime \<times> string) option" where
  "granted cur [] = cur"
| "granted cur (Sent t req # es) = granted cur es"
| "granted cur (Session t sid # es) = granted (Some (t, sid)) es"

definition carries :: "duration \<Rightarrow> (gotime \<times> string) option \<Rightarrow> gotime \<Rightarrow> rpc_request \<Rightarrow> bool" where
  "carries timeout cur t req \<longleftrightarrow> rq_object req = ''session'' \<and> rq_session req = nullSession
    \<or> (case cur of None \<Rightarrow> False | Some (t0, sid) \<Rightarrow> rq_session req = sid \<and> time_sub t t0 < timeout)"

fun sessions_ok :: "duration \<Rightarrow> (gotime \<times> string) option \<Rightarrow> ow_wire list \<Rightarrow> bool" where
  "sessions_ok timeout cur [] \<longleftrightarrow> True"
| "sessions_ok timeout cur (Sent t req # es) \<longleftrightarrow> carries timeout cur t req \<and> sessions_ok timeout cur es"
| "sessions_ok timeout cur (Session t sid # es) \<longleftrightarrow> sessions_ok timeout (Some (t, sid)) es"

lemma granted_append: "granted cur (xs @ ys) = granted (granted cur xs) ys"
  by (induction cur xs rule: granted.induct) simp_all

lemma sessions_append: "sessions_ok T cur (xs @ ys) \<longleftrightarrow> sessions_ok T cur xs \<and> sessions_ok T (granted cur xs) ys"
  by (induction T cur xs rule: sessions_ok.induct) simp_all

definition client_ok :: "ow_Config \<Rightarrow> 'w ow_http \<Rightarrow> bool" where
  "client_ok cfg h \<longleftrightarrow> sessions_ok (owc_SessionTimeout cfg) None (oh_log h)
    \<and> (oh_sessionID h = [] \<or> granted None (oh_log h) = Some (oh_sessionAt h, oh_sessionID h))"

lemma call_effect:
  "oh_log (snd (ubus_call ub ctx now sid obj m args h))
    = oh_log h @ [Sent now \<lparr>rq_ID = oh_reqCounter h + 1, rq_session = sid, rq_object = obj, rq_method = m, rq_args = args\<rparr>]"
  "oh_sessionID (snd (ubus_call ub ctx now sid obj m args h)) = oh_sessionID h"
  "oh_sessionAt (snd (ubus_call ub ctx now sid obj m args h)) = oh_sessionAt h"
  by (simp_all add: ubus_call_def Let_def split_beta)

lemma login_keeps:
  assumes "client_ok cfg h"
  shows "client_ok cfg (snd (loginLocked cfg ub ctx now h))
    \<and> (fst (loginLocked cfg ub ctx now h) = None \<longrightarrow>
        granted None (oh_log (snd (loginLocked cfg ub ctx now h))) = Some (now, oh_sessionID (snd (loginLocked cfg ub ctx now h))))"
proof -
  let ?args = "JObj [(''username'', JStr (owc_Username cfg)), (''password'', JStr (owc_Password cfg))]"
  define c where "c = ubus_call ub ctx now nullSession ''session'' ''login'' ?args h"
  have "client_ok cfg (snd c)"
    using assms unfolding c_def by (simp add: client_ok_def call_effect sessions_append granted_append carries_def)
  then show ?thesis
    unfolding loginLocked_def c_def [symmetric]
    by (auto simp: client_ok_def sessions_append granted_append split: prod.split sum.split option.split)
qed

lemma request_keeps:
  assumes "client_ok cfg h" "0 < owc_SessionTimeout cfg"
  shows "client_ok cfg (snd (ow_doRequest cfg ub ctx now obj m args h))"
proof -
  define e where "e = ensureSessionLocked cfg ub ctx now h"
  have live: "client_ok cfg (snd e) \<and> (fst e = None \<longrightarrow>
      (\<exists>t0. granted None (oh_log (snd e)) = Some (t0, oh_sessionID (snd e)) \<and> time_sub now t0 < owc_SessionTimeout cfg))"
  proof (cases "oh_sessionID h = [] \<or> time_sub now (oh_sessionAt h) \<ge> owc_SessionTimeout cfg")
    case True
    then have "e = loginLocked cfg ub ctx now h" by (simp add: e_def ensureSessionLocked_def)
    then show ?thesis using login_keeps [OF assms(1), of ub ctx now] assms(2) by auto
  next
    case False
    then have "e = (None, h)" by (simp add: e_def ensureSessionLocked_def)
    then show ?thesis using False assms(1) by (auto simp: client_ok_def)
  qed
  obtain r h' where h': "e = (r, h')" by fastforce
  show ?thesis
  proof (cases r)
    case None
    then have "ow_doRequest cfg ub ctx now obj m args h = ubus_call ub ctx now (oh_sessionID h') obj m args h'"
      using h' by (simp add: ow_doRequest_def e_def [symmetric])
    then show ?thesis
      using live h' None by (auto simp: client_ok_def call_effect sessions_append granted_append carries_def)
  next
    case (Some err)
    then have "ow_doRequest cfg ub ctx now obj m args h = (Inl err, h')"
      using h' by (simp add: ow_doRequest_def e_def [symmetric])
    then show ?thesis using live h' by simp
  qed
qed

lemma http_client_keeps:
  assumes "0 < owc_SessionTimeout cfg"
  shows "client_invariant (ow_HTTPClient cfg ub) (client_ok cfg)"
proof unfold_locales
  fix w :: "'a ow_http" and ctx now ips
  assume w: "client_ok cfg w"
  note r = request_keeps [OF w assms]
  show "client_ok cfg (snd (cl_AddEntries (ow_HTTPClient cfg ub) ctx now ips w))"
    "client_ok cfg (snd (cl_DeleteEntries (ow_HTTPClient cfg ub) ctx now ips w))"
    using r w by (simp_all add: ow_HTTPClient_def ow_AddEntries_def ow_DeleteEntries_def failed_def)
  show "client_ok cfg (snd (cl_Commit (ow_HTTPClient cfg ub) ctx now w))"
    "client_ok cfg (snd (cl_Reload (ow_HTTPClient cfg ub) ctx now w))"
    using r by (simp_all add: ow_HTTPClient_def ow_Commit_def ow_Reload_def failed_def)
  show "client_ok cfg (snd (cl_ListEntries (ow_HTTPClient cfg ub) ctx now w))"
    using r [of ub ctx now "''uci''" "''get''" "entry_args cfg"]
    by (auto simp: ow_HTTPClient_def ow_ListEntries_def split: prod.split sum.split)
qed

interpretation http_defaults: client_invariant "ow_HTTPClient ow_defaultConfig ub" "client_ok ow_defaultConfig" for ub
  by (rule http_client_keeps) (simp add: ow_defaultConfig_def second_def)

definition fresh_client :: "'w \<Rightarrow> 'w ow_http" where
  "fresh_client w = \<lparr>oh_sessionID = [], oh_sessionAt = 0, oh_reqCounter = 0, oh_world = w, oh_log = []\<rparr>"

lemma fresh_client_ok: "client_ok cfg (fresh_client w)"
  by (simp add: client_ok_def fresh_client_def)

section \<open>Configurations\<close>

lemma ow_parse_checked: "ow_parseConfig raw = Inr cfg \<Longrightarrow> ow_checks cfg = Inr ()"
  unfolding ow_parseConfig_def by (rule decode_checked)

lemma ow_checks_iff:
  "ow_checks cfg = Inr () \<longleftrightarrow> owc_Host cfg \<noteq> [] \<and> owc_Username cfg \<noteq> [] \<and> owc_Password cfg \<noteq> [] \<and> owc_IPSetName cfg \<noteq> []
    \<and> 0 < owc_TTL cfg \<and> 0 < owc_SessionTimeout cfg \<and> (owc_Scheme cfg = ''http'' \<or> owc_Scheme cfg = ''https'')
    \<and> map_of levelOrder (owc_MinLevel cfg) \<noteq> None"
  by (auto simp: ow_checks_def check_simps)

section \<open>Properties\<close>

text \<open>Every event the loop takes is executed, skipped, in a failed addition, or still pending,
  exactly once, and nothing is pending after the end of the source.\<close>

theorem openwrt_accounts:
  assumes "\<not> ow_done (ow_Run cfg cl dw now (butlast inputs) (ow_init w d))"
  shows "let s = ow_Run cfg cl dw now inputs (ow_init w d)
    in ow_executed s + ow_skipped s + tally failed_by (ow_calls s) + length (ow_pending s) = ow_event_count inputs
     \<and> (inputs \<noteq> [] \<and> snd (last inputs) \<in> {OwClosed, OwCancelled} \<longrightarrow> ow_pending s = [])"
proof -
  let ?s0 = "ow_syncExisting cfg cl False now (ow_init w d)"
  have "ow_weight (fold (ow_step cfg cl dw) inputs ?s0) = ow_event_count inputs"
    using openwrt.run_weight_active [OF ow_start_inv(1) [of cl now w _ cfg d] ow_ok_relevant [of cfg inputs], of cl dw] assms
    by (simp add: ow_Run_def ow_start_inv ow_sum_arrivals)
  moreover have "ow_pending (fold (ow_step cfg cl dw) inputs ?s0) = []"
    if "inputs \<noteq> []" "snd (last inputs) \<in> {OwClosed, OwCancelled}"
  proof -
    obtain js i where "inputs = js @ [i]" using \<open>inputs \<noteq> []\<close> by (metis rev_exhaust)
    then show ?thesis
      using that assms by (cases i) (auto simp: ow_step_def ow_Run_def)
  qed
  ultimately show ?thesis by (simp add: ow_Run_def ow_weight_def ow_work_def Let_def)
qed

text \<open>In every run an addition names only addresses of events of the required level, a deletion
  only such addresses or ones the router listed at the start, no request is empty, and the
  counters of executed, swept and failed operations are exactly those of the calls made.\<close>

theorem openwrt_requests_justified:
  "let s = ow_Run cfg cl dw now inputs (ow_init w d)
   in list_all (ow_call_ok (ow_listed cl now w) (ow_relevant cfg inputs)) (ow_calls s)
    \<and> ow_executed s = tally added_by (ow_calls s) \<and> ow_swept s = tally deleted_by (ow_calls s)
    \<and> ow_errors s = tally call_failed (ow_calls s)"
  using ow_Run_inv [of cl now w cfg inputs dw d] by (simp add: ow_inv_def ow_core_def Let_def)


text \<open>C38: With a configuration that was accepted, every request the executor sends over a run is
  a login or carries the session that was granted last, less than the session time-out before.\<close>

theorem openwrt_sessions:
  assumes "ow_parseConfig raw = Inr cfg"
  shows "sessions_ok (owc_SessionTimeout cfg) None
    (oh_log (ow_world (ow_Run cfg (ow_HTTPClient cfg ub) dw now inputs (ow_init (fresh_client w) d))))"
proof -
  have "0 < owc_SessionTimeout cfg" using ow_parse_checked [OF assms] by (simp add: ow_checks_iff)
  then have "client_ok cfg (ow_world (ow_Run cfg (ow_HTTPClient cfg ub) dw now inputs (ow_init (fresh_client w) d)))"
    by (intro client_invariant.client_run [OF http_client_keeps fresh_client_ok])
  then show ?thesis by (simp add: client_ok_def)
qed

section \<open>Witnesses and two consequences\<close>

definition demo_ow_cfg :: ow_Config where
  "demo_ow_cfg = ow_defaultConfig\<lparr>owc_Host := ''router'', owc_Username := ''u'', owc_Password := ''p'', owc_IPSetName := ''bl'',
     owc_TTL := 3600 * second, owc_BatchSize := 2\<rparr>"

definition demo_ow_client :: "unit ow_client" where
  "demo_ow_client = \<lparr>cl_AddEntries = (\<lambda>ctx now ips w. (None, w)), cl_DeleteEntries = (\<lambda>ctx now ips w. (None, w)),
     cl_Commit = (\<lambda>ctx now w. (None, w)), cl_Reload = (\<lambda>ctx now w. (None, w)), cl_ListEntries = (\<lambda>ctx now w. (Inr [''192.0.2.1''], w))\<rparr>"

definition no_window :: "unit window" where
  "no_window = \<lparr>win_Contains = (\<lambda>now ip d. False), win_MarkBatch = (\<lambda>now ips d. d)\<rparr>"

definition threat_from :: "string \<Rightarrow> ThreatEvent" where
  "threat_from ip = blank_event\<lparr>te_IP := ip, te_Level := ''THREAT''\<rparr>"

lemma demo_ow_live: "\<not> ow_done (ow_Run demo_ow_cfg demo_ow_client no_window 0 (butlast [(1, OwEvent (threat_from ''192.0.2.7'')), (2, OwClosed)]) (ow_init () ()))"
  by code_simp

theorem openwrt_accounts_witness:
  "let s = ow_Run demo_ow_cfg demo_ow_client no_window 0 [(1, OwEvent (threat_from ''192.0.2.7'')), (2, OwClosed)] (ow_init () ())
   in ow_executed s + ow_skipped s + tally failed_by (ow_calls s) + length (ow_pending s) = 1 \<and> ow_pending s = []"
  using openwrt_accounts [OF demo_ow_live] by (auto simp: Let_def ow_event_count_def)


definition demo_ow_raw :: raw_config where
  "demo_ow_raw = [(''host'', YStr ''router''), (''username'', YStr ''u''), (''password'', YStr ''p''), (''ipset_name'', YStr ''bl''),
     (''ttl'', YInt 3600), (''batch_size'', YInt 2)]"

lemma demo_ow_parsed: "ow_parseConfig demo_ow_raw = Inr demo_ow_cfg"
  by code_simp

theorem openwrt_sessions_witness:
  "sessions_ok (300 * second) None (oh_log (ow_world (ow_Run demo_ow_cfg
     (ow_HTTPClient demo_ow_cfg (\<lambda>ctx req w. (Answer 200 (Some (JObj [(''result'', JArr [JInt 0, JObj [(''ubus_rpc_session'', JStr ''s1'')]])])), w)))
     no_window 0 [(1, OwEvent (threat_from ''192.0.2.7'')), (2, OwClosed)] (ow_init (fresh_client ()) ()))))"
  using openwrt_sessions [OF demo_ow_parsed] by (simp add: demo_ow_cfg_def ow_defaultConfig_def)

text \<open>When the commit fails, the addresses of the batch are recorded as banned all the same, and are
  not tried again before their time is over.\<close>

lemma openwrt_commit_lost:
  "let cl = demo_ow_client\<lparr>cl_Commit := \<lambda>ctx now w. (Some ''commit failed'', w)\<rparr>;
       s = ow_flush demo_ow_cfg cl no_window False 5 [''192.0.2.7''] (ow_init () ())
   in ow_calls s = [OwAdd [''192.0.2.7''] True, OwCommit False, OwReload True] \<and> ow_executed s = 1
      \<and> ow_isDuplicate no_window 6 ''192.0.2.7'' s"
  by code_simp

text \<open>An address that comes twice before a flush is added twice: only the table is consulted.\<close>

lemma openwrt_batch_repeats:
  "let s = ow_Run demo_ow_cfg demo_ow_client no_window 0
         [(1, OwEvent (threat_from ''192.0.2.7'')), (2, OwEvent (threat_from ''192.0.2.7''))] (ow_init () ())
   in hd (ow_calls s) = OwAdd [''192.0.2.7'', ''192.0.2.7''] True \<and> ow_executed s = 2"
  by code_simp

end
