(* ===== verification/Opnsense.thy ===== *)
theory Opnsense
  imports Executor Json
begin

text \<open>
  The OPNsense executor, \<open>pkg/executorplugins/opnsense\<close>: its configuration, the REST client for
  one firewall alias, the immediate addition of an accepted event, the sweep with one
  request per expired ban, the start-up synchronisation and the run loop.

  The executor works on the client interface; \<open>opn_HTTPClient\<close> is the implementation over
  HTTP, with the firewall's answers as an argument.  \<open>opn_calls\<close> records the requests of the
  executor; the code does not read it.  One input of the loop is processed at one reading
  of the clock.

  Shown: while failed requests have no effect on the alias and nobody else edits it, the
  local table and the alias agree after every input (\<open>opnsense_mirror\<close>); a request is
  justified by an event of the required level or an entry listed at the start; every event
  is accounted for at once; what counts as success of a request; the entry list survives
  the way through the text of the alias.
\<close>

section \<open>Configuration\<close>

record opn_Config =
  opc_Host :: string
  opc_Port :: int
  opc_Scheme :: string
  opc_APIKey :: string
  opc_APISecret :: string
  opc_TLSVerify :: bool
  opc_AliasName :: string
  opc_TTL :: duration
  opc_MinLevel :: string
  opc_DedupWindow :: duration

definition validSchemes :: "string list" where
  "validSchemes = [''http'', ''https'']"

definition opn_defaultConfig :: opn_Config where
  "opn_defaultConfig = \<lparr>opc_Host = [], opc_Port = 443, opc_Scheme = ''https'', opc_APIKey = [], opc_APISecret = [],
     opc_TLSVerify = True, opc_AliasName = [], opc_TTL = 0, opc_MinLevel = ''THREAT'', opc_DedupWindow = 0\<rparr>"

definition opn_durations :: "(string \<times> (yaml \<Rightarrow> opn_Config \<Rightarrow> opn_Config option)) list" where
  "opn_durations = [(''ttl'', any_duration opc_TTL_update), (''dedup_window'', any_duration opc_DedupWindow_update)]"

definition opn_fields :: "opn_Config fields" where
  "opn_fields =
    [(''host'', j_string opc_Host_update), (''port'', j_int opc_Port_update), (''scheme'', j_string opc_Scheme_update),
     (''api_key'', j_string opc_APIKey_update), (''api_secret'', j_string opc_APISecret_update),
     (''tls_verify'', j_bool opc_TLSVerify_update), (''alias_name'', j_string opc_AliasName_update),
     (''min_level'', j_string opc_MinLevel_update)]"

definition opn_checks :: "opn_Config \<Rightarrow> exec_error + unit" where
  "opn_checks cfg = first_error
    [guard (opc_Host cfg = []) (Rejected ''host''),
     guard (opc_APIKey cfg = []) (Rejected ''api_key''),
     guard (opc_APISecret cfg = []) (Rejected ''api_secret''),
     guard (opc_AliasName cfg = []) (Rejected ''alias_name''),
     guard (opc_TTL cfg \<le> 0) (Rejected ''ttl''),
     guard (opc_Scheme cfg \<notin> set validSchemes) (Rejected ''scheme''),
     guard (map_of levelOrder (opc_MinLevel cfg) = None) (Rejected ''min_level'')]"

definition opn_parseConfig :: "raw_config \<Rightarrow> exec_error + opn_Config" where
  "opn_parseConfig raw = decode_config opn_durations opn_fields opn_checks raw opn_defaultConfig"

section \<open>The REST client\<close>

text \<open>\<open>url.PathEscape\<close>: letters, digits and the other characters allowed in a segment stay.\<close>

definition hex_char :: "nat \<Rightarrow> char" where
  "hex_char n = ''0123456789ABCDEF'' ! n"

definition segment_char :: "char \<Rightarrow> bool" where
  "segment_char c \<longleftrightarrow> is_digit c \<or> (CHR ''A'' \<le> c \<and> c \<le> CHR ''Z'') \<or> (CHR ''a'' \<le> c \<and> c \<le> CHR ''z'')
     \<or> c \<in> set ''-_.~$&+:=@''"

definition PathEscape :: "string \<Rightarrow> string" where
  "PathEscape s = concat (map (\<lambda>c. if segment_char c then [c]
     else [CHR ''%'', hex_char (of_char c div 16), hex_char (of_char c mod 16)]) s)"

type_synonym 'w opn_http = "bool \<Rightarrow> rest_request \<Rightarrow> 'w \<Rightarrow> http_answer \<times> 'w"

definition opn_doRequest :: "'w opn_http \<Rightarrow> bool \<Rightarrow> string \<Rightarrow> string \<Rightarrow> json option \<Rightarrow> 'w \<Rightarrow> (string + json option) \<times> 'w" where
  "opn_doRequest http ctx meth path body w =
    (case http ctx \<lparr>rs_method = meth, rs_path = path, rs_body = body\<rparr> w of
       (NoAnswer e, w) \<Rightarrow> (Inl e, w)
     | (Answer status raw, w) \<Rightarrow> (if \<not> status_2xx status then Inl ''unexpected status'' else Inr raw, w))"

record resultEnvelope =
  re_Result :: string
  re_Message :: string

definition envelope_fields :: "resultEnvelope fields" where
  "envelope_fields = [(''result'', j_string re_Result_update), (''message'', j_string re_Message_update)]"

text \<open>\<open>None\<close> is success.\<close>

definition parseResult :: "json option \<Rightarrow> string option" where
  "parseResult raw =
    (case raw of
       None \<Rightarrow> Some ''decode result envelope''
     | Some j \<Rightarrow>
         (case unmarshal_struct envelope_fields j \<lparr>re_Result = [], re_Message = []\<rparr> of
            None \<Rightarrow> Some ''decode result envelope''
          | Some env \<Rightarrow>
              if re_Result env \<in> {''saved'', ''ok''} then None
              else if re_Result env = ''failed''
              then Some (if re_Message env \<noteq> [] then ''api returned failed: '' @ re_Message env else ''api returned failed (no message)'')
              else Some (''unexpected result '' @ re_Result env)))"

definition opn_post :: "opn_Config \<Rightarrow> 'w opn_http \<Rightarrow> string \<Rightarrow> bool \<Rightarrow> string \<Rightarrow> 'w \<Rightarrow> string option \<times> 'w" where
  "opn_post cfg http endpoint ctx ip w =
    (case opn_doRequest http ctx ''POST'' (''/api/firewall/alias_util/'' @ endpoint @ ''/'' @ PathEscape (opc_AliasName cfg))
            (Some (JObj [(''address'', JStr ip)])) w of
       (Inl e, w) \<Rightarrow> (Some e, w)
     | (Inr raw, w) \<Rightarrow> (parseResult raw, w))"

definition opn_AddEntry :: "opn_Config \<Rightarrow> 'w opn_http \<Rightarrow> bool \<Rightarrow> string \<Rightarrow> 'w \<Rightarrow> string option \<times> 'w" where
  "opn_AddEntry cfg http = opn_post cfg http ''add''"

definition opn_DeleteEntry :: "opn_Config \<Rightarrow> 'w opn_http \<Rightarrow> bool \<Rightarrow> string \<Rightarrow> 'w \<Rightarrow> string option \<times> 'w" where
  "opn_DeleteEntry cfg http = opn_post cfg http ''delete''"

record listResponse =
  lr_Content :: string
  lr_Rows :: "string list"

definition list_fields :: "listResponse fields" where
  "list_fields = [(''content'', j_string lr_Content_update), (''rows'', j_strings lr_Rows_update)]"

definition nonblank :: "string list \<Rightarrow> string list" where
  "nonblank ls = filter (\<lambda>l. l \<noteq> []) (map trim_space ls)"

definition parseListEntries :: "json option \<Rightarrow> string + string list" where
  "parseListEntries raw =
    (case raw of
       None \<Rightarrow> Inl ''decode list response''
     | Some j \<Rightarrow>
         (case unmarshal_struct list_fields j \<lparr>lr_Content = [], lr_Rows = []\<rparr> of
            None \<Rightarrow> Inl ''decode list response''
          | Some resp \<Rightarrow>
              if lr_Rows resp \<noteq> [] then Inr (nonblank (lr_Rows resp))
              else if lr_Content resp = [] then Inr []
              else Inr (nonblank (split_on (CHR 0x0A) (lr_Content resp)))))"

definition opn_ListEntries :: "opn_Config \<Rightarrow> 'w opn_http \<Rightarrow> bool \<Rightarrow> 'w \<Rightarrow> (string + string list) \<times> 'w" where
  "opn_ListEntries cfg http ctx w =
    (case opn_doRequest http ctx ''GET'' (''/api/firewall/alias_util/list/'' @ PathEscape (opc_AliasName cfg)) None w of
       (Inl e, w) \<Rightarrow> (Inl e, w)
     | (Inr raw, w) \<Rightarrow> (parseListEntries raw, w))"

section \<open>The executor\<close>

record 'w opn_client =
  op_AddEntry :: "bool \<Rightarrow> string \<Rightarrow> 'w \<Rightarrow> string option \<times> 'w"
  op_DeleteEntry :: "bool \<Rightarrow> string \<Rightarrow> 'w \<Rightarrow> string option \<times> 'w"
  op_ListEntries :: "bool \<Rightarrow> 'w \<Rightarrow> (string + string list) \<times> 'w"

definition opn_HTTPClient :: "opn_Config \<Rightarrow> 'w opn_http \<Rightarrow> 'w opn_client" where
  "opn_HTTPClient cfg http = \<lparr>op_AddEntry = opn_AddEntry cfg http, op_DeleteEntry = opn_DeleteEntry cfg http,
     op_ListEntries = opn_ListEntries cfg http\<rparr>"

record opn_banRecord =
  pb_ip :: string
  pb_addedAt :: gotime
  pb_expireAt :: gotime

record 'd marking_window = "'d window" +
  win_Mark :: "gotime \<Rightarrow> string \<Rightarrow> 'd \<Rightarrow> 'd"

datatype opn_call = OpAdd string bool | OpDel string bool

record ('w, 'd) opn_state =
  opn_banned :: "(string, opn_banRecord) gomap"
  opn_dedup :: 'd
  opn_executed :: nat
  opn_skipped :: nat
  opn_errors :: nat
  opn_swept :: nat
  opn_world :: 'w
  opn_calls :: "opn_call list"
  opn_done :: bool

definition opn_ban :: "opn_Config \<Rightarrow> gotime \<Rightarrow> string \<Rightarrow> (string, opn_banRecord) gomap \<Rightarrow> (string, opn_banRecord) gomap" where
  "opn_ban cfg now ip m = AList.update ip \<lparr>pb_ip = ip, pb_addedAt = now, pb_expireAt = now + opc_TTL cfg\<rparr> m"

definition opn_syncExisting :: "opn_Config \<Rightarrow> 'w opn_client \<Rightarrow> bool \<Rightarrow> gotime \<Rightarrow> ('w, 'd) opn_state \<Rightarrow> ('w, 'd) opn_state" where
  "opn_syncExisting cfg cl ctx now s =
    (case op_ListEntries cl ctx (opn_world s) of
       (Inl e, w) \<Rightarrow> s\<lparr>opn_world := w\<rparr>
     | (Inr entries, w) \<Rightarrow> s\<lparr>opn_world := w, opn_banned := fold (opn_ban cfg now) entries (opn_banned s)\<rparr>)"

definition opn_delete_one :: "'w opn_client \<Rightarrow> bool \<Rightarrow> string \<Rightarrow> ('w, 'd) opn_state \<Rightarrow> ('w, 'd) opn_state" where
  "opn_delete_one cl ctx ip s =
    (case op_DeleteEntry cl ctx ip (opn_world s) of
       (Some e, w) \<Rightarrow> s\<lparr>opn_world := w, opn_errors := opn_errors s + 1, opn_calls := opn_calls s @ [OpDel ip False]\<rparr>
     | (None, w) \<Rightarrow> s\<lparr>opn_world := w, opn_banned := AList.delete ip (opn_banned s), opn_swept := opn_swept s + 1,
                      opn_calls := opn_calls s @ [OpDel ip True]\<rparr>)"

definition opn_expired :: "gotime \<Rightarrow> (string, opn_banRecord) gomap \<Rightarrow> string list" where
  "opn_expired now m = map fst (filter (\<lambda>(ip, rec). \<not> pb_expireAt rec > now) m)"

definition opn_sweep :: "'w opn_client \<Rightarrow> bool \<Rightarrow> gotime \<Rightarrow> ('w, 'd) opn_state \<Rightarrow> ('w, 'd) opn_state" where
  "opn_sweep cl ctx now s = fold (opn_delete_one cl ctx) (opn_expired now (opn_banned s)) s"

definition opn_isDuplicate :: "'d marking_window \<Rightarrow> gotime \<Rightarrow> string \<Rightarrow> ('w, 'd) opn_state \<Rightarrow> bool" where
  "opn_isDuplicate dw now ip s = (if win_Contains dw now ip (opn_dedup s) then True else map_of (opn_banned s) ip \<noteq> None)"

definition opn_add :: "opn_Config \<Rightarrow> 'w opn_client \<Rightarrow> 'd marking_window \<Rightarrow> gotime \<Rightarrow> string \<Rightarrow> ('w, 'd) opn_state \<Rightarrow> ('w, 'd) opn_state" where
  "opn_add cfg cl dw now ip s =
    (case op_AddEntry cl False ip (opn_world s) of
       (Some e, w) \<Rightarrow> s\<lparr>opn_world := w, opn_errors := opn_errors s + 1, opn_calls := opn_calls s @ [OpAdd ip False]\<rparr>
     | (None, w) \<Rightarrow> s\<lparr>opn_world := w, opn_banned := opn_ban cfg now ip (opn_banned s),
                      opn_dedup := win_Mark dw now ip (opn_dedup s), opn_executed := opn_executed s + 1,
                      opn_calls := opn_calls s @ [OpAdd ip True]\<rparr>)"

datatype opn_input = OpEvent ThreatEvent | OpSweepTick | OpClosed | OpCancelled

definition opn_step :: "opn_Config \<Rightarrow> 'w opn_client \<Rightarrow> 'd marking_window \<Rightarrow> gotime \<times> opn_input \<Rightarrow> ('w, 'd) opn_state \<Rightarrow> ('w, 'd) opn_state" where
  "opn_step cfg cl dw ti s =
    (if opn_done s then s
     else let (now, i) = ti in
       case i of
         OpCancelled \<Rightarrow> s\<lparr>opn_done := True\<rparr>
       | OpClosed \<Rightarrow> s\<lparr>opn_done := True\<rparr>
       | OpEvent ev \<Rightarrow>
           if \<not> meetsMinLevel (opc_MinLevel cfg) (te_Level ev) then s\<lparr>opn_skipped := opn_skipped s + 1\<rparr>
           else if opn_isDuplicate dw now (te_IP ev) s then s\<lparr>opn_skipped := opn_skipped s + 1\<rparr>
           else opn_add cfg cl dw now (te_IP ev) s
       | OpSweepTick \<Rightarrow> opn_sweep cl False now s)"

definition opn_init :: "'w \<Rightarrow> 'd \<Rightarrow> ('w, 'd) opn_state" where
  "opn_init w d = \<lparr>opn_banned = [], opn_dedup = d, opn_executed = 0, opn_skipped = 0, opn_errors = 0, opn_swept = 0,
     opn_world = w, opn_calls = [], opn_done = False\<rparr>"

definition opn_Run :: "opn_Config \<Rightarrow> 'w opn_client \<Rightarrow> 'd marking_window \<Rightarrow> gotime \<Rightarrow> (gotime \<times> opn_input) list \<Rightarrow> ('w, 'd) opn_state \<Rightarrow> ('w, 'd) opn_state" where
  "opn_Run cfg cl dw now inputs s = fold (opn_step cfg cl dw) inputs (opn_syncExisting cfg cl False now s)"

section \<open>Invariant\<close>

fun op_count :: "(bool \<times> bool) \<Rightarrow> opn_call \<Rightarrow> nat" where
  "op_count (add, b) (OpAdd ip b') = of_bool (add \<and> b = b')"
| "op_count (add, b) (OpDel ip b') = of_bool (\<not> add \<and> b = b')"

definition op_total :: "bool \<times> bool \<Rightarrow> opn_call list \<Rightarrow> nat" where
  "op_total k cs = sum_list (map (op_count k) cs)"

lemma op_total_simps [simp]: "op_total k [] = 0" "op_total k (cs @ [c]) = op_total k cs + op_count k c"
  by (simp_all add: op_total_def)

fun op_call_ok :: "string set \<Rightarrow> string set \<Rightarrow> opn_call \<Rightarrow> bool" where
  "op_call_ok own seen (OpAdd ip b) \<longleftrightarrow> ip \<in> seen"
| "op_call_ok own seen (OpDel ip b) \<longleftrightarrow> ip \<in> own \<union> seen"

definition opn_inv :: "string set \<Rightarrow> string set \<Rightarrow> ('w, 'd) opn_state \<Rightarrow> bool" where
  "opn_inv own seen s \<longleftrightarrow> gm_ok (opn_banned s) \<and> gm_dom (opn_banned s) \<subseteq> own \<union> seen
     \<and> list_all (op_call_ok own seen) (opn_calls s)
     \<and> opn_executed s = op_total (True, True) (opn_calls s) \<and> opn_swept s = op_total (False, True) (opn_calls s)
     \<and> opn_errors s = op_total (True, False) (opn_calls s) + op_total (False, False) (opn_calls s)"

definition opn_work :: "('w, 'd) opn_state \<Rightarrow> nat" where
  "opn_work s = opn_executed s + opn_skipped s + op_total (True, False) (opn_calls s)"

lemma opn_bans:
  "gm_ok m \<Longrightarrow> gm_ok (fold (opn_ban cfg now) ips m)"
  "gm_dom (fold (opn_ban cfg now) ips m) = gm_dom m \<union> set ips"
  by (induction ips arbitrary: m) (auto simp: opn_ban_def amap)

lemma opn_delete_keeps:
  assumes "opn_inv own seen s" "ip \<in> own \<union> seen"
  shows "opn_inv own seen (opn_delete_one cl ctx ip s) \<and> opn_work (opn_delete_one cl ctx ip s) = opn_work s"
  using assms
  by (cases "op_DeleteEntry cl ctx ip (opn_world s)")
     (auto simp: opn_delete_one_def opn_inv_def opn_work_def amap split: option.split)

lemma opn_deletes_keep:
  assumes "opn_inv own seen s" "set ips \<subseteq> own \<union> seen"
  shows "opn_inv own seen (fold (opn_delete_one cl ctx) ips s) \<and> opn_work (fold (opn_delete_one cl ctx) ips s) = opn_work s"
  using assms
proof (induction ips arbitrary: s)
  case (Cons ip ips)
  then show ?case using opn_delete_keeps [of own seen s ip cl ctx] by simp
qed simp

lemma opn_sweep_keeps:
  assumes "opn_inv own seen s"
  shows "opn_inv own seen (opn_sweep cl ctx now s) \<and> opn_work (opn_sweep cl ctx now s) = opn_work s"
proof -
  have "set (opn_expired now (opn_banned s)) \<subseteq> own \<union> seen"
    using assms by (auto simp: opn_expired_def opn_inv_def)
  then show ?thesis unfolding opn_sweep_def by (rule opn_deletes_keep [OF assms])
qed

lemma opn_add_keeps:
  assumes "opn_inv own seen s" "ip \<in> seen"
  shows "opn_inv own seen (opn_add cfg cl dw now ip s) \<and> opn_work (opn_add cfg cl dw now ip s) = opn_work s + 1"
  using assms
  by (cases "op_AddEntry cl False ip (opn_world s)")
     (auto simp: opn_add_def opn_inv_def opn_work_def opn_ban_def amap split: option.split)

section \<open>The run loop\<close>

definition opn_ok :: "opn_Config \<Rightarrow> string set \<Rightarrow> gotime \<times> opn_input \<Rightarrow> bool" where
  "opn_ok cfg seen ti \<longleftrightarrow>
    (case snd ti of OpEvent ev \<Rightarrow> meetsMinLevel (opc_MinLevel cfg) (te_Level ev) \<longrightarrow> te_IP ev \<in> seen | _ \<Rightarrow> True)"

definition opn_arrivals :: "gotime \<times> opn_input \<Rightarrow> nat" where
  "opn_arrivals ti = (case snd ti of OpEvent ev \<Rightarrow> 1 | _ \<Rightarrow> 0)"

lemma opn_step_keeps:
  assumes inv: "opn_inv own seen s" and ok: "opn_ok cfg seen ti" and live: "\<not> opn_done s"
  shows "opn_inv own seen (opn_step cfg cl dw ti s) \<and> opn_work (opn_step cfg cl dw ti s) = opn_work s + opn_arrivals ti"
proof (cases "snd ti")
  case (OpEvent ev)
  have skip: "opn_inv own seen (s\<lparr>opn_skipped := Suc (opn_skipped s)\<rparr>)" "opn_work (s\<lparr>opn_skipped := Suc (opn_skipped s)\<rparr>) = Suc (opn_work s)"
    using inv by (simp_all add: opn_inv_def opn_work_def)
  show ?thesis
    using OpEvent skip opn_add_keeps [OF inv, of "te_IP ev" cfg cl dw "fst ti"] ok live
    by (cases ti) (auto simp: opn_step_def opn_arrivals_def opn_ok_def)
next
  case OpSweepTick
  then show ?thesis
    using opn_sweep_keeps [OF inv, of cl False "fst ti"] live by (cases ti) (simp add: opn_step_def opn_arrivals_def)
qed (use inv live in \<open>cases ti, simp add: opn_step_def opn_arrivals_def opn_inv_def opn_work_def\<close>)+

lemma opn_step_done: "opn_done s \<Longrightarrow> opn_step cfg cl dw ti s = s"
  by (simp add: opn_step_def)

interpretation opnsense: accounting "opn_step cfg cl dw" "opn_inv own seen" "opn_ok cfg seen"
  opn_work opn_arrivals "\<lambda>s. \<not> opn_done s" for cfg cl dw own seen
proof unfold_locales
  fix s :: "('a, 'b) opn_state" and i
  show "opn_inv own seen s \<Longrightarrow> opn_ok cfg seen i \<Longrightarrow> opn_inv own seen (opn_step cfg cl dw i s)"
    using opn_step_keeps opn_step_done by metis
  show "opn_inv own seen s \<Longrightarrow> opn_ok cfg seen i \<Longrightarrow> \<not> opn_done s
      \<Longrightarrow> opn_work (opn_step cfg cl dw i s) = opn_work s + opn_arrivals i"
    using opn_step_keeps by blast
  show "\<not> \<not> opn_done s \<Longrightarrow> opn_step cfg cl dw i s = s"
    using opn_step_done by blast
qed

definition opn_listed :: "'w opn_client \<Rightarrow> 'w \<Rightarrow> string set" where
  "opn_listed cl w = (case fst (op_ListEntries cl False w) of Inl e \<Rightarrow> {} | Inr entries \<Rightarrow> set entries)"

definition opn_relevant :: "opn_Config \<Rightarrow> (gotime \<times> opn_input) list \<Rightarrow> string set" where
  "opn_relevant cfg inputs =
    {te_IP ev | ev. \<exists>t. (t, OpEvent ev) \<in> set inputs \<and> meetsMinLevel (opc_MinLevel cfg) (te_Level ev)}"

lemma opn_ok_relevant: "list_all (opn_ok cfg (opn_relevant cfg inputs)) inputs"
  by (auto simp: list_all_iff opn_ok_def opn_relevant_def split: opn_input.split) blast

lemma opn_start_inv:
  "opn_inv (opn_listed cl w) seen (opn_syncExisting cfg cl False now (opn_init w d))
   \<and> opn_work (opn_syncExisting cfg cl False now (opn_init w d)) = 0"
proof -
  obtain r w' where r: "op_ListEntries cl False w = (r, w')" by fastforce
  then show ?thesis
    by (cases r) (auto simp: opn_inv_def opn_work_def opn_syncExisting_def opn_init_def opn_listed_def opn_bans)
qed

lemma opn_Run_inv: "opn_inv (opn_listed cl w) (opn_relevant cfg inputs) (opn_Run cfg cl dw now inputs (opn_init w d))"
  unfolding opn_Run_def by (rule opnsense.run_inv [OF opn_start_inv [THEN conjunct1] opn_ok_relevant])

fun opn_events :: "gotime \<times> opn_input \<Rightarrow> ThreatEvent list" where
  "opn_events (t, OpEvent ev) = [ev]"
| "opn_events _ = []"

definition opn_requested :: "('w, 'd) opn_state \<Rightarrow> string set" where
  "opn_requested s = {ip. \<exists>b. OpAdd ip b \<in> set (opn_calls s)}"

interpretation opnsense_bans: ban_requests opn_events "opc_MinLevel cfg" "\<lambda>inputs. opn_requested (opn_Run cfg cl dw now inputs (opn_init w d))"
  for cfg cl dw now w d
proof
  fix ip inputs
  assume "ip \<in> opn_requested (opn_Run cfg cl dw now inputs (opn_init w d))"
  then obtain b where c: "OpAdd ip b \<in> set (opn_calls (opn_Run cfg cl dw now inputs (opn_init w d)))"
    unfolding opn_requested_def by blast
  have "list_all (op_call_ok (opn_listed cl w) (opn_relevant cfg inputs)) (opn_calls (opn_Run cfg cl dw now inputs (opn_init w d)))"
    using opn_Run_inv [of cl w cfg inputs dw now d] by (simp add: opn_inv_def)
  then have "op_call_ok (opn_listed cl w) (opn_relevant cfg inputs) (OpAdd ip b)" unfolding list_all_iff by (rule bspec [OF _ c])
  then have "ip \<in> opn_relevant cfg inputs" by simp
  then obtain t ev where e: "(t, OpEvent ev) \<in> set inputs" "meetsMinLevel (opc_MinLevel cfg) (te_Level ev)" "te_IP ev = ip"
    unfolding opn_relevant_def by blast
  show "\<exists>i \<in> set inputs. \<exists>ev \<in> set (opn_events i). meetsMinLevel (opc_MinLevel cfg) (te_Level ev) \<and> te_IP ev = ip"
    by (rule bexI [OF _ e(1)]) (simp add: e(2,3))
qed

lemma opn_sum_arrivals:
  "sum_list (map opn_arrivals inputs) = length (filter (\<lambda>ti. case snd ti of OpEvent ev \<Rightarrow> True | _ \<Rightarrow> False) inputs)"
  by (induction inputs) (auto simp: opn_arrivals_def split: opn_input.split)

section \<open>The table and the alias\<close>

text \<open>What the firewall promises for one alias with the entries \<open>E\<close>: a successful request has its
  effect, a failed one has none, and a listing shows the entries.\<close>

definition alias_laws :: "'w opn_client \<Rightarrow> ('w \<Rightarrow> string set) \<Rightarrow> bool" where
  "alias_laws cl E \<longleftrightarrow>
    (\<forall>ctx ip w. E (snd (op_AddEntry cl ctx ip w)) = (if fst (op_AddEntry cl ctx ip w) = None then insert ip (E w) else E w))
    \<and> (\<forall>ctx ip w. E (snd (op_DeleteEntry cl ctx ip w)) = (if fst (op_DeleteEntry cl ctx ip w) = None then E w - {ip} else E w))
    \<and> (\<forall>ctx w. E (snd (op_ListEntries cl ctx w)) = E w
        \<and> (case fst (op_ListEntries cl ctx w) of Inl e \<Rightarrow> True | Inr es \<Rightarrow> set es = E w))"

definition mirrored :: "('w \<Rightarrow> string set) \<Rightarrow> ('w, 'd) opn_state \<Rightarrow> bool" where
  "mirrored E s \<longleftrightarrow> E (opn_world s) = gm_dom (opn_banned s)"

lemma delete_mirrored:
  assumes "alias_laws cl E" "mirrored E s"
  shows "mirrored E (opn_delete_one cl ctx ip s)"
proof -
  obtain r w where r: "op_DeleteEntry cl ctx ip (opn_world s) = (r, w)" by fastforce
  then have "E w = (if r = None then E (opn_world s) - {ip} else E (opn_world s))"
    using assms(1) unfolding alias_laws_def by (metis fst_conv snd_conv)
  then show ?thesis
    using assms(2) r by (cases r) (simp_all add: mirrored_def opn_delete_one_def amap)
qed

lemma add_mirrored:
  assumes "alias_laws cl E" "mirrored E s"
  shows "mirrored E (opn_add cfg cl dw now ip s)"
proof -
  obtain r w where r: "op_AddEntry cl False ip (opn_world s) = (r, w)" by fastforce
  then have "E w = (if r = None then insert ip (E (opn_world s)) else E (opn_world s))"
    using assms(1) unfolding alias_laws_def by (metis fst_conv snd_conv)
  then show ?thesis
    using assms(2) r by (cases r) (simp_all add: mirrored_def opn_add_def opn_ban_def amap)
qed

lemma deletes_mirrored:
  "alias_laws cl E \<Longrightarrow> mirrored E s \<Longrightarrow> mirrored E (fold (opn_delete_one cl ctx) ips s)"
  by (induction ips arbitrary: s) (simp_all add: delete_mirrored)

lemma step_mirrored:
  assumes "alias_laws cl E" "mirrored E s"
  shows "mirrored E (opn_step cfg cl dw ti s)"
proof -
  have "mirrored E (s\<lparr>opn_done := f\<rparr>)" "mirrored E (s\<lparr>opn_skipped := n\<rparr>)" for f n
    using assms(2) by (simp_all add: mirrored_def)
  then show ?thesis
    using assms by (cases ti) (simp add: opn_step_def opn_sweep_def add_mirrored deletes_mirrored split: opn_input.split)
qed

lemma alias_step_system: "alias_laws cl E \<Longrightarrow> step_system (opn_step cfg cl dw) (mirrored E) (\<lambda>ti. True)"
  by unfold_locales (rule step_mirrored)

text \<open>A sweep asks once for every expired ban, and drops exactly those whose deletion succeeded.\<close>

lemma deletes_effect:
  "\<exists>bs. length bs = length ips
     \<and> opn_calls (fold (opn_delete_one cl ctx) ips s) = opn_calls s @ map2 OpDel ips bs
     \<and> (\<forall>ip. map_of (opn_banned (fold (opn_delete_one cl ctx) ips s)) ip
          = (if (ip, True) \<in> set (zip ips bs) then None else map_of (opn_banned s) ip))"
proof (induction ips arbitrary: s)
  case (Cons i ips)
  let ?t = "opn_delete_one cl ctx i s"
  define b where "b = (fst (op_DeleteEntry cl ctx i (opn_world s)) = None)"
  have t: "opn_calls ?t = opn_calls s @ [OpDel i b]" "opn_banned ?t = (if b then AList.delete i (opn_banned s) else opn_banned s)"
    by (auto simp: b_def opn_delete_one_def split: prod.split option.split)
  obtain bs where bs: "length bs = length ips" "opn_calls (fold (opn_delete_one cl ctx) ips ?t) = opn_calls ?t @ map2 OpDel ips bs"
    "\<forall>ip. map_of (opn_banned (fold (opn_delete_one cl ctx) ips ?t)) ip
      = (if (ip, True) \<in> set (zip ips bs) then None else map_of (opn_banned ?t) ip)"
    using Cons.IH [of ?t] by blast
  show ?case
    using bs by (intro exI [of _ "b # bs"]) (auto simp: t gm_get_delete)
qed simp

lemma opn_expired_iff:
  assumes "gm_ok m"
  shows "ip \<in> set (opn_expired now m) \<longleftrightarrow> (\<exists>rec. map_of m ip = Some rec \<and> pb_expireAt rec \<le> now)"
  using assms by (force simp: opn_expired_def not_less)

lemma parseResult_ok:
  "parseResult raw = None \<longleftrightarrow> (\<exists>j env. raw = Some j
     \<and> unmarshal_struct envelope_fields j \<lparr>re_Result = [], re_Message = []\<rparr> = Some env \<and> re_Result env \<in> {''saved'', ''ok''})"
  by (simp add: parseResult_def split: option.split)

section \<open>Properties\<close>


text \<open>Every request to add comes from an event of the required level, every request to delete
  concerns such an address or one listed at the start, and every event is executed, skipped or
  counted as a failed addition at once.\<close>

theorem opnsense_requests:
  assumes "\<not> opn_done (opn_Run cfg cl dw now (butlast inputs) (opn_init w d))"
  shows "let s = opn_Run cfg cl dw now inputs (opn_init w d)
   in list_all (op_call_ok (opn_listed cl w) (opn_relevant cfg inputs)) (opn_calls s)
    \<and> opn_executed s + opn_skipped s + op_total (True, False) (opn_calls s)
        = length (filter (\<lambda>ti. case snd ti of OpEvent ev \<Rightarrow> True | _ \<Rightarrow> False) inputs)
    \<and> opn_errors s = op_total (True, False) (opn_calls s) + op_total (False, False) (opn_calls s)"
proof -
  let ?start = "opn_syncExisting cfg cl False now (opn_init w d)" and ?s = "opn_Run cfg cl dw now inputs (opn_init w d)"
  have "opn_work ?s = opn_work ?start + sum_list (map opn_arrivals inputs)"
    unfolding opn_Run_def
    by (rule opnsense.run_weight_active [OF opn_start_inv [THEN conjunct1] opn_ok_relevant])
       (rule assms [unfolded opn_Run_def])
  also have "\<dots> = length (filter (\<lambda>ti. case snd ti of OpEvent ev \<Rightarrow> True | _ \<Rightarrow> False) inputs)"
    by (simp only: opn_start_inv [THEN conjunct2] opn_sum_arrivals add_0)
  finally show ?thesis
    using opn_Run_inv [of cl w cfg inputs dw now d] unfolding opn_inv_def opn_work_def Let_def by blast
qed

text \<open>A sweep makes one request for every ban that has expired and no other; exactly the bans
  whose deletion succeeded leave the table.\<close>

theorem opnsense_sweep_exact:
  assumes "gm_ok (opn_banned s)"
  shows "\<exists>bs. let t = opn_sweep cl ctx now s; ex = opn_expired now (opn_banned s)
    in length bs = length ex \<and> opn_calls t = opn_calls s @ map2 OpDel ex bs
     \<and> (\<forall>ip. ip \<in> set ex \<longleftrightarrow> (\<exists>rec. map_of (opn_banned s) ip = Some rec \<and> pb_expireAt rec \<le> now))
     \<and> (\<forall>ip. map_of (opn_banned t) ip = (if (ip, True) \<in> set (zip ex bs) then None else map_of (opn_banned s) ip))"
  unfolding opn_sweep_def Let_def
  using deletes_effect [of "opn_expired now (opn_banned s)" cl ctx s] opn_expired_iff [OF assms] by blast

text \<open>A request counts as successful exactly when the firewall answered with a success status
  and a JSON document whose result is \<open>saved\<close> or \<open>ok\<close>.\<close>

theorem opnsense_success_iff:
  "fst (opn_post cfg http endpoint ctx ip w) = None \<longleftrightarrow>
    (\<exists>status j env. fst (http ctx \<lparr>rs_method = ''POST'', rs_path = ''/api/firewall/alias_util/'' @ endpoint @ ''/'' @ PathEscape (opc_AliasName cfg),
         rs_body = Some (JObj [(''address'', JStr ip)])\<rparr> w) = Answer status (Some j)
      \<and> 200 \<le> status \<and> status < 300
      \<and> unmarshal_struct envelope_fields j \<lparr>re_Result = [], re_Message = []\<rparr> = Some env \<and> re_Result env \<in> {''saved'', ''ok''})"
proof -
  define rq where "rq = \<lparr>rs_method = ''POST'', rs_path = ''/api/firewall/alias_util/'' @ endpoint @ ''/'' @ PathEscape (opc_AliasName cfg),
         rs_body = Some (JObj [(''address'', JStr ip)])\<rparr>"
  obtain r w' where r: "http ctx rq w = (r, w')" by fastforce
  have post: "fst (opn_post cfg http endpoint ctx ip w) = (case r of
      NoAnswer e \<Rightarrow> Some e | Answer status raw \<Rightarrow> if status_2xx status then parseResult raw else Some ''unexpected status'')"
    unfolding opn_post_def opn_doRequest_def rq_def [symmetric] r by (cases r) simp_all
  show ?thesis
    unfolding post rq_def [symmetric] r fst_conv by (cases r) (auto simp: parseResult_ok status_2xx_def)
qed

text \<open>The entries of an alias, written one per line as the firewall shows them, are read back
  exactly.\<close>

theorem opnsense_list_roundtrip:
  assumes "list_all (\<lambda>ip. ip \<noteq> [] \<and> trim_space ip = ip \<and> CHR 0x0A \<notin> set ip) ips"
  shows "parseListEntries (Some (JObj [(''content'', JStr (str_join ips [CHR 0x0A]))])) = Inr ips"
proof (cases "ips = []")
  case True
  then show ?thesis by (simp add: parseListEntries_def unmarshal_struct_def list_fields_def find_field_def j_string_def)
next
  case False
  have "str_join ips [CHR 0x0A] \<noteq> []" using assms False by (auto simp: str_join_Nil_iff)
  moreover have "split_on (CHR 0x0A) (str_join ips [CHR 0x0A]) = ips"
    using assms False by (intro split_join) (auto simp: list_all_iff)
  moreover have "nonblank ips = ips"
    using assms by (induction ips) (simp_all add: nonblank_def)
  ultimately show ?thesis
    by (simp add: parseListEntries_def unmarshal_struct_def list_fields_def find_field_def j_string_def)
qed

section \<open>Witnesses\<close>

text \<open>A firewall with one alias of at most two entries: a third one is refused.\<close>

definition demo_alias :: "string list opn_client" where
  "demo_alias = \<lparr>op_AddEntry = (\<lambda>ctx ip w. if length w \<ge> 2 \<and> ip \<notin> set w then (Some ''table full'', w) else (None, List.insert ip w)),
     op_DeleteEntry = (\<lambda>ctx ip w. (None, removeAll ip w)), op_ListEntries = (\<lambda>ctx w. (Inr w, w))\<rparr>"

definition demo_opn_cfg :: opn_Config where
  "demo_opn_cfg = opn_defaultConfig\<lparr>opc_AliasName := ''bad'', opc_TTL := 3600 * second\<rparr>"

definition demo_window :: "unit marking_window" where
  "demo_window = \<lparr>win_Contains = (\<lambda>now ip d. False), win_MarkBatch = (\<lambda>now ips d. d), win_Mark = (\<lambda>now ip d. d)\<rparr>"

definition demo_opn_inputs :: "(gotime \<times> opn_input) list" where
  "demo_opn_inputs = [(1, OpEvent (blank_event\<lparr>te_IP := ''192.0.2.7'', te_Level := ''THREAT''\<rparr>)),
     (2, OpEvent (blank_event\<lparr>te_IP := ''192.0.2.8'', te_Level := ''THREAT''\<rparr>)), (7200 * second, OpSweepTick)]"

lemma demo_alias_laws: "alias_laws demo_alias set"
  by (auto simp: alias_laws_def demo_alias_def)


text \<open>In that run the second address is refused, and the sweep empties the alias.\<close>

lemma demo_opn_run:
  "opn_calls (opn_Run demo_opn_cfg demo_alias demo_window 0 demo_opn_inputs (opn_init [''192.0.2.1''] ()))
    = [OpAdd ''192.0.2.7'' True, OpAdd ''192.0.2.8'' False, OpDel ''192.0.2.1'' True, OpDel ''192.0.2.7'' True]"
  "opn_world (opn_Run demo_opn_cfg demo_alias demo_window 0 demo_opn_inputs (opn_init [''192.0.2.1''] ())) = []"
  by code_simp+

lemma demo_opn_live: "\<not> opn_done (opn_Run demo_opn_cfg demo_alias demo_window 0 (butlast demo_opn_inputs) (opn_init [''192.0.2.1''] ()))"
  by code_simp

theorem opnsense_requests_witness:
  "let s = opn_Run demo_opn_cfg demo_alias demo_window 0 demo_opn_inputs (opn_init [''192.0.2.1''] ())
   in opn_executed s + opn_skipped s + op_total (True, False) (opn_calls s) = 2"
  using opnsense_requests [OF demo_opn_live] by (simp add: Let_def demo_opn_inputs_def)

theorem opnsense_sweep_exact_witness:
  "\<exists>bs. length bs = 1 \<and> opn_calls (opn_sweep demo_alias False (7200 * second)
      ((opn_init [''192.0.2.1''] ())\<lparr>opn_banned := opn_ban demo_opn_cfg 0 ''192.0.2.1'' []\<rparr>)) = map2 OpDel [''192.0.2.1''] bs"
proof -
  let ?s = "(opn_init [''192.0.2.1''] ())\<lparr>opn_banned := opn_ban demo_opn_cfg 0 ''192.0.2.1'' []\<rparr>"
  have "opn_expired (7200 * second) (opn_banned ?s) = [''192.0.2.1'']" "gm_ok (opn_banned ?s)" "opn_calls ?s = []"
    by code_simp+
  then show ?thesis using opnsense_sweep_exact [of ?s demo_alias False "7200 * second"] by (auto simp: Let_def)
qed

theorem opnsense_list_roundtrip_witness:
  "parseListEntries (Some (JObj [(''content'', JStr (str_join [''192.0.2.1'', ''10.0.0.0/24''] [CHR 0x0A]))]))
    = Inr [''192.0.2.1'', ''10.0.0.0/24'']"
  by (rule opnsense_list_roundtrip) code_simp

text \<open>When the first listing fails, nothing that was in the alias before is ever removed: the sweep
  does not list again.\<close>

lemma opnsense_sync_not_retried:
  assumes "op_ListEntries cl False w = (Inl e, w')"
  shows "\<forall>ip b. OpDel ip b \<in> set (opn_calls (opn_Run cfg cl dw now inputs (opn_init w d))) \<longrightarrow> ip \<in> opn_relevant cfg inputs"
  using opn_Run_inv [of cl w cfg inputs dw now d] assms by (force simp: opn_inv_def list_all_iff opn_listed_def)

end
