(* ===== verification/ExecConfig.thy ===== *)
theory ExecConfig
  imports Json Mikrotik Nginx Cloudflare Openwrt Opnsense
begin

text \<open>
  Decoding of the \<open>config:\<close> block of an executor, \<open>parseConfig\<close> of the packages under
  \<open>pkg/executorplugins\<close>: MikroTik, nginx and Cloudflare here, OpenWrt and OPNsense in their own
  theories.  Durations are taken out of the mapping first, the rest goes through JSON onto
  the defaults, and required settings are checked.

  Shown: for keys written in lower case, each setting of an accepted configuration is the
  one of the file, or the default; what acceptance guarantees.  A duration given as
  a float is ignored by the three older executors, and a flush interval that is not
  positive is accepted by all.
\<close>

section \<open>MikroTik\<close>

record mk_Settings = mk_Config +
  mks_Host :: string
  mks_Port :: int
  mks_Username :: string
  mks_Password :: string
  mks_TLSVerify :: bool
  mks_CAFile :: string
  mks_UseTLS :: bool
  mks_FlushInterval :: duration
  mks_DedupWindow :: duration

definition mk_defaultConfig :: mk_Settings where
  "mk_defaultConfig = \<lparr>mkc_ListName = ''arxsentinel_blocklist'', mkc_TTL = 86400 * second, mkc_SentinelID = [], mkc_BatchSize = 10,
     mkc_MinLevel = ''THREAT'', mks_Host = [], mks_Port = 443, mks_Username = [], mks_Password = [], mks_TLSVerify = True,
     mks_CAFile = [], mks_UseTLS = True, mks_FlushInterval = 30 * second, mks_DedupWindow = 0\<rparr>"

definition mk_durations :: "(string \<times> (yaml \<Rightarrow> mk_Settings \<Rightarrow> mk_Settings option)) list" where
  "mk_durations =
    [(''ttl'', switch_duration mkc_TTL mkc_TTL_update), (''flush_interval'', switch_duration mks_FlushInterval mks_FlushInterval_update),
     (''dedup_window'', switch_duration mks_DedupWindow mks_DedupWindow_update)]"

definition mk_fields :: "mk_Settings fields" where
  "mk_fields =
    [(''host'', j_string mks_Host_update), (''port'', j_int mks_Port_update), (''username'', j_string mks_Username_update),
     (''password'', j_string mks_Password_update), (''list_name'', j_string mkc_ListName_update),
     (''sentinel_id'', j_string mkc_SentinelID_update), (''tls_verify'', j_bool mks_TLSVerify_update),
     (''ca_file'', j_string mks_CAFile_update), (''use_tls'', j_bool mks_UseTLS_update),
     (''batch_size'', j_int mkc_BatchSize_update), (''min_level'', j_string mkc_MinLevel_update)]"

definition mk_checks :: "mk_Settings \<Rightarrow> exec_error + unit" where
  "mk_checks cfg = first_error
    [guard (mks_Host cfg = []) (Rejected ''host''),
     guard (mks_Username cfg = []) (Rejected ''username''),
     guard (mks_Password cfg = []) (Rejected ''password''),
     guard (mkc_SentinelID cfg = []) (Rejected ''sentinel_id''),
     guard (map_of levelOrder (mkc_MinLevel cfg) = None) (Rejected ''min_level'')]"

definition mk_parseConfig :: "raw_config \<Rightarrow> exec_error + mk_Settings" where
  "mk_parseConfig raw = decode_config mk_durations mk_fields mk_checks raw mk_defaultConfig"

section \<open>nginx\<close>

record ng_Settings = ng_Config +
  ngs_FlushInterval :: duration
  ngs_ReloadTimeout :: duration

definition ng_DefaultConfig :: ng_Settings where
  "ng_DefaultConfig = \<lparr>ngc_ListFile = [], ngc_StateFile = [], ngc_MinLevel = ''THREAT'', ngc_TTL = 86400 * second, ngc_BatchSize = 10,
     ngc_ReloadCmd = [], ngc_FileFormat = ''geo'', ngs_FlushInterval = 30 * second, ngs_ReloadTimeout = 30 * second\<rparr>"

definition ng_durations :: "(string \<times> (yaml \<Rightarrow> ng_Settings \<Rightarrow> ng_Settings option)) list" where
  "ng_durations =
    [(''ttl'', switch_duration ngc_TTL ngc_TTL_update), (''flush_interval'', switch_duration ngs_FlushInterval ngs_FlushInterval_update),
     (''reload_timeout'', switch_duration ngs_ReloadTimeout ngs_ReloadTimeout_update)]"

definition ng_fields :: "ng_Settings fields" where
  "ng_fields =
    [(''list_file'', j_string ngc_ListFile_update), (''state_file'', j_string ngc_StateFile_update),
     (''min_level'', j_string ngc_MinLevel_update), (''batch_size'', j_int ngc_BatchSize_update),
     (''reload_cmd'', j_string ngc_ReloadCmd_update), (''file_format'', j_string ngc_FileFormat_update)]"

definition ng_checks :: "ng_Settings \<Rightarrow> exec_error + unit" where
  "ng_checks cfg = first_error
    [guard (ngc_ListFile cfg = []) (Rejected ''list_file''),
     guard (map_of levelOrder (ngc_MinLevel cfg) = None) (Rejected ''min_level''),
     guard (ngc_FileFormat cfg \<notin> set [[], ''geo'', ''deny'']) (Rejected ''file_format'')]"

definition ng_parseConfig :: "raw_config \<Rightarrow> exec_error + ng_Settings" where
  "ng_parseConfig raw =
    (case decode_config ng_durations ng_fields ng_checks raw ng_DefaultConfig of
       Inl e \<Rightarrow> Inl e
     | Inr cfg \<Rightarrow> Inr (if ngc_FileFormat cfg = [] then cfg\<lparr>ngc_FileFormat := ''geo''\<rparr> else cfg))"

section \<open>Cloudflare\<close>

record cf_Settings = cfx_Config +
  cfs_APIToken :: string
  cfs_AccountID :: string
  cfs_MaxItems :: int
  cfs_DedupWindow :: duration
  cfs_FlushInterval :: duration
  cfs_APIBaseURL :: string

definition cf_DefaultConfig :: cf_Settings where
  "cf_DefaultConfig = \<lparr>cfc_ListName = ''arxsentinel_blocklist'', cfc_MinLevel = ''THREAT'', cfc_TTL = 86400 * second, cfc_BatchSize = 100,
     cfc_CommentExtra = [], cfc_InstanceID = [], cfs_APIToken = [], cfs_AccountID = [], cfs_MaxItems = 0, cfs_DedupWindow = 0,
     cfs_FlushInterval = 10 * second, cfs_APIBaseURL = []\<rparr>"

definition cf_durations :: "(string \<times> (yaml \<Rightarrow> cf_Settings \<Rightarrow> cf_Settings option)) list" where
  "cf_durations =
    [(''ttl'', switch_duration cfc_TTL cfc_TTL_update), (''dedup_window'', switch_duration cfs_DedupWindow cfs_DedupWindow_update),
     (''flush_interval'', switch_duration cfs_FlushInterval cfs_FlushInterval_update)]"

text \<open>The comment suffix, when it is a string: trimmed, line breaks and tabs made blanks, cut to 50
  bytes.\<close>

definition comment_extra :: "string \<Rightarrow> string" where
  "comment_extra v = take 50 (map (\<lambda>c. if c \<in> {CHR 0x0A, CHR 0x09, CHR 0x0D} then CHR '' '' else c) (trim_space v))"

definition take_comment :: "raw_config \<times> cf_Settings \<Rightarrow> raw_config \<times> cf_Settings" where
  "take_comment rc =
    (let (raw, cfg) = rc
     in case map_of raw ''comment_extra'' of
          Some (YStr v) \<Rightarrow> (AList.delete ''comment_extra'' raw, cfg\<lparr>cfc_CommentExtra := comment_extra v\<rparr>)
        | _ \<Rightarrow> (raw, cfg))"

definition cf_fields :: "cf_Settings fields" where
  "cf_fields =
    [(''api_token'', j_string cfs_APIToken_update), (''account_id'', j_string cfs_AccountID_update),
     (''list_name'', j_string cfc_ListName_update), (''min_level'', j_string cfc_MinLevel_update),
     (''max_items'', j_int cfs_MaxItems_update), (''batch_size'', j_int cfc_BatchSize_update),
     (''instance_id'', j_string cfc_InstanceID_update), (''comment_extra'', j_string cfc_CommentExtra_update),
     (''api_base_url'', j_string cfs_APIBaseURL_update)]"

definition cf_checks :: "cf_Settings \<Rightarrow> exec_error + unit" where
  "cf_checks cfg = first_error
    [guard (cfs_APIToken cfg = []) (Rejected ''api_token''),
     guard (cfs_AccountID cfg = []) (Rejected ''account_id''),
     guard (map_of levelOrder (cfc_MinLevel cfg) = None) (Rejected ''min_level'')]"

text \<open>The durations are extracted before the comment; the two steps concern different keys.\<close>

definition cf_parseConfig :: "raw_config \<Rightarrow> exec_error + cf_Settings" where
  "cf_parseConfig raw =
    (case take_durations cf_durations (raw, cf_DefaultConfig) of
       Inl e \<Rightarrow> Inl e
     | Inr rc \<Rightarrow>
         (case json_fields cf_fields (take_comment rc) of
            Inl e \<Rightarrow> Inl e
          | Inr c \<Rightarrow> (case cf_checks c of Inl e \<Rightarrow> Inl e | Inr u \<Rightarrow> Inr c)))"

section \<open>Settings come from the file\<close>

lemmas table_simps = writes_only_def lower_keys_def to_lower_def char_lower_def keeps_fieldI keeps_settingI

lemma mk_table:
  "writes_only ''sentinel_id'' mkc_SentinelID mk_durations mk_fields" "writes_only ''list_name'' mkc_ListName mk_durations mk_fields"
  "writes_only ''min_level'' mkc_MinLevel mk_durations mk_fields" "writes_only ''batch_size'' mkc_BatchSize mk_durations mk_fields"
  "writes_only ''ttl'' mkc_TTL mk_durations mk_fields" "writes_only ''tls_verify'' mks_TLSVerify mk_durations mk_fields"
  by (simp_all add: table_simps mk_durations_def mk_fields_def)

lemma mk_parse_settings:
  assumes "mk_parseConfig raw = Inr cfg" "gm_ok raw" "lower_keys raw"
  shows "mkc_SentinelID cfg = string_setting raw ''sentinel_id'' []"
    "mkc_ListName cfg = string_setting raw ''list_name'' ''arxsentinel_blocklist''"
    "mkc_MinLevel cfg = string_setting raw ''min_level'' ''THREAT''"
    "mkc_BatchSize cfg = int_setting raw ''batch_size'' 10"
    "mkc_TTL cfg = duration_setting raw ''ttl'' (86400 * second)"
    "mks_TLSVerify cfg = bool_setting raw ''tls_verify'' True"
proof -
  note d = decoded_setting [OF assms(1) [unfolded mk_parseConfig_def] assms(2,3)]
  have dflt: "mkc_SentinelID mk_defaultConfig = []" "mkc_ListName mk_defaultConfig = ''arxsentinel_blocklist''"
    "mkc_MinLevel mk_defaultConfig = ''THREAT''" "mkc_BatchSize mk_defaultConfig = 10" "mkc_TTL mk_defaultConfig = 86400 * second"
    "mks_TLSVerify mk_defaultConfig"
    by (simp_all add: mk_defaultConfig_def)
  show "mkc_SentinelID cfg = string_setting raw ''sentinel_id'' []"
    using d(1) [OF mk_table(1)] by (simp add: mk_fields_def dflt)
  show "mkc_ListName cfg = string_setting raw ''list_name'' ''arxsentinel_blocklist''"
    using d(1) [OF mk_table(2)] by (simp add: mk_fields_def dflt)
  show "mkc_MinLevel cfg = string_setting raw ''min_level'' ''THREAT''"
    using d(1) [OF mk_table(3)] by (simp add: mk_fields_def dflt)
  show "mkc_BatchSize cfg = int_setting raw ''batch_size'' 10"
    using d(2) [OF mk_table(4)] by (simp add: mk_fields_def dflt)
  show "mkc_TTL cfg = duration_setting raw ''ttl'' (86400 * second)"
    using d(4) [OF mk_table(5)] by (simp add: mk_durations_def dflt)
  show "mks_TLSVerify cfg = bool_setting raw ''tls_verify'' True"
    using d(3) [OF mk_table(6)] by (simp add: mk_fields_def dflt)
qed

lemma ow_table:
  "writes_only ''ipset_name'' owc_IPSetName ow_durations ow_fields" "writes_only ''ttl'' owc_TTL ow_durations ow_fields"
  "writes_only ''session_timeout'' owc_SessionTimeout ow_durations ow_fields" "writes_only ''min_level'' owc_MinLevel ow_durations ow_fields"
  "writes_only ''batch_size'' owc_BatchSize ow_durations ow_fields"
  by (simp_all add: table_simps ow_durations_def ow_fields_def)

lemma opn_table:
  "writes_only ''alias_name'' opc_AliasName opn_durations opn_fields" "writes_only ''ttl'' opc_TTL opn_durations opn_fields"
  "writes_only ''min_level'' opc_MinLevel opn_durations opn_fields" "writes_only ''tls_verify'' opc_TLSVerify opn_durations opn_fields"
  by (simp_all add: table_simps opn_durations_def opn_fields_def)

lemma opn_checks_iff:
  "opn_checks cfg = Inr () \<longleftrightarrow> opc_Host cfg \<noteq> [] \<and> opc_APIKey cfg \<noteq> [] \<and> opc_APISecret cfg \<noteq> [] \<and> opc_AliasName cfg \<noteq> []
    \<and> 0 < opc_TTL cfg \<and> opc_Scheme cfg \<in> set validSchemes \<and> map_of levelOrder (opc_MinLevel cfg) \<noteq> None"
  by (auto simp: opn_checks_def check_simps)

text \<open>A MikroTik configuration that is accepted has a sentinel id and a known level, and, for
  keys in lower case, the list, the identifier, the level, the batch size, the ban time and the
  certificate check are those of the file, or the defaults where the file says nothing.\<close>

theorem mikrotik_config_exact:
  assumes "mk_parseConfig raw = Inr cfg" "gm_ok raw" "lower_keys raw"
  shows "mkc_SentinelID cfg \<noteq> [] \<and> map_of levelOrder (mkc_MinLevel cfg) \<noteq> None
    \<and> mkc_SentinelID cfg = string_setting raw ''sentinel_id'' []
    \<and> mkc_ListName cfg = string_setting raw ''list_name'' ''arxsentinel_blocklist''
    \<and> mkc_MinLevel cfg = string_setting raw ''min_level'' ''THREAT''
    \<and> mkc_BatchSize cfg = int_setting raw ''batch_size'' 10
    \<and> mkc_TTL cfg = duration_setting raw ''ttl'' (86400 * second)
    \<and> mks_TLSVerify cfg = bool_setting raw ''tls_verify'' True"
proof -
  have "mk_checks cfg = Inr ()" using assms(1) unfolding mk_parseConfig_def by (rule decode_checked)
  then have "mkc_SentinelID cfg \<noteq> []" "map_of levelOrder (mkc_MinLevel cfg) \<noteq> None"
    by (simp_all add: mk_checks_def check_simps)
  then show ?thesis using mk_parse_settings [OF assms] by blast
qed

definition demo_mk_raw :: raw_config where
  "demo_mk_raw = [(''host'', YStr ''r''), (''username'', YStr ''u''), (''password'', YStr ''p''), (''sentinel_id'', YStr ''a''), (''ttl'', YInt 60)]"

lemma demo_mk_parsed:
  "mk_parseConfig demo_mk_raw = Inr (mk_defaultConfig\<lparr>mks_Host := ''r'', mks_Username := ''u'', mks_Password := ''p'',
     mkc_SentinelID := ''a'', mkc_TTL := 60 * second\<rparr>)" "gm_ok demo_mk_raw" "lower_keys demo_mk_raw"
  by code_simp+

theorem mikrotik_config_exact_witness:
  "duration_setting demo_mk_raw ''ttl'' (86400 * second) = 60 * second \<and> string_setting demo_mk_raw ''sentinel_id'' [] = ''a''"
  using mikrotik_config_exact [OF demo_mk_parsed] by (simp add: mk_defaultConfig_def)

text \<open>An OpenWrt or OPNsense configuration that is accepted has a positive ban time, a known
  level, a scheme and a target; for keys in lower case the target, the ban time and the level are
  those of the file.\<close>

theorem firewall_configs_exact:
  assumes "ow_parseConfig raw = Inr cfg" "opn_parseConfig raw' = Inr cfg'"
    and "gm_ok raw" "lower_keys raw" "gm_ok raw'" "lower_keys raw'"
  shows "0 < owc_TTL cfg \<and> 0 < owc_SessionTimeout cfg \<and> map_of levelOrder (owc_MinLevel cfg) \<noteq> None
    \<and> owc_Scheme cfg \<in> {''http'', ''https''} \<and> owc_IPSetName cfg \<noteq> []
    \<and> owc_IPSetName cfg = string_setting raw ''ipset_name'' [] \<and> owc_TTL cfg = any_duration_setting raw ''ttl'' 0
    \<and> owc_MinLevel cfg = string_setting raw ''min_level'' ''THREAT''
    \<and> 0 < opc_TTL cfg' \<and> map_of levelOrder (opc_MinLevel cfg') \<noteq> None \<and> opc_Scheme cfg' \<in> {''http'', ''https''} \<and> opc_AliasName cfg' \<noteq> []
    \<and> opc_AliasName cfg' = string_setting raw' ''alias_name'' [] \<and> opc_TTL cfg' = any_duration_setting raw' ''ttl'' 0
    \<and> opc_TLSVerify cfg' = bool_setting raw' ''tls_verify'' True"
proof -
  note d = decoded_setting [OF assms(1) [unfolded ow_parseConfig_def] assms(3,4)]
  note d' = decoded_setting [OF assms(2) [unfolded opn_parseConfig_def] assms(5,6)]
  have "owc_IPSetName cfg = string_setting raw ''ipset_name'' []" "owc_TTL cfg = any_duration_setting raw ''ttl'' 0"
    "owc_MinLevel cfg = string_setting raw ''min_level'' ''THREAT''"
    using d(1) [OF ow_table(1)] d(5) [OF ow_table(2)] d(1) [OF ow_table(4)]
    by (simp_all add: ow_fields_def ow_durations_def ow_defaultConfig_def)
  moreover have "opc_AliasName cfg' = string_setting raw' ''alias_name'' []" "opc_TTL cfg' = any_duration_setting raw' ''ttl'' 0"
    "opc_TLSVerify cfg' = bool_setting raw' ''tls_verify'' True"
    using d'(1) [OF opn_table(1)] d'(5) [OF opn_table(2)] d'(3) [OF opn_table(4)]
    by (simp_all add: opn_fields_def opn_durations_def opn_defaultConfig_def)
  moreover have "opn_checks cfg' = Inr ()" using assms(2) unfolding opn_parseConfig_def by (rule decode_checked)
  ultimately show ?thesis
    using ow_parse_checked [OF assms(1)] unfolding ow_checks_iff opn_checks_iff by (simp add: validSchemes_def)
qed

definition demo_opn_raw :: raw_config where
  "demo_opn_raw = [(''host'', YStr ''f''), (''api_key'', YStr ''k''), (''api_secret'', YStr ''s''), (''alias_name'', YStr ''bad''), (''ttl'', YInt 60)]"

lemma demo_opn_parsed:
  "opn_parseConfig demo_opn_raw = Inr (opn_defaultConfig\<lparr>opc_Host := ''f'', opc_APIKey := ''k'', opc_APISecret := ''s'',
     opc_AliasName := ''bad'', opc_TTL := 60 * second\<rparr>)"
  "gm_ok demo_ow_raw" "lower_keys demo_ow_raw" "gm_ok demo_opn_raw" "lower_keys demo_opn_raw"
  by code_simp+

theorem firewall_configs_exact_witness:
  "string_setting demo_ow_raw ''ipset_name'' [] = ''bl'' \<and> any_duration_setting demo_opn_raw ''ttl'' 0 = 60 * second"
  using firewall_configs_exact [OF demo_ow_parsed demo_opn_parsed] by (simp add: demo_ow_cfg_def opn_defaultConfig_def)

text \<open>The suffix of a Cloudflare comment is short and on one line.\<close>

lemma comment_extra_bounded: "length (comment_extra v) \<le> 50 \<and> set (comment_extra v) \<inter> {CHR 0x0A, CHR 0x09, CHR 0x0D} = {}"
  by (auto simp: comment_extra_def dest!: in_set_takeD split: if_splits)

text \<open>A ban time written as a float is ignored without an error, and a flush interval of zero is
  accepted by the executors that start a ticker with it.\<close>

lemma float_ttl_ignored:
  "map_option mkc_TTL (case mk_parseConfig (AList.update ''ttl'' (YFloat 60) demo_mk_raw) of Inl e \<Rightarrow> None | Inr c \<Rightarrow> Some c) = Some (86400 * second)"
  by code_simp

lemma zero_flush_accepted:
  "map_option ngs_FlushInterval (case ng_parseConfig [(''list_file'', YStr ''/l''), (''flush_interval'', YInt 0)] of Inl e \<Rightarrow> None | Inr c \<Rightarrow> Some c) = Some 0"
  "map_option cfs_FlushInterval (case cf_parseConfig [(''api_token'', YStr ''t''), (''account_id'', YStr ''a''), (''flush_interval'', YInt 0)] of
     Inl e \<Rightarrow> None | Inr c \<Rightarrow> Some c) = Some 0"
  by code_simp+

end
