(* ===== verification/RestClients.thy ===== *)
theory RestClients
  imports Json Mikrotik Cloudflare
begin

text \<open>
  The REST clients of the MikroTik and the Cloudflare executor,
  \<open>pkg/executorplugins/{mikrotik,cloudflare}/client.go\<close>, and the \<open>cleanup\<close> command,
  \<open>cmd/arxsentinel/cleanup.go\<close>, which works on the Cloudflare client.

  The HTTP transport is an argument: the answer of the service to a request, with its
  body as a JSON value or none.  The clients are the records of functions on which the
  run loops of the executors were proved, so every theorem about a run applies to them.

  Shown: what is sent for an entry is read back (\<open>entry_roundtrip\<close>); a list item, as the
  client reads it, has no comment, so the cleanup command, which selects items by their
  comment, never deletes anything (\<open>cleanup_deletes_nothing\<close>); a deletion that the router
  answers without a body counts as failed, so the sweep never forgets a ban
  (\<open>sweep_keeps_all\<close>); a rate limit is recognised by the text of its message only.
\<close>

section \<open>Transport and structs\<close>

type_synonym 'w rest = "bool \<Rightarrow> rest_request \<Rightarrow> 'w \<Rightarrow> http_answer \<times> 'w"

text \<open>Decoding of an array of structs.\<close>

definition unmarshal_array :: "'c fields \<Rightarrow> 'c \<Rightarrow> json \<Rightarrow> 'c list option" where
  "unmarshal_array fs zero j =
    (case j of JArr js \<Rightarrow> those (map (\<lambda>e. unmarshal_struct fs e zero) js) | JNull \<Rightarrow> Some [] | _ \<Rightarrow> None)"

definition j_array :: "'e fields \<Rightarrow> 'e \<Rightarrow> (('e list \<Rightarrow> 'e list) \<Rightarrow> 'c \<Rightarrow> 'c) \<Rightarrow> 'c decoder" where
  "j_array fs zero upd j c = map_option (\<lambda>xs. upd (\<lambda>_. xs) c) (unmarshal_array fs zero j)"

section \<open>RouterOS\<close>

definition zero_entry :: AddressListEntry where
  "zero_entry = \<lparr>ae_ID = [], ae_Address = [], ae_List = [], ae_Timeout = [], ae_Comment = []\<rparr>"

text \<open>The field \<open>disabled\<close> is decoded but never read.\<close>

definition entry_fields :: "AddressListEntry fields" where
  "entry_fields =
    [(''.id'', j_string ae_ID_update), (''address'', j_string ae_Address_update), (''list'', j_string ae_List_update),
     (''timeout'', j_string ae_Timeout_update), (''comment'', j_string ae_Comment_update), (''disabled'', j_string (\<lambda>f c. c))]"

definition omitempty :: "string \<Rightarrow> string \<Rightarrow> (string \<times> json) list" where
  "omitempty key v = (if v = [] then [] else [(key, JStr v)])"

definition entry_json :: "AddressListEntry \<Rightarrow> json" where
  "entry_json e = JObj (omitempty ''.id'' (ae_ID e) @ [(''address'', JStr (ae_Address e)), (''list'', JStr (ae_List e))]
     @ omitempty ''timeout'' (ae_Timeout e) @ omitempty ''comment'' (ae_Comment e))"

definition mk_doRequest :: "'w rest \<Rightarrow> bool \<Rightarrow> string \<Rightarrow> string \<Rightarrow> json option \<Rightarrow> 'w \<Rightarrow> (string + json) \<times> 'w" where
  "mk_doRequest http ctx meth path body w =
    (case http ctx \<lparr>rs_method = meth, rs_path = ''/rest'' @ path, rs_body = body\<rparr> w of
       (NoAnswer e, w) \<Rightarrow> (Inl (''mikrotik: execute request: '' @ e), w)
     | (Answer status raw, w) \<Rightarrow>
         (if \<not> status_2xx status then Inl (''mikrotik: unexpected status '' @ show_int status)
          else case raw of None \<Rightarrow> Inl ''mikrotik: decode response'' | Some j \<Rightarrow> Inr j, w))"

definition ros_Add :: "'w rest \<Rightarrow> bool \<Rightarrow> AddressListEntry \<Rightarrow> 'w \<Rightarrow> (string + string) \<times> 'w" where
  "ros_Add http ctx entry w =
    (case mk_doRequest http ctx ''PUT'' ''/ip/firewall/address-list'' (Some (entry_json entry)) w of
       (Inl e, w) \<Rightarrow> (Inl e, w)
     | (Inr data, w) \<Rightarrow>
         (case unmarshal_struct entry_fields data zero_entry of
            None \<Rightarrow> Inl ''mikrotik: add address-list: unmarshal result''
          | Some created \<Rightarrow> Inr (ae_ID created), w))"

definition ros_List :: "'w rest \<Rightarrow> bool \<Rightarrow> string \<Rightarrow> 'w \<Rightarrow> (string + AddressListEntry list) \<times> 'w" where
  "ros_List http ctx listName w =
    (case mk_doRequest http ctx ''GET'' (''/ip/firewall/address-list?list='' @ listName) None w of
       (Inl e, w) \<Rightarrow> (Inl e, w)
     | (Inr data, w) \<Rightarrow>
         (case unmarshal_array entry_fields zero_entry data of
            None \<Rightarrow> Inl ''mikrotik: list address-list: unmarshal'' | Some entries \<Rightarrow> Inr entries, w))"

definition ros_Delete :: "'w rest \<Rightarrow> bool \<Rightarrow> string \<Rightarrow> 'w \<Rightarrow> string option \<times> 'w" where
  "ros_Delete http ctx i w =
    (case mk_doRequest http ctx ''DELETE'' (''/ip/firewall/address-list/'' @ i) None w of
       (Inl e, w) \<Rightarrow> (Some e, w)
     | (Inr data, w) \<Rightarrow> (None, w))"

definition mk_HTTPClient :: "'w rest \<Rightarrow> 'w mk_client" where
  "mk_HTTPClient http = \<lparr>mk_Add = ros_Add http, mk_List = ros_List http, mk_Delete = ros_Delete http\<rparr>"

section \<open>Cloudflare\<close>

record cfAPIError =
  cae_Code :: int
  cae_Message :: string

record cfAPIResponse =
  car_Success :: bool
  car_Errors :: "cfAPIError list"
  car_Result :: "json option"

record cfList =
  cl_ID :: string
  cl_Name :: string
  cl_Kind :: string

text \<open>The item as it is decoded: identifier and address, no comment.\<close>

record cfItem =
  ci_ID :: string
  ci_IP :: string

definition error_fields :: "cfAPIError fields" where
  "error_fields = [(''code'', j_int cae_Code_update), (''message'', j_string cae_Message_update)]"

definition response_fields :: "cfAPIResponse fields" where
  "response_fields =
    [(''success'', j_bool car_Success_update),
     (''errors'', j_array error_fields \<lparr>cae_Code = 0, cae_Message = []\<rparr> car_Errors_update),
     (''result'', j_raw car_Result_update)]"

definition cfList_fields :: "cfList fields" where
  "cfList_fields = [(''id'', j_string cl_ID_update), (''name'', j_string cl_Name_update), (''kind'', j_string cl_Kind_update)]"

definition cfItem_fields :: "cfItem fields" where
  "cfItem_fields = [(''id'', j_string ci_ID_update), (''ip'', j_string ci_IP_update)]"

definition operation_fields :: "string fields" where
  "operation_fields = [(''operation_id'', j_string (\<lambda>f. f))]"

definition status_fields :: "string fields" where
  "status_fields = [(''status'', j_string (\<lambda>f. f))]"

text \<open>The answer, whatever its status: decoded, then judged by its \<open>success\<close> flag.  The result may
  be absent.\<close>

definition cf_doRequest :: "'w rest \<Rightarrow> string \<Rightarrow> string \<Rightarrow> json option \<Rightarrow> 'w \<Rightarrow> (string + json option) \<times> 'w" where
  "cf_doRequest http meth path body w =
    (case http False \<lparr>rs_method = meth, rs_path = path, rs_body = body\<rparr> w of
       (NoAnswer e, w) \<Rightarrow> (Inl (''cloudflare: execute request: '' @ e), w)
     | (Answer status raw, w) \<Rightarrow>
         (case raw of
            None \<Rightarrow> Inl ''cloudflare: decode response''
          | Some j \<Rightarrow>
              (case unmarshal_struct response_fields j \<lparr>car_Success = False, car_Errors = [], car_Result = None\<rparr> of
                 None \<Rightarrow> Inl ''cloudflare: decode response''
               | Some r \<Rightarrow>
                   if \<not> car_Success r
                   then Inl (case car_Errors r of e # es \<Rightarrow> ''cloudflare: '' @ cae_Message e
                             | [] \<Rightarrow> ''cloudflare: request failed with no error details'')
                   else Inr (car_Result r)), w))"

text \<open>A request whose result is decoded; an absent result cannot be.\<close>

definition cf_request :: "'w rest \<Rightarrow> string \<Rightarrow> (json \<Rightarrow> 'a option) \<Rightarrow> string \<Rightarrow> string \<Rightarrow> json option \<Rightarrow> 'w \<Rightarrow> (string + 'a) \<times> 'w" where
  "cf_request http what decode meth path body w =
    (case cf_doRequest http meth path body w of
       (Inl e, w) \<Rightarrow> (Inl (''cloudflare: '' @ what @ '': '' @ e), w)
     | (Inr result, w) \<Rightarrow>
         (case Option.bind result decode of None \<Rightarrow> Inl (''cloudflare: '' @ what @ '': unmarshal'') | Some x \<Rightarrow> Inr x, w))"

definition lists_path :: "string \<Rightarrow> string" where
  "lists_path account = ''/accounts/'' @ account @ ''/rules/lists''"

definition items_path :: "string \<Rightarrow> string \<Rightarrow> string" where
  "items_path account listID = lists_path account @ ''/'' @ listID @ ''/items''"

definition cf_FindOrCreateList :: "'w rest \<Rightarrow> string \<Rightarrow> string \<Rightarrow> 'w \<Rightarrow> (string + string) \<times> 'w" where
  "cf_FindOrCreateList http account name w =
    (case cf_request http ''list lists'' (unmarshal_array cfList_fields \<lparr>cl_ID = [], cl_Name = [], cl_Kind = []\<rparr>) ''GET'' (lists_path account) None w of
       (Inl e, w) \<Rightarrow> (Inl e, w)
     | (Inr ls, w) \<Rightarrow>
         (case find (\<lambda>l. cl_Name l = name) ls of
            Some l \<Rightarrow> (Inr (cl_ID l), w)
          | None \<Rightarrow>
              (case cf_request http ''create list'' (\<lambda>j. unmarshal_struct cfList_fields j \<lparr>cl_ID = [], cl_Name = [], cl_Kind = []\<rparr>)
                      ''POST'' (lists_path account) (Some (JObj [(''kind'', JStr ''ip''), (''name'', JStr name)])) w of
                 (Inl e, w) \<Rightarrow> (Inl e, w)
               | (Inr created, w) \<Rightarrow> (Inr (cl_ID created), w))))"

definition cf_GetAllItems :: "'w rest \<Rightarrow> string \<Rightarrow> string \<Rightarrow> 'w \<Rightarrow> (string + CFItem list) \<times> 'w" where
  "cf_GetAllItems http account listID w =
    (case cf_request http ''list items'' (unmarshal_array cfItem_fields \<lparr>ci_ID = [], ci_IP = []\<rparr>) ''GET'' (items_path account listID) None w of
       (Inl e, w) \<Rightarrow> (Inl e, w)
     | (Inr items, w) \<Rightarrow> (Inr (map (\<lambda>it. \<lparr>cfi_ID = ci_ID it, cfi_IP = ci_IP it, cfi_Comment = []\<rparr>) items), w))"

definition batch_item :: "CFBatchItem \<Rightarrow> json" where
  "batch_item it = JObj [(''comment'', JStr (cfb_Comment it)), (''ip'', JStr (cfb_IP it))]"

definition cf_AddItem :: "'w rest \<Rightarrow> string \<Rightarrow> string \<Rightarrow> string \<Rightarrow> string \<Rightarrow> 'w \<Rightarrow> (string + string) \<times> 'w" where
  "cf_AddItem http account listID ip comment w =
    (case cf_request http ''add item'' (unmarshal_array cfItem_fields \<lparr>ci_ID = [], ci_IP = []\<rparr>) ''POST'' (items_path account listID)
            (Some (JArr [batch_item \<lparr>cfb_IP = ip, cfb_Comment = comment\<rparr>])) w of
       (Inl e, w) \<Rightarrow> (Inl e, w)
     | (Inr items, w) \<Rightarrow> (case items of [] \<Rightarrow> Inl ''cloudflare: add item: empty result'' | it # its \<Rightarrow> Inr (ci_ID it), w))"

definition cf_AddItems :: "'w rest \<Rightarrow> string \<Rightarrow> string \<Rightarrow> CFBatchItem list \<Rightarrow> 'w \<Rightarrow> (string + string) \<times> 'w" where
  "cf_AddItems http account listID items w =
    cf_request http ''add items'' (\<lambda>j. unmarshal_struct operation_fields j []) ''POST'' (items_path account listID)
      (Some (JArr (map batch_item items))) w"

definition cf_RemoveItems :: "'w rest \<Rightarrow> string \<Rightarrow> string \<Rightarrow> string list \<Rightarrow> 'w \<Rightarrow> (string + string) \<times> 'w" where
  "cf_RemoveItems http account listID ids w =
    cf_request http ''remove items'' (\<lambda>j. unmarshal_struct operation_fields j []) ''DELETE'' (items_path account listID)
      (Some (JObj [(''items'', JArr (map (\<lambda>i. JObj [(''id'', JStr i)]) ids))])) w"

definition cf_PollBulkOperation :: "'w rest \<Rightarrow> string \<Rightarrow> string \<Rightarrow> 'w \<Rightarrow> (string + string) \<times> 'w" where
  "cf_PollBulkOperation http account opID w =
    cf_request http ''poll bulk operation'' (\<lambda>j. unmarshal_struct status_fields j []) ''GET''
      (lists_path account @ ''/bulk_operations/'' @ opID) None w"

definition HTTPCFClient :: "'w rest \<Rightarrow> string \<Rightarrow> (duration \<Rightarrow> 'w \<Rightarrow> bool \<times> 'w) \<Rightarrow> 'w CFClient" where
  "HTTPCFClient http account wait = \<lparr>FindOrCreateList = cf_FindOrCreateList http account, ListItems = cf_GetAllItems http account,
     AddItems = cf_AddItems http account, RemoveItems = cf_RemoveItems http account,
     PollBulkOperation = cf_PollBulkOperation http account, cf_wait = wait\<rparr>"

section \<open>The cleanup command\<close>

record cfInfo =
  info_APIToken :: string
  info_AccountID :: string
  info_ListName :: string

text \<open>A setting that is not a string reads as empty.\<close>

definition string_or_empty :: "raw_config \<Rightarrow> string \<Rightarrow> string" where
  "string_or_empty raw key = (case map_of raw key of Some (YStr s) \<Rightarrow> s | _ \<Rightarrow> [])"

fun first_cloudflare :: "(string \<times> raw_config) list \<Rightarrow> cfInfo option" where
  "first_cloudflare [] = None"
| "first_cloudflare ((type, raw) # ecs) =
    (if type \<noteq> ''cloudflare'' then first_cloudflare ecs
     else if string_or_empty raw ''api_token'' = [] \<or> string_or_empty raw ''account_id'' = [] then first_cloudflare ecs
     else Some \<lparr>info_APIToken = string_or_empty raw ''api_token'', info_AccountID = string_or_empty raw ''account_id'',
                info_ListName = string_or_empty raw ''list_name''\<rparr>)"

definition extractCFInfo :: "raw_config Config \<Rightarrow> cfInfo option" where
  "extractCFInfo cfg = first_cloudflare (map (\<lambda>ec. (ex_Type ec, ex_Config ec)) (cfg_Executors cfg))"

definition FilterByComment :: "CFItem list \<Rightarrow> string \<Rightarrow> CFItem list" where
  "FilterByComment items pre = filter (\<lambda>item. has_prefix (cfi_Comment item) pre) items"

datatype cleanup_result = WouldDelete "CFItem list" | NoItemsFound | DeletedItems nat

fun delete_batches :: "'w rest \<Rightarrow> string \<Rightarrow> string \<Rightarrow> string list \<Rightarrow> 'w \<Rightarrow> string option \<times> 'w" where
  "delete_batches http account listID ids w =
    (if ids = [] then (None, w)
     else case cf_RemoveItems http account listID (take 100 ids) w of
         (Inl e, w) \<Rightarrow> (Some (''delete batch: '' @ e), w)
       | (Inr opID, w) \<Rightarrow> delete_batches http account listID (drop 100 ids) w)"

declare delete_batches.simps [simp del]

definition list_id :: "'w rest \<Rightarrow> cfInfo \<Rightarrow> string \<Rightarrow> 'w \<Rightarrow> (string + string) \<times> 'w" where
  "list_id http info listID w =
    (if listID = [] \<and> info_ListName info \<noteq> [] then cf_FindOrCreateList http (info_AccountID info) (info_ListName info) w
     else (Inr listID, w))"

text \<open>\<open>autoID\<close> is the identity \<open>LoadInstanceID\<close> finds.\<close>

definition runCFCleanup :: "'w rest \<Rightarrow> cfInfo \<Rightarrow> bool \<Rightarrow> string \<Rightarrow> string \<Rightarrow> string \<Rightarrow> 'w \<Rightarrow> (string + cleanup_result) \<times> 'w" where
  "runCFCleanup http info dryRun instanceID listID autoID w =
    (case list_id http info listID w of
       (Inl e, w) \<Rightarrow> (Inl (''resolve list: '' @ e), w)
     | (Inr effectiveListID, w) \<Rightarrow>
         if effectiveListID = [] then (Inl ''no list ID specified'', w)
         else
           let effectiveInstanceID = (if instanceID = [] then autoID else instanceID)
           in case cf_GetAllItems http (info_AccountID info) effectiveListID w of
                (Inl e, w) \<Rightarrow> (Inl (''list items: '' @ e), w)
              | (Inr items, w) \<Rightarrow>
                  let toDelete = FilterByComment items (''sentinel-'' @ effectiveInstanceID)
                  in if dryRun then (Inr (WouldDelete toDelete), w)
                     else if toDelete = [] then (Inr NoItemsFound, w)
                     else
                       (case delete_batches http (info_AccountID info) effectiveListID (map cfi_ID toDelete) w of
                          (Some e, w) \<Rightarrow> (Inl e, w)
                        | (None, w) \<Rightarrow> (Inr (DeletedItems (length toDelete)), w)))"


text \<open>The subcommand: its flags, the loaded configuration, the first usable Cloudflare executor.
  Every failure ends the process with status 1 and the message.\<close>

definition handleCleanup :: "'w rest \<Rightarrow> (string + raw_config Config) \<Rightarrow> bool \<Rightarrow> bool \<Rightarrow> string \<Rightarrow> string \<Rightarrow> string \<Rightarrow> 'w
    \<Rightarrow> (string + cleanup_result) \<times> 'w" where
  "handleCleanup http loaded doCF dryRun instanceID listID autoID w =
    (if \<not> doCF then (Inl ''use --cf to clean up Cloudflare IP List'', w)
     else case loaded of
         Inl e \<Rightarrow> (Inl (''config error: '' @ e), w)
       | Inr cfg \<Rightarrow>
           (case extractCFInfo cfg of
              None \<Rightarrow> (Inl ''no cloudflare executor found in config'', w)
            | Some info \<Rightarrow> runCFCleanup http info dryRun instanceID listID autoID w))"

section \<open>What the router is sent is what it lists\<close>

lemma entry_roundtrip: "unmarshal_struct entry_fields (entry_json e) zero_entry = Some e"
proof -
  have find: "find_field entry_fields ''.id'' = Some (j_string ae_ID_update)"
    "find_field entry_fields ''address'' = Some (j_string ae_Address_update)"
    "find_field entry_fields ''list'' = Some (j_string ae_List_update)"
    "find_field entry_fields ''timeout'' = Some (j_string ae_Timeout_update)"
    "find_field entry_fields ''comment'' = Some (j_string ae_Comment_update)"
    by (simp_all add: find_field_def entry_fields_def)
  show ?thesis
    by (simp add: entry_json_def unmarshal_struct_def omitempty_def find j_string_def zero_entry_def)
qed

text \<open>The start-up synchronisation of the MikroTik executor on a router that lists what it was sent.\<close>

lemma list_roundtrip: "unmarshal_array entry_fields zero_entry (JArr (map entry_json es)) = Some es"
  by (induction es) (simp_all add: unmarshal_array_def entry_roundtrip)

section \<open>Recorded requests\<close>

definition recorded :: "'w rest \<Rightarrow> (rest_request list \<times> 'w) rest" where
  "recorded http ctx r lw = (case http ctx r (snd lw) of (a, w) \<Rightarrow> (a, (fst lw @ [r], w)))"

lemma cf_doRequest_recorded:
  "cf_doRequest (recorded http) meth path body (rs, w) =
    (case cf_doRequest http meth path body w of
       (r, w) \<Rightarrow> (r, (rs @ [\<lparr>rs_method = meth, rs_path = path, rs_body = body\<rparr>], w)))"
  by (simp add: cf_doRequest_def recorded_def split: prod.split http_answer.split)

lemma cf_request_recorded:
  "cf_request (recorded http) what dec meth path body (rs, w) =
    (case cf_request http what dec meth path body w of
       (r, w) \<Rightarrow> (r, (rs @ [\<lparr>rs_method = meth, rs_path = path, rs_body = body\<rparr>], w)))"
  by (simp add: cf_request_def cf_doRequest_recorded split: prod.split sum.split)


definition only_reads :: "rest_request list \<Rightarrow> bool" where
  "only_reads rs \<longleftrightarrow> list_all (\<lambda>r. rs_method r \<noteq> ''DELETE'') rs"

lemma find_list_reads:
  "only_reads rs \<Longrightarrow> only_reads (fst (snd (cf_FindOrCreateList (recorded http) account name (rs, w))))"
  by (simp add: cf_FindOrCreateList_def cf_request_recorded only_reads_def split: prod.split sum.split option.split)

lemma list_id_reads: "only_reads rs \<Longrightarrow> only_reads (fst (snd (list_id (recorded http) info listID (rs, w))))"
  by (simp add: list_id_def find_list_reads)

lemma get_items_reads: "only_reads rs \<Longrightarrow> only_reads (fst (snd (cf_GetAllItems (recorded http) account listID (rs, w))))"
  by (simp add: cf_GetAllItems_def cf_request_recorded only_reads_def split: prod.split sum.split)

text \<open>An item as the client lists it has no comment, so no item is selected by a comment.\<close>

lemma listed_without_comment:
  assumes "cf_GetAllItems http account listID w = (Inr items, w')"
  shows "FilterByComment items (c # pre) = []"
  using assms by (auto simp: cf_GetAllItems_def FilterByComment_def filter_empty_conv split: prod.splits sum.splits)

text \<open>Whatever the account holds and whatever the flags are, the cleanup command sends no deletion
  and finds no item to delete.\<close>

theorem cleanup_deletes_nothing:
  "only_reads (fst (snd (handleCleanup (recorded http) loaded doCF dryRun instanceID listID autoID ([], w))))
   \<and> (case fst (handleCleanup http loaded doCF dryRun instanceID listID autoID w) of
        Inl e \<Rightarrow> True | Inr res \<Rightarrow> res = WouldDelete [] \<or> res = NoItemsFound)"
proof -
  have "only_reads (fst (snd (runCFCleanup (recorded http) info dryRun instanceID listID autoID ([], w))))" for info
  proof -
    obtain r rs w1 where l: "list_id (recorded http) info listID ([], w) = (r, (rs, w1))" by (metis surj_pair)
    have rs: "only_reads rs" using list_id_reads [of "[]" http info listID w] l by (simp add: only_reads_def)
    show ?thesis
    proof (cases r)
      case (Inr lid)
      obtain g rs' w2 where g: "cf_GetAllItems (recorded http) (info_AccountID info) lid (rs, w1) = (g, (rs', w2))"
        by (metis surj_pair)
      have "only_reads rs'" using get_items_reads [OF rs, of http "info_AccountID info" lid w1] g by simp
      moreover have "FilterByComment items (CHR ''s'' # pre) = []" if "g = Inr items" for items pre
        using listed_without_comment [of "recorded http" "info_AccountID info" lid "(rs, w1)" items] g that by simp
      ultimately show ?thesis
        using l g rs Inr by (cases g) (simp_all add: runCFCleanup_def Let_def)
    qed (simp add: runCFCleanup_def l rs)
  qed
  moreover have "fst (runCFCleanup http info dryRun instanceID listID autoID w) = Inr res \<Longrightarrow>
      res = WouldDelete [] \<or> res = NoItemsFound" for info res
    by (auto simp: runCFCleanup_def Let_def listed_without_comment split: prod.splits sum.splits if_splits option.splits)
  ultimately show ?thesis
    by (simp add: handleCleanup_def only_reads_def split: sum.split option.split)
qed

text \<open>Were there items, they would be deleted in requests of at most a hundred, in order, each once.\<close>

function chunks :: "nat \<Rightarrow> 'a list \<Rightarrow> 'a list list" where
  "chunks n xs = (if xs = [] \<or> n = 0 then [] else take n xs # chunks n (drop n xs))"
  by pat_completeness auto
termination by (relation "measure (length \<circ> snd)") auto

declare chunks.simps [simp del]

lemma chunks_facts:
  "0 < n \<Longrightarrow> concat (chunks n xs) = xs \<and> list_all (\<lambda>c. c \<noteq> [] \<and> length c \<le> n) (chunks n xs)"
proof (induction n xs rule: chunks.induct)
  case (1 n xs)
  then show ?case by (subst (1 2) chunks.simps) auto
qed

definition delete_request :: "string \<Rightarrow> string \<Rightarrow> string list \<Rightarrow> rest_request" where
  "delete_request account listID ids = \<lparr>rs_method = ''DELETE'', rs_path = items_path account listID,
     rs_body = Some (JObj [(''items'', JArr (map (\<lambda>i. JObj [(''id'', JStr i)]) ids))])\<rparr>"

lemma remove_recorded:
  "cf_RemoveItems (recorded http) account listID ids (rs, w) =
    (case cf_RemoveItems http account listID ids w of (r, w) \<Rightarrow> (r, (rs @ [delete_request account listID ids], w)))"
  by (simp add: cf_RemoveItems_def cf_request_recorded delete_request_def)

lemma delete_batches_recorded:
  "\<exists>k. fst (snd (delete_batches (recorded http) account listID ids (rs, w)))
        = rs @ map (delete_request account listID) (take k (chunks 100 ids))
     \<and> (fst (delete_batches (recorded http) account listID ids (rs, w)) = None \<longrightarrow> length (chunks 100 ids) \<le> k)"
proof (induction "length ids" arbitrary: ids rs w rule: less_induct)
  case less
  show ?case
  proof (cases "ids = []")
    case True
    then show ?thesis by (simp add: delete_batches.simps chunks.simps)
  next
    case False
    then have ch: "chunks 100 ids = take 100 ids # chunks 100 (drop 100 ids)" by (subst chunks.simps) simp
    obtain r w1 where r: "cf_RemoveItems http account listID (take 100 ids) w = (r, w1)" by fastforce
    let ?rs = "rs @ [delete_request account listID (take 100 ids)]"
    show ?thesis
    proof (cases r)
      case (Inl e)
      then show ?thesis
        using False r by (intro exI [of _ 1]) (simp add: delete_batches.simps [of _ _ _ ids] remove_recorded ch)
    next
      case (Inr opID)
      have eq: "delete_batches (recorded http) account listID ids (rs, w)
          = delete_batches (recorded http) account listID (drop 100 ids) (?rs, w1)"
        using False r Inr by (subst delete_batches.simps) (simp add: remove_recorded)
      have "length (drop 100 ids) < length ids" using False by simp
      from less.hyps [OF this, of ?rs w1] obtain k where
        "fst (snd (delete_batches (recorded http) account listID (drop 100 ids) (?rs, w1)))
          = ?rs @ map (delete_request account listID) (take k (chunks 100 (drop 100 ids)))"
        "fst (delete_batches (recorded http) account listID (drop 100 ids) (?rs, w1)) = None
          \<longrightarrow> length (chunks 100 (drop 100 ids)) \<le> k" by (elim exE conjE)
      then show ?thesis unfolding eq ch by (intro exI [of _ "Suc k"]) simp
    qed
  qed
qed

section \<open>Answers without a body, and rate limits\<close>

lemma delete_without_body:
  assumes "fst (http ctx \<lparr>rs_method = ''DELETE'', rs_path = ''/rest/ip/firewall/address-list/'' @ i, rs_body = None\<rparr> w) = Answer st None"
  shows "\<exists>e. fst (ros_Delete http ctx i w) = Some e"
  using assms by (auto simp: ros_Delete_def mk_doRequest_def split: prod.splits)

text \<open>A router that answers a deletion without a body, as with status 204, is taken to have refused
  it: the sweep forgets no ban and counts an error for each, again and again.\<close>

lemma sweep_keeps_all:
  assumes "\<And>r w. rs_method r = ''DELETE'' \<Longrightarrow> \<exists>st. fst (http ctx r w) = Answer st None"
  shows "mk_banned (mk_sweep cfg (mk_HTTPClient http) ctx now s) = mk_banned s"
    "mk_swept (mk_sweep cfg (mk_HTTPClient http) ctx now s) = mk_swept s"
    "mkc_TTL cfg \<noteq> 0 \<Longrightarrow> mk_errors (mk_sweep cfg (mk_HTTPClient http) ctx now s)
        = mk_errors s + length (mk_expired cfg now (mk_banned s))"
proof -
  have refused: "\<exists>e w'. mk_Delete (mk_HTTPClient http) ctx i w = (Some e, w')" for i w
  proof -
    obtain st where "fst (http ctx \<lparr>rs_method = ''DELETE'', rs_path = ''/rest/ip/firewall/address-list/'' @ i, rs_body = None\<rparr> w) = Answer st None"
      using assms [of "\<lparr>rs_method = ''DELETE'', rs_path = ''/rest/ip/firewall/address-list/'' @ i, rs_body = None\<rparr>" w] by auto
    from delete_without_body [of http ctx i w st, OF this] show ?thesis
      by (cases "ros_Delete http ctx i w") (auto simp: mk_HTTPClient_def)
  qed
  have fold: "\<exists>s'. fold (mk_delete_one (mk_HTTPClient http) ctx) ex (t, []) = (s', []) \<and> mk_banned s' = mk_banned t
      \<and> mk_swept s' = mk_swept t \<and> mk_errors s' = mk_errors t + length ex" for ex t
  proof (induction ex arbitrary: t)
    case (Cons e ex)
    obtain i ip where e: "e = (i, ip)" by fastforce
    obtain err w' where "mk_Delete (mk_HTTPClient http) ctx i (mk_world t) = (Some err, w')" using refused by blast
    then have "mk_delete_one (mk_HTTPClient http) ctx e (t, []) =
        (t\<lparr>mk_world := w', mk_errors := mk_errors t + 1, mk_calls := mk_calls t @ [DelFail ip i]\<rparr>, [])"
      by (simp add: mk_delete_one_def e)
    then show ?case
      using Cons.IH [of "t\<lparr>mk_world := w', mk_errors := mk_errors t + 1, mk_calls := mk_calls t @ [DelFail ip i]\<rparr>"] by auto
  qed simp
  obtain s' where s': "fold (mk_delete_one (mk_HTTPClient http) ctx) (mk_expired cfg now (mk_banned s)) (s, []) = (s', [])"
    "mk_banned s' = mk_banned s" "mk_swept s' = mk_swept s" "mk_errors s' = mk_errors s + length (mk_expired cfg now (mk_banned s))"
    using fold by metis
  show "mk_banned (mk_sweep cfg (mk_HTTPClient http) ctx now s) = mk_banned s"
    "mk_swept (mk_sweep cfg (mk_HTTPClient http) ctx now s) = mk_swept s"
    "mkc_TTL cfg \<noteq> 0 \<Longrightarrow> mk_errors (mk_sweep cfg (mk_HTTPClient http) ctx now s)
        = mk_errors s + length (mk_expired cfg now (mk_banned s))"
    using s' by (simp_all add: mk_sweep_def Let_def)
qed

text \<open>The status of an answer is not looked at, so a rate limit is retried only when its message
  happens to contain the digits.\<close>

definition throttled :: http_answer where
  "throttled = Answer 429 (Some (JObj [(''success'', JBool False),
     (''errors'', JArr [JObj [(''code'', JInt 971), (''message'', JStr ''Please wait and consider throttling your request speed'')]])]))"

lemma rate_limit_not_retried:
  "doWithRetry cl (cf_AddItems (\<lambda>ctx r n. (throttled, n + 1)) account listID items) (n :: nat)
    = (Inl ''cloudflare: add items: cloudflare: Please wait and consider throttling your request speed'', n + 1)"
proof -
  let ?e = "''cloudflare: add items: cloudflare: Please wait and consider throttling your request speed''"
  have no429: "\<not> str_contains ?e ''429''" by code_simp
  have "unmarshal_struct response_fields (JObj [(''success'', JBool False),
      (''errors'', JArr [JObj [(''code'', JInt 971), (''message'', JStr ''Please wait and consider throttling your request speed'')]])])
      \<lparr>car_Success = False, car_Errors = [], car_Result = None\<rparr>
    = Some \<lparr>car_Success = False, car_Errors = [\<lparr>cae_Code = 971, cae_Message = ''Please wait and consider throttling your request speed''\<rparr>], car_Result = None\<rparr>"
    by (simp add: unmarshal_struct_def response_fields_def find_field_def j_bool_def j_array_def unmarshal_array_def error_fields_def
        j_int_def j_string_def in_int64_def)
  then have "cf_AddItems (\<lambda>ctx r n. (throttled, n + 1)) account listID items n = (Inl ?e, n + 1)"
    by (simp add: cf_AddItems_def cf_request_def cf_doRequest_def throttled_def)
  then show ?thesis using no429 by (simp add: doWithRetry_def max429Retries_def retry_loop.simps)
qed

end
