(* ===== verification/Profiles.thy ===== *)
theory Profiles
  imports Wire "HOL-Library.Multiset"
begin

text \<open>
  Build variants: the generator \<open>tools/gen-plugins/main.go\<close>, which turns the profiles
  \<open>profiles/*.yaml\<close> into the import files \<open>cmd/arxsentinel/plugins_*.go\<close>, and those files.

  The directory, the files, the YAML decoder, \<open>filepath.Join\<close> and the outcome of a write are
  arguments of the generator.  An import file is read back as the Go compiler does: one
  blank import per line.  Error texts are shortened and the messages of the tool are left out.

  Shown: a generated file imports exactly the packages of its profile, each once per
  entry, and generation fails exactly on an unknown module (\<open>emit_roundtrip\<close>); the two generated
  files in the repository are those the generator writes today (\<open>generated_in_sync\<close>), and the one
  maintained by hand differs from its profile in two packages (\<open>full_profile_drifts\<close>); a run writes every
  profile of the directory but \<open>full\<close>, in the order of the names (\<open>gen_main_writes\<close>), and nothing when one
  cannot be read (\<open>gen_main_unreadable\<close>).
\<close>

section \<open>Import paths\<close>

definition localModuleRoot :: string where
  "localModuleRoot = ''github.com/mr-addams/arxsentinel''"

definition externalModuleRoots :: "(string, string) gomap" where
  "externalModuleRoots = [(''arx-core'', ''github.com/mr-addams/arx-core'')]"

definition kindSingular :: "(string, string) gomap" where
  "kindSingular = [(''sources'', ''source''), (''sinks'', ''sink''), (''executors'', ''executor''), (''processors'', ''processor''),
     (''detectors'', ''detector'')]"

record pluginEntry =
  pg_Name :: string
  pg_Module :: string

record profileSchema =
  pf_Name :: string
  pf_Description :: string
  pf_Executors :: "pluginEntry list"
  pf_Processors :: "pluginEntry list"
  pf_Sinks :: "pluginEntry list"
  pf_Sources :: "pluginEntry list"
  pf_Detectors :: "pluginEntry list"

definition nameToPkgSuffix :: "(string, string) gomap" where
  "nameToPkgSuffix = [(''sinks/sentinel-threat'', ''sentinel''), (''detectors/ua'', ''useragent'')]"

definition pkgSuffix :: "string \<Rightarrow> string \<Rightarrow> string" where
  "pkgSuffix kind name = (case map_of nameToPkgSuffix (kind @ ''/'' @ name) of Some s \<Rightarrow> s | None \<Rightarrow> name)"

definition kindPath :: "string \<Rightarrow> pluginEntry \<Rightarrow> string + string" where
  "kindPath kind e =
    (let suffix = pkgSuffix kind (pg_Name e)
     in case map_of kindSingular kind of
          None \<Rightarrow> Inl (''unknown plugin kind '' @ kind)
        | Some singular \<Rightarrow>
            let module = (if pg_Module e = [] then ''arxsentinel'' else pg_Module e)
            in if module = ''arxsentinel'' then Inr (localModuleRoot @ ''/pkg/'' @ singular @ ''plugins/'' @ suffix)
               else case map_of externalModuleRoots module of
                   Some base \<Rightarrow> Inr (base @ ''/pkg/'' @ singular @ ''/'' @ suffix)
                 | None \<Rightarrow> Inl (''plugin '' @ kind @ ''/'' @ pg_Name e @ '': unrecognized module '' @ module))"

section \<open>The generated file\<close>

record import_blocks =
  localOther :: "string list"
  localDetectors :: "string list"
  external :: "string list"

fun add_entries :: "string \<Rightarrow> pluginEntry list \<Rightarrow> import_blocks \<Rightarrow> string + import_blocks" where
  "add_entries kind [] b = Inr b"
| "add_entries kind (e # es) b =
    (case kindPath kind e of
       Inl err \<Rightarrow> Inl err
     | Inr imp \<Rightarrow> add_entries kind es
         (if kind = ''detectors'' then b\<lparr>localDetectors := localDetectors b @ [imp]\<rparr>
          else if has_prefix imp (localModuleRoot @ ''/'') then b\<lparr>localOther := localOther b @ [imp]\<rparr>
          else b\<lparr>external := external b @ [imp]\<rparr>))"

fun add_kinds :: "(string \<times> pluginEntry list) list \<Rightarrow> import_blocks \<Rightarrow> string + import_blocks" where
  "add_kinds [] b = Inr b"
| "add_kinds ((kind, es) # kvs) b = (case add_entries kind es b of Inl err \<Rightarrow> Inl err | Inr b \<Rightarrow> add_kinds kvs b)"

definition kind_entries :: "profileSchema \<Rightarrow> (string \<times> pluginEntry list) list" where
  "kind_entries p = [(''executors'', pf_Executors p), (''processors'', pf_Processors p), (''detectors'', pf_Detectors p),
     (''sources'', pf_Sources p), (''sinks'', pf_Sinks p)]"

definition tab :: char where
  "tab = CHR 0x09"

definition import_line :: "(nat \<Rightarrow> bool) \<Rightarrow> string \<Rightarrow> string" where
  "import_line wp imp = tab # ''_ '' @ Quote wp imp"

fun writeBlocks :: "(nat \<Rightarrow> bool) \<Rightarrow> nat \<Rightarrow> (string \<times> string list) list \<Rightarrow> string list" where
  "writeBlocks wp blocks [] = []"
| "writeBlocks wp blocks ((header, imps) # bs) =
    (if imps = [] then writeBlocks wp blocks bs
     else (if blocks > 0 then [[]] else []) @ (if header \<noteq> [] then [header] else []) @ map (import_line wp) imps
       @ writeBlocks wp (blocks + 1) bs)"

definition file_header :: "string \<Rightarrow> string list" where
  "file_header name =
    [''// Code generated by tools/gen-plugins; DO NOT EDIT.'', [], ''//go:build arx_tag && '' @ name, [],
     ''// ========================== Plugin blank-imports '' @ [CHR 0xE2, CHR 0x80, CHR 0x94] @ '' '' @ name
       @ '' profile ======================='',
     ''//'',
     ''//'' @ tab # ''Side-effect registration of plugins declared in profiles/'' @ name @ ''.yaml.'',
     ''//'' @ tab # ''Active only under build tags: -tags '' @ quote_mark # ''arx_tag '' @ name @ quote_mark # ''.'',
     ''//'' @ tab # ''See docs/architecture/adr/003-build-modularity.md and DECISIONS.md Flow 075.'',
     ''package main'', [], ''import ('']"

definition detector_comment :: string where
  "detector_comment = tab # ''// Plugin detectors (tree-shakeable side-effect registration, Flow 076)''"

definition emit :: "(nat \<Rightarrow> bool) \<Rightarrow> string \<Rightarrow> profileSchema \<Rightarrow> string + string" where
  "emit wp name p =
    (case add_kinds (kind_entries p) \<lparr>localOther = [], localDetectors = [], external = []\<rparr> of
       Inl err \<Rightarrow> Inl err
     | Inr b \<Rightarrow>
         Inr (concat (map (\<lambda>l. l @ [CHR 0x0A])
           (file_header name
            @ writeBlocks wp 0 [([], sort (localOther b)), (detector_comment, sort (localDetectors b)), ([], sort (external b))]
            @ ['')'']))))"

definition countImports :: "profileSchema \<Rightarrow> nat" where
  "countImports p = length (pf_Sources p) + length (pf_Sinks p) + length (pf_Executors p) + length (pf_Processors p)
     + length (pf_Detectors p)"

section \<open>The generator\<close>

text \<open>The environment of a run: the entries of the profile directory (\<open>True\<close> for a directory), the
  content of a file, the decoder, and the writer, which may refuse.\<close>

record 'w gen_env =
  ge_entries :: "(string \<times> bool) list option"
  ge_read :: "string \<Rightarrow> string option"
  ge_yaml :: "string \<Rightarrow> profileSchema option"
  ge_path :: "string \<Rightarrow> string"
  ge_write :: "string \<Rightarrow> string \<Rightarrow> 'w \<Rightarrow> bool \<times> 'w"

fun read_profiles :: "'w gen_env \<Rightarrow> (string \<times> bool) list \<Rightarrow> string list \<times> (string, profileSchema) gomap
    \<Rightarrow> string + string list \<times> (string, profileSchema) gomap" where
  "read_profiles ge [] (names, byName) = Inr (names, byName)"
| "read_profiles ge ((file, isDir) # es) (names, byName) =
    (if isDir \<or> \<not> has_suffix file ''.yaml'' then read_profiles ge es (names, byName)
     else
       let base = trim_suffix file ''.yaml''
       in case ge_read ge file of
            None \<Rightarrow> Inl (''read '' @ file)
          | Some data \<Rightarrow>
              (case ge_yaml ge data of
                 None \<Rightarrow> Inl (''parse '' @ file)
               | Some p \<Rightarrow>
                   if base = ''full'' then read_profiles ge es (names, byName)
                   else read_profiles ge es (names @ [base], AList.update base p byName)))"

text \<open>A name is always in the map; Go would read an empty profile for one that is not.\<close>

definition empty_profile :: profileSchema where
  "empty_profile = \<lparr>pf_Name = [], pf_Description = [], pf_Executors = [], pf_Processors = [], pf_Sinks = [], pf_Sources = [],
     pf_Detectors = []\<rparr>"

fun emit_all :: "(nat \<Rightarrow> bool) \<Rightarrow> 'w gen_env \<Rightarrow> (string, profileSchema) gomap \<Rightarrow> string list \<Rightarrow> 'w \<Rightarrow> bool \<times> 'w" where
  "emit_all wp ge byName [] w = (True, w)"
| "emit_all wp ge byName (name # names) w =
    (case emit wp name (case map_of byName name of Some p \<Rightarrow> p | None \<Rightarrow> empty_profile) of
       Inl err \<Rightarrow> (False, w)
     | Inr content \<Rightarrow>
         (case ge_write ge (ge_path ge (''plugins_'' @ name @ ''.go'')) content w of
            (False, w) \<Rightarrow> (False, w)
          | (True, w) \<Rightarrow> emit_all wp ge byName names w))"

text \<open>The exit status.\<close>

definition gen_main :: "(nat \<Rightarrow> bool) \<Rightarrow> 'w gen_env \<Rightarrow> 'w \<Rightarrow> int \<times> 'w" where
  "gen_main wp ge w =
    (case ge_entries ge of
       None \<Rightarrow> (1, w)
     | Some entries \<Rightarrow>
         (case read_profiles ge entries ([], []) of
            Inl err \<Rightarrow> (1, w)
          | Inr (names, byName) \<Rightarrow>
              (case emit_all wp ge byName (sort names) w of (ok, w) \<Rightarrow> (if ok then 0 else 1, w))))"

section \<open>Reading a file back\<close>

definition import_mark :: string where
  "import_mark = tab # ''_ '' @ [quote_mark]"

definition imports_in :: "string list \<Rightarrow> string list" where
  "imports_in ls = map (\<lambda>l. takeWhile (\<lambda>c. c \<noteq> quote_mark) (drop (length import_mark) l)) (filter (\<lambda>l. has_prefix l import_mark) ls)"

definition blank_imports :: "string \<Rightarrow> string list" where
  "blank_imports content = imports_in (raw_lines content)"

definition plain :: "string \<Rightarrow> bool" where
  "plain s \<longleftrightarrow> list_all (\<lambda>c. 32 \<le> byte c \<and> byte c \<le> 126 \<and> byte c \<noteq> 34 \<and> byte c \<noteq> 92) s"

lemma plain_append [simp]: "plain (s @ t) \<longleftrightarrow> plain s \<and> plain t"
  by (simp add: plain_def)

lemma plain_quote: "plain s \<Longrightarrow> quote_body wp s = s"
proof (induction s)
  case (Cons c cs)
  then have c: "32 \<le> byte c" "byte c \<le> 126" "byte c \<noteq> 34" "byte c \<noteq> 92" "plain cs" by (simp_all add: plain_def)
  then have "decode_rune (c # cs) = Some (byte c, 1)" by (simp add: decode_rune_def)
  then show ?case using Cons.IH c by (simp add: escape_rune_def)
qed simp

lemma plain_chars: "plain s \<Longrightarrow> quote_mark \<notin> set s" "plain s \<Longrightarrow> CHR 0x0A \<notin> set s"
  by (auto simp: plain_def list_all_iff quote_mark_def byte_def)

lemma imports_in_append [simp]: "imports_in (ls @ ls') = imports_in ls @ imports_in ls'"
  by (simp add: imports_in_def)

lemma quote_newline [simp]: "CHR 0x0A \<noteq> quote_mark" "CHR 0x0A \<noteq> tab"
  by code_simp+

lemma takeWhile_stop: "x \<notin> set xs \<Longrightarrow> takeWhile (\<lambda>c. c \<noteq> x) (xs @ [x]) = xs"
  by (induction xs) auto

lemma read_import: "plain imp \<Longrightarrow> imports_in [import_line wp imp] = [imp]"
  using plain_chars(1) [of imp]
  by (simp add: imports_in_def import_line_def import_mark_def Quote_def plain_quote takeWhile_stop prefix_def)

lemma read_imports: "list_all plain imps \<Longrightarrow> imports_in (map (import_line wp) imps) = imps"
proof (induction imps)
  case (Cons imp imps)
  then show ?case using read_import [of imp wp] imports_in_append [of "[import_line wp imp]" "map (import_line wp) imps"] by simp
qed (simp add: imports_in_def)

lemma import_line_newline: "plain imp \<Longrightarrow> CHR 0x0A \<notin> set (import_line wp imp)"
  using plain_chars(2) [of imp] by (simp add: import_line_def Quote_def plain_quote)

lemma read_blocks:
  assumes "list_all (\<lambda>(h, imps). imports_in [h] = [] \<and> CHR 0x0A \<notin> set h \<and> list_all plain imps) bs"
  shows "imports_in (writeBlocks wp n bs) = concat (map snd bs)" "\<forall>l \<in> set (writeBlocks wp n bs). CHR 0x0A \<notin> set l"
proof -
  have "imports_in (writeBlocks wp n bs) = concat (map snd bs) \<and> (\<forall>l \<in> set (writeBlocks wp n bs). CHR 0x0A \<notin> set l)"
    using assms
  proof (induction wp n bs rule: writeBlocks.induct)
    case (2 wp blocks header imps bs)
    have none: "imports_in [] = []" "imports_in [[]] = []" by (simp_all add: imports_in_def import_mark_def)
    show ?case
      using 2 read_imports [of imps wp] import_line_newline [of _ wp] by (auto simp: none list_all_iff)
  qed (simp add: imports_in_def)
  then show "imports_in (writeBlocks wp n bs) = concat (map snd bs)" "\<forall>l \<in> set (writeBlocks wp n bs). CHR 0x0A \<notin> set l" by simp_all
qed

lemma lines_back: "\<forall>l \<in> set ls. CHR 0x0A \<notin> set l \<Longrightarrow> raw_lines (concat (map (\<lambda>l. l @ [CHR 0x0A]) ls)) = ls"
  by (induction ls) (simp_all add: raw_lines_cons)

lemma header_back:
  assumes "CHR 0x0A \<notin> set name"
  shows "imports_in (file_header name) = []" "\<forall>l \<in> set (file_header name). CHR 0x0A \<notin> set l"
  using assms by (simp_all add: imports_in_def file_header_def import_mark_def tab_def)

section \<open>The packages of a profile\<close>

definition blocks_mset :: "import_blocks \<Rightarrow> string multiset" where
  "blocks_mset b = mset (localOther b) + mset (localDetectors b) + mset (external b)"

definition profile_paths :: "(string \<times> pluginEntry list) list \<Rightarrow> (string + string) list" where
  "profile_paths kvs = concat (map (\<lambda>(kind, es). map (kindPath kind) es) kvs)"

lemma add_entries_paths:
  "case add_entries kind es b of
     Inl err \<Rightarrow> Inl err \<in> set (map (kindPath kind) es)
   | Inr b' \<Rightarrow> (\<exists>ps. map (kindPath kind) es = map Inr ps \<and> blocks_mset b' = blocks_mset b + mset ps)"
proof (induction kind es b rule: add_entries.induct)
  case (2 kind e es b)
  show ?case
  proof (cases "kindPath kind e")
    case (Inr imp)
    define b1 where "b1 = (if kind = ''detectors'' then b\<lparr>localDetectors := localDetectors b @ [imp]\<rparr>
       else if has_prefix imp (localModuleRoot @ ''/'') then b\<lparr>localOther := localOther b @ [imp]\<rparr>
       else b\<lparr>external := external b @ [imp]\<rparr>)"
    have b1: "blocks_mset b1 = blocks_mset b + {#imp#}" by (simp add: b1_def blocks_mset_def)
    have step: "add_entries kind (e # es) b = add_entries kind es b1" by (simp add: Inr b1_def)
    have "case add_entries kind es b1 of
        Inl err \<Rightarrow> Inl err \<in> set (map (kindPath kind) es)
      | Inr b' \<Rightarrow> (\<exists>ps. map (kindPath kind) es = map Inr ps \<and> blocks_mset b' = blocks_mset b1 + mset ps)"
      by (rule "2.IH" [OF Inr, folded b1_def])
    then show ?thesis
    proof (cases "add_entries kind es b1")
      case (Inr b')
      then obtain ps where "map (kindPath kind) es = map Inr ps" "blocks_mset b' = blocks_mset b1 + mset ps"
        using \<open>case add_entries kind es b1 of Inl err \<Rightarrow> _ err | Inr b' \<Rightarrow> _ b'\<close> by auto
      then have "map (kindPath kind) (e # es) = map Inr (imp # ps) \<and> blocks_mset b' = blocks_mset b + mset (imp # ps)"
        using b1 \<open>kindPath kind e = Inr imp\<close> by simp
      then show ?thesis unfolding step Inr sum.case by (rule exI)
    qed (use step in \<open>simp del: add_entries.simps\<close>)
  qed simp
qed simp

lemma add_kinds_paths:
  "case add_kinds kvs b of
     Inl err \<Rightarrow> Inl err \<in> set (profile_paths kvs)
   | Inr b' \<Rightarrow> (\<exists>ps. profile_paths kvs = map Inr ps \<and> blocks_mset b' = blocks_mset b + mset ps)"
proof (induction kvs b rule: add_kinds.induct)
  case (2 kind es kvs b)
  note first = add_entries_paths [of kind es b]
  show ?case
  proof (cases "add_entries kind es b")
    case (Inl err)
    then show ?thesis using first by (simp add: profile_paths_def)
  next
    case (Inr b1)
    obtain ps where ps: "map (kindPath kind) es = map Inr ps" "blocks_mset b1 = blocks_mset b + mset ps" using first Inr by auto
    note rest = "2.IH" [OF Inr]
    show ?thesis
    proof (cases "add_kinds kvs b1")
      case (Inr b2)
      then obtain qs where "profile_paths kvs = map Inr qs" "blocks_mset b2 = blocks_mset b1 + mset qs" using rest by auto
      then have "profile_paths ((kind, es) # kvs) = map Inr (ps @ qs) \<and> blocks_mset b2 = blocks_mset b + mset (ps @ qs)"
        using ps by (simp add: profile_paths_def)
      then show ?thesis unfolding add_kinds.simps \<open>add_entries kind es b = Inr b1\<close> sum.case Inr by (rule exI)
    qed (use rest \<open>add_entries kind es b = Inr b1\<close> in \<open>simp add: profile_paths_def\<close>)
  qed
qed (simp add: profile_paths_def)

lemma kindPath_plain:
  assumes "kindPath kind e = Inr imp" "plain (pg_Name e)"
  shows "plain imp"
proof -
  have "plain (pkgSuffix kind (pg_Name e))"
    using assms(2) by (auto simp: pkgSuffix_def nameToPkgSuffix_def plain_def byte_def)
  then show ?thesis
    using assms(1)
    by (auto simp: kindPath_def Let_def kindSingular_def externalModuleRoots_def localModuleRoot_def plain_def byte_def
        split: option.splits if_splits)
qed

definition module_known :: "pluginEntry \<Rightarrow> bool" where
  "module_known e \<longleftrightarrow> pg_Module e \<in> set [[], ''arxsentinel'', ''arx-core'']"

lemma kindPath_known: "kind \<in> gm_dom kindSingular \<Longrightarrow> (\<exists>imp. kindPath kind e = Inr imp) \<longleftrightarrow> module_known e"
  by (auto simp: kindPath_def Let_def kindSingular_def externalModuleRoots_def module_known_def)

section \<open>Properties of the generator\<close>

definition no_imports :: import_blocks where
  "no_imports = \<lparr>localOther = [], localDetectors = [], external = []\<rparr>"

definition named_plainly :: "profileSchema \<Rightarrow> bool" where
  "named_plainly p \<longleftrightarrow> list_all (\<lambda>(kind, es). list_all (\<lambda>e. plain (pg_Name e)) es) (kind_entries p)"

lemma paths_plain:
  assumes "named_plainly p" "profile_paths (kind_entries p) = map Inr ps" "imp \<in> set ps"
  shows "plain imp"
proof -
  have "Inr imp \<in> set (profile_paths (kind_entries p))" using assms(2,3) by simp
  then obtain kind es e where "(kind, es) \<in> set (kind_entries p)" "e \<in> set es" "kindPath kind e = Inr imp"
    by (auto simp: profile_paths_def)
  then show ?thesis using assms(1) kindPath_plain by (fastforce simp: list_all_iff named_plainly_def)
qed

text \<open>The file is read back block by block, each sorted.\<close>

lemma emit_reads:
  assumes "CHR 0x0A \<notin> set name" "named_plainly p" "add_kinds (kind_entries p) no_imports = Inr b"
  shows "\<exists>content. emit wp name p = Inr content
    \<and> blank_imports content = sort (localOther b) @ sort (localDetectors b) @ sort (external b)"
proof -
  obtain ps where ps: "profile_paths (kind_entries p) = map Inr ps" "blocks_mset b = mset ps"
    using add_kinds_paths [of "kind_entries p" no_imports] assms(3) by (auto simp: blocks_mset_def no_imports_def)
  let ?bs = "[([], sort (localOther b)), (detector_comment, sort (localDetectors b)), ([], sort (external b))]"
  have "set ps = set (localOther b) \<union> set (localDetectors b) \<union> set (external b)"
    using arg_cong [OF ps(2), of set_mset] by (simp add: blocks_mset_def)
  moreover have "imports_in [detector_comment] = []" "imports_in [[]] = []" "CHR 0x0A \<notin> set detector_comment"
    by (simp_all add: imports_in_def import_mark_def detector_comment_def tab_def)
  ultimately have bs: "list_all (\<lambda>(h, imps). imports_in [h] = [] \<and> CHR 0x0A \<notin> set h \<and> list_all plain imps) ?bs"
    using paths_plain [OF assms(2) ps(1)] by (simp add: list_all_iff)
  have "\<forall>l \<in> set (file_header name @ writeBlocks wp 0 ?bs @ ['')'']). CHR 0x0A \<notin> set l"
    using header_back(2) [OF assms(1)] read_blocks(2) [OF bs, of wp 0] by auto
  moreover have "imports_in ['')''] = []" by (simp add: imports_in_def import_mark_def tab_def)
  ultimately have again: "blank_imports (concat (map (\<lambda>l. l @ [CHR 0x0A]) (file_header name @ writeBlocks wp 0 ?bs @ ['')''])))
      = sort (localOther b) @ sort (localDetectors b) @ sort (external b)"
    using header_back(1) [OF assms(1)] read_blocks(1) [OF bs, of wp 0] unfolding blank_imports_def
    by (subst lines_back) (simp_all del: writeBlocks.simps)
  show ?thesis
  proof (intro exI conjI)
    show "emit wp name p = Inr (concat (map (\<lambda>l. l @ [CHR 0x0A]) (file_header name @ writeBlocks wp 0 ?bs @ ['')''])))"
      using assms(3) by (simp add: emit_def no_imports_def del: writeBlocks.simps)
  qed (rule again)
qed

lemma kinds_known: "(kind, es) \<in> set (kind_entries p) \<Longrightarrow> kind \<in> gm_dom kindSingular"
  by (auto simp: kind_entries_def kindSingular_def)

lemma all_known:
  assumes "profile_paths (kind_entries p) = map Inr ps"
  shows "list_all (\<lambda>(kind, es). list_all module_known es) (kind_entries p)"
proof -
  have "module_known e" if "(kind, es) \<in> set (kind_entries p)" "e \<in> set es" for kind es e
  proof -
    have "kindPath kind e \<in> set (profile_paths (kind_entries p))" using that by (auto simp: profile_paths_def)
    then show ?thesis using kindPath_known [OF kinds_known [OF that(1)], of e] by (auto simp: assms)
  qed
  then show ?thesis by (auto simp: list_all_iff)
qed

text \<open>C40: What a generated file imports: exactly the packages of the entries of its profile, as many as
  the generator reports; generation fails exactly when an entry names an unknown module.\<close>

theorem emit_roundtrip:
  assumes "CHR 0x0A \<notin> set name" "named_plainly p"
  shows "case emit wp name p of
      Inl err \<Rightarrow> \<not> list_all (\<lambda>(kind, es). list_all module_known es) (kind_entries p)
    | Inr content \<Rightarrow> list_all (\<lambda>(kind, es). list_all module_known es) (kind_entries p)
        \<and> mset (map Inr (blank_imports content)) = mset (profile_paths (kind_entries p))
        \<and> length (blank_imports content) = countImports p"
proof -
  note paths = add_kinds_paths [of "kind_entries p" no_imports]
  show ?thesis
  proof (cases "add_kinds (kind_entries p) no_imports")
    case (Inl err)
    then obtain kind es e where "(kind, es) \<in> set (kind_entries p)" "e \<in> set es" "kindPath kind e = Inl err"
      using paths by (auto simp: profile_paths_def)
    then have "\<not> module_known e" using kindPath_known [OF kinds_known, of kind es p e] by auto
    then have "\<not> list_all (\<lambda>(kind, es). list_all module_known es) (kind_entries p)"
      using \<open>(kind, es) \<in> set (kind_entries p)\<close> \<open>e \<in> set es\<close> by (auto simp: list_all_iff)
    then show ?thesis using Inl by (simp add: emit_def no_imports_def)
  next
    case (Inr b)
    then obtain ps where ps: "profile_paths (kind_entries p) = map Inr ps" "blocks_mset b = mset ps"
      using paths by (auto simp: blocks_mset_def no_imports_def)
    obtain content where c: "emit wp name p = Inr content"
      "blank_imports content = sort (localOther b) @ sort (localDetectors b) @ sort (external b)"
      using emit_reads [OF assms Inr] by blast
    have same: "mset (blank_imports content) = mset ps" using c(2) ps(2) by (simp add: blocks_mset_def add.assoc)
    then have "mset (map Inr (blank_imports content)) = mset (profile_paths (kind_entries p))" unfolding ps(1) by simp
    moreover have "length (blank_imports content) = countImports p"
    proof -
      have "length (blank_imports content) = length (profile_paths (kind_entries p))"
        unfolding ps(1) using arg_cong [OF same, of size] by simp
      then show ?thesis by (simp add: profile_paths_def kind_entries_def countImports_def)
    qed
    ultimately show ?thesis using all_known [OF ps(1)] by (simp add: c(1))
  qed
qed

section \<open>The profiles of the repository\<close>

definition core_plugin :: "string \<Rightarrow> pluginEntry" where
  "core_plugin name = \<lparr>pg_Name = name, pg_Module = ''arx-core''\<rparr>"

definition own_plugin :: "string \<Rightarrow> pluginEntry" where
  "own_plugin name = \<lparr>pg_Name = name, pg_Module = ''arxsentinel''\<rparr>"

definition detector_entry :: "string \<Rightarrow> pluginEntry" where
  "detector_entry name = \<lparr>pg_Name = name, pg_Module = []\<rparr>"

definition iot_profile :: profileSchema where
  "iot_profile = \<lparr>pf_Name = ''iot'', pf_Description = [], pf_Executors = [own_plugin ''cloudflare''], pf_Processors = [],
     pf_Sinks = map core_plugin [''exec'', ''stdout''], pf_Sources = map core_plugin [''syslog'', ''file''],
     pf_Detectors = map detector_entry [''probe'', ''overflow'']\<rparr>"

definition minimal_profile :: profileSchema where
  "minimal_profile = \<lparr>pf_Name = ''minimal'', pf_Description = [], pf_Executors = [own_plugin ''cloudflare''], pf_Processors = [],
     pf_Sinks = [core_plugin ''stdout''], pf_Sources = map core_plugin [''syslog'', ''stdin''],
     pf_Detectors = map detector_entry [''probe'', ''rate'', ''bruteforce'', ''overflow'']\<rparr>"

definition full_profile :: profileSchema where
  "full_profile = \<lparr>pf_Name = ''full'', pf_Description = [],
     pf_Executors = map own_plugin [''cloudflare'', ''mikrotik'', ''nginx'', ''openwrt'', ''opnsense''],
     pf_Processors = map own_plugin [''chaincheck'', ''whitelist''],
     pf_Sinks = [core_plugin ''datadog'', core_plugin ''exec'', core_plugin ''loki'', own_plugin ''sentinel-threat'', core_plugin ''splunk'',
       core_plugin ''stdout''],
     pf_Sources = [core_plugin ''exec'', core_plugin ''file'', core_plugin ''http'', own_plugin ''sentinel'', core_plugin ''stdin'',
       core_plugin ''syslog''],
     pf_Detectors = map detector_entry [''probe'', ''rate'', ''bruteforce'', ''noasset'', ''overflow'', ''crawler'', ''badbot'', ''ua'']\<rparr>"

definition own_path :: "string \<Rightarrow> string" where
  "own_path p = ''github.com/mr-addams/arxsentinel/pkg/'' @ p"

definition core_path :: "string \<Rightarrow> string" where
  "core_path p = ''github.com/mr-addams/arx-core/pkg/'' @ p"

definition plugins_full :: "string list" where
  "plugins_full =
    map own_path [''executorplugins/cloudflare'', ''executorplugins/mikrotik'', ''executorplugins/nginx'', ''executorplugins/openwrt'',
      ''executorplugins/opnsense'', ''processorplugins/chaincheck'', ''processorplugins/whitelist'',
      ''detectorplugins/badbot'', ''detectorplugins/bruteforce'', ''detectorplugins/crawler'', ''detectorplugins/noasset'',
      ''detectorplugins/overflow'', ''detectorplugins/probe'', ''detectorplugins/rate'', ''detectorplugins/useragent'']
    @ map core_path [''sink/datadog'', ''sink/exec'', ''sink/loki'', ''sink/sentinel'', ''sink/splunk'', ''sink/stdout'',
      ''source/exec'', ''source/file'', ''source/http'', ''source/sentinel'', ''source/stdin'', ''source/syslog'']"

definition plugins_iot :: "string list" where
  "plugins_iot =
    map own_path [''executorplugins/cloudflare'', ''detectorplugins/overflow'', ''detectorplugins/probe'']
    @ map core_path [''sink/exec'', ''sink/stdout'', ''source/file'', ''source/syslog'']"

definition plugins_minimal :: "string list" where
  "plugins_minimal =
    map own_path [''executorplugins/cloudflare'', ''detectorplugins/bruteforce'', ''detectorplugins/overflow'', ''detectorplugins/probe'',
      ''detectorplugins/rate'']
    @ map core_path [''sink/stdout'', ''source/stdin'', ''source/syslog'']"

lemma iot_blocks:
  "named_plainly iot_profile"
  "add_kinds (kind_entries iot_profile) no_imports = Inr \<lparr>localOther = map own_path [''executorplugins/cloudflare''],
     localDetectors = map own_path [''detectorplugins/probe'', ''detectorplugins/overflow''],
     external = map core_path [''source/syslog'', ''source/file'', ''sink/exec'', ''sink/stdout'']\<rparr>"
  by code_simp+

lemma minimal_blocks:
  "named_plainly minimal_profile"
  "add_kinds (kind_entries minimal_profile) no_imports = Inr \<lparr>localOther = map own_path [''executorplugins/cloudflare''],
     localDetectors = map own_path [''detectorplugins/probe'', ''detectorplugins/rate'', ''detectorplugins/bruteforce'', ''detectorplugins/overflow''],
     external = map core_path [''source/syslog'', ''source/stdin'', ''sink/stdout'']\<rparr>"
  by code_simp+

lemma sorted_blocks:
  "sort (map own_path [''executorplugins/cloudflare'']) @ sort (map own_path [''detectorplugins/probe'', ''detectorplugins/overflow''])
     @ sort (map core_path [''source/syslog'', ''source/file'', ''sink/exec'', ''sink/stdout'']) = plugins_iot"
  "sort (map own_path [''executorplugins/cloudflare''])
     @ sort (map own_path [''detectorplugins/probe'', ''detectorplugins/rate'', ''detectorplugins/bruteforce'', ''detectorplugins/overflow''])
     @ sort (map core_path [''source/syslog'', ''source/stdin'', ''sink/stdout'']) = plugins_minimal"
  by code_simp+

text \<open>The generated files of the repository, package for package and in order.\<close>

lemma generated_in_sync:
  "map_sum id blank_imports (emit wp ''iot'' iot_profile) = Inr plugins_iot"
  "map_sum id blank_imports (emit wp ''minimal'' minimal_profile) = Inr plugins_minimal"
proof -
  have n: "CHR 0x0A \<notin> set ''iot''" "CHR 0x0A \<notin> set ''minimal''" by simp_all
  show "map_sum id blank_imports (emit wp ''iot'' iot_profile) = Inr plugins_iot"
    using emit_reads [OF n(1) iot_blocks, of wp] unfolding import_blocks.simps sorted_blocks by auto
  show "map_sum id blank_imports (emit wp ''minimal'' minimal_profile) = Inr plugins_minimal"
    using emit_reads [OF n(2) minimal_blocks, of wp] unfolding import_blocks.simps sorted_blocks by auto
qed

text \<open>The import file of the default build is written by hand: its profile names packages for the
  sentinel plugins that the product does not have, and the file imports those of the core.\<close>

lemma full_profile_drifts:
  "filter (\<lambda>p. p \<notin> set (map Inr plugins_full)) (profile_paths (kind_entries full_profile))
     = map Inr (map own_path [''sourceplugins/sentinel'', ''sinkplugins/sentinel''])"
  "filter (\<lambda>p. Inr p \<notin> set (profile_paths (kind_entries full_profile))) plugins_full = map core_path [''sink/sentinel'', ''source/sentinel'']"
  by code_simp+

text \<open>The header of the hand-written file counts 14 imports.\<close>

lemma full_imports: "length plugins_full = 27" "countImports full_profile = 27"
  by code_simp+

theorem emit_roundtrip_witness:
  "case emit (\<lambda>_. False) ''iot'' iot_profile of
     Inl err \<Rightarrow> False
   | Inr content \<Rightarrow> mset (map Inr (blank_imports content)) = mset (profile_paths (kind_entries iot_profile))
       \<and> length (blank_imports content) = 7"
proof -
  have "countImports iot_profile = 7" by code_simp
  moreover have "CHR 0x0A \<notin> set ''iot''" by simp
  ultimately show ?thesis
    using emit_roundtrip [OF _ iot_blocks(1), of "''iot''" "\<lambda>_. False"] generated_in_sync(1) [of "\<lambda>_. False"]
    by (cases "emit (\<lambda>_. False) ''iot'' iot_profile") simp_all
qed

section \<open>A run of the generator\<close>

text \<open>The files a run has to write: one for each profile but \<open>full\<close>.\<close>

definition is_profile :: "string \<times> bool \<Rightarrow> bool" where
  "is_profile e \<longleftrightarrow> \<not> snd e \<and> has_suffix (fst e) ''.yaml''"

definition profile_of :: "'w gen_env \<Rightarrow> string \<times> bool \<Rightarrow> profileSchema option" where
  "profile_of ge e = Option.bind (ge_read ge (fst e)) (ge_yaml ge)"

definition generated :: "(string \<times> bool) list \<Rightarrow> (string \<times> bool) list" where
  "generated es = filter (\<lambda>e. is_profile e \<and> trim_suffix (fst e) ''.yaml'' \<noteq> ''full'') es"

definition base :: "string \<times> bool \<Rightarrow> string" where
  "base e = trim_suffix (fst e) ''.yaml''"

lemma generated_cons: "generated (e # es) = (if is_profile e \<and> base e \<noteq> ''full'' then e # generated es else generated es)"
  by (simp add: generated_def base_def)

text \<open>One step of the loop over the directory.\<close>

lemma read_profiles_step:
  "read_profiles ge (e # es) (names, byName) =
    (if \<not> is_profile e then read_profiles ge es (names, byName)
     else case profile_of ge e of
         None \<Rightarrow> Inl ((if ge_read ge (fst e) = None then ''read '' else ''parse '') @ fst e)
       | Some p \<Rightarrow> if base e = ''full'' then read_profiles ge es (names, byName)
           else read_profiles ge es (names @ [base e], AList.update (base e) p byName))"
  by (cases e) (auto simp: is_profile_def profile_of_def base_def Let_def split: option.splits)

text \<open>Every profile is read, and the table holds the profile of each name.\<close>

lemma read_profiles_exact:
  "read_profiles ge es (names, byName) =
    (case find (\<lambda>e. is_profile e \<and> profile_of ge e = None) es of
       Some e \<Rightarrow> Inl ((if ge_read ge (fst e) = None then ''read '' else ''parse '') @ fst e)
     | None \<Rightarrow> Inr (names @ map base (generated es),
         fold (\<lambda>e. AList.update (base e) (the (profile_of ge e))) (generated es) byName))"
proof (induction es arbitrary: names byName)
  case (Cons e es)
  then show ?case by (simp add: read_profiles_step generated_cons del: read_profiles.simps split: option.split)
qed (simp add: generated_def)

lemma fold_update_map_of:
  "distinct (map k es) \<Longrightarrow> e \<in> set es \<Longrightarrow> map_of (fold (\<lambda>e. AList.update (k e) (v e)) es m) (k e) = Some (v e)"
proof (induction es arbitrary: m)
  case (Cons x es)
  have other: "y \<notin> k ` set es \<Longrightarrow> map_of (fold (\<lambda>e. AList.update (k e) (v e)) es m) y = map_of m y" for y m
    by (induction es arbitrary: m) (auto simp: update_conv')
  show ?case
  proof (cases "e = x")
    case True
    then show ?thesis using Cons.prems(1) other [of "k x"] by (simp add: update_conv')
  qed (use Cons in auto)
qed simp

lemma base_distinct: "distinct (map fst es) \<Longrightarrow> distinct (map base (generated es))"
proof (induction es)
  case (Cons e es)
  have same: "fst e' = fst e" if "e' \<in> set (generated es)" "base e' = base e" "is_profile e" for e'
    using that by (auto simp: generated_def is_profile_def base_def trim_suffix_def suffix_def)
  have fresh: "fst e \<noteq> fst e'" if "e' \<in> set (generated es)" for e'
    using Cons.prems that by (auto simp: generated_def)
  have "is_profile e \<longrightarrow> base e \<notin> base ` set (generated es)" using same fresh by fastforce
  then show ?case using Cons by (simp add: generated_cons)
qed (simp add: generated_def)

text \<open>A run on a directory whose profiles can all be read and emitted, with a writer that does not
  fail: one file for each profile but \<open>full\<close>, in the order of the names, with the imports of exactly
  this profile.\<close>

lemma emit_all_writes:
  assumes "\<And>path content w. ge_write ge path content w = (True, w @ [(path, content)])"
    and "\<forall>e \<in> set es. map_of byName (base e) = Some (the (profile_of ge e)) \<and> emit wp (base e) (the (profile_of ge e)) = Inr (content e)"
  shows "emit_all wp ge byName (map base es) w = (True, w @ map (\<lambda>e. (ge_path ge (''plugins_'' @ base e @ ''.go''), content e)) es)"
  using assms(2) by (induction es arbitrary: w) (simp_all add: assms(1))

lemma sort_base: "sort (map base es) = map base (sort_key base es)"
  by (rule properties_for_sort) simp_all

lemma gen_main_writes:
  assumes "ge_entries ge = Some es" "distinct (map fst es)"
    and "\<And>path content w. ge_write ge path content w = (True, w @ [(path, content)])"
    and "\<forall>e \<in> set es. is_profile e \<longrightarrow> profile_of ge e \<noteq> None"
    and "\<forall>e \<in> set (generated es). emit wp (base e) (the (profile_of ge e)) = Inr (content e)"
  shows "gen_main wp ge [] =
    (0, map (\<lambda>e. (ge_path ge (''plugins_'' @ base e @ ''.go''), content e)) (sort_key base (generated es)))"
proof -
  let ?byName = "fold (\<lambda>e. AList.update (base e) (the (profile_of ge e))) (generated es) []"
  have "find (\<lambda>e. is_profile e \<and> profile_of ge e = None) es = None" using assms(4) by (auto simp: find_None_iff)
  then have r: "read_profiles ge es ([], []) = Inr (map base (generated es), ?byName)" by (simp add: read_profiles_exact)
  have "\<forall>e \<in> set (sort_key base (generated es)). map_of ?byName (base e) = Some (the (profile_of ge e))
      \<and> emit wp (base e) (the (profile_of ge e)) = Inr (content e)"
    using fold_update_map_of [OF base_distinct [OF assms(2)], of _ "\<lambda>e. the (profile_of ge e)" "[]"] assms(5)
    unfolding set_sort by blast
  from emit_all_writes [OF assms(3) this, of "[]"] show ?thesis
    by (simp add: gen_main_def assms(1) r sort_base)
qed

text \<open>A profile that cannot be read ends the run before anything is written.\<close>

lemma gen_main_unreadable:
  assumes "ge_entries ge = Some es" "e \<in> set es" "is_profile e" "profile_of ge e = None"
  shows "gen_main wp ge w = (1, w)"
proof -
  obtain e' where "find (\<lambda>e. is_profile e \<and> profile_of ge e = None) es = Some e'"
    using assms(2-4) find_None_iff [of "\<lambda>e. is_profile e \<and> profile_of ge e = None" es]
    by (cases "find (\<lambda>e. is_profile e \<and> profile_of ge e = None) es") blast+
  then show ?thesis by (simp add: gen_main_def assms(1) read_profiles_exact)
qed

end
