(* ===== verification/Registration.thy ===== *)
theory Registration
  imports Channels ExecConfig RestClients Profiles
begin

text \<open>
  Plugin registration: \<open>register.go\<close> and \<open>manifest.go\<close> of the plugins under \<open>pkg\<close>, the constructors of the
  executors and of their HTTP clients.  Importing a package registers its executor: a name, a
  constructor and a manifest.  The version and the tags of a manifest are shown to users only and
  are left out, and so are the texts that wrap an error of the decoder and the log messages.

  The registry itself belongs to arx-core.  It is the pair of functions the program calls, with
  the documented law that a name gives the constructor and the manifest registered under it and
  that any other name is an error (\<open>registry_law\<close>).

  Shown: a configuration that passes the validation names only executors of the build, so a start
  fails only on the settings of an executor or on a channel; every executor that runs is of the type
  the configuration asks for, has a known level and, apart from MikroTik, a positive ban time
  (\<open>variant_starts\<close>); the stages of a pipeline and the executors agree on their types
  (\<open>stages_agree\<close>); a generated identity is a version 4 UUID (\<open>genUUID_version_4\<close>).
\<close>

section \<open>Manifests\<close>

definition TypeNone :: DataType where
  "TypeNone = OtherType ''none''"

definition detector_of :: "string \<Rightarrow> Manifest" where
  "detector_of n = \<lparr>PluginID = n, Role = ''detector'', InputType = TypeStructured, OutputType = TypeStructured\<rparr>"

definition badbot_Manifest :: Manifest where
  "badbot_Manifest = detector_of ''badbot''"

definition bruteforce_Manifest :: Manifest where
  "bruteforce_Manifest = detector_of ''bruteforce''"

definition crawler_Manifest :: Manifest where
  "crawler_Manifest = detector_of ''crawler''"

definition noasset_Manifest :: Manifest where
  "noasset_Manifest = detector_of ''noasset''"

definition overflow_Manifest :: Manifest where
  "overflow_Manifest = detector_of ''overflow''"

definition probe_Manifest :: Manifest where
  "probe_Manifest = detector_of ''probe''"

definition rate_Manifest :: Manifest where
  "rate_Manifest = detector_of ''rate''"

definition ua_Manifest :: Manifest where
  "ua_Manifest = detector_of ''useragent''"

definition executor_of :: "string \<Rightarrow> Manifest" where
  "executor_of n = \<lparr>PluginID = n, Role = ''executor'', InputType = TypeScoredEvent, OutputType = TypeNone\<rparr>"

definition cloudflare_Manifest :: Manifest where
  "cloudflare_Manifest = executor_of ''cloudflare''"

definition mikrotik_Manifest :: Manifest where
  "mikrotik_Manifest = executor_of ''mikrotik''"

definition nginx_Manifest :: Manifest where
  "nginx_Manifest = executor_of ''nginx''"

definition openwrt_Manifest :: Manifest where
  "openwrt_Manifest = executor_of ''openwrt''"

definition opnsense_Manifest :: Manifest where
  "opnsense_Manifest = executor_of ''opnsense''"

definition processor_of :: "string \<Rightarrow> Manifest" where
  "processor_of n = \<lparr>PluginID = n, Role = ''processor'', InputType = TypeStructured, OutputType = TypeStructured\<rparr>"

definition chaincheck_Manifest :: Manifest where
  "chaincheck_Manifest = processor_of ''chaincheck''"

definition whitelist_Manifest :: Manifest where
  "whitelist_Manifest = processor_of ''whitelist''"

definition waf_Manifest :: Manifest where
  "waf_Manifest = processor_of ''waf''"

section \<open>HTTP clients\<close>

text \<open>What a constructor reads of the machine: files, and sixteen random bytes.\<close>

record machine =
  ReadFile :: "string \<Rightarrow> string option"
  random_bytes :: "8 word list option"

text \<open>The certificates are the text of the file; one that cannot be read is ignored.\<close>

record mk_http =
  mkh_baseURL :: string
  mkh_username :: string
  mkh_password :: string
  mkh_InsecureSkipVerify :: bool
  mkh_RootCAs :: "string option"

definition mk_NewHTTPClient :: "machine \<Rightarrow> string \<Rightarrow> int \<Rightarrow> string \<Rightarrow> string \<Rightarrow> bool \<Rightarrow> string \<Rightarrow> bool \<Rightarrow> mk_http" where
  "mk_NewHTTPClient mc host port username password tlsVerify caFile useTLS =
    (let scheme = (if \<not> useTLS then ''http'' else ''https'')
     in \<lparr>mkh_baseURL = scheme @ ''://'' @ host @ '':'' @ show_int port @ ''/rest'', mkh_username = username, mkh_password = password,
         mkh_InsecureSkipVerify = (\<not> tlsVerify), mkh_RootCAs = (if caFile \<noteq> [] then ReadFile mc caFile else None)\<rparr>)"

record cf_http =
  cfh_accountID :: string
  cfh_token :: string
  cfh_baseURL :: string

definition NewHTTPCFClient :: "string \<Rightarrow> string \<Rightarrow> cf_http" where
  "NewHTTPCFClient accountID token = \<lparr>cfh_accountID = accountID, cfh_token = token, cfh_baseURL = ''https://api.cloudflare.com/client/v4''\<rparr>"

definition NewHTTPCFClientWithBaseURL :: "string \<Rightarrow> string \<Rightarrow> string \<Rightarrow> cf_http" where
  "NewHTTPCFClientWithBaseURL accountID token baseURL = \<lparr>cfh_accountID = accountID, cfh_token = token, cfh_baseURL = baseURL\<rparr>"

definition ow_baseURL :: "ow_Config \<Rightarrow> string" where
  "ow_baseURL cfg = owc_Scheme cfg @ ''://'' @ owc_Host cfg @ '':'' @ show_int (owc_Port cfg) @ ''/ubus''"

record opn_http =
  oph_baseURL :: string
  oph_aliasName :: string
  oph_apiKey :: string
  oph_apiSecret :: string
  oph_InsecureSkipVerify :: bool

definition opn_NewHTTPClient :: "opn_Config \<Rightarrow> opn_http" where
  "opn_NewHTTPClient cfg =
    \<lparr>oph_baseURL = opc_Scheme cfg @ ''://'' @ opc_Host cfg @ '':'' @ show_int (opc_Port cfg), oph_aliasName = opc_AliasName cfg,
     oph_apiKey = opc_APIKey cfg, oph_apiSecret = opc_APISecret cfg, oph_InsecureSkipVerify = (\<not> opc_TLSVerify cfg)\<rparr>"

section \<open>Constructors of executors\<close>

definition byte_hex :: "8 word list \<Rightarrow> string" where
  "byte_hex bs = concat (map (\<lambda>b. hex 2 (unat b)) bs)"

text \<open>The version and the variant of the UUID are set in the seventh and the ninth byte.\<close>

definition genUUID :: "machine \<Rightarrow> string" where
  "genUUID mc =
    (case random_bytes mc of
       None \<Rightarrow> ''unknown''
     | Some b \<Rightarrow>
         let b = b[6 := or (and (b ! 6) 0x0f) 0x40];
             b = b[8 := or (and (b ! 8) 0x3f) 0x80]
         in byte_hex (take 4 b) @ ''-'' @ byte_hex (take 2 (drop 4 b)) @ ''-'' @ byte_hex (take 2 (drop 6 b)) @ ''-''
            @ byte_hex (take 2 (drop 8 b)) @ ''-'' @ byte_hex (take 6 (drop 10 b)))"

datatype executor =
    MikroTikExecutor string mk_Settings mk_http
  | NginxExecutor string ng_Settings
  | CloudflareExecutor string cf_Settings cf_http string
  | OpenwrtExecutor ow_Config
  | OpnsenseExecutor string opn_Config opn_http

type_synonym constructor = "machine \<Rightarrow> string \<Rightarrow> raw_config \<Rightarrow> exec_error + executor"

definition NewMikroTikExecutor :: constructor where
  "NewMikroTikExecutor mc name raw =
    (case mk_parseConfig raw of
       Inl err \<Rightarrow> Inl err
     | Inr parsed \<Rightarrow>
         let client = mk_NewHTTPClient mc (mks_Host parsed) (mks_Port parsed) (mks_Username parsed) (mks_Password parsed)
                        (mks_TLSVerify parsed) (mks_CAFile parsed) (mks_UseTLS parsed)
         in Inr (MikroTikExecutor name parsed client))"

definition ng_NewExecutor :: constructor where
  "ng_NewExecutor mc name raw =
    (case ng_parseConfig raw of
       Inl err \<Rightarrow> Inl err
     | Inr parsed \<Rightarrow> if ngc_TTL parsed \<le> 0 then Inl (Rejected ''ttl'') else Inr (NginxExecutor name parsed))"

definition cf_NewExecutor :: constructor where
  "cf_NewExecutor mc name raw =
    (case cf_parseConfig raw of
       Inl err \<Rightarrow> Inl err
     | Inr parsed \<Rightarrow>
         if cfc_TTL parsed \<le> 0 then Inl (Rejected ''ttl'')
         else
           let client = (if cfs_APIBaseURL parsed \<noteq> []
                         then NewHTTPCFClientWithBaseURL (cfs_AccountID parsed) (cfs_APIToken parsed) (cfs_APIBaseURL parsed)
                         else NewHTTPCFClient (cfs_AccountID parsed) (cfs_APIToken parsed));
               instanceID = LoadInstanceID (cfx_Config.truncate parsed) (ReadFile mc ''/var/lib/arxsentinel/instance.id'')
                              (ReadFile mc ''/etc/machine-id'') (genUUID mc)
           in Inr (CloudflareExecutor name parsed client instanceID))"

text \<open>The name of the configuration is not kept, and the client is made of the configuration alone.\<close>

definition NewOpenwrtExecutor :: constructor where
  "NewOpenwrtExecutor mc name raw =
    (case ow_parseConfig raw of Inl err \<Rightarrow> Inl err | Inr parsed \<Rightarrow> Inr (OpenwrtExecutor parsed))"

definition NewOpnsenseExecutor :: constructor where
  "NewOpnsenseExecutor mc name raw =
    (case opn_parseConfig raw of
       Inl err \<Rightarrow> Inl err
     | Inr parsed \<Rightarrow> Inr (OpnsenseExecutor name parsed (opn_NewHTTPClient parsed)))"

fun executor_Name :: "executor \<Rightarrow> string" where
  "executor_Name (MikroTikExecutor name cfg client) = (if mkc_ListName cfg \<noteq> [] then mkc_ListName cfg else ''mikrotik'')"
| "executor_Name (NginxExecutor name cfg) = name"
| "executor_Name (CloudflareExecutor name cfg client instanceID) = name"
| "executor_Name (OpenwrtExecutor cfg) = (if owc_IPSetName cfg \<noteq> [] then owc_IPSetName cfg else ''openwrt'')"
| "executor_Name (OpnsenseExecutor name cfg client) = (if opc_AliasName cfg \<noteq> [] then opc_AliasName cfg else ''opnsense'')"

fun executor_Type :: "executor \<Rightarrow> string" where
  "executor_Type (MikroTikExecutor name cfg client) = ''mikrotik''"
| "executor_Type (NginxExecutor name cfg) = ''nginx''"
| "executor_Type (CloudflareExecutor name cfg client instanceID) = ''cloudflare''"
| "executor_Type (OpenwrtExecutor cfg) = ''openwrt''"
| "executor_Type (OpnsenseExecutor name cfg client) = ''opnsense''"

section \<open>Registration\<close>

record registration =
  reg_Name :: string
  reg_Factory :: constructor
  reg_Manifest :: Manifest

definition cloudflare_init :: registration where
  "cloudflare_init = \<lparr>reg_Name = ''cloudflare'', reg_Factory = cf_NewExecutor, reg_Manifest = cloudflare_Manifest\<rparr>"

definition mikrotik_init :: registration where
  "mikrotik_init = \<lparr>reg_Name = ''mikrotik'', reg_Factory = NewMikroTikExecutor, reg_Manifest = mikrotik_Manifest\<rparr>"

definition nginx_init :: registration where
  "nginx_init = \<lparr>reg_Name = ''nginx'', reg_Factory = ng_NewExecutor, reg_Manifest = nginx_Manifest\<rparr>"

definition openwrt_init :: registration where
  "openwrt_init = \<lparr>reg_Name = ''openwrt'', reg_Factory = NewOpenwrtExecutor, reg_Manifest = openwrt_Manifest\<rparr>"

definition opnsense_init :: registration where
  "opnsense_init = \<lparr>reg_Name = ''opnsense'', reg_Factory = NewOpnsenseExecutor, reg_Manifest = opnsense_Manifest\<rparr>"

text \<open>The package of an import runs its \<open>init\<close>; packages of other kinds register no executor.\<close>

definition package_init :: "(string, registration) gomap" where
  "package_init =
    [(own_path ''executorplugins/cloudflare'', cloudflare_init), (own_path ''executorplugins/mikrotik'', mikrotik_init),
     (own_path ''executorplugins/nginx'', nginx_init), (own_path ''executorplugins/openwrt'', openwrt_init),
     (own_path ''executorplugins/opnsense'', opnsense_init)]"

definition registered :: "string list \<Rightarrow> (string, registration) gomap" where
  "registered imports = map (\<lambda>r. (reg_Name r, r)) (List.map_filter (map_of package_init) imports)"

text \<open>The names the detectors register.\<close>

definition detector_inits :: "(string, Manifest) gomap" where
  "detector_inits =
    [(''badbot'', badbot_Manifest), (''bruteforce'', bruteforce_Manifest), (''crawler'', crawler_Manifest), (''noasset'', noasset_Manifest),
     (''overflow'', overflow_Manifest), (''probe'', probe_Manifest), (''rate'', rate_Manifest), (''ua'', ua_Manifest)]"

text \<open>What the registry of arx-core documents: \<open>Build\<close> and \<open>ManifestByName\<close> use what was registered
  under the name.\<close>

definition registry_law :: "machine \<Rightarrow> string list \<Rightarrow> plugin_env \<Rightarrow> (raw_config ExecutorTopConfig \<Rightarrow> string + executor) \<Rightarrow> bool" where
  "registry_law mc imports pe build \<longleftrightarrow>
    (\<forall>ty. executor_manifest pe ty = map_option reg_Manifest (map_of (registered imports) ty))
    \<and> (\<forall>ec ex. build ec = Inr ex \<longleftrightarrow>
          (\<exists>r. map_of (registered imports) (ex_Type ec) = Some r \<and> reg_Factory r mc (ex_Name ec) (ex_Config ec) = Inr ex))"

section \<open>What a constructor guarantees\<close>

fun executor_MinLevel :: "executor \<Rightarrow> string" where
  "executor_MinLevel (MikroTikExecutor name cfg client) = mkc_MinLevel cfg"
| "executor_MinLevel (NginxExecutor name cfg) = ngc_MinLevel cfg"
| "executor_MinLevel (CloudflareExecutor name cfg client instanceID) = cfc_MinLevel cfg"
| "executor_MinLevel (OpenwrtExecutor cfg) = owc_MinLevel cfg"
| "executor_MinLevel (OpnsenseExecutor name cfg client) = opc_MinLevel cfg"

fun executor_TTL :: "executor \<Rightarrow> duration" where
  "executor_TTL (MikroTikExecutor name cfg client) = mkc_TTL cfg"
| "executor_TTL (NginxExecutor name cfg) = ngc_TTL cfg"
| "executor_TTL (CloudflareExecutor name cfg client instanceID) = cfc_TTL cfg"
| "executor_TTL (OpenwrtExecutor cfg) = owc_TTL cfg"
| "executor_TTL (OpnsenseExecutor name cfg client) = opc_TTL cfg"

definition ready :: "string \<Rightarrow> executor \<Rightarrow> bool" where
  "ready ty ex \<longleftrightarrow> executor_Type ex = ty \<and> map_of levelOrder (executor_MinLevel ex) \<noteq> None
    \<and> (ty \<noteq> ''mikrotik'' \<longrightarrow> 0 < executor_TTL ex)"

lemma ng_parse_checked: "ng_parseConfig raw = Inr cfg \<Longrightarrow> map_of levelOrder (ngc_MinLevel cfg) \<noteq> None"
  using decode_checked [of ng_durations ng_fields ng_checks raw ng_DefaultConfig]
  by (auto simp: ng_parseConfig_def ng_checks_def check_simps split: sum.splits)

lemma cf_parse_checked: "cf_parseConfig raw = Inr cfg \<Longrightarrow> map_of levelOrder (cfc_MinLevel cfg) \<noteq> None"
  by (auto simp: cf_parseConfig_def cf_checks_def check_simps split: sum.splits)

lemma constructors_ready:
  "NewMikroTikExecutor mc name raw = Inr ex \<Longrightarrow> ready ''mikrotik'' ex"
  "ng_NewExecutor mc name raw = Inr ex \<Longrightarrow> ready ''nginx'' ex"
  "cf_NewExecutor mc name raw = Inr ex \<Longrightarrow> ready ''cloudflare'' ex"
  "NewOpenwrtExecutor mc name raw = Inr ex \<Longrightarrow> ready ''openwrt'' ex"
  "NewOpnsenseExecutor mc name raw = Inr ex \<Longrightarrow> ready ''opnsense'' ex"
proof -
  show "ready ''mikrotik'' ex" if "NewMikroTikExecutor mc name raw = Inr ex"
    using that decode_checked [of mk_durations mk_fields mk_checks raw mk_defaultConfig]
    by (auto simp: NewMikroTikExecutor_def mk_parseConfig_def ready_def mk_checks_def check_simps Let_def split: sum.splits)
  show "ready ''nginx'' ex" if "ng_NewExecutor mc name raw = Inr ex"
    using that ng_parse_checked [of raw] by (auto simp: ng_NewExecutor_def ready_def split: sum.splits if_splits)
  show "ready ''cloudflare'' ex" if "cf_NewExecutor mc name raw = Inr ex"
    using that cf_parse_checked [of raw] by (auto simp: cf_NewExecutor_def ready_def Let_def split: sum.splits if_splits)
  show "ready ''openwrt'' ex" if "NewOpenwrtExecutor mc name raw = Inr ex"
    using that ow_parse_checked [of raw] by (auto simp: NewOpenwrtExecutor_def ready_def ow_checks_iff split: sum.splits)
  show "ready ''opnsense'' ex" if "NewOpnsenseExecutor mc name raw = Inr ex"
    using that decode_checked [of opn_durations opn_fields opn_checks raw opn_defaultConfig]
    by (auto simp: NewOpnsenseExecutor_def opn_parseConfig_def ready_def opn_checks_iff split: sum.splits)
qed

lemma registered_cases:
  assumes "map_of (registered imports) ty = Some r"
  shows "reg_Name r = ty" "\<exists>p \<in> set imports. map_of package_init p = Some r"
proof -
  have "(ty, r) \<in> set (registered imports)" using assms by (rule map_of_SomeD)
  then obtain p where "p \<in> set imports" "map_of package_init p = Some r" "reg_Name r = ty"
    unfolding registered_def List.map_filter_def by auto
  then show "reg_Name r = ty" "\<exists>p \<in> set imports. map_of package_init p = Some r" by blast+
qed

lemma factories_ready:
  assumes "map_of (registered imports) ty = Some r" "reg_Factory r mc name raw = Inr ex"
  shows "ready ty ex"
proof -
  obtain p where "map_of package_init p = Some r" "reg_Name r = ty" using registered_cases [OF assms(1)] by blast
  then have "(p, r) \<in> set package_init" "reg_Name r = ty" by (auto dest: map_of_SomeD)
  then show ?thesis
    using assms(2) constructors_ready [of mc name raw ex]
    by (auto simp: package_init_def cloudflare_init_def mikrotik_init_def nginx_init_def openwrt_init_def opnsense_init_def)
qed

text \<open>The constructors agree with the states the executors start from.\<close>

lemma constructed_states:
  "ng_NewExecutor mc name raw = Inr (NginxExecutor name cfg) \<Longrightarrow>
     \<exists>s. NewNginxExecutor (ng_Config.truncate cfg) listFile stateFile = Inr (ng_Config.truncate cfg, s)"
  "cf_NewExecutor mc name raw = Inr (CloudflareExecutor name cfg' client iid) \<Longrightarrow>
     \<exists>s. NewCloudflareExecutor (cfx_Config.truncate cfg') iid w d = Inr s"
proof -
  show "\<exists>s. NewNginxExecutor (ng_Config.truncate cfg) listFile stateFile = Inr (ng_Config.truncate cfg, s)"
    if "ng_NewExecutor mc name raw = Inr (NginxExecutor name cfg)"
    using that decode_checked [of ng_durations ng_fields ng_checks raw ng_DefaultConfig]
    by (auto simp: ng_NewExecutor_def ng_parseConfig_def NewNginxExecutor_def ng_checkConfig_def ng_checks_def check_simps
        ng_Config.truncate_def split: sum.splits if_splits)
  show "\<exists>s. NewCloudflareExecutor (cfx_Config.truncate cfg') iid w d = Inr s"
    if "cf_NewExecutor mc name raw = Inr (CloudflareExecutor name cfg' client iid)"
    using that by (auto simp: cf_NewExecutor_def NewCloudflareExecutor_def cfx_Config.truncate_def Let_def split: sum.splits if_splits)
qed

section \<open>A start\<close>

text \<open>A start that fails has met an executor that cannot be built or a channel that cannot be read.\<close>

lemma attach_error:
  "fst (attach_sources attach ex srcs running w) \<noteq> None \<Longrightarrow> \<exists>src \<in> set srcs. \<exists>w. fst (attach (es_Name src) w) \<noteq> None"
proof (induction srcs arbitrary: running w)
  case (Cons src srcs)
  obtain r w1 where r: "attach (es_Name src) w = (r, w1)" by fastforce
  show ?case
  proof (cases r)
    case None
    then have "fst (attach_sources attach ex srcs (running @ [(ex, es_Name src)]) w1) \<noteq> None" using Cons.prems r by simp
    from Cons.IH [OF this] show ?thesis by auto
  next
    case (Some err)
    then have "fst (attach (es_Name src) w) \<noteq> None" by (simp add: r)
    then show ?thesis by (meson list.set_intros(1))
  qed
qed simp

lemma start_error:
  "fst (start_loop build attach ecs running w) \<noteq> None \<Longrightarrow>
     \<exists>ec \<in> set ecs. (\<exists>err. build ec = Inl err) \<or> (\<exists>src \<in> set (ex_Sources ec). \<exists>w. fst (attach (es_Name src) w) \<noteq> None)"
proof (induction ecs arbitrary: running w)
  case (Cons ec ecs)
  show ?case
  proof (cases "build ec")
    case (Inr ex)
    obtain r running' w1 where a: "attach_sources attach ex (ex_Sources ec) running w = (r, running', w1)" by (metis surj_pair)
    show ?thesis
    proof (cases r)
      case None
      then have "fst (start_loop build attach ecs running' w1) \<noteq> None" using Cons.prems Inr a by simp
      from Cons.IH [OF this] show ?thesis by auto
    next
      case (Some err)
      then have "fst (attach_sources attach ex (ex_Sources ec) running w) \<noteq> None" by (simp add: a)
      from attach_error [OF this] show ?thesis by auto
    qed
  qed auto
qed simp

lemma validated_types:
  assumes "registry_law mc imports pe build" "semantic_errors pe cfg = []" "ec \<in> set (cfg_Executors cfg)"
  shows "\<exists>r. map_of (registered imports) (ex_Type ec) = Some r"
proof -
  have "lefts (map (executor_binding pe) (cfg_Executors cfg)) = []" using assms(2) by (simp add: semantic_errors_def Let_def)
  then obtain b where "executor_binding pe ec = Inr b" using lefts_none assms(3) by fastforce
  then have "executor_manifest pe (ex_Type ec) \<noteq> None" by (auto simp: executor_binding_def split: option.splits)
  then show ?thesis using assms(1) by (auto simp: registry_law_def)
qed

text \<open>Which settings an executor of the build accepts.\<close>

definition settings_accepted :: "machine \<Rightarrow> string list \<Rightarrow> raw_config ExecutorTopConfig \<Rightarrow> bool" where
  "settings_accepted mc imports ec \<longleftrightarrow>
    (case map_of (registered imports) (ex_Type ec) of
       None \<Rightarrow> False
     | Some r \<Rightarrow> (case reg_Factory r mc (ex_Name ec) (ex_Config ec) of Inl e \<Rightarrow> False | Inr ex \<Rightarrow> True))"

lemma built_iff: "registry_law mc imports pe build \<Longrightarrow> (\<exists>ex. build ec = Inr ex) \<longleftrightarrow> settings_accepted mc imports ec"
  by (auto simp: registry_law_def settings_accepted_def split: option.splits sum.splits)

text \<open>C10: A configuration that passes the validation names only executors that the build registers.  Its
  start fails only when an executor rejects its settings or a channel has no reader for it; when
  it succeeds, one goroutine runs for every source, and each executor has the type the
  configuration asks for, a known level and, apart from MikroTik, a positive ban time.\<close>

theorem variant_starts:
  assumes "registry_law mc imports pe build" "semantic_errors pe cfg = []"
  shows "list_all (\<lambda>ec. own_path (''executorplugins/'' @ ex_Type ec) \<in> set imports) (cfg_Executors cfg)
    \<and> (case startExecutors build attach cfg w of
         (None, running, w') \<Rightarrow>
           running = goroutines build (cfg_Executors cfg)
           \<and> list_all (\<lambda>ec. case build ec of Inl e \<Rightarrow> False | Inr ex \<Rightarrow> ready (ex_Type ec) ex) (cfg_Executors cfg)
       | (Some err, running, w') \<Rightarrow>
           list_ex (\<lambda>ec. \<not> settings_accepted mc imports ec \<or> list_ex (\<lambda>src. \<exists>w. fst (attach (es_Name src) w) \<noteq> None) (ex_Sources ec))
             (cfg_Executors cfg))"
proof
  show "list_all (\<lambda>ec. own_path (''executorplugins/'' @ ex_Type ec) \<in> set imports) (cfg_Executors cfg)"
    unfolding list_all_iff
  proof
    fix ec assume "ec \<in> set (cfg_Executors cfg)"
    then obtain r where r: "map_of (registered imports) (ex_Type ec) = Some r" using validated_types [OF assms] by blast
    obtain p where p: "p \<in> set imports" "map_of package_init p = Some r" "reg_Name r = ex_Type ec"
      using registered_cases [OF r] by blast
    then have "p = own_path (''executorplugins/'' @ reg_Name r)"
      by (auto simp: package_init_def cloudflare_init_def mikrotik_init_def nginx_init_def openwrt_init_def opnsense_init_def
          split: if_splits)
    then show "own_path (''executorplugins/'' @ ex_Type ec) \<in> set imports" using p by simp
  qed
  obtain err running w' where s: "startExecutors build attach cfg w = (err, running, w')" by (metis surj_pair)
  have ok: "ready (ex_Type ec) ex" if "build ec = Inr ex" for ec ex
    using that assms(1) factories_ready by (auto simp: registry_law_def)
  show "case startExecutors build attach cfg w of
         (None, running, w') \<Rightarrow>
           running = goroutines build (cfg_Executors cfg)
           \<and> list_all (\<lambda>ec. case build ec of Inl e \<Rightarrow> False | Inr ex \<Rightarrow> ready (ex_Type ec) ex) (cfg_Executors cfg)
       | (Some err, running, w') \<Rightarrow>
           list_ex (\<lambda>ec. \<not> settings_accepted mc imports ec \<or> list_ex (\<lambda>src. \<exists>w. fst (attach (es_Name src) w) \<noteq> None) (ex_Sources ec))
             (cfg_Executors cfg)"
  proof (cases err)
    case None
    obtain k where k: "running = take k (goroutines build (cfg_Executors cfg))" "length (goroutines build (cfg_Executors cfg)) \<le> k"
      "list_all (\<lambda>ec. \<exists>ex. build ec = Inr ex) (cfg_Executors cfg)"
      using started [of build attach "cfg_Executors cfg" "[]" w] s None by (auto simp: startExecutors_def)
    then have "list_all (\<lambda>ec. case build ec of Inl e \<Rightarrow> False | Inr ex \<Rightarrow> ready (ex_Type ec) ex) (cfg_Executors cfg)"
      using ok by (fastforce simp: list_all_iff)
    then show ?thesis using s None k by simp
  next
    case (Some e)
    then have "fst (start_loop build attach (cfg_Executors cfg) [] w) \<noteq> None" using s by (simp add: startExecutors_def)
    from start_error [OF this] obtain ec where ec: "ec \<in> set (cfg_Executors cfg)"
      "(\<exists>err. build ec = Inl err) \<or> (\<exists>src \<in> set (ex_Sources ec). \<exists>w. fst (attach (es_Name src) w) \<noteq> None)" by blast
    then have "\<not> settings_accepted mc imports ec \<or> list_ex (\<lambda>src. \<exists>w. fst (attach (es_Name src) w) \<noteq> None) (ex_Sources ec)"
      using built_iff [OF assms(1), of ec] by (auto simp: list_ex_iff)
    then show ?thesis using s Some ec(1) by (auto simp: list_ex_iff)
  qed
qed

section \<open>Types of the stages\<close>

text \<open>Every detector reads and writes structured events, so does every processor; the scorer, which
  follows the detectors, produces what every executor of every build reads.\<close>

lemma stages_agree:
  "list_all (\<lambda>(n, m). InputType m = TypeStructured \<and> OutputType m = InputType scorerManifest \<and> Role m \<noteq> []) detector_inits"
  "list_all (\<lambda>m. InputType m = TypeStructured \<and> OutputType m = InputType scorerManifest) [chaincheck_Manifest, whitelist_Manifest, waf_Manifest]"
  "list_all (\<lambda>(p, r). InputType (reg_Manifest r) = OutputType scorerManifest \<and> PluginID (reg_Manifest r) = reg_Name r) package_init"
  by code_simp+

text \<open>A detector is named by its manifest, except the one of the user agents.\<close>

lemma detector_names_differ: "map fst (filter (\<lambda>(n, m). PluginID m \<noteq> n) detector_inits) = [''ua'']"
  by code_simp

section \<open>Identities\<close>

lemma byte_hex_nil: "byte_hex [] = []"
  by (simp add: byte_hex_def)

lemma byte_hex_cons: "byte_hex (b # bs) = hex_digit (unat b div 16 mod 16) # hex_digit (unat b mod 16) # byte_hex bs"
  by (simp add: byte_hex_def numeral_2_eq_2)

lemma version_bits: "unat (or (and (b :: 8 word) 0x0f) 0x40) div 16 mod 16 = 4"
  "unat (or (and (b :: 8 word) 0x3f) 0x80) div 16 mod 16 \<in> {8, 9, 10, 11}"
proof -
  have "\<forall>n \<in> set [0..<256]. unat (or (and (word_of_nat n :: 8 word) 0x0f) 0x40) div 16 mod 16 = 4
    \<and> unat (or (and (word_of_nat n :: 8 word) 0x3f) 0x80) div 16 mod 16 \<in> {8, 9, 10, 11}"
    by code_simp
  moreover have "unat b \<in> set [0..<256]" using unsigned_less [of b, where ?'a = nat] by simp
  ultimately have "unat (or (and (word_of_nat (unat b) :: 8 word) 0x0f) 0x40) div 16 mod 16 = 4
    \<and> unat (or (and (word_of_nat (unat b) :: 8 word) 0x3f) 0x80) div 16 mod 16 \<in> {8, 9, 10, 11}" by blast
  then show "unat (or (and b 0x0f) 0x40) div 16 mod 16 = 4" "unat (or (and b 0x3f) 0x80) div 16 mod 16 \<in> {8, 9, 10, 11}"
    by simp_all
qed

text \<open>A generated identity has the form of a UUID, with the version 4 and the variant of RFC 4122.\<close>

lemma genUUID_version_4:
  assumes "random_bytes mc = Some b" "length b = 16"
  shows "length (genUUID mc) = 36 \<and> genUUID mc ! 14 = CHR ''4'' \<and> genUUID mc ! 19 \<in> {CHR ''8'', CHR ''9'', CHR ''a'', CHR ''b''}"
proof -
  obtain b0 b1 b2 b3 b4 b5 b6 b7 b8 b9 b10 b11 b12 b13 b14 b15
    where b: "b = [b0, b1, b2, b3, b4, b5, b6, b7, b8, b9, b10, b11, b12, b13, b14, b15]"
    using assms(2) by (auto simp: numeral_eq_Suc length_Suc_conv)
  have digits: "hex_digit 4 = CHR ''4''" "hex_digit 8 = CHR ''8''" "hex_digit 9 = CHR ''9''" "hex_digit 10 = CHR ''a''"
    "hex_digit 11 = CHR ''b''" by code_simp+
  show ?thesis
    using version_bits(1) [of b6] version_bits(2) [of b8]
    by (auto simp: genUUID_def assms(1) b Let_def byte_hex_cons byte_hex_nil digits)
qed

section \<open>Witness\<close>

definition demo_machine :: machine where
  "demo_machine = \<lparr>ReadFile = (\<lambda>_. None), random_bytes = None\<rparr>"

definition demo_registry :: plugin_env where
  "demo_registry = demo_plugins\<lparr>executor_manifest := (\<lambda>ty. map_option reg_Manifest (map_of (registered plugins_iot) ty))\<rparr>"

definition demo_build :: "raw_config ExecutorTopConfig \<Rightarrow> string + executor" where
  "demo_build ec =
    (case map_of (registered plugins_iot) (ex_Type ec) of
       None \<Rightarrow> Inl ''unknown executor''
     | Some r \<Rightarrow> (case reg_Factory r demo_machine (ex_Name ec) (ex_Config ec) of Inl e \<Rightarrow> Inl ''config'' | Inr ex \<Rightarrow> Inr ex))"

definition demo_variant :: "raw_config Config" where
  "demo_variant = defaultConfig\<lparr>cfg_Executors :=
     [\<lparr>ex_Name = ''edge'', ex_Type = ''cloudflare'', ex_Sources =
         [\<lparr>es_Name = ''bans'', es_Queue = Some \<lparr>q_Type = ''transport'', q_Mode = ''recv'', q_Peer = [], q_Bucket = [], q_Key = []\<rparr>\<rparr>],
       ex_Config = [(''api_token'', YStr ''t''), (''account_id'', YStr ''a'')]\<rparr>]\<rparr>"

lemma demo_registry_law: "registry_law demo_machine plugins_iot demo_registry demo_build"
  by (auto simp: registry_law_def demo_registry_def demo_build_def split: option.splits sum.splits)

lemma demo_variant_valid:
  "semantic_errors demo_registry demo_variant = []" "cfg_Executors demo_variant \<noteq> []"
  "list_all (settings_accepted demo_machine plugins_iot) (cfg_Executors demo_variant)"
  by code_simp+

theorem variant_starts_witness:
  "own_path ''executorplugins/cloudflare'' \<in> set plugins_iot
   \<and> fst (startExecutors demo_build (\<lambda>name w. (None, w)) demo_variant ()) = None"
proof -
  let ?attach = "\<lambda>name w. (None :: string option, w :: unit)"
  note v = variant_starts [OF demo_registry_law demo_variant_valid(1), of ?attach "()"]
  have "fst (startExecutors demo_build ?attach demo_variant ()) = None"
  proof (cases "fst (startExecutors demo_build ?attach demo_variant ())")
    case (Some err)
    then have "list_ex (\<lambda>ec. \<not> settings_accepted demo_machine plugins_iot ec \<or> list_ex (\<lambda>src. False) (ex_Sources ec)) (cfg_Executors demo_variant)"
      using v by (auto split: prod.splits)
    then show ?thesis using demo_variant_valid(3) by (auto simp: list_all_iff list_ex_iff)
  qed
  moreover have "own_path ''executorplugins/cloudflare'' \<in> set plugins_iot" using v by (simp add: demo_variant_def)
  ultimately show ?thesis by blast
qed

end
