(* ===== verification/Spec2Isabelle.thy ===== *)
theory Spec2Isabelle
  imports Daemon Plugins AtomicWrite Registration
begin

text \<open>
  A verification development for arxsentinel, a daemon that reads web-server log
  lines, scores the behaviour of client addresses and hands the verdicts to
  executors that ban addresses on firewalls and proxies.  Paths are relative to
  \<open>src/\<close>.

  \<^bold>\<open>The program.\<close>  A stream reads lines from its inputs; the runtime of the external
  package arx-core parses them and calls the security processor.  A line passes the
  chain check (is the client address one of a proxy or a bogon?), the custom
  whitelist, the WAF rules, the verification of search-engine bots, and the scorer,
  which adds the scores of the firing detectors to the decayed score that the tracker
  keeps for the address.  A score at the alert or ban threshold becomes a threat
  event; sinks format it for the threat log that Fail2Ban reads, for JSON consumers,
  or for a queue, from which executors take it to ban the address on a MikroTik,
  OpenWrt or OPNsense firewall, at Cloudflare or in nginx.  The daemon loads and
  validates the configuration, registers queues, starts everything in order and
  reloads on SIGHUP.

  \<^bold>\<open>Theories.\<close>  \<open>Prelude\<close> holds Go's strings, maps, integers and times with the lemmas
  all others share, \<open>Float64\<close> the rounding of float64.  Then, one theory per component:
  \<^item> \<open>Tracker\<close> (\<open>internal/core/state/tracker.go\<close>): the state per address, the LRU
    table, garbage collection.
  \<^item> \<open>Detectors\<close> (\<open>pkg/detectorplugins\<close>) and \<open>Scorer\<close>
    (\<open>internal/core/scorer/scorer.go\<close>): the eight detectors with their contract as a
    locale, decay, evaluation, levels.
  \<^item> \<open>Ipnet\<close> (what is used of \<open>net\<close>), \<open>ChainCheck\<close> (\<open>internal/core/chaincheck\<close>),
    \<open>Whitelist\<close> (\<open>internal/core/whitelist\<close>), \<open>Waf\<close> (\<open>pkg/processorplugins/waf\<close>),
    \<open>Blocklist\<close> (\<open>internal/core/blocklist\<close>).
  \<^item> \<open>Pipeline\<close> (\<open>cmd/arxsentinel/processor_security.go\<close>): one line with all its
    stages, and runs over lines.
  \<^item> \<open>ConfigTypes\<close>, \<open>ConfigEnv\<close>, \<open>ConfigLoad\<close> (\<open>internal/sys/config\<close>): sections and
    defaults, environment overlay, migration, validation, loading.
  \<^item> \<open>Factory\<close> (\<open>processor_factory.go\<close>, \<open>builders.go\<close>, \<open>runtime_adapter.go\<close>,
    \<open>helpers.go\<close> in \<open>cmd/arxsentinel\<close>): building and reloading pipelines, sources and sinks.
  \<^item> \<open>Executor\<close> (threat events, levels and the contracts of run loops), \<open>Mikrotik\<close>,
    \<open>Nginx\<close>, \<open>Cloudflare\<close>, \<open>Openwrt\<close>, \<open>Opnsense\<close> (\<open>pkg/executorplugins\<close>): run loops, tables of
    bans, sweeps, start-up synchronisation; \<open>Json\<close> (what is used of \<open>encoding/json\<close>),
    \<open>ExecConfig\<close> (their configurations), \<open>RestClients\<close> (the REST clients of MikroTik and
    Cloudflare and the cleanup command).
  \<^item> \<open>AtomicWrite\<close> (\<open>writeFile\<close> of the nginx executor): the replacement of a file on a disk that may
    fail or crash at every call.
  \<^item> \<open>Profiles\<close> (\<open>tools/gen-plugins\<close>, \<open>profiles\<close>, \<open>plugins_*.go\<close>) and \<open>Registration\<close> (\<open>register.go\<close> and
    \<open>manifest.go\<close> of the plugins, the constructors of executors and clients): which plugins a build
    has and what a start makes of them.
  \<^item> \<open>Wire\<close> (\<open>internal/threat/format\<close>, \<open>queue_event_source.go\<close>), \<open>Channels\<close>
    (\<open>executors.go\<close>, \<open>transport_bootstrap.go\<close>, \<open>validate.go\<close>), \<open>Logging\<close>
    (\<open>internal/sys/utils/logging.go\<close>, \<open>internal/sys/metrics\<close>, \<open>internal/core/output\<close>),
    \<open>Plugins\<close> (the processor plugins, the health probe), \<open>Daemon\<close> (\<open>main.go\<close>).

  \<^bold>\<open>Correspondence.\<close>  A Go struct is a record, with its field names or a short prefix; a
  function or method is a definition of its name, the receiver and what it mutates
  passed and returned; an error is the left side of a sum, or \<open>Some\<close> of an optional
  message; a map is an association list with distinct keys (\<open>gomap\<close>), so the order of an iteration is the
  order of the list and theorems hold for every list; \<open>int\<close> is unbounded where no sum
  can reach 64 bits and wrapped by \<open>wrap64\<close> where it can; times and durations are
  nanoseconds; floats are rationals rounded after each operation.  A mutex makes an
  operation one step.  A goroutine with a select statement is a step function on its
  inputs, and a run a fold over any list of inputs, so every interleaving is covered; a ticker loop is the
  repetition of its body.  What is not in this repository (the runtime, the rule
  engine, the channel switch, the dedup window, YAML, DNS, HTTP servers, the file
  system) is an argument of the definitions, and a theorem that needs something of it
  says so in a hypothesis.

  \<^bold>\<open>What is shown.\<close>  In this theory, end to end: an executor that acts on THREAT asks only
  for addresses that have earned the ban threshold (\<open>bans_earned\<close>), and a verdict
  arrives at the firewall (\<open>verdict_banned\<close>).  Per component: the tracker holds exactly
  the most recent addresses with their exact history; the scorer adds what the detectors
  give and decay never raises a score; detectors, address checks, WAF and blocklist
  agree with declarative descriptions; verification is sound; lines do not affect
  other addresses; executors account for every event, justify every request and
  recover after a restart; configurations that load satisfy every documented
  constraint, and validation is exact; building and reloading lose no history; formats
  round-trip and cannot be forged by requests; queues are registered before streams
  start; the logger leaks no descriptor; counters count; the ban list of nginx survives a crash at
  any moment as one of the lists written; a validated configuration names only executors of the
  build; generated import files import exactly what their profile names.

  \<^bold>\<open>Locales.\<close>  \<open>detector_contract\<close>, the store interface of the tracker, \<open>step_system\<close> with its extension
  \<open>accounting\<close> and \<open>ban_requests\<close> (run loops), \<open>recorder\<close> (registration of queues) and the
  client interfaces of the executors state what one component relies on in another;
  each is interpreted on the definitions of the code.

  \<^bold>\<open>Bounds.\<close>  No fuel is used except where the code itself counts: four attempts of a rate-limited request, six polls of
  a pending operation, the passes of the wildcard normalisation, which are shown to suffice.  Scores are
  assumed to stay within \<open>2 ^ 53\<close>, where float64 is exact.

  \<^bold>\<open>Not modelled.\<close>  Log messages of the components, printed texts and the license command, which
  have no effect on a verdict; versions and tags of manifests, which are only displayed; the mock
  servers of the integration tests, as the theorems hold for every behaviour of a service; data
  races between goroutines beyond the order of the steps named above.
\<close>

section \<open>From a log line to a ban\<close>

text \<open>One event on its way from a pipeline through a sentinel-threat sink and a queue to an executor,
  and what arrives of the events of a run.\<close>

definition hop :: "(nat \<Rightarrow> bool) \<Rightarrow> (LogEntry \<Rightarrow> json) \<Rightarrow> (string \<Rightarrow> gotime option) \<Rightarrow> string \<Rightarrow> Event \<Rightarrow> ThreatEvent option" where
  "hop wp entry_doc parse_time name out =
    (case formatter_Format wp entry_doc (SentinelFormatter name) (Some out) of
       Inr (Doc j) \<Rightarrow>
         (case fst (queue_Pop parse_time (\<lambda>u. (Inr (Some j), u)) ()) of
            Inr e \<Rightarrow> (case ev_Payload e of ThreatPayload te \<Rightarrow> Some te | _ \<Rightarrow> None)
          | Inl err \<Rightarrow> None)
     | _ \<Rightarrow> None)"

definition deliveries :: "(nat \<Rightarrow> bool) \<Rightarrow> (LogEntry \<Rightarrow> json) \<Rightarrow> (string \<Rightarrow> gotime option) \<Rightarrow> string \<Rightarrow> 'rs proc_env \<Rightarrow> 'rs line list
    \<Rightarrow> world \<Rightarrow> ThreatEvent list" where
  "deliveries wp entry_doc parse_time name env ls w = List.map_filter (hop wp entry_doc parse_time name) (emitted env ls w)"

text \<open>A run of one of the executors, with the events it takes and the addresses it asks to be banned.\<close>

datatype ('w, 'd) executor_run =
    MikrotikRun mk_Config "'w mk_client" "'d window" gotime 'w 'd "(gotime \<times> mk_input) list"
  | NginxRun ng_Config gotime ng_state "(gotime \<times> io \<times> ng_input) list"
  | CloudflareRun cfx_Config string "'w CFClient" "'d window" gotime 'w 'd "(gotime \<times> cfx_input) list"
  | OpenwrtRun ow_Config "'w ow_client" "'d window" gotime 'w 'd "(gotime \<times> ow_input) list"
  | OpnsenseRun opn_Config "'w opn_client" "'d marking_window" gotime 'w 'd "(gotime \<times> opn_input) list"

fun run_minLevel :: "('w, 'd) executor_run \<Rightarrow> string" where
  "run_minLevel (MikrotikRun cfg cl dw now w d inputs) = mkc_MinLevel cfg"
| "run_minLevel (NginxRun cfg now s inputs) = ngc_MinLevel cfg"
| "run_minLevel (CloudflareRun cfg iid cl dw now w d inputs) = cfc_MinLevel cfg"
| "run_minLevel (OpenwrtRun cfg cl dw now w d inputs) = owc_MinLevel cfg"
| "run_minLevel (OpnsenseRun cfg cl dw now w d inputs) = opc_MinLevel cfg"

fun run_events :: "('w, 'd) executor_run \<Rightarrow> ThreatEvent list" where
  "run_events (MikrotikRun cfg cl dw now w d inputs) = concat (map mk_events inputs)"
| "run_events (NginxRun cfg now s inputs) = concat (map ng_events inputs)"
| "run_events (CloudflareRun cfg iid cl dw now w d inputs) = concat (map cfx_events inputs)"
| "run_events (OpenwrtRun cfg cl dw now w d inputs) = concat (map ow_events inputs)"
| "run_events (OpnsenseRun cfg cl dw now w d inputs) = concat (map opn_events inputs)"

fun run_requested :: "('w, 'd) executor_run \<Rightarrow> string set" where
  "run_requested (MikrotikRun cfg cl dw now w d inputs) = mk_requested (mk_Run cfg cl dw now inputs (mk_init w d))"
| "run_requested (NginxRun cfg now s inputs) = ng_requested cfg now s inputs"
| "run_requested (CloudflareRun cfg iid cl dw now w d inputs) = cfx_requested cfg iid cl dw now w d inputs"
| "run_requested (OpenwrtRun cfg cl dw now w d inputs) = ow_requested (ow_Run cfg cl dw now inputs (ow_init w d))"
| "run_requested (OpnsenseRun cfg cl dw now w d inputs) = opn_requested (opn_Run cfg cl dw now inputs (opn_init w d))"

fun line_ip :: "'rs proc_env \<Rightarrow> 'rs line \<Rightarrow> string" where
  "line_ip env (st, ctxDone, clk, evctx, event) = RealIP (pe_unwrap env event)"

fun line_whitelisted :: "'rs proc_env \<Rightarrow> 'rs line \<Rightarrow> bool" where
  "line_whitelisted env (st, ctxDone, clk, evctx, event) = custom_whitelisted (ss_Matcher st) (pe_unwrap env event)"

fun ban_threshold :: "'rs line \<Rightarrow> int" where
  "ban_threshold (st, ctxDone, clk, evctx, event) = banThreshold (ss_Scorer st (c_eval clk))"

lemma run_traced:
  assumes "list_all P (run_events run)" "ip \<in> run_requested run"
  obtains ev where "P ev" "meetsMinLevel (run_minLevel run) (te_Level ev)" "te_IP ev = ip"
proof (cases run)
  case (MikrotikRun cfg cl dw now w d inputs)
  show thesis
    by (rule mikrotik_bans.requests_traced [OF assms [unfolded MikrotikRun run_events.simps run_requested.simps]]) (rule that, simp_all add: MikrotikRun)
next
  case (NginxRun cfg now s inputs)
  show thesis
    by (rule nginx_bans.requests_traced [OF assms [unfolded NginxRun run_events.simps run_requested.simps]]) (rule that, simp_all add: NginxRun)
next
  case (CloudflareRun cfg iid cl dw now w d inputs)
  show thesis
    by (rule cloudflare_bans.requests_traced [OF assms [unfolded CloudflareRun run_events.simps run_requested.simps]]) (rule that, simp_all add: CloudflareRun)
next
  case (OpenwrtRun cfg cl dw now w d inputs)
  show thesis
    by (rule openwrt_bans.requests_traced [OF assms [unfolded OpenwrtRun run_events.simps run_requested.simps]]) (rule that, simp_all add: OpenwrtRun)
next
  case (OpnsenseRun cfg cl dw now w d inputs)
  show thesis
    by (rule opnsense_bans.requests_traced [OF assms [unfolded OpnsenseRun run_events.simps run_requested.simps]]) (rule that, simp_all add: OpnsenseRun)
qed

lemma hop_delivers:
  "ev_Payload out = ThreatPayload te \<Longrightarrow> in_int64 (te_Score te) \<Longrightarrow> hop wp entry_doc parse_time name out = Some (received te name)"
  by (simp add: hop_def sentinel_document queue_Pop_def sentinel_decoded)

lemma hop_received:
  assumes "hop wp entry_doc parse_time name out = Some ev"
  obtains te where "ev_Payload out = ThreatPayload te" "ev = received te name"
proof -
  obtain j where j: "formatter_Format wp entry_doc (SentinelFormatter name) (Some out) = Inr (Doc j)"
    using assms by (auto simp: hop_def split: sum.splits wire.splits)
  then obtain te where te: "ev_Payload out = ThreatPayload te"
    by (auto simp: formatter_Format_def formatThreatPayload_def split: payload.splits sum.splits)
  show thesis
    using assms that [OF te]
    by (simp add: hop_def sentinel_document [OF te] queue_Pop_def sentinel_decoded split: if_splits)
qed

lemma threat_level_only: "meetsMinLevel ''THREAT'' l \<Longrightarrow> l = ''THREAT''"
  by (auto simp: meetsMinLevel_def level_of_def levelOrder_def split: if_splits)

lemma level_text: "json_text (levelFor sc x) = levelFor sc x"
  by (simp add: levelFor_def byte_def del: json_text.simps)

text \<open>C1: No ban without cause, end to end: when the events an executor takes come from the pipelines and it
  acts on THREAT alone, every address it asks to be banned has earned at least the ban threshold and
  appears in a line that is not on the custom whitelist.\<close>

theorem bans_earned:
  assumes "tracker_inv (w_tracker w)" "GetState (w_tracker w) ip = None" "lines_ok t0 ls" "earned env ls w ip \<le> 2 ^ 53"
    and "list_all (\<lambda>l. B \<le> ban_threshold l \<and> list_all (\<lambda>c. byte c < 128) (line_ip env l)) ls"
    and "run_minLevel run = ''THREAT''"
    and "list_all (\<lambda>ev. \<exists>name. ev \<in> set (deliveries wp entry_doc parse_time name env ls w)) (run_events run)"
    and "ip \<in> run_requested run"
  shows "B \<le> earned env ls w ip \<and> list_ex (\<lambda>l. line_ip env l = ip \<and> \<not> line_whitelisted env l) ls"
proof -
  obtain ev name where ev: "ev \<in> set (deliveries wp entry_doc parse_time name env ls w)" "te_Level ev = ''THREAT''" "te_IP ev = ip"
    using run_traced [OF assms(7,8)] threat_level_only assms(6) by metis
  then obtain out where out: "out \<in> set (emitted env ls w)" "hop wp entry_doc parse_time name out = Some ev"
    by (auto simp: deliveries_def map_filter_def)
  obtain te where te: "ev_Payload out = ThreatPayload te" "ev = received te name" by (rule hop_received [OF out(2)])
  obtain ls1 l ls2 where l: "ls = ls1 @ l # ls2" "fst (process_line env l (run_lines env ls1 w)) = Some out"
    by (rule emitted_origin [OF out(1)])
  obtain st ctxDone clk evctx event where s: "l = (st, ctxDone, clk, evctx, event)" by (cases l) auto
  have line: "B \<le> banThreshold (ss_Scorer st (c_eval clk))" "json_text (RealIP (pe_unwrap env event)) = RealIP (pe_unwrap env event)"
    using assms(5) by (simp_all add: l(1) s del: json_text.simps)
  have ok: "lines_ok t0 (ls1 @ [l])" "list_all (\<lambda>l. good_state (fst l)) ls2"
    using assms(3) lines_ok_good [OF assms(3)] by (simp_all add: l(1) s lines_ok_append)
  have inv: "tracker_inv (w_tracker (run_lines env ls1 w))"
    using processing.run_inv [OF assms(1), of ls1 env] lines_ok_good [OF assms(3)] by (simp add: l(1) run_lines_def)
  have good: "good_state st" using ok(1) by (simp add: s lines_ok_append)
  have ip: "te_IP te = ip" "RealIP (pe_unwrap env event) = ip"
    using process_line_threat(1) [OF inv good s l(2) te(1)] te(2) ev(3) line(2) by (simp_all add: received_def)
  have more: "earned env (ls1 @ [l]) w ip \<le> earned env ls w ip"
    using earned_append [of env "ls1 @ [l]" ls2 w ip] earned_nonneg [OF ok(2)] by (simp add: l(1))
  note c = threat_cause [OF assms(1) _ ok(1) _ l(2) te(1) s, unfolded ip(1), OF assms(2) order_trans [OF more assms(4)]]
  have "te_Level te = ''THREAT''" using te(2) ev(2) c(2) level_text by (simp add: received_def)
  then have "B \<le> te_Score te" using c(2) line(1) by (auto simp: levelFor_def split: if_splits)
  moreover have "list_ex (\<lambda>l. line_ip env l = ip \<and> \<not> line_whitelisted env l) ls" using c(4) ip(2) by (simp add: l(1) s)
  ultimately show ?thesis using c(1) more by simp
qed

text \<open>C2: A verdict reaches the firewall: an event whose score has reached the ban threshold survives the
  queue, and the OPNsense executor that takes it while the address is unknown to it asks for
  exactly this address; when the firewall accepts, the ban is in the table with its expiry.\<close>

theorem verdict_banned:
  assumes "tracker_inv (w_tracker w)" "good_state st" "RealIP (pe_unwrap env event) = ip" "list_all (\<lambda>c. byte c < 128) ip"
    and "fst (Process env st ctxDone clk evctx event w) = Some out" "ev_Payload out = ThreatPayload te"
    and "in_int64 (te_Score te)" "banThreshold (ss_Scorer st (c_eval clk)) \<le> te_Score te"
    and "\<not> opn_done s" "\<not> opn_isDuplicate dw now ip s"
  shows "\<exists>ev. hop wp entry_doc parse_time name out = Some ev \<and>
    (let s' = opn_step cfg cl dw (now, OpEvent ev) s; refused = fst (op_AddEntry cl False ip (opn_world s)) \<noteq> None
     in opn_calls s' = opn_calls s @ [OpAdd ip (\<not> refused)]
      \<and> map_option pb_expireAt (map_of (opn_banned s') ip) = (if refused then None else Some (now + opc_TTL cfg)))"
proof -
  let ?l = "(st, ctxDone, clk, evctx, event)"
  have "fst (process_line env ?l w) = Some out" using assms(5) by (simp add: process_line_def)
  note t = process_line_threat [OF assms(1,2) refl this assms(6)]
  have level: "te_Level te = ''THREAT''" using t(3) assms(8) by (simp add: levelFor_def)
  have hop: "hop wp entry_doc parse_time name out = Some (received te name)"
    by (rule hop_delivers [OF assms(6,7)])
  have ev: "te_Level (received te name) = ''THREAT''" "te_IP (received te name) = ip"
    using level t(1) assms(3,4) by (simp_all add: received_def byte_def del: json_text.simps)
  have reaches: "meetsMinLevel m ''THREAT''" for m
    by (auto simp: meetsMinLevel_def level_of_def levelOrder_def)
  have none: "map_of (opn_banned s) ip = None" using assms(10) by (simp add: opn_isDuplicate_def split: if_splits)
  obtain r w' where r: "op_AddEntry cl False ip (opn_world s) = (r, w')" by fastforce
  have step: "opn_step cfg cl dw (now, OpEvent (received te name)) s = opn_add cfg cl dw now ip s"
    using assms(9,10) by (simp add: opn_step_def ev reaches)
  show ?thesis
    unfolding hop option.inject ex_simps simp_thms Let_def step
    using none by (cases r) (simp_all add: opn_add_def r opn_ban_def update_conv' step)
qed

definition demo_delivered :: "ThreatEvent list" where
  "demo_delivered = deliveries (\<lambda>_. False) (\<lambda>_. JNull) (\<lambda>_. None) ''web'' demo_env [demo_line ''/index''] demo_world"

definition demo_run :: "(nat, unit) executor_run" where
  "demo_run = MikrotikRun demo_mk Mikrotik.demo_client Mikrotik.demo_window 0 0 () (map (\<lambda>ev. (1, MkEvent ev)) demo_delivered @ [(2, MkFlushTick)])"

lemma demo_run_events: "run_events demo_run = demo_delivered"
proof -
  have "concat (map (\<lambda>ev. mk_events (1, MkEvent ev)) evs) = evs" for evs by (induction evs) simp_all
  then show ?thesis by (simp add: demo_run_def comp_def)
qed

lemma demo_run_calls: "\<exists>i. AddOk ''192.0.2.7'' i \<in> set (mk_calls (mk_Run demo_mk Mikrotik.demo_client Mikrotik.demo_window 0
    (map (\<lambda>ev. (1, MkEvent ev)) demo_delivered @ [(2, MkFlushTick)]) (mk_init 0 ())))"
proof -
  obtain out te where o: "fst (process_line demo_env (demo_line ''/index'') demo_world) = Some out" "ev_Payload out = ThreatPayload te"
    "te_IP te = ''192.0.2.7''" "te_Score te = 30" "te_Level te = ''THREAT''" by (rule demo_threat_obtain)
  have d: "demo_delivered = [received te ''web'']"
    using o by (simp add: demo_delivered_def deliveries_def map_filter_def hop_delivers in_int64_def)
  have r: "te_IP (received te ''web'') = ''192.0.2.7''" "te_Level (received te ''web'') = ''THREAT''"
    using o by (simp_all add: received_def byte_def del: json_text.simps)
  show ?thesis unfolding d by (simp add: demo_mk_defs r)
qed

theorem bans_earned_witness:
  "''192.0.2.7'' \<in> run_requested demo_run \<and> 30 \<le> earned demo_env [demo_line ''/index''] demo_world ''192.0.2.7''"
proof -
  have req: "''192.0.2.7'' \<in> run_requested demo_run"
    using demo_run_calls unfolding demo_run_def run_requested.simps mk_requested_def by blast
  have "earned demo_env [demo_line ''/index''] demo_world ''192.0.2.7'' \<le> 2 ^ 53" by code_simp
  moreover have "lines_ok 0 [demo_line ''/index'']" by (simp add: demo_line_def demo_good clock_ok_def demo_clock_def)
  moreover have "GetState (w_tracker demo_world) ''192.0.2.7'' = None" by code_simp
  moreover have "list_all (\<lambda>l. 30 \<le> ban_threshold l \<and> list_all (\<lambda>c. byte c < 128) (line_ip demo_env l)) [demo_line ''/index'']"
    by code_simp
  moreover have "run_minLevel demo_run = ''THREAT''" by (simp add: demo_run_def demo_mk_def)
  moreover have "list_all (\<lambda>ev. \<exists>name. ev \<in> set (deliveries (\<lambda>_. False) (\<lambda>_. JNull) (\<lambda>_. None) name demo_env [demo_line ''/index''] demo_world))
      (run_events demo_run)" unfolding demo_run_events list_all_iff demo_delivered_def by blast
  ultimately show ?thesis
    using bans_earned [OF demo_world_inv, of "''192.0.2.7''" 0 "[demo_line ''/index'']" demo_env 30 demo_run
        "\<lambda>_. False" "\<lambda>_. JNull" "\<lambda>_. None"] req by simp
qed

theorem verdict_banned_witness:
  "\<exists>out ev. fst (Process demo_env demo_state False demo_clock demo_ctx (demo_request ''/index'') demo_world) = Some out
     \<and> hop (\<lambda>_. False) (\<lambda>_. JNull) (\<lambda>_. None) ''web'' out = Some ev
     \<and> opn_calls (opn_step demo_opn_cfg demo_alias Opnsense.demo_window (5, OpEvent ev) (opn_init [] ())) = [OpAdd ''192.0.2.7'' True]"
proof -
  obtain out te where o: "fst (process_line demo_env (demo_line ''/index'') demo_world) = Some out"
    "ev_Payload out = ThreatPayload te" "te_Score te = 30" by (rule demo_threat_obtain)
  have p: "fst (Process demo_env demo_state False demo_clock demo_ctx (demo_request ''/index'') demo_world) = Some out"
    using o(1) by (simp add: process_line_def demo_line_def)
  have ip: "RealIP (pe_unwrap demo_env (demo_request ''/index'')) = ''192.0.2.7''" by (simp add: demo_env_def demo_request_def)
  have ascii: "list_all (\<lambda>c. byte c < 128) ''192.0.2.7''" by code_simp
  have "in_int64 (te_Score te)" "banThreshold (ss_Scorer demo_state (c_eval demo_clock)) \<le> te_Score te"
    by (simp_all add: o(3) in_int64_def demo_state_def NewScorer_def)
  note v = verdict_banned [OF demo_world_inv demo_good ip ascii p o(2) this, of "opn_init [] ()" Opnsense.demo_window 5
      "\<lambda>_. False" "\<lambda>_. JNull" "\<lambda>_. None" "''web''" demo_opn_cfg demo_alias]
  have "\<not> opn_done (opn_init [] ())" "\<not> opn_isDuplicate Opnsense.demo_window 5 ''192.0.2.7'' (opn_init ([] :: string list) ())"
    "opn_calls (opn_init ([] :: string list) ()) = []" "fst (op_AddEntry demo_alias False ''192.0.2.7'' (opn_world (opn_init [] ()))) = None"
    by (simp_all add: opn_init_def opn_isDuplicate_def Opnsense.demo_window_def demo_alias_def)
  then show ?thesis using v p unfolding Let_def by auto
qed

end
